(* ===== verification/Prelude.thy ===== *)
theory Prelude
  imports Main "HOL-Library.Word" "HOL-Library.Sublist"
begin

section \<open>Prelude: the parts of Go the model rests on\<close>

text \<open>
  Shared vocabulary of the development: Go strings as byte lists with the functions of
  package \<^verbatim>\<open>strings\<close> the sources call, \<^verbatim>\<open>time.Duration\<close> as a 64-bit word, Go error values
  with their unwrap chain, association-list maps for Go maps that are iterated, and the
  generic list lemmas of the component proofs.
  A \<^typ>\<open>char\<close> is a byte, so \<^term>\<open>length\<close> of a string is Go's \<^verbatim>\<open>len\<close>.
\<close>

named_theorems go_str \<open>unfolding rules for the string functions\<close>
named_theorems store_frame \<open>what an operation leaves unchanged\<close>

type_synonym duration = "64 word"
type_synonym timestamp = int

subsection \<open>Durations\<close>

definition nanosecond :: duration where "nanosecond = 1"
definition second :: duration where "second = 1000000000"
definition minute :: duration where "minute = 60 * second"
definition hour :: duration where "hour = 60 * minute"

subsection \<open>Strings\<close>

definition HasPrefix :: "string \<Rightarrow> string \<Rightarrow> bool" where
  "HasPrefix s p \<longleftrightarrow> take (length p) s = p"

definition TrimPrefix :: "string \<Rightarrow> string \<Rightarrow> string" where
  "TrimPrefix s p = (if HasPrefix s p then drop (length p) s else s)"

fun Contains :: "string \<Rightarrow> string \<Rightarrow> bool" where
  "Contains [] sub \<longleftrightarrow> sub = []"
| "Contains (c # s) sub \<longleftrightarrow> HasPrefix (c # s) sub \<or> Contains s sub"

fun Join :: "string list \<Rightarrow> string \<Rightarrow> string" where
  "Join [] sep = []"
| "Join [x] sep = x"
| "Join (x # y # ys) sep = x @ sep @ Join (y # ys) sep"

fun LastIndex_from :: "nat \<Rightarrow> string \<Rightarrow> string \<Rightarrow> nat option" where
  "LastIndex_from i [] sub = (if sub = [] then Some i else None)"
| "LastIndex_from i (c # s) sub =
     (case LastIndex_from (Suc i) s sub of
        Some j \<Rightarrow> Some j
      | None \<Rightarrow> (if HasPrefix (c # s) sub then Some i else None))"

text \<open>\<^verbatim>\<open>strings.LastIndex\<close>, with \<^verbatim>\<open>-1\<close> as \<^term>\<open>None\<close>.\<close>

definition LastIndex :: "string \<Rightarrow> string \<Rightarrow> nat option" where
  "LastIndex s sub = LastIndex_from 0 s sub"

fun IndexByte :: "string \<Rightarrow> char \<Rightarrow> nat option" where
  "IndexByte [] c = None"
| "IndexByte (x # s) c = (if x = c then Some 0 else map_option Suc (IndexByte s c))"

text \<open>Decimal notation, Go's \<^verbatim>\<open>%d\<close>.\<close>

definition digit_char :: "nat \<Rightarrow> char" where
  "digit_char d = char_of (48 + d)"

fun nat_to_dec :: "nat \<Rightarrow> string" where
  "nat_to_dec n = (if n < 10 then [digit_char n] else nat_to_dec (n div 10) @ [digit_char (n mod 10)])"

declare nat_to_dec.simps [simp del]

definition int_to_dec :: "int \<Rightarrow> string" where
  "int_to_dec i = (if i < 0 then CHR ''-'' # nat_to_dec (nat (- i)) else nat_to_dec (nat i))"

text \<open>Decimal notation can be read back, so different numbers print differently.\<close>

definition dec_value :: "string \<Rightarrow> nat" where
  "dec_value s = foldl (\<lambda>a c. a * 10 + (of_char c - 48)) 0 s"

lemma digit_char_value [simp]: "d < 10 \<Longrightarrow> of_char (digit_char d) = 48 + d"
  by (simp add: digit_char_def)

lemma dec_value_nat_to_dec [simp]: "dec_value (nat_to_dec n) = n"
proof (induction n rule: nat_to_dec.induct)
  case (1 n)
  then show ?case by (subst nat_to_dec.simps) (auto simp: dec_value_def)
qed

lemma inj_nat_to_dec: "inj nat_to_dec"
  by (metis dec_value_nat_to_dec injI)

lemma digit_not_minus: "d < 10 \<Longrightarrow> digit_char d \<noteq> CHR ''-''"
proof
  assume "d < 10" "digit_char d = CHR ''-''"
  then have "(48 + d) = of_char (CHR ''-'')" by (metis digit_char_value)
  then show False by simp
qed

lemma minus_not_in_dec: "CHR ''-'' \<notin> set (nat_to_dec n)"
proof (induction n rule: nat_to_dec.induct)
  case (1 n)
  then show ?case using digit_not_minus [of n] digit_not_minus [of "n mod 10"]
    by (subst nat_to_dec.simps) auto
qed

lemma inj_int_to_dec: "inj int_to_dec"
proof (rule injI)
  fix i j assume eq: "int_to_dec i = int_to_dec j"
  have "i < 0 \<longleftrightarrow> j < 0"
    using eq minus_not_in_dec [of "nat i"] minus_not_in_dec [of "nat j"]
    by (auto simp: int_to_dec_def split: if_splits) (metis list.set_intros(1))+
  with eq inj_nat_to_dec show "i = j" by (auto simp: int_to_dec_def inj_eq split: if_splits)
qed

text \<open>
  Go's \<^verbatim>\<open>%q\<close> (\<^verbatim>\<open>strconv.Quote\<close>): exact on ASCII; the bytes of a multi-byte rune are copied,
  as \<^verbatim>\<open>Quote\<close> does for printable runes.
\<close>

definition hex_digit :: "nat \<Rightarrow> char" where
  "hex_digit d = (if d < 10 then char_of (48 + d) else char_of (87 + d))"

definition quote_char :: "char \<Rightarrow> string" where
  "quote_char c =
     (let n = of_char c :: nat; bs = CHR 0x5C in
      if n = 0x22 then [bs, c] else if n = 0x5C then [bs, bs]
      else if n = 7 then [bs, CHR ''a''] else if n = 8 then [bs, CHR ''b'']
      else if n = 12 then [bs, CHR ''f''] else if n = 10 then [bs, CHR ''n'']
      else if n = 13 then [bs, CHR ''r''] else if n = 9 then [bs, CHR ''t'']
      else if n = 11 then [bs, CHR ''v'']
      else if n < 0x20 \<or> n = 0x7F then [bs, CHR ''x'', hex_digit (n div 16), hex_digit (n mod 16)]
      else [c])"

definition go_quote :: "string \<Rightarrow> string" where
  "go_quote s = [CHR 0x22] @ concat (map quote_char s) @ [CHR 0x22]"

definition newline :: char where "newline = CHR 0x0A"
definition nl :: string where "nl = [newline]"

lemma HasPrefix_prefix: "HasPrefix s p \<longleftrightarrow> prefix p s"
  unfolding HasPrefix_def prefix_def
  by (metis append_eq_conv_conj append_take_drop_id)

lemma HasPrefix_append [simp]: "HasPrefix (p @ s) p"
  by (simp add: HasPrefix_def)

lemma HasPrefix_Nil [simp]: "HasPrefix s []"
  by (simp add: HasPrefix_def)

lemma HasPrefix_Nil_left [simp]: "HasPrefix [] p \<longleftrightarrow> p = []"
  by (auto simp: HasPrefix_def)

lemma HasPrefix_Cons [simp]: "HasPrefix (c # s) (d # p) \<longleftrightarrow> c = d \<and> HasPrefix s p"
  by (auto simp: HasPrefix_def)

lemma TrimPrefix_append [simp]: "TrimPrefix (p @ s) p = s"
  by (simp add: TrimPrefix_def)

text \<open>A substring test is a factorisation of the string.\<close>

lemma Contains_iff: "Contains s sub \<longleftrightarrow> (\<exists>u v. s = u @ sub @ v)"
proof (induction s)
  case Nil
  then show ?case by auto
next
  case (Cons c s)
  show ?case
  proof
    assume "Contains (c # s) sub"
    then consider "HasPrefix (c # s) sub" | "Contains s sub" by auto
    then show "\<exists>u v. c # s = u @ sub @ v"
    proof cases
      case 1
      then obtain v where "c # s = [] @ sub @ v" by (auto simp: HasPrefix_prefix prefix_def)
      then show ?thesis by blast
    next
      case 2
      with Cons.IH obtain u v where "s = u @ sub @ v" by blast
      then have "c # s = (c # u) @ sub @ v" by simp
      then show ?thesis by blast
    qed
  next
    assume "\<exists>u v. c # s = u @ sub @ v"
    then obtain u v where eq: "c # s = u @ sub @ v" by blast
    show "Contains (c # s) sub"
    proof (cases u)
      case Nil
      with eq have "HasPrefix (c # s) sub" by (simp add: HasPrefix_prefix prefix_def)
      then show ?thesis by simp
    next
      case (Cons d u')
      with eq have "s = u' @ sub @ v" by simp
      with Cons.IH show ?thesis by auto
    qed
  qed
qed

lemma Contains_append1: "Contains s sub \<Longrightarrow> Contains (t @ s) sub"
  unfolding Contains_iff by (metis append.assoc)

lemma Contains_append2: "Contains s sub \<Longrightarrow> Contains (s @ t) sub"
  unfolding Contains_iff by (metis append.assoc)

text \<open>
  \<^verbatim>\<open>strings.TrimSpace\<close>: the white space runes of Unicode by their UTF-8 bytes.
\<close>

definition space_runes :: "string list" where
  "space_runes =
     [[CHR 0x09], [CHR 0x0A], [CHR 0x0B], [CHR 0x0C], [CHR 0x0D], [CHR 0x20],
      [CHR 0xC2, CHR 0x85], [CHR 0xC2, CHR 0xA0], [CHR 0xE1, CHR 0x9A, CHR 0x80],
      [CHR 0xE2, CHR 0x80, CHR 0x80], [CHR 0xE2, CHR 0x80, CHR 0x81], [CHR 0xE2, CHR 0x80, CHR 0x82],
      [CHR 0xE2, CHR 0x80, CHR 0x83], [CHR 0xE2, CHR 0x80, CHR 0x84], [CHR 0xE2, CHR 0x80, CHR 0x85],
      [CHR 0xE2, CHR 0x80, CHR 0x86], [CHR 0xE2, CHR 0x80, CHR 0x87], [CHR 0xE2, CHR 0x80, CHR 0x88],
      [CHR 0xE2, CHR 0x80, CHR 0x89], [CHR 0xE2, CHR 0x80, CHR 0x8A], [CHR 0xE2, CHR 0x80, CHR 0xA8],
      [CHR 0xE2, CHR 0x80, CHR 0xA9], [CHR 0xE2, CHR 0x80, CHR 0xAF], [CHR 0xE2, CHR 0x81, CHR 0x9F],
      [CHR 0xE3, CHR 0x80, CHR 0x80]]"

fun first_match :: "string list \<Rightarrow> string \<Rightarrow> nat" where
  "first_match [] s = 0"
| "first_match (r # rs) s = (if HasPrefix s r then length r else first_match rs s)"

lemma first_match_le: "first_match rs s \<le> length s"
  by (induction rs) (auto simp: HasPrefix_prefix dest: prefix_length_le)

function strip_front :: "string list \<Rightarrow> string \<Rightarrow> string" where
  "strip_front rs s = (let n = first_match rs s in if n = 0 then s else strip_front rs (drop n s))"
  by pat_completeness auto
termination
proof (relation "measure (\<lambda>(rs, s). length s)", goal_cases)
  case (2 rs s n)
  then show ?case using first_match_le [of rs s] by auto
qed simp

declare strip_front.simps [simp del]

definition TrimSpace :: "string \<Rightarrow> string" where
  "TrimSpace s = rev (strip_front (map rev space_runes) (rev (strip_front space_runes s)))"

text \<open>
  \<^verbatim>\<open>strings.ToUpper\<close> as far as a comparison with ASCII text can see it: the runes whose
  upper case is an ASCII letter are a-z, U+017F (long s) and U+0131 (dotless i).
\<close>

definition upper_char :: "char \<Rightarrow> char" where
  "upper_char c = (let n = of_char c :: nat in if 97 \<le> n \<and> n \<le> 122 then char_of (n - 32) else c)"

fun ToUpper :: "string \<Rightarrow> string" where
  "ToUpper [] = []"
| "ToUpper [c] = [upper_char c]"
| "ToUpper (c # d # s) =
     (if c = CHR 0xC5 \<and> d = CHR 0xBF then CHR ''S'' # ToUpper s
      else if c = CHR 0xC4 \<and> d = CHR 0xB1 then CHR ''I'' # ToUpper s
      else upper_char c # ToUpper (d # s))"

text \<open>
  \<^verbatim>\<open>strings.ToLower\<close> likewise: A-Z, U+0130 (dotted capital i) and U+212A (the Kelvin sign).
\<close>

definition lower_char :: "char \<Rightarrow> char" where
  "lower_char c = (let n = of_char c :: nat in if 65 \<le> n \<and> n \<le> 90 then char_of (n + 32) else c)"

fun ToLower :: "string \<Rightarrow> string" where
  "ToLower (c # d # e # s) =
     (if c = CHR 0xE2 \<and> d = CHR 0x84 \<and> e = CHR 0xAA then CHR ''k'' # ToLower s
      else if c = CHR 0xC4 \<and> d = CHR 0xB0 then CHR ''i'' # ToLower (e # s)
      else lower_char c # ToLower (d # e # s))"
| "ToLower [c, d] = (if c = CHR 0xC4 \<and> d = CHR 0xB0 then [CHR ''i''] else [lower_char c, lower_char d])"
| "ToLower [c] = [lower_char c]"
| "ToLower [] = []"

lemma LastIndex_from_Some:
  "LastIndex_from i s sub = Some j \<Longrightarrow>
     i \<le> j \<and> j - i + length sub \<le> length s \<and> take (length sub) (drop (j - i) s) = sub"
proof (induction i s sub arbitrary: j rule: LastIndex_from.induct)
  case (1 i sub)
  then show ?case by (auto split: if_splits)
next
  case (2 i c s sub)
  show ?case
  proof (cases "LastIndex_from (Suc i) s sub")
    case None
    with "2.prems" have "j = i" and "HasPrefix (c # s) sub" by (auto split: if_splits)
    then have "take (length sub) (c # s) = sub" by (simp add: HasPrefix_def)
    moreover from this have "length sub \<le> length (c # s)"
      by (metis length_take min.cobounded1)
    ultimately show ?thesis using \<open>j = i\<close> by simp
  next
    case (Some k)
    with "2.prems" have "k = j" by simp
    with "2.IH" Some have *: "Suc i \<le> j" "j - Suc i + length sub \<le> length s"
      "take (length sub) (drop (j - Suc i) s) = sub" by auto
    then have "drop (j - i) (c # s) = drop (j - Suc i) s"
      by (metis Suc_diff_le Suc_leD diff_Suc_Suc drop_Suc_Cons)
    with * show ?thesis by auto
  qed
qed

lemma LastIndex_Some:
  "LastIndex s sub = Some j \<Longrightarrow> j + length sub \<le> length s \<and> take (length sub) (drop j s) = sub"
  using LastIndex_from_Some [of 0 s sub j] by (simp add: LastIndex_def)

lemma IndexByte_Some:
  "IndexByte s c = Some i \<Longrightarrow> i < length s \<and> s ! i = c \<and> c \<notin> set (take i s)"
  by (induction s arbitrary: i) (auto split: if_splits)

lemma IndexByte_None: "IndexByte s c = None \<longleftrightarrow> c \<notin> set s"
  by (induction s) auto

text \<open>Package \<^verbatim>\<open>encoding/hex\<close>.\<close>

definition hex_encode :: "string \<Rightarrow> string" where
  "hex_encode s = concat (map (\<lambda>c. [hex_digit (of_char c div 16), hex_digit (of_char c mod 16)]) s)"

definition hex_value :: "char \<Rightarrow> nat option" where
  "hex_value c = (let n = of_char c in
     if 48 \<le> n \<and> n \<le> 57 then Some (n - 48)
     else if 97 \<le> n \<and> n \<le> 102 then Some (n - 87)
     else if 65 \<le> n \<and> n \<le> 70 then Some (n - 55) else None)"

fun hex_decode :: "string \<Rightarrow> string option" where
  "hex_decode [] = Some []"
| "hex_decode [c] = None"
| "hex_decode (c # d # s) =
     (case (hex_value c, hex_value d) of
        (Some a, Some b) \<Rightarrow> map_option (\<lambda>r. char_of (16 * a + b) # r) (hex_decode s)
      | _ \<Rightarrow> None)"

lemma hex_digit_value: "d < 16 \<Longrightarrow> hex_value (hex_digit d) = Some d"
  by (auto simp: hex_value_def hex_digit_def Let_def)

lemma hex_decode_encode: "hex_decode (hex_encode s) = Some s"
proof (induction s)
  case (Cons c s)
  have "(of_char c :: nat) < 256" by (metis mod_less_divisor of_char_mod_256 zero_less_numeral)
  then have "(of_char c :: nat) div 16 < 16" by (simp add: less_mult_imp_div_less)
  moreover have "char_of (16 * (of_char c div 16) + of_char c mod 16 :: nat) = c"
    by (metis char_of_char mult_div_mod_eq)
  ultimately show ?case using Cons by (simp add: hex_encode_def hex_digit_value)
qed (simp add: hex_encode_def)

lemma hex_encode_Nil [simp]: "hex_encode s = [] \<longleftrightarrow> s = []"
  by (cases s) (simp_all add: hex_encode_def)

subsection \<open>Error values\<close>

text \<open>
  Go errors, as far as the sources tell them apart: a text, the two sentinel errors of
  package context, \<^verbatim>\<open>executor.PermanentError\<close>, \<^verbatim>\<open>llm.APIError\<close> (provider, status, body,
  retry-after), and \<^verbatim>\<open>fmt.Errorf("prefix%w", err)\<close>.
\<close>

datatype go_error =
    ErrText string
  | DeadlineExceeded
  | Canceled
  | PermanentError string
  | APIError string int string duration
  | ErrWrap string go_error

fun err_msg :: "go_error \<Rightarrow> string" where
  "err_msg (ErrText s) = s"
| "err_msg DeadlineExceeded = ''context deadline exceeded''"
| "err_msg Canceled = ''context canceled''"
| "err_msg (PermanentError s) = s"
| "err_msg (APIError p code body ra) = p @ '': API returned '' @ int_to_dec code @ '': '' @ body"
| "err_msg (ErrWrap p e) = p @ err_msg e"

fun unwrap_all :: "go_error \<Rightarrow> go_error" where
  "unwrap_all (ErrWrap p e) = unwrap_all e"
| "unwrap_all e = e"

text \<open>\<^verbatim>\<open>errors.Is\<close> for a sentinel: some error of the chain is that value.\<close>

definition errors_Is :: "go_error \<Rightarrow> go_error \<Rightarrow> bool" where
  "errors_Is e sentinel \<longleftrightarrow> unwrap_all e = sentinel"

lemma unwrap_all_not_wrap [simp]: "unwrap_all e \<noteq> ErrWrap p e'"
  by (induction e rule: unwrap_all.induct) auto

lemma err_msg_wrap_contains: "Contains (err_msg e) s \<Longrightarrow> Contains (err_msg (ErrWrap p e)) s"
  by (simp add: Contains_append1)

subsection \<open>Truncation\<close>

text \<open>The pattern of \<^verbatim>\<open>agent.truncate\<close>: keep a prefix and append a marker.\<close>

definition trunc_with :: "string \<Rightarrow> string \<Rightarrow> nat \<Rightarrow> string" where
  "trunc_with marker s n = (if length s \<le> n then s else take n s @ marker)"

lemma length_trunc_with: "length (trunc_with marker s n) \<le> n + length marker"
  by (simp add: trunc_with_def)

lemma trunc_with_prefix: "take n (trunc_with marker s n) = take n s"
  by (simp add: trunc_with_def)

end
