(* ===== verification/Config_Defaults.thy ===== *)
theory Config_Defaults
  imports Prelude
begin

section \<open>Configuration constants (\<^verbatim>\<open>pkg/config/defaults.go\<close>)\<close>

text \<open>
  The constants of the const block, each a definition of its name. Counts are \<^typ>\<open>int\<close>,
  as Go's \<^verbatim>\<open>int\<close>; the durations are 64-bit nanosecond counts. The collection
  \<^verbatim>\<open>config_defs\<close> unfolds them all.
\<close>

named_theorems config_defs \<open>the configuration constants\<close>

definition DefaultMaxContextTokens :: int where [config_defs]: "DefaultMaxContextTokens = 128000"
definition DefaultMaxOutputTokens :: int where [config_defs]: "DefaultMaxOutputTokens = 4096"
definition DefaultMaxToolIterations :: int where [config_defs]: "DefaultMaxToolIterations = 25"

definition LLMMaxRetries :: nat where [config_defs]: "LLMMaxRetries = 3"
definition LLMBaseRetryDelay :: duration where [config_defs]: "LLMBaseRetryDelay = 5 * second"
definition LLMMaxRetryDelay :: duration where [config_defs]: "LLMMaxRetryDelay = 60 * second"
definition LLMMaxErrors :: nat where [config_defs]: "LLMMaxErrors = 2"

definition MaxSubagentDepth :: int where [config_defs]: "MaxSubagentDepth = 3"

definition CompactionThreshold :: int where [config_defs]: "CompactionThreshold = 40"
definition CompactionKeepRecent :: int where [config_defs]: "CompactionKeepRecent = 10"
definition CompactionMaxTokens :: int where [config_defs]: "CompactionMaxTokens = 1024"

definition ImageTokenEstimate :: int where [config_defs]: "ImageTokenEstimate = 1600"
definition MaxRecentImageMessages :: int where [config_defs]: "MaxRecentImageMessages = 3"
definition RecentMessagesLimit :: int where [config_defs]: "RecentMessagesLimit = 50"

definition ErrorTruncateLen :: nat where [config_defs]: "ErrorTruncateLen = 300"
definition ToolResultTruncateLen :: nat where [config_defs]: "ToolResultTruncateLen = 200"

definition DefaultRetryMaxAttempts :: int where [config_defs]: "DefaultRetryMaxAttempts = 3"
definition DefaultVerificationMaxAttempts :: nat where [config_defs]: "DefaultVerificationMaxAttempts = 2"

definition DefaultToolConcurrency :: int where [config_defs]: "DefaultToolConcurrency = 4"
definition DefaultToolTimeout :: duration where [config_defs]: "DefaultToolTimeout = 2 * minute"
definition DefaultRecoveryRetries :: int where [config_defs]: "DefaultRecoveryRetries = 2"
definition RecoveryBaseDelay :: duration where [config_defs]: "RecoveryBaseDelay = 1 * second"
definition RecoveryMaxDelay :: duration where [config_defs]: "RecoveryMaxDelay = 10 * second"

end
