(* ===== verification/Keyed_Store.thy ===== *)
theory Keyed_Store
  imports Prelude "HOL-Library.AList"
begin

section \<open>Keyed stores\<close>

text \<open>What a background loop receives from its \<^verbatim>\<open>select\<close>: its context's end, its stop channel, or a tick.\<close>

datatype 'a loop_event = LoopCancelled | LoopStopped | LoopTick 'a

text \<open>
  Many parts of the program keep a Go map (or a table with a unique key) behind a few
  methods: the tool registry, the task store, the skill engine, the memory and credential
  tables. Their common contract is the locale \<open>keyed_store\<close>: a lookup function, an
  operation that stores under a key, one that removes a key, and an invariant. A Go map that
  is also ranged over is an association list with distinct keys, whose order is the order of
  that iteration; \<open>gomap_put\<close> and \<open>gomap_delete\<close> are assignment and \<^verbatim>\<open>delete\<close>.
\<close>

type_synonym ('k, 'v) gomap = "('k \<times> 'v) list"

definition gomap_put :: "'k \<Rightarrow> 'v \<Rightarrow> ('k, 'v) gomap \<Rightarrow> ('k, 'v) gomap" where
  "gomap_put k v m = AList.update k v m"

definition gomap_delete :: "'k \<Rightarrow> ('k, 'v) gomap \<Rightarrow> ('k, 'v) gomap" where
  "gomap_delete k m = AList.delete k m"

definition gomap_ok :: "('k, 'v) gomap \<Rightarrow> bool" where
  "gomap_ok m \<longleftrightarrow> distinct (map fst m)"

lemma gomap_put_lookup [simp]: "map_of (gomap_put k v m) = (map_of m)(k \<mapsto> v)"
  by (simp add: gomap_put_def update_conv')

lemma gomap_delete_lookup [simp]: "map_of (gomap_delete k m) = (map_of m)(k := None)"
  by (simp add: gomap_delete_def delete_conv')

lemma gomap_ok_intros [intro, simp]:
  "gomap_ok []" "gomap_ok m \<Longrightarrow> gomap_ok (gomap_put k v m)" "gomap_ok m \<Longrightarrow> gomap_ok (gomap_delete k m)"
  by (simp_all add: gomap_ok_def gomap_put_def gomap_delete_def distinct_update distinct_delete)

lemma gomap_ok_filter: "gomap_ok m \<Longrightarrow> gomap_ok (filter P m)"
  by (simp add: gomap_ok_def distinct_map_filter)

lemma gomap_lookup_iff: "gomap_ok m \<Longrightarrow> map_of m k = Some v \<longleftrightarrow> (k, v) \<in> set m"
  by (simp add: gomap_ok_def)

lemma gomap_filter_lookup:
  "gomap_ok m \<Longrightarrow> map_of (filter P m) k = (case map_of m k of Some v \<Rightarrow> if P (k, v) then Some v else None | None \<Rightarrow> None)"
proof (cases "map_of m k")
  case None
  then have "map_of (filter P m) k = None" by (auto simp: map_of_eq_None_iff)
  with None show ?thesis by simp
next
  case (Some v)
  assume ok: "gomap_ok m"
  with Some have in_m: "(k, v) \<in> set m" by (simp add: gomap_lookup_iff)
  show ?thesis
  proof (cases "P (k, v)")
    case True
    with in_m ok have "map_of (filter P m) k = Some v"
      by (simp add: gomap_lookup_iff gomap_ok_filter)
    with Some True show ?thesis by simp
  next
    case False
    have "k \<notin> fst ` set (filter P m)"
    proof
      assume "k \<in> fst ` set (filter P m)"
      then obtain w where "(k, w) \<in> set m" "P (k, w)" by auto
      with ok Some False show False by (auto simp: gomap_lookup_iff [symmetric])
    qed
    with Some False show ?thesis by (simp add: map_of_eq_None_iff)
  qed
qed

lemma gomap_size_put: "length (gomap_put k v m) = (if map_of m k = None then Suc (length m) else length m)"
  by (induction m) (auto simp: gomap_put_def)

lemma gomap_size_delete:
  "gomap_ok m \<Longrightarrow> length (gomap_delete k m) = (if map_of m k = None then length m else length m - 1)"
proof (induction m)
  case (Cons a m)
  have id: "AList.delete k m = m" if "map_of m k = None"
    using that by (metis delete_id map_of_eq_None_iff)
  from Cons show ?case
    by (cases a, cases m) (auto simp: gomap_ok_def gomap_delete_def id map_of_eq_None_iff
        split: if_splits)
qed (simp add: gomap_delete_def)

locale keyed_store =
  fixes lookup :: "'s \<Rightarrow> 'k \<Rightarrow> 'v option"
    and put :: "'k \<Rightarrow> 'v \<Rightarrow> 's \<Rightarrow> 's"
    and remove :: "'k \<Rightarrow> 's \<Rightarrow> 's"
    and inv :: "'s \<Rightarrow> bool"
  assumes lookup_put: "inv s \<Longrightarrow> lookup (put k v s) = (lookup s)(k \<mapsto> v)"
    and lookup_remove: "inv s \<Longrightarrow> lookup (remove k s) = (lookup s)(k := None)"
    and inv_put: "inv s \<Longrightarrow> inv (put k v s)"
    and inv_remove: "inv s \<Longrightarrow> inv (remove k s)"
begin

lemma get_put: "inv s \<Longrightarrow> lookup (put k v s) k = Some v"
  by (simp add: lookup_put)

lemma get_put_other: "inv s \<Longrightarrow> k' \<noteq> k \<Longrightarrow> lookup (put k v s) k' = lookup s k'"
  by (simp add: lookup_put)

lemma get_remove: "inv s \<Longrightarrow> lookup (remove k s) k = None"
  by (simp add: lookup_remove)

lemma get_remove_other: "inv s \<Longrightarrow> k' \<noteq> k \<Longrightarrow> lookup (remove k s) k' = lookup s k'"
  by (simp add: lookup_remove)

lemma puts_inv: "inv s \<Longrightarrow> inv (fold (\<lambda>(k, v). put k v) kvs s)"
  by (induction kvs arbitrary: s) (auto intro: inv_put)

text \<open>Storing a sequence of entries: the last one stored under a key wins.\<close>

lemma lookup_puts:
  "inv s \<Longrightarrow> lookup (fold (\<lambda>(k, v). put k v) kvs s) = lookup s ++ map_of (rev kvs)"
proof (induction kvs arbitrary: s)
  case (Cons kv kvs)
  obtain k v where kv: "kv = (k, v)" by force
  have "lookup (fold (\<lambda>(k, v). put k v) kvs (put k v s)) = (lookup s)(k \<mapsto> v) ++ map_of (rev kvs)"
    using Cons by (simp add: inv_put lookup_put fun_upd_def)
  then show ?case by (simp add: kv map_add_def fun_eq_iff split: option.splits)
qed simp

lemma removes_inv: "inv s \<Longrightarrow> inv (fold remove ks s)"
  by (induction ks arbitrary: s) (auto intro: inv_remove)

lemma lookup_removes: "inv s \<Longrightarrow> lookup (fold remove ks s) = lookup s |` (- set ks)"
proof (induction ks arbitrary: s)
  case (Cons k ks)
  then show ?case by (auto simp: inv_remove lookup_remove restrict_map_def fun_eq_iff)
qed (simp add: restrict_map_def)

end

interpretation gomap: keyed_store map_of gomap_put gomap_delete gomap_ok
  by unfold_locales auto

end
