(* ===== verification/Llm_Types.thy ===== *)
theory Llm_Types
  imports Prelude
begin

section \<open>LLM provider interface (\<^verbatim>\<open>pkg/llm/provider.go\<close>)\<close>

text \<open>
  The messages, tool calls, tool results and events that the agent exchanges with a
  provider, and the retryability of an API error. A raw JSON message is its text. An event
  of the Go struct \<^verbatim>\<open>ChatEvent\<close> is a constructor per \<^verbatim>\<open>EventType\<close> with the field that type sets.
\<close>

definition RoleUser :: string where "RoleUser = ''user''"
definition RoleAssistant :: string where "RoleAssistant = ''assistant''"
definition RoleSystem :: string where "RoleSystem = ''system''"

lemma roles_distinct [simp]:
  "RoleUser \<noteq> RoleAssistant" "RoleAssistant \<noteq> RoleUser" "RoleUser \<noteq> RoleSystem"
  "RoleSystem \<noteq> RoleUser" "RoleAssistant \<noteq> RoleSystem" "RoleSystem \<noteq> RoleAssistant"
  by (simp_all add: RoleUser_def RoleAssistant_def RoleSystem_def)

record tool_definition =
  td_name :: string
  td_description :: string
  td_input_schema :: string

record tool_call =
  tc_id :: string
  tc_name :: string
  tc_input :: string

record image_content =
  ic_media_type :: string
  ic_path :: string
  ic_data :: "string option"

datatype ToolErrorKind = ToolErrorPermanent | ToolErrorTransient

record tool_result =
  tr_tool_call_id :: string
  tr_content :: string
  tr_is_error :: bool
  tr_images :: "image_content list"
  tr_error_kind :: ToolErrorKind

record chat_message =
  cm_role :: string
  cm_content :: string
  cm_tool_calls :: "tool_call list"
  cm_tool_results :: "tool_result list"

record usage =
  InputTokens :: int
  OutputTokens :: int

record chat_request =
  rq_model :: string
  rq_messages :: "chat_message list"
  rq_system :: string
  rq_max_tokens :: int
  rq_stream :: bool
  rq_tools :: "tool_definition list"

datatype chat_event =
    EventToken string
  | EventToolCall tool_call
  | EventDone "usage option"
  | EventError go_error

text \<open>The zero value of \<^verbatim>\<open>ToolResult\<close>, and the constructors the code writes.\<close>

definition zero_tool_result :: tool_result where
  "zero_tool_result = \<lparr>tr_tool_call_id = [], tr_content = [], tr_is_error = False,
     tr_images = [], tr_error_kind = ToolErrorPermanent\<rparr>"

definition user_msg :: "string \<Rightarrow> chat_message" where
  "user_msg c = \<lparr>cm_role = RoleUser, cm_content = c, cm_tool_calls = [], cm_tool_results = []\<rparr>"

definition APIError_IsRetryable :: "int \<Rightarrow> bool" where
  "APIError_IsRetryable code \<longleftrightarrow> code = 429 \<or> code = 503 \<or> code = 529"

text \<open>\<^verbatim>\<open>IsRetryable\<close>: the retry-after delay when the chain holds a retryable API error.\<close>

definition IsRetryable :: "go_error \<Rightarrow> duration \<times> bool" where
  "IsRetryable err =
     (case unwrap_all err of
        APIError p code body ra \<Rightarrow> if APIError_IsRetryable code then (ra, True) else (0, False)
      | _ \<Rightarrow> (0, False))"

lemma IsRetryable_wrap [simp]: "IsRetryable (ErrWrap p e) = IsRetryable e"
  by (simp add: IsRetryable_def)

subsection \<open>Issuing a request (\<^verbatim>\<open>pkg/llm/http.go\<close>)\<close>

text \<open>
  The outcome of the HTTP exchange: the transport fails, or a response with a status, a
  body and the value of its Retry-After header arrives. \<^verbatim>\<open>strconv.Atoi\<close> accepts an optional
  sign and decimal digits and refuses values outside 64 bits.
\<close>

datatype http_outcome = TransportError go_error | HttpResponse int string string

definition dec_digit :: "char \<Rightarrow> int option" where
  "dec_digit c = (let n = of_char c :: int in if 48 \<le> n \<and> n \<le> 57 then Some (n - 48) else None)"

fun dec_digits :: "int \<Rightarrow> string \<Rightarrow> int option" where
  "dec_digits acc [] = Some acc"
| "dec_digits acc (c # s) = (case dec_digit c of None \<Rightarrow> None | Some d \<Rightarrow> dec_digits (10 * acc + d) s)"

definition in_int64 :: "int \<Rightarrow> bool" where
  "in_int64 i \<longleftrightarrow> - (2 ^ 63) \<le> i \<and> i < 2 ^ 63"

definition Atoi :: "string \<Rightarrow> int option" where
  "Atoi s =
     (let (neg, ds) = (case s of c # t \<Rightarrow> if c = CHR ''-'' then (True, t) else if c = CHR ''+'' then (False, t) else (False, s) | [] \<Rightarrow> (False, []))
      in if ds = [] then None
         else case dec_digits 0 ds of None \<Rightarrow> None
              | Some v \<Rightarrow> (let i = (if neg then - v else v) in if in_int64 i then Some i else None))"

definition doLLMRequest :: "string \<Rightarrow> http_outcome \<Rightarrow> go_error + string" where
  "doLLMRequest providerName outcome =
     (case outcome of
        TransportError e \<Rightarrow> Inl (ErrWrap (providerName @ '': sending request: '') e)
      | HttpResponse status body retryAfter \<Rightarrow>
          (if status \<noteq> 200 then
             (let ra = (if retryAfter \<noteq> [] then (case Atoi retryAfter of Some secs \<Rightarrow> word_of_int secs * second | None \<Rightarrow> 0) else 0)
              in Inl (APIError providerName status body ra))
           else Inr body))"

lemma doLLMRequest_ok: "doLLMRequest p o' = Inr body \<longleftrightarrow> (\<exists>ra. o' = HttpResponse 200 body ra)"
  by (auto simp: doLLMRequest_def Let_def split: http_outcome.splits)

end
