(* ===== verification/Executor.thy ===== *)
theory Executor
  imports Config_Defaults
begin

section \<open>Tool executor and recovery (\<^verbatim>\<open>pkg/agent/executor\<close>)\<close>

text \<open>
  \<^verbatim>\<open>recovery.go\<close>: error classification, the recovery decision and the exponential backoff
  on 64-bit durations. \<^verbatim>\<open>executor.go\<close>: a batch of tasks run by goroutines under a counting
  semaphore, as a step relation over the phases of the tasks; the semaphore is shared with
  other batches, which acquire and release permits as environment steps. The result of a
  finished batch is shown to be the positional list of the tasks' own outcomes, so clients
  use the function \<open>run_batch\<close>.
\<close>

subsection \<open>Error classification and recovery\<close>

datatype RecoveryAction = ActionSkip | ActionRetry | ActionReplan

datatype ErrorKind = Permanent | Transient

definition is_permanent_error :: "go_error \<Rightarrow> bool" where
  "is_permanent_error e \<longleftrightarrow> (case unwrap_all e of PermanentError m \<Rightarrow> True | _ \<Rightarrow> False)"

definition ClassifyError :: "go_error \<Rightarrow> ErrorKind" where
  "ClassifyError err =
     (if is_permanent_error err then Permanent
      else if errors_Is err DeadlineExceeded \<or> errors_Is err Canceled then Transient
      else (let msg = err_msg err in
        if Contains msg ''timeout'' \<or> Contains msg ''temporary'' \<or> Contains msg ''connection refused''
        then Transient else Permanent))"

record exec_result =
  res_id :: string
  res_output :: string
  res_err :: "go_error option"
  res_elapsed :: duration

record default_recovery =
  MaxRetries :: int
  BaseDelay :: duration
  MaxDelay :: duration

definition Decide :: "default_recovery \<Rightarrow> exec_result \<Rightarrow> int \<Rightarrow> RecoveryAction" where
  "Decide d result attempt =
     (case res_err result of
        None \<Rightarrow> ActionSkip
      | Some err \<Rightarrow>
          (let kind = ClassifyError err in
           if kind = Transient \<and> attempt < MaxRetries d then ActionRetry
           else if kind = Transient then ActionReplan
           else ActionSkip))"

text \<open>\<^verbatim>\<open>1 << attempt\<close> takes the type of the product, a 64-bit duration; both wrap around.\<close>

definition Backoff :: "default_recovery \<Rightarrow> nat \<Rightarrow> duration" where
  "Backoff d attempt =
     (let delay = BaseDelay d * push_bit attempt 1
      in if sint (MaxDelay d) < sint delay then MaxDelay d else delay)"

record failed_tool_info =
  ft_name :: string
  ft_error :: string
  ft_retries :: int

text \<open>\<^verbatim>\<open>ErrorSummary.String\<close>.\<close>

definition ErrorSummary_String :: "failed_tool_info list \<Rightarrow> string" where
  "ErrorSummary_String fs =
     ''The following tools failed after retries:'' @ nl @
     concat (map (\<lambda>f. ''- '' @ ft_name f @ '': '' @ go_quote (ft_error f) @ '' ('' @
       int_to_dec (ft_retries f) @ '' retries exhausted)'' @ nl) fs) @
     ''Try a different approach. Do not re-call the same tools with identical parameters.''"

lemma ClassifyError_PermanentError: "ClassifyError (PermanentError m) = Permanent"
  by (simp add: ClassifyError_def is_permanent_error_def)

lemma Decide_retry_bound: "Decide d r attempt = ActionRetry \<Longrightarrow> attempt < MaxRetries d"
  by (auto simp: Decide_def Let_def split: option.splits if_splits)

lemma Decide_Skip_None: "res_err r = None \<Longrightarrow> Decide d r n = ActionSkip"
  by (simp add: Decide_def)

lemma Decide_Permanent:
  "res_err r = Some e \<Longrightarrow> ClassifyError e = Permanent \<Longrightarrow> Decide d r n = ActionSkip"
  by (simp add: Decide_def)

text \<open>Without overflow the backoff is the exact doubling, capped.\<close>

lemma Backoff_exact:
  assumes "0 \<le> sint (BaseDelay d)" and "sint (BaseDelay d) * 2 ^ n < 2 ^ 63"
  shows "sint (Backoff d n) = min (sint (MaxDelay d)) (sint (BaseDelay d) * 2 ^ n)"
proof -
  let ?b = "sint (BaseDelay d)"
  have "sint (BaseDelay d * push_bit n 1) = signed_take_bit 63 (?b * 2 ^ n)"
  proof -
    have "BaseDelay d * push_bit n 1 = word_of_int (?b * 2 ^ n)"
      by (simp add: push_bit_eq_mult)
    then have "sint (BaseDelay d * push_bit n 1) = sint (word_of_int (?b * 2 ^ n) :: duration)"
      by (rule arg_cong)
    then show ?thesis by (simp only: sint_sbintrunc') simp
  qed
  also have "\<dots> = ?b * 2 ^ n"
  proof (rule signed_take_bit_int_eq_self)
    have "0 \<le> ?b * 2 ^ n" using assms(1) by simp
    then show "- (2 ^ 63) \<le> ?b * 2 ^ n" by (rule order_trans [rotated]) simp
  qed (use assms(2) in simp)
  finally show ?thesis
    by (auto simp: Backoff_def Let_def min_def)
qed


subsection \<open>Batches under the semaphore\<close>

text \<open>
  A task is its id and the outcome its function \<^verbatim>\<open>Fn\<close> returns when it is run (output, error,
  elapsed time); \<^verbatim>\<open>OnStart\<close> and \<^verbatim>\<open>OnDone\<close> show as the events of the log.
\<close>

record task =
  task_id :: string
  task_outcome :: "string \<times> go_error option \<times> duration"

datatype task_phase = Waiting | Running | Finished exec_result

datatype batch_event = OnStart nat | OnDone nat exec_result

record batch =
  phases :: "task_phase list"
  ctx_err :: "go_error option"
  ext_permits :: nat
  batch_log :: "batch_event list"

text \<open>\<^verbatim>\<open>New\<close>: a concurrency that is not positive becomes 4.\<close>

definition executor_new :: "int \<Rightarrow> nat" where
  "executor_new concurrency = (if concurrency \<le> 0 then 4 else nat concurrency)"

definition task_result :: "task \<Rightarrow> exec_result" where
  "task_result t = (case task_outcome t of (output, err, elapsed) \<Rightarrow>
     \<lparr>res_id = task_id t, res_output = output, res_err = err, res_elapsed = elapsed\<rparr>)"

definition cancel_result :: "task \<Rightarrow> go_error \<Rightarrow> exec_result" where
  "cancel_result t e = \<lparr>res_id = task_id t, res_output = [], res_err = Some e, res_elapsed = 0\<rparr>"

definition running :: "batch \<Rightarrow> nat" where
  "running b = length (filter (\<lambda>p. p = Running) (phases b))"

definition batch_init :: "task list \<Rightarrow> go_error option \<Rightarrow> nat \<Rightarrow> batch" where
  "batch_init ts ce ext =
     \<lparr>phases = replicate (length ts) Waiting, ctx_err = ce, ext_permits = ext, batch_log = []\<rparr>"

inductive batch_step :: "nat \<Rightarrow> task list \<Rightarrow> batch \<Rightarrow> batch \<Rightarrow> bool" for cap ts where
  acquire: "i < length (phases b) \<Longrightarrow> phases b ! i = Waiting \<Longrightarrow> running b + ext_permits b < cap \<Longrightarrow>
     batch_step cap ts b (b\<lparr>phases := (phases b)[i := Running], batch_log := batch_log b @ [OnStart i]\<rparr>)"
| cancel: "i < length (phases b) \<Longrightarrow> phases b ! i = Waiting \<Longrightarrow> ctx_err b = Some e \<Longrightarrow>
     batch_step cap ts b (b\<lparr>phases := (phases b)[i := Finished (cancel_result (ts ! i) e)]\<rparr>)"
| finish: "i < length (phases b) \<Longrightarrow> phases b ! i = Running \<Longrightarrow>
     batch_step cap ts b (b\<lparr>phases := (phases b)[i := Finished (task_result (ts ! i))],
                            batch_log := batch_log b @ [OnDone i (task_result (ts ! i))]\<rparr>)"

text \<open>Steps of the environment: the context ends, another batch takes or returns a permit.\<close>

inductive env_step :: "nat \<Rightarrow> batch \<Rightarrow> batch \<Rightarrow> bool" for cap where
  ctx_done: "ctx_err b = None \<Longrightarrow> env_step cap b (b\<lparr>ctx_err := Some e\<rparr>)"
| env_acquire: "running b + ext_permits b < cap \<Longrightarrow>
     env_step cap b (b\<lparr>ext_permits := Suc (ext_permits b)\<rparr>)"
| env_release: "ext_permits b = Suc n \<Longrightarrow> env_step cap b (b\<lparr>ext_permits := n\<rparr>)"

inductive batch_reach :: "nat \<Rightarrow> task list \<Rightarrow> batch \<Rightarrow> bool" for cap ts where
  start: "ext \<le> cap \<Longrightarrow> batch_reach cap ts (batch_init ts ce ext)"
| own: "batch_reach cap ts b \<Longrightarrow> batch_step cap ts b b' \<Longrightarrow> batch_reach cap ts b'"
| env: "batch_reach cap ts b \<Longrightarrow> env_step cap b b' \<Longrightarrow> batch_reach cap ts b'"

fun phase_result :: "task_phase \<Rightarrow> exec_result option" where
  "phase_result (Finished r) = Some r"
| "phase_result _ = None"

definition batch_done :: "batch \<Rightarrow> bool" where
  "batch_done b \<longleftrightarrow> list_all (\<lambda>p. phase_result p \<noteq> None) (phases b)"

definition batch_results :: "batch \<Rightarrow> exec_result list" where
  "batch_results b = map (\<lambda>p. the (phase_result p)) (phases b)"

text \<open>\<^verbatim>\<open>RunBatch\<close> as a client sees it: every task is run, results are kept by position.\<close>

definition run_batch :: "task list \<Rightarrow> exec_result list" where
  "run_batch ts = map task_result ts"

inductive_cases batch_stepE: "batch_step cap ts b b'"
inductive_cases env_stepE: "env_step cap b b'"

definition batch_inv :: "nat \<Rightarrow> task list \<Rightarrow> batch \<Rightarrow> bool" where
  "batch_inv cap ts b \<longleftrightarrow> length (phases b) = length ts \<and> running b + ext_permits b \<le> cap \<and>
     (\<forall>i < length ts. \<forall>r. phases b ! i = Finished r \<longrightarrow>
        r = task_result (ts ! i) \<or> (\<exists>e. ctx_err b = Some e \<and> r = cancel_result (ts ! i) e))"

lemma count_update:
  "i < length xs \<Longrightarrow> length (filter P (xs[i := y])) + (if P (xs ! i) then 1 else 0)
     = length (filter P xs) + (if P y then 1 else 0)"
proof (induction xs arbitrary: i)
  case (Cons a xs)
  then show ?case by (cases i) auto
qed simp

lemma running_update:
  assumes "i < length (phases b)"
  shows "running (b\<lparr>phases := (phases b)[i := p], batch_log := l\<rparr>) + (if phases b ! i = Running then 1 else 0)
     = running b + (if p = Running then 1 else 0)"
  using count_update [OF assms, of "\<lambda>p. p = Running" p] by (simp add: running_def)

lemma running_update':
  assumes "i < length (phases b)"
  shows "running (b\<lparr>phases := (phases b)[i := p]\<rparr>) + (if phases b ! i = Running then 1 else 0)
     = running b + (if p = Running then 1 else 0)"
  using count_update [OF assms, of "\<lambda>p. p = Running" p] by (simp add: running_def)

lemma batch_inv_init: "ext \<le> cap \<Longrightarrow> batch_inv cap ts (batch_init ts ce ext)"
  by (simp add: batch_inv_def batch_init_def running_def)

lemma batch_step_inv: "batch_step cap ts b b' \<Longrightarrow> batch_inv cap ts b \<Longrightarrow> batch_inv cap ts b'"
proof (induction rule: batch_step.induct)
  case (acquire i b)
  then show ?case
    using running_update [of i b "batch_log b @ [OnStart i]" Running]
    by (auto simp: batch_inv_def nth_list_update)
next
  case (cancel i b e)
  then show ?case
    using running_update' [of i b "Finished (cancel_result (ts ! i) e)"]
    by (auto simp: batch_inv_def nth_list_update)
next
  case (finish i b)
  then show ?case
    using running_update [of i b "batch_log b @ [OnDone i (task_result (ts ! i))]"
        "Finished (task_result (ts ! i))"]
    by (auto simp: batch_inv_def nth_list_update)
qed

lemma running_frame [simp]:
  "running (b\<lparr>ctx_err := c\<rparr>) = running b" "running (b\<lparr>ext_permits := n\<rparr>) = running b"
  by (simp_all add: running_def)

lemma env_step_inv: "env_step cap b b' \<Longrightarrow> batch_inv cap ts b \<Longrightarrow> batch_inv cap ts b'"
  by (induction rule: env_step.induct) (auto simp: batch_inv_def)

lemma batch_reach_inv: "batch_reach cap ts b \<Longrightarrow> batch_inv cap ts b"
  by (induction rule: batch_reach.induct) (auto intro: batch_inv_init batch_step_inv env_step_inv)


text \<open>
  Progress: a batch that is not done can take a step of its own unless every permit is held
  by other batches. Each own step lowers \<open>work\<close>, so own steps end.
\<close>

definition work :: "batch \<Rightarrow> nat" where
  "work b = sum_list (map (\<lambda>p. case p of Waiting \<Rightarrow> 2 | Running \<Rightarrow> 1 | Finished r \<Rightarrow> 0) (phases b))"

lemma sum_list_update_less:
  fixes f :: "'a \<Rightarrow> nat"
  shows "i < length xs \<Longrightarrow> f y < f (xs ! i) \<Longrightarrow> sum_list (map f (xs[i := y])) < sum_list (map f xs)"
proof (induction xs arbitrary: i)
  case (Cons a xs)
  then show ?case by (cases i) auto
qed simp

lemma batch_step_work: "batch_step cap ts b b' \<Longrightarrow> work b' < work b"
  by (induction rule: batch_step.induct) (simp_all add: work_def sum_list_update_less)

lemma batch_progress:
  assumes "\<not> batch_done b" and "ext_permits b < cap"
  shows "\<exists>b'. batch_step cap ts b b'"
proof (cases "Running \<in> set (phases b)")
  case True
  then obtain i where "i < length (phases b)" "phases b ! i = Running"
    by (auto simp: in_set_conv_nth)
  then show ?thesis by (blast intro: finish)
next
  case False
  then have "running b = 0"
    unfolding running_def by (auto simp: filter_empty_conv)
  from assms(1) obtain i where i: "i < length (phases b)" "phase_result (phases b ! i) = None"
    by (auto simp: batch_done_def list_all_length)
  with False have "phases b ! i = Waiting"
    by (cases "phases b ! i") (auto simp: in_set_conv_nth)
  with i(1) \<open>running b = 0\<close> assms(2) have "batch_step cap ts b
      (b\<lparr>phases := (phases b)[i := Running], batch_log := batch_log b @ [OnStart i]\<rparr>)"
    by (intro acquire) auto
  then show ?thesis by blast
qed

lemma batch_done_results:
  assumes "batch_inv cap ts b" and "batch_done b" and "i < length ts"
  shows "batch_results b ! i = task_result (ts ! i) \<or>
    (\<exists>e. ctx_err b = Some e \<and> batch_results b ! i = cancel_result (ts ! i) e)"
proof -
  from assms(1,3) have i: "i < length (phases b)" by (simp add: batch_inv_def)
  with assms(2) obtain r where r: "phases b ! i = Finished r"
    by (cases "phases b ! i") (auto simp: batch_done_def list_all_length)
  with i have "batch_results b ! i = r" by (simp add: batch_results_def)
  with assms(1,3) r show ?thesis by (auto simp: batch_inv_def)
qed

text \<open>The executor's log: a task that ended by cancellation never ran its callbacks.\<close>

definition log_inv :: "task list \<Rightarrow> batch \<Rightarrow> bool" where
  "log_inv ts b \<longleftrightarrow> length (phases b) = length ts \<and>
     (\<forall>i. OnStart i \<in> set (batch_log b) \<longrightarrow> i < length ts \<and> phases b ! i \<noteq> Waiting) \<and>
     (\<forall>i r. OnDone i r \<in> set (batch_log b) \<longrightarrow>
        i < length ts \<and> r = task_result (ts ! i) \<and> phases b ! i = Finished r \<and>
        OnStart i \<in> set (batch_log b)) \<and>
     (\<forall>i < length ts. phases b ! i = Running \<longrightarrow> OnStart i \<in> set (batch_log b)) \<and>
     distinct (batch_log b)"

lemma log_inv_init: "log_inv ts (batch_init ts ce ext)"
  by (simp add: log_inv_def batch_init_def)

lemma batch_step_log_inv: "batch_step cap ts b b' \<Longrightarrow> log_inv ts b \<Longrightarrow> log_inv ts b'"
proof (induction rule: batch_step.induct)
  case (acquire i b)
  then have "OnStart i \<notin> set (batch_log b)" and "\<And>r. OnDone i r \<notin> set (batch_log b)"
    unfolding log_inv_def by metis+
  with acquire show ?case unfolding log_inv_def by (auto simp: nth_list_update)
next
  case (cancel i b e)
  then have "OnStart i \<notin> set (batch_log b)" and "\<And>r. OnDone i r \<notin> set (batch_log b)"
    unfolding log_inv_def by (metis task_phase.distinct(3))+
  with cancel show ?case unfolding log_inv_def by (auto simp: nth_list_update)
next
  case (finish i b)
  then have "\<And>r. OnDone i r \<notin> set (batch_log b)" and "OnStart i \<in> set (batch_log b)"
    unfolding log_inv_def by (metis task_phase.distinct(5), metis)
  with finish show ?case unfolding log_inv_def by (auto simp: nth_list_update)
qed

lemma env_step_log_inv: "env_step cap b b' \<Longrightarrow> log_inv ts b \<Longrightarrow> log_inv ts b'"
  by (induction rule: env_step.induct) (auto simp: log_inv_def)

lemma batch_reach_log_inv: "batch_reach cap ts b \<Longrightarrow> log_inv ts b"
  by (induction rule: batch_reach.induct) (auto intro: log_inv_init batch_step_log_inv env_step_log_inv)


subsection \<open>Properties\<close>

text \<open>
  C10: the semaphore is respected and every result stays at its task's position. In every
  reachable state of a batch at most \<open>cap\<close> tasks run, permits held elsewhere counted in;
  when the batch is done, result \<open>i\<close> is the outcome of task \<open>i\<close>, or the context's error
  under task \<open>i\<close>'s id, and the latter only if the context has ended.
\<close>

theorem RunBatch_safe:
  assumes "batch_reach cap ts b"
  shows "running b + ext_permits b \<le> cap \<and>
    (batch_done b \<longrightarrow> length (batch_results b) = length ts \<and>
      (\<forall>i < length ts. batch_results b ! i = task_result (ts ! i) \<or>
         (\<exists>e. ctx_err b = Some e \<and> batch_results b ! i = cancel_result (ts ! i) e)) \<and>
      (ctx_err b = None \<longrightarrow> batch_results b = run_batch ts))"
proof (intro conjI impI allI)
  from assms have inv: "batch_inv cap ts b" by (rule batch_reach_inv)
  then show "running b + ext_permits b \<le> cap" by (simp add: batch_inv_def)
  from inv show len: "length (batch_results b) = length ts"
    by (simp add: batch_inv_def batch_results_def)
  show "batch_results b ! i = task_result (ts ! i) \<or>
      (\<exists>e. ctx_err b = Some e \<and> batch_results b ! i = cancel_result (ts ! i) e)"
    if "batch_done b" "i < length ts" for i
    using batch_done_results [OF inv that] .
  show "batch_results b = run_batch ts" if "batch_done b" "ctx_err b = None"
    unfolding run_batch_def
    by (rule nth_equalityI) (use len batch_done_results [OF inv that(1)] that(2) in auto)
qed

definition demo_task :: task where
  "demo_task = \<lparr>task_id = ''a'', task_outcome = (''out'', None, 1)\<rparr>"

definition demo_batch :: batch where
  "demo_batch = \<lparr>phases = [Finished (task_result demo_task)], ctx_err = None, ext_permits = 0,
     batch_log = [OnStart 0, OnDone 0 (task_result demo_task)]\<rparr>"

lemma demo_batch_reach: "batch_reach 1 [demo_task] demo_batch"
proof -
  have 0: "batch_reach 1 [demo_task] (batch_init [demo_task] None 0)"
    by (rule batch_reach.start) simp
  have 1: "batch_reach 1 [demo_task]
     \<lparr>phases = [Running], ctx_err = None, ext_permits = 0, batch_log = [OnStart 0]\<rparr>"
    using batch_reach.own [OF 0 batch_step.acquire [of 0]]
    by (simp add: batch_init_def running_def)
  show ?thesis
    using batch_reach.own [OF 1 batch_step.finish [of 0]] by (simp add: demo_batch_def)
qed

theorem RunBatch_safe_witness:
  "batch_reach 1 [demo_task] demo_batch \<and> batch_results demo_batch = run_batch [demo_task]"
proof -
  have "batch_done demo_batch" "ctx_err demo_batch = None"
    by (simp_all add: demo_batch_def batch_done_def)
  then show ?thesis using RunBatch_safe [OF demo_batch_reach] demo_batch_reach by blast
qed



text \<open>
  the callbacks of the executor are well nested. In every reachable state each
  \<^verbatim>\<open>OnStart\<close> and \<^verbatim>\<open>OnDone\<close> fired at most once, an \<^verbatim>\<open>OnDone\<close> reports the result stored for its
  task and follows an \<^verbatim>\<open>OnStart\<close>, and a task that was cancelled while waiting fired neither.
\<close>

theorem RunBatch_callbacks:
  assumes "batch_reach cap ts b"
  shows "distinct (batch_log b) \<and>
    (\<forall>i r. OnDone i r \<in> set (batch_log b) \<longrightarrow>
       OnStart i \<in> set (batch_log b) \<and> phases b ! i = Finished r \<and> r = task_result (ts ! i)) \<and>
    (\<forall>i. OnStart i \<in> set (batch_log b) \<longrightarrow> phases b ! i \<noteq> Waiting)"
  using batch_reach_log_inv [OF assms] unfolding log_inv_def by blast

theorem RunBatch_callbacks_witness:
  "batch_reach 1 [demo_task] demo_batch \<and> distinct (batch_log demo_batch)"
  using RunBatch_callbacks [OF demo_batch_reach] demo_batch_reach by blast

text \<open>
  the backoff doubles from the base delay and is capped at the maximum, as long as the
  doubled base delay fits a 64-bit duration; with the default one-second base that is every
  attempt below 34.
\<close>

theorem Backoff_doubles_capped:
  assumes "0 \<le> sint (BaseDelay d)" and "sint (BaseDelay d) * 2 ^ n < 2 ^ 63"
  shows "sint (Backoff d n) = min (sint (MaxDelay d)) (sint (BaseDelay d) * 2 ^ n)"
  using assms by (rule Backoff_exact)

definition demo_recovery :: default_recovery where
  "demo_recovery = \<lparr>MaxRetries = DefaultRecoveryRetries, BaseDelay = RecoveryBaseDelay, MaxDelay = RecoveryMaxDelay\<rparr>"

theorem Backoff_doubles_capped_witness:
  "sint (Backoff demo_recovery 33) = 10000000000 \<and> sint (Backoff demo_recovery 3) = 8000000000"
  using Backoff_doubles_capped [of demo_recovery 33] Backoff_doubles_capped [of demo_recovery 3]
  by (simp add: demo_recovery_def config_defs second_def)

text \<open>
  the cap is not a bound for every attempt: at attempt 34 the product of the default
  one-second base with \<^verbatim>\<open>1 << 34\<close> wraps around to a negative duration, the comparison with
  the maximum fails, and the recovery loop would wait for a negative time.
\<close>

theorem Backoff_overflows: "sint (Backoff demo_recovery 34) < 0"
  by (simp add: Backoff_def Let_def demo_recovery_def config_defs second_def)

end
