(* ===== verification/Retry_Rotator.thy ===== *)
theory Retry_Rotator
  imports Prelude
begin

section \<open>Strategy rotation (\<^verbatim>\<open>pkg/agent/retry\<close>)\<close>

text \<open>
  \<^verbatim>\<open>strategy.go\<close>: the rotator that hands out recovery strategies by priority, each name at
  most once and at most \<^verbatim>\<open>maxAttempts\<close> in all; \<^verbatim>\<open>builtin.go\<close>: the three strategies;
  \<^verbatim>\<open>record.go\<close>: the log of attempts. A strategy is a record of its name, its priority and its
  \<^verbatim>\<open>Reframe\<close> function. \<^verbatim>\<open>sort.Slice\<close> is the insertion sort it is for up to 12 elements, which
  keeps the order of equal priorities; a Go map that is ranged over is an association list in
  the order of that iteration.
\<close>

record task_context =
  OriginalPrompt :: string
  ctx_session_id :: string
  Iteration :: int

record reframed_task =
  rf_prompt :: string
  EphemeralHint :: string

record strategy =
  strat_name :: string
  strat_priority :: int
  Reframe :: "task_context \<Rightarrow> go_error list \<Rightarrow> reframed_task option"

record rotator =
  rot_strategies :: "strategy list"
  rot_maxAttempts :: int
  rot_tried :: "string set"
  rot_attempts :: int

definition NewRotator :: "strategy list \<Rightarrow> int \<Rightarrow> rotator" where
  "NewRotator strategies maxAttempts =
     \<lparr>rot_strategies = sort_key (\<lambda>s. - strat_priority s) strategies,
      rot_maxAttempts = maxAttempts, rot_tried = {}, rot_attempts = 0\<rparr>"

fun next_from :: "rotator \<Rightarrow> strategy list \<Rightarrow> task_context \<Rightarrow> go_error list \<Rightarrow>
    (strategy \<times> reframed_task) option \<times> rotator" where
  "next_from r [] task errs = (None, r)"
| "next_from r (s # ss) task errs =
     (if strat_name s \<in> rot_tried r then next_from r ss task errs
      else (case Reframe s task errs of
        None \<Rightarrow> next_from r ss task errs
      | Some rt \<Rightarrow> (Some (s, rt),
          r\<lparr>rot_tried := insert (strat_name s) (rot_tried r), rot_attempts := rot_attempts r + 1\<rparr>)))"

definition rotator_Next :: "rotator \<Rightarrow> task_context \<Rightarrow> go_error list \<Rightarrow>
    (strategy \<times> reframed_task) option \<times> rotator" where
  "rotator_Next r task errs =
     (if rot_attempts r \<ge> rot_maxAttempts r then (None, r)
      else next_from r (rot_strategies r) task errs)"

definition rotator_Reset :: "rotator \<Rightarrow> rotator" where
  "rotator_Reset r = r\<lparr>rot_tried := {}, rot_attempts := 0\<rparr>"

subsection \<open>Built-in strategies\<close>

definition formatErrors :: "go_error list \<Rightarrow> string" where
  "formatErrors errs = Join (map err_msg errs) ''; ''"

definition Rephrase :: strategy where
  "Rephrase = \<lparr>strat_name = ''rephrase'', strat_priority = 1,
     Reframe = (\<lambda>task errs. Some
       \<lparr>rf_prompt = OriginalPrompt task,
        EphemeralHint = ''Previous attempt failed: '' @ formatErrors errs @
          ''. Rephrase your approach and try a different strategy.''\<rparr>)\<rparr>"

text \<open>The dash of the hint is U+2014, three bytes.\<close>

definition Decompose :: "nat \<Rightarrow> strategy" where
  "Decompose MinPromptLen = \<lparr>strat_name = ''decompose'', strat_priority = 5,
     Reframe = (\<lambda>task errs.
       if length (OriginalPrompt task) \<le> MinPromptLen then None
       else Some
         \<lparr>rf_prompt = OriginalPrompt task,
          EphemeralHint = ''Previous attempt failed: '' @ formatErrors errs @
            ''. The task is complex '' @ [CHR 0xE2, CHR 0x80, CHR 0x94] @
            '' try breaking it into smaller, sequential steps.''\<rparr>)\<rparr>"

fun swap_from :: "(string \<times> string) list \<Rightarrow> string \<Rightarrow> task_context \<Rightarrow> reframed_task option" where
  "swap_from [] combined task = None"
| "swap_from ((tool, alt) # rest) combined task =
     (if Contains combined tool
      then Some \<lparr>rf_prompt = OriginalPrompt task,
        EphemeralHint = ''The tool '' @ go_quote tool @ '' failed. Try using '' @ go_quote alt @ '' instead.''\<rparr>
      else swap_from rest combined task)"

definition ToolSwap :: "(string \<times> string) list \<Rightarrow> strategy" where
  "ToolSwap Alternatives = \<lparr>strat_name = ''tool_swap'', strat_priority = 10,
     Reframe = (\<lambda>task errs. swap_from Alternatives (formatErrors errs) task)\<rparr>"

subsection \<open>Attempt log\<close>

record attempt_record =
  ar_strategy :: string
  ar_attempt :: int
  ar_error :: string
  ar_duration :: duration

text \<open>The rendering of a duration rounded to milliseconds is an argument.\<close>

definition attempt_String :: "(duration \<Rightarrow> string) \<Rightarrow> attempt_record \<Rightarrow> string" where
  "attempt_String show_ms r = ''attempt '' @ int_to_dec (ar_attempt r) @ '' ('' @ ar_strategy r @ ''): '' @
     ar_error r @ '' ['' @ show_ms (ar_duration r) @ '']''"

definition log_Add :: "attempt_record list \<Rightarrow> attempt_record \<Rightarrow> attempt_record list" where
  "log_Add l r = l @ [r]"

definition log_Summary :: "(duration \<Rightarrow> string) \<Rightarrow> attempt_record list \<Rightarrow> string" where
  "log_Summary show_ms l =
     (if l = [] then ''no retry attempts''
      else int_to_dec (int (length l)) @ '' retry attempt(s):'' @ nl @
        concat (map (\<lambda>r. ''  - '' @ attempt_String show_ms r @ nl) l))"

subsection \<open>The rotator's invariant\<close>

definition rotator_inv :: "rotator \<Rightarrow> bool" where
  "rotator_inv r \<longleftrightarrow> finite (rot_tried r) \<and> int (card (rot_tried r)) = rot_attempts r \<and>
     rot_tried r \<subseteq> strat_name ` set (rot_strategies r) \<and>
     rot_attempts r \<le> max 0 (rot_maxAttempts r) \<and>
     sorted_wrt (\<lambda>s t. strat_priority t \<le> strat_priority s) (rot_strategies r)"

lemma NewRotator_inv: "rotator_inv (NewRotator ss n)"
proof -
  have "sorted (map (\<lambda>s. - strat_priority s) (sort_key (\<lambda>s. - strat_priority s) ss))"
    by (rule sorted_sort_key)
  then show ?thesis
    by (simp add: rotator_inv_def NewRotator_def sorted_map)
qed

lemma NewRotator_sel [simp]:
  "set (rot_strategies (NewRotator ss n)) = set ss" "rot_tried (NewRotator ss n) = {}"
  by (simp_all add: NewRotator_def)

lemma next_from_frame [store_frame]:
  "next_from r ss task errs = (x, r') \<Longrightarrow>
     rot_strategies r' = rot_strategies r \<and> rot_maxAttempts r' = rot_maxAttempts r"
  by (induction ss) (auto split: if_splits option.splits)

lemma next_from_None:
  "next_from r ss task errs = (None, r') \<longleftrightarrow>
     r' = r \<and> (\<forall>s \<in> set ss. strat_name s \<in> rot_tried r \<or> Reframe s task errs = None)"
  by (induction ss) (auto split: option.splits)

lemma next_from_Some:
  "next_from r ss task errs = (Some (s, rt), r') \<Longrightarrow>
     \<exists>us vs. ss = us @ s # vs \<and> strat_name s \<notin> rot_tried r \<and> Reframe s task errs = Some rt \<and>
       (\<forall>u \<in> set us. strat_name u \<in> rot_tried r \<or> Reframe u task errs = None) \<and>
       r' = r\<lparr>rot_tried := insert (strat_name s) (rot_tried r), rot_attempts := rot_attempts r + 1\<rparr>"
proof (induction ss)
  case (Cons t ss)
  show ?case
  proof (cases "strat_name t \<in> rot_tried r \<or> Reframe t task errs = None")
    case True
    with Cons.prems have "next_from r ss task errs = (Some (s, rt), r')"
      by (auto split: option.splits)
    from Cons.IH [OF this] obtain us vs where "ss = us @ s # vs" and rest:
      "strat_name s \<notin> rot_tried r" "Reframe s task errs = Some rt"
      "\<forall>u \<in> set us. strat_name u \<in> rot_tried r \<or> Reframe u task errs = None"
      "r' = r\<lparr>rot_tried := insert (strat_name s) (rot_tried r), rot_attempts := rot_attempts r + 1\<rparr>"
      by blast
    then have "t # ss = (t # us) @ s # vs" by simp
    with True rest show ?thesis by (metis set_ConsD)
  next
    case False
    with Cons.prems show ?thesis
      by (intro exI [of _ "[]"] exI [of _ ss]) (auto split: option.splits)
  qed
qed simp

lemma rotator_Next_inv:
  assumes "rotator_inv r" and "rotator_Next r task errs = (x, r')"
  shows "rotator_inv r'"
proof (cases x)
  case None
  with assms show ?thesis
    by (auto simp: rotator_Next_def next_from_None split: if_splits)
next
  case (Some y)
  obtain s rt where y: "y = (s, rt)" by force
  from assms(2) Some y have lt: "rot_attempts r < rot_maxAttempts r"
    and nf: "next_from r (rot_strategies r) task errs = (Some (s, rt), r')"
    by (auto simp: rotator_Next_def split: if_splits)
  from next_from_Some [OF nf] obtain us vs where "rot_strategies r = us @ s # vs"
    "strat_name s \<notin> rot_tried r"
    "r' = r\<lparr>rot_tried := insert (strat_name s) (rot_tried r), rot_attempts := rot_attempts r + 1\<rparr>"
    by blast
  with assms(1) lt show ?thesis by (auto simp: rotator_inv_def)
qed

lemma rotator_Reset_inv: "rotator_inv r \<Longrightarrow> rotator_inv (rotator_Reset r)"
  by (simp add: rotator_inv_def rotator_Reset_def)

text \<open>A run of the rotator: the names handed out by a sequence of calls of \<^verbatim>\<open>Next\<close>.\<close>

fun rotator_run :: "rotator \<Rightarrow> (task_context \<times> go_error list) list \<Rightarrow> string list \<times> rotator" where
  "rotator_run r [] = ([], r)"
| "rotator_run r ((task, errs) # calls) =
     (case rotator_Next r task errs of
        (None, r') \<Rightarrow> rotator_run r' calls
      | (Some (s, rt), r') \<Rightarrow> (case rotator_run r' calls of (ns, r'') \<Rightarrow> (strat_name s # ns, r'')))"

lemma rotator_Next_tried:
  "rotator_Next r task errs = (None, r') \<Longrightarrow> rot_tried r' = rot_tried r"
  "rotator_Next r task errs = (Some (s, rt), r') \<Longrightarrow>
     strat_name s \<notin> rot_tried r \<and> rot_tried r' = insert (strat_name s) (rot_tried r)"
  by (auto simp: rotator_Next_def next_from_None split: if_splits dest: next_from_Some)

lemma rotator_run_tried:
  "rotator_run r calls = (ns, r') \<Longrightarrow>
     distinct ns \<and> set ns \<inter> rot_tried r = {} \<and> rot_tried r' = rot_tried r \<union> set ns"
proof (induction calls arbitrary: r ns r')
  case (Cons c calls)
  obtain task errs where c: "c = (task, errs)" by force
  obtain x r1 where n: "rotator_Next r task errs = (x, r1)" by force
  show ?case
  proof (cases x)
    case None
    with n have "rot_tried r1 = rot_tried r" using rotator_Next_tried(1) by simp
    moreover from Cons.prems c n None have "rotator_run r1 calls = (ns, r')" by simp
    ultimately show ?thesis using Cons.IH [of r1 ns r'] by simp
  next
    case (Some y)
    obtain s rt where y: "y = (s, rt)" by force
    obtain ms r2 where run: "rotator_run r1 calls = (ms, r2)" by force
    with Cons.prems c n Some y have "ns = strat_name s # ms" "r' = r2" by auto
    moreover from n Some y have "strat_name s \<notin> rot_tried r"
      "rot_tried r1 = insert (strat_name s) (rot_tried r)"
      using rotator_Next_tried(2) by auto
    ultimately show ?thesis using Cons.IH [OF run] by auto
  qed
qed simp

lemma rotator_run_inv: "rotator_inv r \<Longrightarrow> rotator_run r calls = (ns, r') \<Longrightarrow> rotator_inv r'"
proof (induction calls arbitrary: r ns)
  case (Cons c calls)
  obtain task errs where c: "c = (task, errs)" by force
  obtain x r1 where n: "rotator_Next r task errs = (x, r1)" by force
  from Cons.prems(1) n have "rotator_inv r1" by (rule rotator_Next_inv)
  with Cons c n show ?case by (auto split: option.splits prod.splits)
qed simp

lemma rotator_Next_frame [store_frame]:
  "rotator_Next r task errs = (x, r') \<Longrightarrow>
     rot_strategies r' = rot_strategies r \<and> rot_maxAttempts r' = rot_maxAttempts r"
  by (auto simp: rotator_Next_def split: if_splits dest: next_from_frame)

lemma rotator_run_frame [store_frame]:
  "rotator_run r calls = (ns, r') \<Longrightarrow>
     rot_strategies r' = rot_strategies r \<and> rot_maxAttempts r' = rot_maxAttempts r"
proof (induction calls arbitrary: r ns)
  case (Cons c calls)
  obtain task errs where c: "c = (task, errs)" by force
  obtain x r1 where n: "rotator_Next r task errs = (x, r1)" by force
  with Cons c rotator_Next_frame [OF n] show ?case by (auto split: option.splits prod.splits)
qed simp

subsection \<open>Properties\<close>

text \<open>
  no strategy is repeated and the budget holds. Over any sequence of calls of \<^verbatim>\<open>Next\<close> on
  a new rotator the names handed out are pairwise different, come from the given strategies
  and number at most \<^verbatim>\<open>maxAttempts\<close> (none if that is not positive), and the attempt counter
  is exactly their number.
\<close>

theorem rotator_dispenses_once:
  assumes "rotator_run (NewRotator ss n) calls = (ns, r)"
  shows "distinct ns \<and> set ns \<subseteq> strat_name ` set ss \<and>
    int (length ns) \<le> max 0 n \<and> rot_attempts r = int (length ns)"
proof -
  from rotator_run_tried [OF assms] have d: "distinct ns" and t: "rot_tried r = set ns"
    by (auto simp: NewRotator_def)
  from rotator_run_inv [OF NewRotator_inv assms] have inv: "rotator_inv r" .
  from rotator_run_frame [OF assms] inv t d show ?thesis
    by (auto simp: rotator_inv_def distinct_card NewRotator_def)
qed

definition demo_task_ctx :: task_context where
  "demo_task_ctx = \<lparr>OriginalPrompt = ''fetch the page'', ctx_session_id = ''s'', Iteration = 0\<rparr>"

theorem rotator_dispenses_once_witness:
  "fst (rotator_run (NewRotator [Rephrase, Decompose 4, ToolSwap [(''http'', ''browser'')]] 2)
     [(demo_task_ctx, [ErrText ''http: timeout'']), (demo_task_ctx, []), (demo_task_ctx, [])])
     = [''tool_swap'', ''decompose''] \<and>
   distinct (fst (rotator_run (NewRotator [Rephrase, Decompose 4, ToolSwap [(''http'', ''browser'')]] 2)
     [(demo_task_ctx, [ErrText ''http: timeout'']), (demo_task_ctx, []), (demo_task_ctx, [])]))"
  (is "fst ?run = _ \<and> _")
proof -
  have "distinct (fst ?run)"
    using rotator_dispenses_once [OF surjective_pairing [of ?run]] by blast
  moreover have "fst ?run = [''tool_swap'', ''decompose'']"
    by (simp add: NewRotator_def rotator_Next_def Rephrase_def Decompose_def ToolSwap_def
        demo_task_ctx_def formatErrors_def)
  ultimately show ?thesis by blast
qed

text \<open>
  \<^verbatim>\<open>Next\<close> picks the best applicable strategy. A strategy handed out is untried, its
  \<^verbatim>\<open>Reframe\<close> applies to the task and gives the returned task, and no untried applicable
  strategy has a higher priority; \<^verbatim>\<open>Next\<close> returns nothing exactly when the attempts are used
  up or no untried strategy applies.
\<close>

theorem rotator_Next_best:
  assumes "rotator_inv r"
  shows "case rotator_Next r task errs of
      (Some (s, rt), r') \<Rightarrow> s \<in> set (rot_strategies r) \<and> strat_name s \<notin> rot_tried r \<and>
        Reframe s task errs = Some rt \<and>
        (\<forall>t \<in> set (rot_strategies r). strat_name t \<notin> rot_tried r \<longrightarrow> Reframe t task errs \<noteq> None \<longrightarrow>
           strat_priority t \<le> strat_priority s)
    | (None, r') \<Rightarrow> rot_attempts r \<ge> rot_maxAttempts r \<or>
        (\<forall>t \<in> set (rot_strategies r). strat_name t \<in> rot_tried r \<or> Reframe t task errs = None)"
proof -
  obtain x r' where n: "rotator_Next r task errs = (x, r')" by force
  show ?thesis
  proof (cases x)
    case None
    with n show ?thesis by (auto simp: rotator_Next_def next_from_None split: if_splits)
  next
    case (Some y)
    obtain s rt where y: "y = (s, rt)" by force
    from n Some y have "next_from r (rot_strategies r) task errs = (Some (s, rt), r')"
      by (auto simp: rotator_Next_def split: if_splits)
    from next_from_Some [OF this] obtain us vs where split: "rot_strategies r = us @ s # vs"
      and s: "strat_name s \<notin> rot_tried r" "Reframe s task errs = Some rt"
      and us: "\<forall>u \<in> set us. strat_name u \<in> rot_tried r \<or> Reframe u task errs = None" by blast
    from assms split have "\<forall>v \<in> set vs. strat_priority v \<le> strat_priority s"
      by (simp add: rotator_inv_def sorted_wrt_append)
    with n Some y split s us show ?thesis by auto
  qed
qed

theorem rotator_Next_best_witness:
  "rotator_inv (NewRotator [Rephrase, Decompose 4] 3) \<and>
   (case rotator_Next (NewRotator [Rephrase, Decompose 4] 3) demo_task_ctx [] of
      (Some (s, rt), r') \<Rightarrow> strat_name s = ''decompose'' | (None, r') \<Rightarrow> False)"
proof -
  have inv: "rotator_inv (NewRotator [Rephrase, Decompose 4] 3)" by (rule NewRotator_inv)
  have ex: "\<exists>s rt r'. rotator_Next (NewRotator [Rephrase, Decompose 4] 3) demo_task_ctx [] = (Some (s, rt), r')"
    by (simp add: NewRotator_def rotator_Next_def Rephrase_def Decompose_def demo_task_ctx_def)
  then obtain s rt r' where n:
    "rotator_Next (NewRotator [Rephrase, Decompose 4] 3) demo_task_ctx [] = (Some (s, rt), r')" by blast
  with rotator_Next_best [OF inv, of demo_task_ctx "[]"]
  have "s \<in> {Rephrase, Decompose 4} \<and>
      (Reframe (Decompose 4) demo_task_ctx [] \<noteq> None \<longrightarrow> strat_priority (Decompose 4) \<le> strat_priority s)"
    by auto
  moreover have "Reframe (Decompose 4) demo_task_ctx [] \<noteq> None"
    by (simp add: Decompose_def demo_task_ctx_def)
  ultimately have "s \<in> {Rephrase, Decompose 4} \<and> strat_priority (Decompose 4) \<le> strat_priority s"
    by blast
  then have "s = Decompose 4" by (auto simp: Rephrase_def Decompose_def)
  with inv n show ?thesis by (simp add: Decompose_def)
qed

end
