(* ===== verification/Verification_Gates.thy ===== *)
theory Verification_Gates
  imports Complex_Main Prelude
begin

section \<open>Verification gates (\<^verbatim>\<open>pkg/agent/verification\<close>)\<close>

text \<open>
  \<^verbatim>\<open>gate.go\<close>: the runner that combines the gates that apply to a task result;
  \<^verbatim>\<open>command_gate.go\<close> and \<^verbatim>\<open>llm_gate.go\<close>: the two gates. A gate is a record of its name, its
  \<^verbatim>\<open>AppliesTo\<close> predicate and its \<^verbatim>\<open>Verify\<close> function; the command runner and the LLM checker
  are arguments, with the answer as a sum. Confidence is a rational number: the code only
  compares it and only produces 0 and 0.5.
\<close>

datatype gate_status = Confirmed | Failed | Uncertain

record gate_result =
  Status :: gate_status
  Evidence :: string
  Reason :: string
  Confidence :: rat
  Suggestion :: string

record turn_result =
  tr_session :: string
  FinalMessage :: string
  ToolsUsed :: "string list"
  FilesWritten :: "string list"

record gate =
  gate_name :: string
  AppliesTo :: "turn_result \<Rightarrow> bool"
  Verify :: "turn_result \<Rightarrow> gate_result"

record gate_runner =
  gates :: "gate list"
  confidenceThreshold :: rat
  runner_maxAttempts :: int

definition empty_result :: gate_result where
  "empty_result = \<lparr>Status = Confirmed, Evidence = [], Reason = [], Confidence = 0, Suggestion = []\<rparr>"

fun run_gates :: "rat \<Rightarrow> gate list \<Rightarrow> turn_result \<Rightarrow> gate_result" where
  "run_gates thr [] tr = empty_result\<lparr>Status := Confirmed, Evidence := ''all gates passed''\<rparr>"
| "run_gates thr (g # gs) tr =
     (let result = Verify g tr in
      case Status result of
        Failed \<Rightarrow> result
      | Uncertain \<Rightarrow> if Confidence result \<ge> thr then run_gates thr gs tr else result
      | Confirmed \<Rightarrow> run_gates thr gs tr)"

definition Runner_Run :: "gate_runner \<Rightarrow> turn_result \<Rightarrow> gate_result" where
  "Runner_Run r tr =
     (let applicable = filter (\<lambda>g. AppliesTo g tr) (gates r) in
      if applicable = []
      then empty_result\<lparr>Status := Confirmed, Evidence := ''no applicable verification gates''\<rparr>
      else run_gates (confidenceThreshold r) applicable tr)"

subsection \<open>The command gate\<close>

record command_gate =
  ToolNames :: "string list"
  VerifyCommand :: string
  ExpectedOutput :: string

definition command_AppliesTo :: "command_gate \<Rightarrow> turn_result \<Rightarrow> bool" where
  "command_AppliesTo g tr \<longleftrightarrow>
     list_ex (\<lambda>used. list_ex (\<lambda>target. used = target) (ToolNames g)) (ToolsUsed tr)"

text \<open>The runner is an optional interface: \<^term>\<open>None\<close> is Go's nil.\<close>

definition command_Verify :: "command_gate \<Rightarrow> (string \<Rightarrow> go_error + string) option \<Rightarrow> turn_result \<Rightarrow> gate_result" where
  "command_Verify g runner tr =
     (case runner of
        None \<Rightarrow> empty_result\<lparr>Status := Uncertain, Evidence := ''no command runner configured''\<rparr>
      | Some run \<Rightarrow>
        (case run (VerifyCommand g) of
           Inl err \<Rightarrow> empty_result\<lparr>Status := Failed, Reason := ''verification command failed: '' @ err_msg err\<rparr>
         | Inr out0 \<Rightarrow>
           (let output = TrimSpace out0; expected = TrimSpace (ExpectedOutput g) in
            if Contains output expected
            then empty_result\<lparr>Status := Confirmed, Evidence := ''output contains '' @ go_quote expected\<rparr>
            else empty_result\<lparr>Status := Failed,
              Reason := ''expected output containing '' @ go_quote expected @ '', got '' @ go_quote output,
              Suggestion := ''Re-run the task or check the command output manually''\<rparr>)))"

definition CommandOutputGate :: "command_gate \<Rightarrow> (string \<Rightarrow> go_error + string) option \<Rightarrow> gate" where
  "CommandOutputGate g runner =
     \<lparr>gate_name = ''command_output'', AppliesTo = command_AppliesTo g, Verify = command_Verify g runner\<rparr>"

subsection \<open>The LLM gate\<close>

definition llm_gate_prompt :: "turn_result \<Rightarrow> string" where
  "llm_gate_prompt tr = ''Does this result satisfy the original request? Reply with exactly one of: PASS, FAIL, or UNCERTAIN, followed by a colon and a brief explanation.'' @ nl @ nl @ ''Result:'' @ nl @ FinalMessage tr"

definition llm_Verify :: "(string \<Rightarrow> go_error + string) option \<Rightarrow> turn_result \<Rightarrow> gate_result" where
  "llm_Verify llm tr =
     (case llm of
        None \<Rightarrow> empty_result\<lparr>Status := Uncertain, Confidence := 0, Evidence := ''no LLM configured for verification''\<rparr>
      | Some check \<Rightarrow>
        (case check (llm_gate_prompt tr) of
           Inl err \<Rightarrow> empty_result\<lparr>Status := Uncertain, Confidence := 0, Evidence := ''LLM check failed: '' @ err_msg err\<rparr>
         | Inr response0 \<Rightarrow>
           (let response = TrimSpace response0; upper = ToUpper response in
            if HasPrefix upper ''PASS'' then empty_result\<lparr>Status := Confirmed, Evidence := response\<rparr>
            else if HasPrefix upper ''FAIL'' then empty_result\<lparr>Status := Failed, Reason := response\<rparr>
            else empty_result\<lparr>Status := Uncertain, Confidence := 1 / 2, Evidence := response\<rparr>)))"

definition LLMSelfCheckGate :: "(string \<Rightarrow> go_error + string) option \<Rightarrow> gate" where
  "LLMSelfCheckGate llm =
     \<lparr>gate_name = ''llm_self_check'', AppliesTo = (\<lambda>_. True), Verify = llm_Verify llm\<rparr>"

subsection \<open>The verdict\<close>

definition gate_passes :: "rat \<Rightarrow> turn_result \<Rightarrow> gate \<Rightarrow> bool" where
  "gate_passes thr tr g \<longleftrightarrow> Status (Verify g tr) = Confirmed \<or>
     Status (Verify g tr) = Uncertain \<and> Confidence (Verify g tr) \<ge> thr"

lemma run_gates_all_pass:
  "list_all (gate_passes thr tr) gs \<Longrightarrow> run_gates thr gs tr = empty_result\<lparr>Status := Confirmed, Evidence := ''all gates passed''\<rparr>"
  by (induction gs) (auto simp: gate_passes_def Let_def)

lemma run_gates_first_failure:
  assumes "list_all (gate_passes thr tr) us" and "\<not> gate_passes thr tr g"
  shows "run_gates thr (us @ g # vs) tr = Verify g tr"
  using assms
  by (induction us) (auto simp: gate_passes_def Let_def split: gate_status.splits)

lemma gate_split: "list_all P xs \<or> (\<exists>us x vs. xs = us @ x # vs \<and> list_all P us \<and> \<not> P x)"
  using split_list_first_prop [of xs "\<lambda>x. \<not> P x"] by (auto simp: list_all_iff)

text \<open>
  the verdict of the runner is that of the first applicable gate that does not pass, a
  gate passing when it confirms or is uncertain with at least the threshold's confidence; if
  every applicable gate passes (or none applies) the verdict is confirmed. In particular the
  runner confirms exactly when every applicable gate passes, and gates that do not apply
  have no say.
\<close>

theorem Runner_verdict:
  "(Status (Runner_Run r tr) = Confirmed \<longleftrightarrow>
      (\<forall>g \<in> set (gates r). AppliesTo g tr \<longrightarrow> gate_passes (confidenceThreshold r) tr g)) \<and>
   (Status (Runner_Run r tr) \<noteq> Confirmed \<longrightarrow>
      (\<exists>g \<in> set (gates r). AppliesTo g tr \<and> \<not> gate_passes (confidenceThreshold r) tr g \<and> Runner_Run r tr = Verify g tr))"
proof -
  let ?thr = "confidenceThreshold r" and ?app = "filter (\<lambda>g. AppliesTo g tr) (gates r)"
  from gate_split [of "gate_passes ?thr tr" ?app]
  consider "list_all (gate_passes ?thr tr) ?app"
    | us g vs where "?app = us @ g # vs" "list_all (gate_passes ?thr tr) us" "\<not> gate_passes ?thr tr g"
    by blast
  then show ?thesis
  proof cases
    case 1
    then have "Status (Runner_Run r tr) = Confirmed"
      by (auto simp: Runner_Run_def Let_def run_gates_all_pass empty_result_def)
    with 1 show ?thesis by (auto simp: list_all_iff)
  next
    case 2
    then have "Runner_Run r tr = Verify g tr"
      by (simp add: Runner_Run_def Let_def run_gates_first_failure)
    moreover from 2 have "g \<in> set ?app" by simp
    moreover from 2(3) have "Status (Verify g tr) \<noteq> Confirmed" by (auto simp: gate_passes_def)
    ultimately show ?thesis using 2(3) by auto
  qed
qed

definition demo_turn :: turn_result where
  "demo_turn = \<lparr>tr_session = ''s'', FinalMessage = ''done'', ToolsUsed = [''shell''], FilesWritten = []\<rparr>"

definition demo_runner :: gate_runner where
  "demo_runner = \<lparr>gates = [LLMSelfCheckGate (Some (\<lambda>p. Inr '' fail: no file''))],
     confidenceThreshold = 4 / 5, runner_maxAttempts = 2\<rparr>"

theorem Runner_verdict_witness:
  "Status (Runner_Run demo_runner demo_turn) \<noteq> Confirmed \<and>
   (\<exists>g \<in> set (gates demo_runner). Runner_Run demo_runner demo_turn = Verify g demo_turn)"
proof -
  have "Status (Runner_Run demo_runner demo_turn) = Failed"
    by code_simp
  with Runner_verdict [of demo_runner demo_turn] show ?thesis by auto
qed

end
