(* ===== verification/Checkpoint_Manager.thy ===== *)
theory Checkpoint_Manager
  imports Prelude
begin

section \<open>Checkpoints (\<^verbatim>\<open>pkg/agent/checkpoint/manager.go\<close>)\<close>

text \<open>
  When to take a checkpoint, what it holds, and which one to roll back to. The JSON text of
  the tool outputs and the new id are arguments of \<open>BuildSnapshot\<close>.
\<close>

record iteration_state =
  TokensConsumed :: int
  LastCheckpointTokens :: int
  HasSideEffects :: bool
  ExplicitCheckpoint :: bool
  cp_Iteration :: int

record snapshot =
  sn_id :: string
  sn_session :: string
  StepIndex :: int
  ToolOutputs :: string
  ContextSummary :: string

definition ShouldCheckpoint :: "int \<Rightarrow> iteration_state \<Rightarrow> bool" where
  "ShouldCheckpoint TokenThreshold state =
     (if ExplicitCheckpoint state then True
      else if HasSideEffects state then True
      else (let tokensSinceLast = TokensConsumed state - LastCheckpointTokens state in
        if TokenThreshold > 0 \<and> tokensSinceLast \<ge> TokenThreshold then True else False))"

definition BuildSnapshot :: "(string list \<Rightarrow> string) \<Rightarrow> string \<Rightarrow> int \<Rightarrow> string list \<Rightarrow> string \<Rightarrow> snapshot" where
  "BuildSnapshot marshal newID stepIndex toolOutputs contextSummary =
     \<lparr>sn_id = newID, sn_session = [], StepIndex = stepIndex,
      ToolOutputs = marshal toolOutputs, ContextSummary = contextSummary\<rparr>"

fun best_step :: "int \<Rightarrow> int \<Rightarrow> int list \<Rightarrow> int" where
  "best_step currentStep best [] = best"
| "best_step currentStep best (step # rest) =
     best_step currentStep (if step < currentStep \<and> step > best then step else best) rest"

definition RollbackTarget :: "int \<Rightarrow> int list \<Rightarrow> go_error + int" where
  "RollbackTarget currentStep available =
     (let best = best_step currentStep (-1) available in
      if best = -1 then Inl (ErrText (''no checkpoint available before step '' @ int_to_dec currentStep))
      else Inr best)"

lemma best_step_props:
  "best \<le> best_step cur best av \<and>
   (best_step cur best av = best \<or> best_step cur best av \<in> set av \<and> best_step cur best av < cur) \<and>
   (\<forall>t \<in> set av. t < cur \<longrightarrow> t \<le> best_step cur best av)"
proof (induction av arbitrary: best)
  case (Cons s av)
  show ?case
    using Cons.IH [of s] Cons.IH [of best] by (cases "s < cur \<and> best < s") auto
qed simp

text \<open>
  the rollback target is the latest available step before the current one; an error is
  returned exactly when no non-negative step before the current one is available.
\<close>

theorem RollbackTarget_latest:
  "RollbackTarget cur av =
     (let earlier = filter (\<lambda>t. 0 \<le> t \<and> t < cur) av in
      if earlier = [] then Inl (ErrText (''no checkpoint available before step '' @ int_to_dec cur))
      else Inr (Max (set earlier)))"
proof (cases "best_step cur (-1) av = -1")
  case True
  then have "filter (\<lambda>t. 0 \<le> t \<and> t < cur) av = []"
    using best_step_props [of "-1" cur av] by (fastforce simp: filter_empty_conv)
  with True show ?thesis by (simp add: RollbackTarget_def)
next
  case False
  with best_step_props [of "-1" cur av]
  have best: "best_step cur (-1) av \<in> set (filter (\<lambda>t. 0 \<le> t \<and> t < cur) av)"
    "\<And>t. t \<in> set (filter (\<lambda>t. 0 \<le> t \<and> t < cur) av) \<Longrightarrow> t \<le> best_step cur (-1) av"
    by auto
  from best have "Max (set (filter (\<lambda>t. 0 \<le> t \<and> t < cur) av)) = best_step cur (-1) av"
    by (intro Max_eqI) auto
  moreover from best(1) have "filter (\<lambda>t. 0 \<le> t \<and> t < cur) av \<noteq> []" by fastforce
  ultimately show ?thesis using False by (simp add: RollbackTarget_def Let_def)
qed

end
