(* ===== verification/Approval.thy ===== *)
theory Approval
  imports Keyed_Store
begin

section \<open>Tool approval (\<^verbatim>\<open>pkg/agent/approval.go\<close>)\<close>

text \<open>
  The approver decides at once in modes auto and deny; in mode ask it files a one-slot
  channel under the request's id and blocks until a response fills the slot or the context
  ends, removing the entry on the way out. \<^verbatim>\<open>Respond\<close> is called from other goroutines (the
  gateway and the channel router), so the approver is a step relation over a trace of
  registrations, responses and returns. Request ids are fresh (they are new UUIDs).
\<close>

datatype ApprovalMode = ApprovalAuto | ApprovalAsk | ApprovalDeny

record approval_request =
  apr_id :: string
  apr_session :: string
  apr_tool :: string
  apr_input :: string

text \<open>\<^verbatim>\<open>pending\<close>: the slot of a request's channel, empty or holding the answer.\<close>

record approver =
  ap_mode :: ApprovalMode
  ap_pending :: "string \<rightharpoonup> bool option"

text \<open>\<^verbatim>\<open>NewApprover\<close>: the empty mode string means ask; other strings behave like ask.\<close>

definition parse_mode :: "string \<Rightarrow> ApprovalMode" where
  "parse_mode s = (if s = ''auto'' then ApprovalAuto else if s = ''deny'' then ApprovalDeny else ApprovalAsk)"

definition NewApprover :: "string \<Rightarrow> approver" where
  "NewApprover mode = \<lparr>ap_mode = parse_mode mode, ap_pending = Map.empty\<rparr>"

text \<open>The first part of \<^verbatim>\<open>RequestApproval\<close>: an immediate answer, or a registration.\<close>

definition request_start :: "approver \<Rightarrow> string \<Rightarrow> approver \<times> bool option" where
  "request_start a rid =
     (case ap_mode a of
        ApprovalAuto \<Rightarrow> (a, Some True)
      | ApprovalDeny \<Rightarrow> (a, Some False)
      | ApprovalAsk \<Rightarrow> (a\<lparr>ap_pending := (ap_pending a)(rid \<mapsto> None)\<rparr>, None))"

text \<open>Its second part: the select, then the deferred removal.\<close>

definition request_receive :: "approver \<Rightarrow> string \<Rightarrow> (go_error + bool) option" where
  "request_receive a rid = (case ap_pending a rid of Some (Some approved) \<Rightarrow> Some (Inr approved) | _ \<Rightarrow> None)"

definition request_finish :: "approver \<Rightarrow> string \<Rightarrow> approver" where
  "request_finish a rid = a\<lparr>ap_pending := (ap_pending a)(rid := None)\<rparr>"

definition Respond :: "approver \<Rightarrow> string \<Rightarrow> bool \<Rightarrow> approver" where
  "Respond a rid approved =
     (case ap_pending a rid of
        Some None \<Rightarrow> a\<lparr>ap_pending := (ap_pending a)(rid \<mapsto> Some approved)\<rparr>
      | _ \<Rightarrow> a)"

datatype approval_event =
    Registered string
  | Responded string bool
  | Returned string "go_error + bool"

definition approval_timeout :: go_error where
  "approval_timeout = ErrText ''approval request timed out''"

inductive approval_run :: "approver \<Rightarrow> approval_event list \<Rightarrow> approver \<Rightarrow> bool" for a0 where
  start: "approval_run a0 [] a0"
| register: "approval_run a0 tr a \<Longrightarrow> Registered rid \<notin> set tr \<Longrightarrow>
     request_start a rid = (a', None) \<Longrightarrow> approval_run a0 (tr @ [Registered rid]) a'"
| respond: "approval_run a0 tr a \<Longrightarrow> approval_run a0 (tr @ [Responded rid b]) (Respond a rid b)"
| receive: "approval_run a0 tr a \<Longrightarrow> request_receive a rid = Some r \<Longrightarrow>
     approval_run a0 (tr @ [Returned rid r]) (request_finish a rid)"
| timeout: "approval_run a0 tr a \<Longrightarrow> ap_pending a rid \<noteq> None \<Longrightarrow>
     approval_run a0 (tr @ [Returned rid (Inl approval_timeout)]) (request_finish a rid)"

subsection \<open>What the trace says of a request\<close>

fun responses_after :: "string \<Rightarrow> approval_event list \<Rightarrow> bool list" where
  "responses_after rid [] = []"
| "responses_after rid (Responded r b # tr) = (if r = rid then b # responses_after rid tr else responses_after rid tr)"
| "responses_after rid (e # tr) = responses_after rid tr"

fun responses :: "string \<Rightarrow> approval_event list \<Rightarrow> bool list" where
  "responses rid [] = []"
| "responses rid (Registered r # tr) = (if r = rid then responses_after rid tr else responses rid tr)"
| "responses rid (e # tr) = responses rid tr"

definition first_response :: "string \<Rightarrow> approval_event list \<Rightarrow> bool option" where
  "first_response rid tr = (case responses rid tr of [] \<Rightarrow> None | b # bs \<Rightarrow> Some b)"

definition returned :: "string \<Rightarrow> approval_event list \<Rightarrow> bool" where
  "returned rid tr \<longleftrightarrow> (\<exists>r. Returned rid r \<in> set tr)"

lemma responses_after_append [simp]:
  "responses_after rid (xs @ ys) = responses_after rid xs @ responses_after rid ys"
  by (induction rid xs rule: responses_after.induct) auto

lemma responses_snoc:
  "responses rid (tr @ [e]) =
     (if Registered rid \<in> set tr then responses rid tr @ responses_after rid [e] else responses rid tr)"
  by (induction rid tr rule: responses.induct) (cases e; auto)+

lemma responses_unregistered: "Registered rid \<notin> set tr \<Longrightarrow> responses rid tr = []"
  by (induction rid tr rule: responses.induct) auto

lemma first_response_snoc:
  "first_response rid (tr @ [e]) =
     (case first_response rid tr of Some b \<Rightarrow> Some b
      | None \<Rightarrow> (case e of Responded r b \<Rightarrow> if r = rid \<and> Registered rid \<in> set tr then Some b else None | _ \<Rightarrow> None))"
  by (cases e) (auto simp: first_response_def responses_snoc split: list.splits)

definition pending_inv :: "approval_event list \<Rightarrow> approver \<Rightarrow> bool" where
  "pending_inv tr a \<longleftrightarrow> (\<forall>rid. ap_pending a rid =
     (if Registered rid \<in> set tr \<and> \<not> returned rid tr then Some (first_response rid tr) else None))"

definition answer_ok :: "approval_event list \<Rightarrow> string \<Rightarrow> go_error + bool \<Rightarrow> bool" where
  "answer_ok tr rid r \<longleftrightarrow> Registered rid \<in> set tr \<and>
     (case r of Inl e \<Rightarrow> e = approval_timeout | Inr b \<Rightarrow> first_response rid tr = Some b)"

definition return_inv :: "approval_event list \<Rightarrow> bool" where
  "return_inv tr \<longleftrightarrow> (\<forall>rid r. Returned rid r \<in> set tr \<longrightarrow> answer_ok tr rid r)"

lemma answer_ok_snoc: "answer_ok tr rid r \<Longrightarrow> answer_ok (tr @ [e]) rid r"
  by (auto simp: answer_ok_def first_response_snoc split: sum.splits)

lemma return_inv_snoc:
  assumes "return_inv tr" and "\<And>rid r. e = Returned rid r \<Longrightarrow> answer_ok tr rid r"
  shows "return_inv (tr @ [e])"
  unfolding return_inv_def
proof (intro allI impI)
  fix rid r
  assume "Returned rid r \<in> set (tr @ [e])"
  then have "answer_ok tr rid r" using assms by (auto simp: return_inv_def)
  then show "answer_ok (tr @ [e]) rid r" by (rule answer_ok_snoc)
qed

lemma approval_run_mode: "approval_run a0 tr a \<Longrightarrow> ap_mode a = ap_mode a0"
  by (induction rule: approval_run.induct)
    (auto simp: request_start_def Respond_def request_finish_def split: ApprovalMode.splits option.splits)

lemmas approval_ops = request_start_def request_receive_def request_finish_def Respond_def

lemma approval_run_inv:
  assumes "approval_run a0 tr a" and "ap_pending a0 = Map.empty"
  shows "pending_inv tr a \<and> return_inv tr"
  using assms
proof (induction rule: approval_run.induct)
  case start
  then show ?case by (simp add: pending_inv_def return_inv_def)
next
  case (register tr a rid a')
  then have "return_inv (tr @ [Registered rid])" by (intro return_inv_snoc) auto
  moreover have "\<not> returned rid tr"
    using register unfolding return_inv_def answer_ok_def returned_def by blast
  moreover have "first_response rid tr = None" using register.hyps(2)
    by (simp add: first_response_def responses_unregistered)
  ultimately show ?case using register
    by (auto simp: pending_inv_def returned_def approval_ops first_response_snoc
        split: ApprovalMode.splits option.splits)
next
  case (respond tr a rid b)
  then have "return_inv (tr @ [Responded rid b])" by (intro return_inv_snoc) auto
  with respond show ?case
    by (auto simp: pending_inv_def returned_def approval_ops first_response_snoc split: option.splits)
next
  case (receive tr a rid r)
  then have "answer_ok tr rid r"
    by (auto simp: pending_inv_def answer_ok_def approval_ops split: option.splits if_splits)
  with receive have "return_inv (tr @ [Returned rid r])" by (intro return_inv_snoc) auto
  with receive show ?case
    by (auto simp: pending_inv_def returned_def approval_ops first_response_snoc split: option.splits)
next
  case (timeout tr a rid)
  then have "answer_ok tr rid (Inl approval_timeout)"
    by (auto simp: pending_inv_def answer_ok_def split: if_splits)
  with timeout have "return_inv (tr @ [Returned rid (Inl approval_timeout)])" by (intro return_inv_snoc) auto
  with timeout show ?case
    by (auto simp: pending_inv_def returned_def approval_ops first_response_snoc split: option.splits)
qed

text \<open>
  C12: an approval is never invented. In any interleaving of registrations, responses and
  returns, a request returns at most what its first response after its registration said;
  responses to other requests, responses sent before the registration and later responses
  do not count, and a request returns true only if someone approved exactly that request.
  An error comes only from the context.
\<close>

theorem approval_faithful:
  assumes "approval_run (NewApprover m) tr a" and "Returned rid r \<in> set tr"
  shows "r = Inl approval_timeout \<or> (\<exists>b. r = Inr b \<and> first_response rid tr = Some b \<and> Responded rid b \<in> set tr)"
proof -
  have mem: "set (responses_after rid xs) \<subseteq> {b. Responded rid b \<in> set xs}" for xs
    by (induction rid xs rule: responses_after.induct) auto
  have mem': "set (responses rid xs) \<subseteq> {b. Responded rid b \<in> set xs}" for xs
    using mem by (induction rid xs rule: responses.induct) (auto split: if_splits)
  have fr: "first_response rid tr = Some b \<Longrightarrow> Responded rid b \<in> set tr" for b
    using mem' [of tr] by (auto simp: first_response_def split: list.splits)
  have "return_inv tr"
    using approval_run_inv [OF assms(1)] by (simp add: NewApprover_def)
  with assms(2) have "answer_ok tr rid r" by (simp add: return_inv_def)
  with fr show ?thesis by (auto simp: answer_ok_def split: sum.splits)
qed

lemma demo_approval_run:
  "approval_run (NewApprover ''ask'')
     [Registered ''r1'', Responded ''r2'' True, Responded ''r1'' False, Responded ''r1'' True, Returned ''r1'' (Inr False)]
     \<lparr>ap_mode = ApprovalAsk, ap_pending = Map.empty\<rparr>"
proof -
  let ?a = "\<lambda>p. \<lparr>ap_mode = ApprovalAsk, ap_pending = p\<rparr>"
  have "approval_run (NewApprover ''ask'') [] (?a Map.empty)"
    using approval_run.start [of "NewApprover ''ask''"] by (simp add: NewApprover_def parse_mode_def)
  then have "approval_run (NewApprover ''ask'') ([] @ [Registered ''r1'']) (?a [''r1'' \<mapsto> None])"
    by (rule approval_run.register) (simp_all add: request_start_def)
  then have "approval_run (NewApprover ''ask'') (([] @ [Registered ''r1'']) @ [Responded ''r2'' True])
      (Respond (?a [''r1'' \<mapsto> None]) ''r2'' True)" by (rule approval_run.respond)
  from approval_run.respond [OF approval_run.respond [OF this, of "''r1''" False], of "''r1''" True]
  have "approval_run (NewApprover ''ask'')
      [Registered ''r1'', Responded ''r2'' True, Responded ''r1'' False, Responded ''r1'' True]
      (?a [''r1'' \<mapsto> Some False])" by (simp add: Respond_def)
  from approval_run.receive [OF this, of "''r1''" "Inr False"] show ?thesis
    by (simp add: request_receive_def request_finish_def)
qed

theorem approval_faithful_witness:
  "\<exists>b. first_response ''r1'' [Registered ''r1'', Responded ''r2'' True, Responded ''r1'' False, Responded ''r1'' True,
      Returned ''r1'' (Inr False)] = Some b \<and> (Inr False :: go_error + bool) = Inr b"
  using approval_faithful [OF demo_approval_run, of "''r1''" "Inr False"] by auto

text \<open>
  no pending entry leaks and none is lost: at every moment of every run the approver
  holds an entry exactly for the requests that were registered and have not returned, and
  the entry's slot is the first response.
\<close>

theorem approval_pending_exact:
  assumes "approval_run (NewApprover m) tr a"
  shows "ap_pending a rid = (if Registered rid \<in> set tr \<and> \<not> returned rid tr then Some (first_response rid tr) else None)"
  using approval_run_inv [OF assms] by (simp add: NewApprover_def pending_inv_def)

theorem approval_pending_exact_witness:
  "ap_pending (\<lparr>ap_mode = ApprovalAsk, ap_pending = Map.empty\<rparr> :: approver) ''r1'' = None"
  using approval_pending_exact [OF demo_approval_run, of "''r1''"] by (simp add: returned_def)

end
