(* ===== verification/Session_Store.thy ===== *)
theory Session_Store
  imports Llm_Types
begin

section \<open>Session store (\<^verbatim>\<open>pkg/store/store.go\<close>)\<close>

text \<open>
  The tables of the SQLite database that the store's methods read and write: sessions,
  messages and checkpoints, each a list of rows in insertion order, with the primary keys
  and the unique index the struct tags declare. Every method issues its statements through
  \<open>db_stmt\<close>: statement number \<open>n\<close> fails with \<open>db_fault n\<close> if that is an error (a
  cancelled context, a disk error), which makes every error branch of the callers reachable.
  The current time and new ids are arguments. Rows with equal \<^verbatim>\<open>created_at\<close> come in insertion
  order, as the index on (session, time) yields them.
\<close>

definition ContentTypeText :: string where "ContentTypeText = ''text''"
definition ContentTypeToolCalls :: string where "ContentTypeToolCalls = ''tool_calls''"
definition ContentTypeToolResults :: string where "ContentTypeToolResults = ''tool_results''"

record session =
  sess_id :: string
  sess_agent :: string
  sess_channel :: string
  sess_peer :: string
  sess_created :: timestamp
  sess_updated :: timestamp

record message =
  msg_id :: string
  msg_session :: string
  msg_role :: string
  msg_type :: string
  msg_content :: string
  msg_tokens :: int
  msg_created :: timestamp

record checkpoint_row =
  cpr_id :: string
  cpr_session :: string
  cpr_step :: int
  cpr_snapshot :: string
  cpr_outputs :: string
  cpr_summary :: string
  cpr_created :: timestamp

record db =
  sessions :: "session list"
  messages :: "message list"
  checkpoints :: "checkpoint_row list"
  db_ops :: nat
  db_fault :: "nat \<Rightarrow> go_error option"

type_synonym 'a db_result = "(go_error + 'a) \<times> db"

definition ErrRecordNotFound :: go_error where "ErrRecordNotFound = ErrText ''record not found''"

definition ErrUnique :: "string \<Rightarrow> go_error" where
  "ErrUnique cols = ErrText (''UNIQUE constraint failed: '' @ cols)"

definition db_stmt :: "(db \<Rightarrow> 'a db_result) \<Rightarrow> db \<Rightarrow> 'a db_result" where
  "db_stmt body d =
     (let d' = d\<lparr>db_ops := Suc (db_ops d)\<rparr> in
      case db_fault d (db_ops d) of Some e \<Rightarrow> (Inl e, d') | None \<Rightarrow> body d')"

subsection \<open>Sessions\<close>

definition CreateSession :: "session \<Rightarrow> db \<Rightarrow> unit db_result" where
  "CreateSession sess = db_stmt (\<lambda>d.
     if list_ex (\<lambda>s. sess_id s = sess_id sess) (sessions d) then (Inl (ErrUnique ''sessions.id''), d)
     else (Inr (), d\<lparr>sessions := sessions d @ [sess]\<rparr>))"

definition GetSession :: "string \<Rightarrow> db \<Rightarrow> session db_result" where
  "GetSession i = db_stmt (\<lambda>d.
     case find (\<lambda>s. sess_id s = i) (sessions d) of
       None \<Rightarrow> (Inl ErrRecordNotFound, d) | Some s \<Rightarrow> (Inr s, d))"

definition FindSession :: "string \<Rightarrow> string \<Rightarrow> string \<Rightarrow> db \<Rightarrow> session db_result" where
  "FindSession agentID channel peerID = db_stmt (\<lambda>d.
     case sort_key (\<lambda>s. - sess_updated s)
        (filter (\<lambda>s. sess_agent s = agentID \<and> sess_channel s = channel \<and> sess_peer s = peerID) (sessions d)) of
       [] \<Rightarrow> (Inl ErrRecordNotFound, d) | s # _ \<Rightarrow> (Inr s, d))"

definition update_sessions :: "string \<Rightarrow> (session \<Rightarrow> session) \<Rightarrow> db \<Rightarrow> db" where
  "update_sessions i f d = d\<lparr>sessions := map (\<lambda>s. if sess_id s = i then f s else s) (sessions d)\<rparr>"

definition TouchSession :: "timestamp \<Rightarrow> string \<Rightarrow> db \<Rightarrow> unit db_result" where
  "TouchSession now i = db_stmt (\<lambda>d. (Inr (), update_sessions i (\<lambda>s. s\<lparr>sess_updated := now\<rparr>) d))"

definition UpdateSessionChannel :: "timestamp \<Rightarrow> string \<Rightarrow> string \<Rightarrow> string \<Rightarrow> db \<Rightarrow> unit db_result" where
  "UpdateSessionChannel now i channel peerID = db_stmt (\<lambda>d. (Inr (), update_sessions i
     (\<lambda>s. s\<lparr>sess_channel := channel, sess_peer := peerID, sess_updated := now\<rparr>) d))"

text \<open>The result is the session and whether it was created.\<close>

definition GetOrCreateSession :: "timestamp \<Rightarrow> string \<Rightarrow> string \<Rightarrow> string \<Rightarrow> db \<Rightarrow> (session \<times> bool) db_result" where
  "GetOrCreateSession now i channel peerID d =
     (case GetSession i d of
        (Inr sess, d1) \<Rightarrow>
          if sess_channel sess \<noteq> channel \<or> sess_peer sess \<noteq> peerID
          then (case UpdateSessionChannel now i channel peerID d1 of
                  (Inl e, d2) \<Rightarrow> (Inl (ErrWrap ''updating session channel: '' e), d2)
                | (Inr _, d2) \<Rightarrow> (Inr (sess\<lparr>sess_channel := channel, sess_peer := peerID\<rparr>, False), d2))
          else (Inr (sess, False), d1)
      | (Inl _, d1) \<Rightarrow>
          (let sess = \<lparr>sess_id = i, sess_agent = ''default'', sess_channel = channel, sess_peer = peerID,
                       sess_created = now, sess_updated = now\<rparr> in
           case CreateSession sess d1 of
             (Inl e, d2) \<Rightarrow> (Inl (ErrWrap ''creating session: '' e), d2)
           | (Inr _, d2) \<Rightarrow> (Inr (sess, True), d2)))"

subsection \<open>Messages\<close>

definition normalize_msg :: "message \<Rightarrow> message" where
  "normalize_msg m = (if msg_type m = [] then m\<lparr>msg_type := ContentTypeText\<rparr> else m)"

definition AppendMessage :: "message \<Rightarrow> db \<Rightarrow> unit db_result" where
  "AppendMessage msg = db_stmt (\<lambda>d. let m = normalize_msg msg in
     if list_ex (\<lambda>x. msg_id x = msg_id m) (messages d) then (Inl (ErrUnique ''messages.id''), d)
     else (Inr (), d\<lparr>messages := messages d @ [m]\<rparr>))"

definition session_messages :: "string \<Rightarrow> db \<Rightarrow> message list" where
  "session_messages sid d = sort_key msg_created (filter (\<lambda>m. msg_session m = sid) (messages d))"

definition take_last :: "int \<Rightarrow> 'a list \<Rightarrow> 'a list" where
  "take_last n xs = (if n < 0 then xs else drop (length xs - nat n) xs)"

definition RecentMessages :: "string \<Rightarrow> int \<Rightarrow> db \<Rightarrow> message list db_result" where
  "RecentMessages sid limit = db_stmt (\<lambda>d. (Inr (take_last limit (session_messages sid d)), d))"

definition MessageCount :: "string \<Rightarrow> db \<Rightarrow> int db_result" where
  "MessageCount sid = db_stmt (\<lambda>d. (Inr (int (length (filter (\<lambda>m. msg_session m = sid) (messages d)))), d))"

definition SessionTokenUsage :: "string \<Rightarrow> db \<Rightarrow> int db_result" where
  "SessionTokenUsage sid = db_stmt (\<lambda>d.
     (Inr (sum_list (map msg_tokens (filter (\<lambda>m. msg_session m = sid) (messages d)))), d))"

definition DeleteMessages :: "string list \<Rightarrow> db \<Rightarrow> unit db_result" where
  "DeleteMessages ids d =
     (if ids = [] then (Inr (), d)
      else db_stmt (\<lambda>d. (Inr (), d\<lparr>messages := filter (\<lambda>m. msg_id m \<notin> set ids) (messages d)\<rparr>)) d)"

subsection \<open>Checkpoints\<close>

text \<open>
  \<^verbatim>\<open>Save\<close> updates the row with the same primary key, or inserts; the unique index on
  (session, step) refuses a second row for the same step of a session. A zero creation time
  is replaced by the current one.
\<close>

definition stamp_checkpoint :: "timestamp \<Rightarrow> checkpoint_row \<Rightarrow> checkpoint_row" where
  "stamp_checkpoint now cp = (if cpr_created cp = 0 then cp\<lparr>cpr_created := now\<rparr> else cp)"

definition SaveCheckpoint :: "timestamp \<Rightarrow> checkpoint_row \<Rightarrow> db \<Rightarrow> unit db_result" where
  "SaveCheckpoint now cp0 = db_stmt (\<lambda>d.
     let cp = stamp_checkpoint now cp0 in
     if list_ex (\<lambda>c. cpr_id c \<noteq> cpr_id cp \<and> cpr_session c = cpr_session cp \<and> cpr_step c = cpr_step cp) (checkpoints d)
     then (Inl (ErrUnique ''checkpoints.session_id, checkpoints.step_index''), d)
     else if list_ex (\<lambda>c. cpr_id c = cpr_id cp) (checkpoints d)
     then (Inr (), d\<lparr>checkpoints := map (\<lambda>c. if cpr_id c = cpr_id cp then cp else c) (checkpoints d)\<rparr>)
     else (Inr (), d\<lparr>checkpoints := checkpoints d @ [cp]\<rparr>))"

definition LatestCheckpoint :: "string \<Rightarrow> db \<Rightarrow> checkpoint_row db_result" where
  "LatestCheckpoint sid = db_stmt (\<lambda>d.
     case sort_key (\<lambda>c. - cpr_step c) (filter (\<lambda>c. cpr_session c = sid) (checkpoints d)) of
       [] \<Rightarrow> (Inl ErrRecordNotFound, d) | c # _ \<Rightarrow> (Inr c, d))"

definition CheckpointAtStep :: "string \<Rightarrow> int \<Rightarrow> db \<Rightarrow> checkpoint_row db_result" where
  "CheckpointAtStep sid step = db_stmt (\<lambda>d.
     case find (\<lambda>c. cpr_session c = sid \<and> cpr_step c = step) (checkpoints d) of
       None \<Rightarrow> (Inl ErrRecordNotFound, d) | Some c \<Rightarrow> (Inr c, d))"

definition DeleteCheckpointsOlderThan :: "timestamp \<Rightarrow> db \<Rightarrow> int db_result" where
  "DeleteCheckpointsOlderThan before = db_stmt (\<lambda>d.
     (Inr (int (length (filter (\<lambda>c. cpr_created c < before) (checkpoints d)))),
      d\<lparr>checkpoints := filter (\<lambda>c. \<not> cpr_created c < before) (checkpoints d)\<rparr>))"

subsection \<open>Integrity\<close>

definition checkpoint_unique :: "checkpoint_row list \<Rightarrow> bool" where
  "checkpoint_unique cs \<longleftrightarrow> distinct (map cpr_id cs) \<and> distinct (map (\<lambda>c. (cpr_session c, cpr_step c)) cs)"

definition db_ok :: "db \<Rightarrow> bool" where
  "db_ok d \<longleftrightarrow> distinct (map sess_id (sessions d)) \<and> distinct (map msg_id (messages d)) \<and>
     checkpoint_unique (checkpoints d) \<and> (\<forall>m \<in> set (messages d). msg_type m \<noteq> [])"

text \<open>
  The contract of a database operation: whatever it returns, the integrity constraints hold
  afterwards and the fault schedule is untouched. Operations that only read keep all rows.
\<close>

locale db_operation =
  fixes run :: "db \<Rightarrow> 'a db_result"
  assumes keeps_ok: "db_ok d \<Longrightarrow> db_ok (snd (run d))"
    and keeps_fault: "db_fault (snd (run d)) = db_fault d"
begin

lemma ok_result: "db_ok d \<Longrightarrow> run d = (r, d') \<Longrightarrow> db_ok d'"
  using keeps_ok [of d] by simp

lemma fault_result: "run d = (r, d') \<Longrightarrow> db_fault d' = db_fault d"
  using keeps_fault [of d] by simp

end

locale db_query = db_operation +
  assumes keeps_rows: "sessions (snd (run d)) = sessions d \<and> messages (snd (run d)) = messages d \<and>
      checkpoints (snd (run d)) = checkpoints d"
begin

lemma rows_result: "run d = (r, d') \<Longrightarrow> sessions d' = sessions d \<and> messages d' = messages d"
  using keeps_rows [of d] by simp

end

text \<open>Where replies to the sessions go. Most operations leave it alone: the locale \<open>db_routing\<close>.\<close>

definition routes :: "db \<Rightarrow> (string \<times> string \<times> string) list" where
  "routes d = map (\<lambda>s. (sess_id s, sess_channel s, sess_peer s)) (sessions d)"

definition same_routes :: "db \<Rightarrow> db \<Rightarrow> bool" where
  "same_routes d d' \<longleftrightarrow> routes d' = routes d \<and> db_fault d' = db_fault d"

lemma same_routes_refl [simp, intro]: "same_routes d d"
  by (simp add: same_routes_def)

lemma same_routes_trans: "same_routes a b \<Longrightarrow> same_routes b c \<Longrightarrow> same_routes a c"
  by (simp add: same_routes_def)

locale db_routing = db_operation +
  assumes keeps_routes: "routes (snd (run d)) = routes d"
begin

lemma same_routes_run: "same_routes d (snd (run d))"
  by (simp add: same_routes_def keeps_routes keeps_fault)

lemma same_routes_result: "run d = (r, d') \<Longrightarrow> same_routes d d'"
  using same_routes_run [of d] by simp

end

sublocale db_query < db_routing run
  by unfold_locales (simp add: routes_def keeps_rows)

lemma db_stmt_ok:
  assumes "\<And>d. db_ok d \<Longrightarrow> db_ok (snd (body d))" and "db_ok d"
  shows "db_ok (snd (db_stmt body d))"
proof -
  have "db_ok (d\<lparr>db_ops := n\<rparr>)" for n using assms(2) by (simp add: db_ok_def)
  with assms(1) show ?thesis by (simp add: db_stmt_def Let_def split: option.splits)
qed

lemma db_stmt_fault:
  assumes "\<And>d. db_fault (snd (body d)) = db_fault d"
  shows "db_fault (snd (db_stmt body d)) = db_fault d"
  using assms by (simp add: db_stmt_def Let_def split: option.splits)

lemma db_stmt_rows:
  assumes "\<And>d. snd (body d) = d"
  shows "sessions (snd (db_stmt body d)) = sessions d \<and> messages (snd (db_stmt body d)) = messages d \<and>
    checkpoints (snd (db_stmt body d)) = checkpoints d"
  using assms by (simp add: db_stmt_def Let_def split: option.splits)

lemma db_query_stmt: "(\<And>d. snd (body d) = d) \<Longrightarrow> db_query (db_stmt body)"
proof unfold_locales
  fix d assume frame: "\<And>d. snd (body d) = d"
  show "db_ok d \<Longrightarrow> db_ok (snd (db_stmt body d))" using frame by (intro db_stmt_ok) auto
  show "db_fault (snd (db_stmt body d)) = db_fault d" using frame by (intro db_stmt_fault) auto
  show "sessions (snd (db_stmt body d)) = sessions d \<and> messages (snd (db_stmt body d)) = messages d \<and>
    checkpoints (snd (db_stmt body d)) = checkpoints d" using frame by (rule db_stmt_rows)
qed

lemma db_operation_stmt:
  "(\<And>d. db_ok d \<Longrightarrow> db_ok (snd (body d))) \<Longrightarrow> (\<And>d. db_fault (snd (body d)) = db_fault d) \<Longrightarrow>
     db_operation (db_stmt body)"
  by unfold_locales (auto intro: db_stmt_ok db_stmt_fault)

interpretation GetSession: db_query "GetSession i" for i
  unfolding GetSession_def by (rule db_query_stmt) (simp split: option.splits)

interpretation RecentMessages: db_query "RecentMessages sid limit" for sid limit
  unfolding RecentMessages_def by (rule db_query_stmt) simp

interpretation MessageCount: db_query "MessageCount sid" for sid
  unfolding MessageCount_def by (rule db_query_stmt) simp

interpretation FindSession: db_query "FindSession a c p" for a c p
  unfolding FindSession_def by (rule db_query_stmt) (simp split: list.splits)

interpretation LatestCheckpoint: db_query "LatestCheckpoint sid" for sid
  unfolding LatestCheckpoint_def by (rule db_query_stmt) (simp split: list.splits)

interpretation CheckpointAtStep: db_query "CheckpointAtStep sid step" for sid step
  unfolding CheckpointAtStep_def by (rule db_query_stmt) (simp split: option.splits)

interpretation CreateSession: db_operation "CreateSession s" for s
  unfolding CreateSession_def
  by (rule db_operation_stmt) (auto simp: db_ok_def list_ex_iff)

lemma map_sess_id_update:
  "(\<And>s. sess_id (f s) = sess_id s) \<Longrightarrow> map sess_id (map (\<lambda>s. if sess_id s = i then f s else s) ss) = map sess_id ss"
  by (induction ss) auto

lemma update_sessions_ok: "(\<And>s. sess_id (f s) = sess_id s) \<Longrightarrow> db_ok d \<Longrightarrow> db_ok (update_sessions i f d)"
  using map_sess_id_update [of f i "sessions d"] by (simp add: db_ok_def update_sessions_def del: map_map)

interpretation TouchSession: db_operation "TouchSession now i" for now i
  unfolding TouchSession_def
  by (rule db_operation_stmt) (simp_all add: update_sessions_ok, simp add: update_sessions_def)

interpretation UpdateSessionChannel: db_operation "UpdateSessionChannel now i c p" for now i c p
  unfolding UpdateSessionChannel_def
  by (rule db_operation_stmt) (simp_all add: update_sessions_ok, simp add: update_sessions_def)

interpretation AppendMessage: db_operation "AppendMessage m" for m
  unfolding AppendMessage_def
  by (rule db_operation_stmt)
    (auto simp: db_ok_def list_ex_iff Let_def normalize_msg_def ContentTypeText_def)

interpretation DeleteMessages: db_operation "DeleteMessages ids" for ids
proof
  fix d
  show "db_ok d \<Longrightarrow> db_ok (snd (DeleteMessages ids d))"
    by (auto simp: DeleteMessages_def intro!: db_stmt_ok) (auto simp: db_ok_def distinct_map_filter)
  show "db_fault (snd (DeleteMessages ids d)) = db_fault d"
    by (auto simp: DeleteMessages_def intro!: db_stmt_fault)
qed

interpretation DeleteCheckpointsOlderThan: db_operation "DeleteCheckpointsOlderThan before" for before
  unfolding DeleteCheckpointsOlderThan_def
  by (rule db_operation_stmt) (auto simp: db_ok_def checkpoint_unique_def distinct_map_filter)

lemma distinct_map_replace:
  assumes "distinct (map g xs)" and "distinct (map f xs)" and "\<forall>c \<in> set xs. g c \<noteq> g y \<longrightarrow> f c \<noteq> f y"
  shows "distinct (map f (map (\<lambda>c. if g c = g y then y else c) xs))"
  using assms
proof (induction xs)
  case (Cons c xs)
  have "f y \<notin> f ` set xs" if "g c = g y"
  proof
    assume "f y \<in> f ` set xs"
    then obtain z where "z \<in> set xs" "f z = f y" by force
    moreover from this Cons.prems(1) that have "g z \<noteq> g y" by (metis distinct.simps(2) image_eqI list.simps(9) set_map)
    ultimately show False using Cons.prems(3) by simp
  qed
  moreover have "(\<lambda>c. if g c = g y then y else c) ` set xs \<subseteq> insert y (set xs)" by auto
  ultimately show ?case using Cons by (auto simp: image_iff)
qed simp

lemma map_replace_key: "map g (map (\<lambda>c. if g c = g y then y else c) xs) = map g xs"
  by (induction xs) auto

lemma SaveCheckpoint_unique:
  assumes "checkpoint_unique cs"
    and "\<not> list_ex (\<lambda>c. cpr_id c \<noteq> cpr_id cp \<and> cpr_session c = cpr_session cp \<and> cpr_step c = cpr_step cp) cs"
  shows "checkpoint_unique (map (\<lambda>c. if cpr_id c = cpr_id cp then cp else c) cs)"
    and "\<not> list_ex (\<lambda>c. cpr_id c = cpr_id cp) cs \<Longrightarrow> checkpoint_unique (cs @ [cp])"
proof -
  from assms(2) have "\<forall>c \<in> set cs. cpr_id c \<noteq> cpr_id cp \<longrightarrow> (cpr_session c, cpr_step c) \<noteq> (cpr_session cp, cpr_step cp)"
    by (auto simp: list_ex_iff)
  with assms(1) show "checkpoint_unique (map (\<lambda>c. if cpr_id c = cpr_id cp then cp else c) cs)"
    using distinct_map_replace [of cpr_id cs "\<lambda>c. (cpr_session c, cpr_step c)" cp]
      map_replace_key [of cpr_id cp cs]
    by (simp add: checkpoint_unique_def del: map_map)
  show "checkpoint_unique (cs @ [cp])" if "\<not> list_ex (\<lambda>c. cpr_id c = cpr_id cp) cs"
    using assms that by (auto simp: checkpoint_unique_def list_ex_iff)
qed

interpretation SaveCheckpoint: db_operation "SaveCheckpoint now cp" for now cp
  unfolding SaveCheckpoint_def
  by (rule db_operation_stmt) (auto simp: db_ok_def Let_def intro: SaveCheckpoint_unique)

interpretation GetOrCreateSession: db_operation "GetOrCreateSession now i c p" for now i c p
proof
  fix d
  obtain g d1 where g: "GetSession i d = (g, d1)" by force
  let ?new = "\<lparr>sess_id = i, sess_agent = ''default'', sess_channel = c, sess_peer = p,
      sess_created = now, sess_updated = now\<rparr>"
  have "snd (GetOrCreateSession now i c p d) \<in>
      {d1, snd (UpdateSessionChannel now i c p d1), snd (CreateSession ?new d1)}"
    by (simp add: GetOrCreateSession_def g Let_def split: prod.splits sum.splits)
  then show "db_ok d \<Longrightarrow> db_ok (snd (GetOrCreateSession now i c p d))"
    and "db_fault (snd (GetOrCreateSession now i c p d)) = db_fault d"
    using GetSession.ok_result [OF _ g] GetSession.fault_result [OF g]
    by (auto intro: UpdateSessionChannel.keeps_ok CreateSession.keeps_ok
        simp: UpdateSessionChannel.keeps_fault CreateSession.keeps_fault)
qed

interpretation TouchSession: db_routing "TouchSession now i" for now i
  by unfold_locales (simp add: TouchSession_def db_stmt_def routes_def Let_def update_sessions_def split: option.splits)

interpretation AppendMessage: db_routing "AppendMessage m" for m
  by unfold_locales (simp add: AppendMessage_def db_stmt_def routes_def Let_def split: option.splits)

interpretation DeleteMessages: db_routing "DeleteMessages ids" for ids
  by unfold_locales (simp add: DeleteMessages_def db_stmt_def routes_def Let_def split: option.splits)

interpretation SaveCheckpoint: db_routing "SaveCheckpoint now cp" for now cp
  by unfold_locales (simp add: SaveCheckpoint_def db_stmt_def routes_def Let_def split: option.splits)

lemmas store_routes =
  GetSession.same_routes_result RecentMessages.same_routes_result MessageCount.same_routes_result
  TouchSession.same_routes_result AppendMessage.same_routes_result DeleteMessages.same_routes_result
  SaveCheckpoint.same_routes_result

lemmas store_ok =
  GetSession.ok_result FindSession.ok_result RecentMessages.ok_result MessageCount.ok_result
  CreateSession.ok_result TouchSession.ok_result UpdateSessionChannel.ok_result
  GetOrCreateSession.ok_result AppendMessage.ok_result DeleteMessages.ok_result
  SaveCheckpoint.ok_result DeleteCheckpointsOlderThan.ok_result

subsection \<open>Messages in time order\<close>

lemma insort_key_snoc: "f x \<le> f y \<Longrightarrow> insort_key f x (zs @ [y]) = insort_key f x zs @ [y]"
  by (induction zs) auto

lemma sort_key_snoc_max:
  "(\<forall>x \<in> set xs. f x \<le> f y) \<Longrightarrow> sort_key f (xs @ [y]) = sort_key f xs @ [y]"
  by (induction xs) (auto simp: insort_key_snoc)

lemma AppendMessage_Inr:
  "AppendMessage m d = (Inr (), d') \<Longrightarrow>
     messages d' = messages d @ [normalize_msg m] \<and> sessions d' = sessions d \<and> checkpoints d' = checkpoints d"
  by (auto simp: AppendMessage_def db_stmt_def Let_def split: option.splits if_splits)

lemma AppendMessage_Inl:
  "AppendMessage m d = (Inl e, d') \<Longrightarrow> messages d' = messages d \<and> sessions d' = sessions d"
  by (auto simp: AppendMessage_def db_stmt_def Let_def split: option.splits if_splits)

lemma session_messages_append:
  assumes "AppendMessage m d = (Inr (), d')"
    and "\<forall>x \<in> set (messages d). msg_session x = msg_session m \<longrightarrow> msg_created x \<le> msg_created m"
  shows "session_messages (msg_session m) d' = session_messages (msg_session m) d @ [normalize_msg m]"
    and "sid \<noteq> msg_session m \<Longrightarrow> session_messages sid d' = session_messages sid d"
proof -
  have n: "msg_session (normalize_msg m) = msg_session m" "msg_created (normalize_msg m) = msg_created m"
    by (simp_all add: normalize_msg_def)
  from AppendMessage_Inr [OF assms(1)] have ms: "messages d' = messages d @ [normalize_msg m]" by simp
  show "session_messages (msg_session m) d' = session_messages (msg_session m) d @ [normalize_msg m]"
    using assms(2) by (simp add: session_messages_def ms n sort_key_snoc_max)
  show "session_messages sid d' = session_messages sid d" if "sid \<noteq> msg_session m"
    using that by (simp add: session_messages_def ms n)
qed

lemma take_last_snoc: "0 < n \<Longrightarrow> take_last n (xs @ [x]) = take_last (n - 1) xs @ [x]"
  by (auto simp: take_last_def nat_diff_distrib Suc_diff_le)

lemma RecentMessages_Inr: "RecentMessages sid n d = (Inr ms, d') \<Longrightarrow> ms = take_last n (session_messages sid d)"
  by (auto simp: RecentMessages_def db_stmt_def session_messages_def Let_def split: option.splits)

lemma filter_update_sessions:
  assumes "\<And>s. sess_id (f s) = sess_id s"
  shows "filter (\<lambda>s. sess_id s \<noteq> i) (sessions (update_sessions i f d)) = filter (\<lambda>s. sess_id s \<noteq> i) (sessions d)"
proof -
  have "filter (\<lambda>s. sess_id s \<noteq> i) (map (\<lambda>s. if sess_id s = i then f s else s) ss) = filter (\<lambda>s. sess_id s \<noteq> i) ss" for ss
    using assms by (induction ss) auto
  then show ?thesis by (simp add: update_sessions_def)
qed

lemma messages_update_sessions [simp]: "messages (update_sessions i f d) = messages d"
  by (simp add: update_sessions_def)

subsection \<open>Properties\<close>

text \<open>
  the window of recent messages slides by one. When a message is appended whose time is
  not before those of its session, the next \<open>n\<close> recent messages of the session are the
  previous \<open>n - 1\<close> followed by the new message (with its content type defaulted), in time
  order; other sessions read the same messages as before.
\<close>

theorem RecentMessages_after_append:
  assumes app: "AppendMessage m d = (Inr (), d1)"
    and newest: "\<forall>x \<in> set (messages d). msg_session x = msg_session m \<longrightarrow> msg_created x \<le> msg_created m"
    and recent: "RecentMessages sid n d1 = (Inr ms, d2)" and n: "0 < n"
  shows "ms = (if sid = msg_session m then take_last (n - 1) (session_messages sid d) @ [normalize_msg m]
               else take_last n (session_messages sid d)) \<and> sorted (map msg_created ms)"
proof -
  have ms: "ms = take_last n (session_messages sid d1)" using RecentMessages_Inr [OF recent] .
  have "sorted (map msg_created (session_messages sid d1))"
    by (simp add: session_messages_def)
  then have "sorted (map msg_created ms)"
    by (simp add: ms take_last_def drop_map [symmetric] sorted_wrt_drop)
  with ms n session_messages_append [OF app newest] show ?thesis
    by (auto simp: take_last_snoc)
qed

definition demo_msg :: "string \<Rightarrow> timestamp \<Rightarrow> message" where
  "demo_msg i t = \<lparr>msg_id = i, msg_session = ''s'', msg_role = RoleUser, msg_type = [],
     msg_content = ''hi'', msg_tokens = 0, msg_created = t\<rparr>"

definition demo_db :: db where
  "demo_db = \<lparr>sessions = [], messages = [normalize_msg (demo_msg ''a'' 1)], checkpoints = [],
     db_ops = 0, db_fault = (\<lambda>n. None)\<rparr>"

theorem RecentMessages_after_append_witness:
  "fst (RecentMessages ''s'' 2 (snd (AppendMessage (demo_msg ''b'' 2) demo_db)))
     = Inr [normalize_msg (demo_msg ''a'' 1), normalize_msg (demo_msg ''b'' 2)]"
proof -
  let ?d1 = "demo_db\<lparr>messages := messages demo_db @ [normalize_msg (demo_msg ''b'' 2)], db_ops := 1\<rparr>"
  have app: "AppendMessage (demo_msg ''b'' 2) demo_db = (Inr (), ?d1)"
    by (simp add: AppendMessage_def db_stmt_def demo_db_def demo_msg_def normalize_msg_def)
  obtain ms d2 where r: "RecentMessages ''s'' 2 ?d1 = (Inr ms, d2)"
    by (simp add: RecentMessages_def db_stmt_def demo_db_def Let_def)
  have "ms = take_last 1 (session_messages ''s'' demo_db) @ [normalize_msg (demo_msg ''b'' 2)]"
    using RecentMessages_after_append [OF app _ r] by (simp add: demo_db_def demo_msg_def normalize_msg_def)
  then have "ms = [normalize_msg (demo_msg ''a'' 1), normalize_msg (demo_msg ''b'' 2)]"
    by (simp add: session_messages_def demo_db_def demo_msg_def normalize_msg_def take_last_def)
  with app r show ?thesis by simp
qed

text \<open>
  resolving a session is exact on every branch. If the lookup and the following write
  succeed, the returned session has the requested id, channel and peer; it is reported as
  created exactly when no session had that id, and then it is the new last row; an existing
  row keeps its agent and creation time; rows of other sessions, all messages and the
  integrity constraints are untouched.
\<close>

theorem GetOrCreateSession_exact:
  assumes ok: "db_ok d" and no_fault: "db_fault d (db_ops d) = None"
    and res: "GetOrCreateSession now i c p d = (Inr (sess, created), d')"
  shows "sess_id sess = i \<and> sess_channel sess = c \<and> sess_peer sess = p \<and>
    (created \<longleftrightarrow> i \<notin> sess_id ` set (sessions d)) \<and>
    (created \<longrightarrow> sessions d' = sessions d @ [sess]) \<and>
    (\<not> created \<longrightarrow> (\<exists>old \<in> set (sessions d). sess_id old = i \<and> sess_agent sess = sess_agent old \<and>
       sess_created sess = sess_created old)) \<and>
    filter (\<lambda>s. sess_id s \<noteq> i) (sessions d') = filter (\<lambda>s. sess_id s \<noteq> i) (sessions d) \<and>
    messages d' = messages d \<and> db_ok d'"
proof -
  have okd: "db_ok d'" using GetOrCreateSession.ok_result [OF ok res] .
  obtain g d1 where g: "GetSession i d = (g, d1)" by force
  show ?thesis
  proof (cases g)
    case (Inl e)
    with g no_fault have "i \<notin> sess_id ` set (sessions d)" and d1: "d1 = d\<lparr>db_ops := Suc (db_ops d)\<rparr>"
      by (auto simp: GetSession_def db_stmt_def Let_def find_None_iff split: option.splits)
    with Inl g res okd show ?thesis
      by (auto simp: GetOrCreateSession_def CreateSession_def db_stmt_def Let_def
          split: option.splits if_splits)
  next
    case (Inr old)
    with g no_fault have old: "old \<in> set (sessions d)" "sess_id old = i" and d1: "d1 = d\<lparr>db_ops := Suc (db_ops d)\<rparr>"
      by (auto simp: GetSession_def db_stmt_def Let_def find_Some_iff split: option.splits)
    with Inr g res okd show ?thesis
      by (auto simp: GetOrCreateSession_def UpdateSessionChannel_def db_stmt_def Let_def
          filter_update_sessions split: option.splits if_splits)
  qed
qed

theorem GetOrCreateSession_exact_witness:
  "\<exists>sess d'. GetOrCreateSession 5 ''x'' ''slack'' ''bob'' demo_db = (Inr (sess, True), d') \<and>
     sess_channel sess = ''slack'' \<and> db_ok d'"
proof -
  have ok: "db_ok demo_db" and nf: "db_fault demo_db (db_ops demo_db) = None"
    by (simp_all add: db_ok_def demo_db_def checkpoint_unique_def demo_msg_def normalize_msg_def ContentTypeText_def)
  obtain sess d' where r: "GetOrCreateSession 5 ''x'' ''slack'' ''bob'' demo_db = (Inr (sess, True), d')"
    by (simp add: GetOrCreateSession_def GetSession_def CreateSession_def db_stmt_def demo_db_def Let_def)
  with GetOrCreateSession_exact [OF ok nf r] show ?thesis by blast
qed

end
