(* ===== verification/Memory_Store.thy ===== *)
theory Memory_Store
  imports Keyed_Store "HOL-Library.List_Lexorder" "HOL-Library.Char_ord"
begin

section \<open>Agent memory (\<^verbatim>\<open>pkg/memory/memory.go\<close>)\<close>

text \<open>
  The memory table with its unique index on (agent, key), the immutable keys, the search
  with SQL \<^verbatim>\<open>LIKE\<close> patterns, and the change detection that builds the prompt's memory section.
  Each SQL statement takes its fault (an error, or none) as an argument; the SHA-256 based
  content hash, new ids and the time are arguments too. Keys are compared bytewise, as
  SQLite's default collation does.
\<close>

record mem_entry =
  me_id :: string
  me_agent :: string
  me_key :: string
  me_value :: string
  me_hash :: string
  me_updated :: timestamp

type_synonym mem_table = "mem_entry list"

datatype mem_error = MemNotFound string string | MemImmutableSet string | MemImmutableDel string | MemDb go_error

definition mem_match :: "string \<Rightarrow> string \<Rightarrow> mem_entry \<Rightarrow> bool" where
  "mem_match agentID key e \<longleftrightarrow> me_agent e = agentID \<and> me_key e = key"

definition memory_Get :: "go_error option \<Rightarrow> mem_table \<Rightarrow> string \<Rightarrow> string \<Rightarrow> mem_error + mem_entry" where
  "memory_Get fault t agentID key =
     (case fault of
        Some err \<Rightarrow> Inl (MemDb err)
      | None \<Rightarrow> (case find (mem_match agentID key) t of
           None \<Rightarrow> Inl (MemNotFound key agentID) | Some e \<Rightarrow> Inr e))"

text \<open>The insert with its conflict clause: value, hash and time of an existing row change.\<close>

definition mem_upsert :: "mem_entry \<Rightarrow> mem_table \<Rightarrow> mem_table" where
  "mem_upsert e t =
     (if list_ex (mem_match (me_agent e) (me_key e)) t
      then map (\<lambda>x. if mem_match (me_agent e) (me_key e) x
                    then x\<lparr>me_value := me_value e, me_hash := me_hash e, me_updated := me_updated e\<rparr> else x) t
      else t @ [e])"

definition new_entry :: "(string \<Rightarrow> string) \<Rightarrow> string \<Rightarrow> timestamp \<Rightarrow> string \<Rightarrow> string \<Rightarrow> string \<Rightarrow> mem_entry" where
  "new_entry contentHash newID now agentID key value =
     \<lparr>me_id = newID, me_agent = agentID, me_key = key, me_value = value,
      me_hash = contentHash value, me_updated = now\<rparr>"

text \<open>\<^verbatim>\<open>Set\<close>; the two faults are those of the lookup of an immutable key and of the insert.\<close>

definition memory_Set :: "(string \<Rightarrow> string) \<Rightarrow> string set \<Rightarrow> go_error option \<Rightarrow> go_error option \<Rightarrow>
    string \<Rightarrow> timestamp \<Rightarrow> string \<Rightarrow> string \<Rightarrow> string \<Rightarrow> mem_table \<Rightarrow> (mem_error + unit) \<times> mem_table" where
  "memory_Set contentHash immutableKeys fget fput newID now agentID key value t =
     (if key \<in> immutableKeys \<and> (case memory_Get fget t agentID key of Inr existing \<Rightarrow> True | Inl _ \<Rightarrow> False)
      then (Inl (MemImmutableSet key), t)
      else (case fput of
        Some err \<Rightarrow> (Inl (MemDb err), t)
      | None \<Rightarrow> (Inr (), mem_upsert (new_entry contentHash newID now agentID key value) t)))"

definition memory_Delete :: "string set \<Rightarrow> go_error option \<Rightarrow> string \<Rightarrow> string \<Rightarrow> mem_table \<Rightarrow> (mem_error + unit) \<times> mem_table" where
  "memory_Delete immutableKeys fault agentID key t =
     (if key \<in> immutableKeys then (Inl (MemImmutableDel key), t)
      else (case fault of
        Some err \<Rightarrow> (Inl (MemDb err), t)
      | None \<Rightarrow> (let t' = filter (\<lambda>e. \<not> mem_match agentID key e) t in
          if length t' = length t then (Inl (MemNotFound key agentID), t') else (Inr (), t'))))"

definition memory_List :: "go_error option \<Rightarrow> mem_table \<Rightarrow> string \<Rightarrow> mem_error + mem_entry list" where
  "memory_List fault t agentID =
     (case fault of Some err \<Rightarrow> Inl (MemDb err)
      | None \<Rightarrow> Inr (sort_key me_key (filter (\<lambda>e. me_agent e = agentID) t)))"

definition memory_Diff :: "go_error option \<Rightarrow> mem_table \<Rightarrow> string \<Rightarrow> timestamp \<Rightarrow> mem_error + mem_entry list" where
  "memory_Diff fault t agentID since =
     (case fault of Some err \<Rightarrow> Inl (MemDb err)
      | None \<Rightarrow> Inr (sort_key me_updated (filter (\<lambda>e. me_agent e = agentID \<and> me_updated e > since) t)))"

subsection \<open>Search\<close>

text \<open>
  SQL's \<^verbatim>\<open>LIKE\<close> with the escape character backslash: \<^verbatim>\<open>%\<close> matches any text, \<^verbatim>\<open>_\<close> one character
  (a byte and its UTF-8 continuation bytes), letters of ASCII match in either case.
\<close>

definition same_letter :: "char \<Rightarrow> char \<Rightarrow> bool" where
  "same_letter c d \<longleftrightarrow> lower_char c = lower_char d"

definition cont_byte :: "char \<Rightarrow> bool" where
  "cont_byte c \<longleftrightarrow> (let n = of_char c :: nat in 128 \<le> n \<and> n < 192)"

abbreviation backslash :: char where "backslash \<equiv> CHR 0x5C"
abbreviation percent :: char where "percent \<equiv> CHR ''%''"
abbreviation underscore :: char where "underscore \<equiv> CHR ''_''"

function (sequential) sql_like :: "string \<Rightarrow> string \<Rightarrow> bool" where
  "sql_like [] s \<longleftrightarrow> s = []"
| "sql_like (c # p) s \<longleftrightarrow>
     (if c = percent then sql_like p s \<or> (case s of [] \<Rightarrow> False | d # t \<Rightarrow> sql_like (c # p) t)
      else if c = backslash then
        (case p of [] \<Rightarrow> False
         | e # p' \<Rightarrow> (case s of [] \<Rightarrow> False | d # t \<Rightarrow> same_letter e d \<and> sql_like p' t))
      else if c = underscore then (case s of [] \<Rightarrow> False | d # t \<Rightarrow> sql_like p (dropWhile cont_byte t))
      else (case s of [] \<Rightarrow> False | d # t \<Rightarrow> same_letter c d \<and> sql_like p t))"
  by pat_completeness auto
termination
proof (relation "measure (\<lambda>(p, s). length p + length s)", goal_cases)
  case (5 c p s d t)
  then show ?case using length_dropWhile_le [of cont_byte t] by simp
qed auto

declare sql_like.simps [simp del]

text \<open>\<^verbatim>\<open>strings.NewReplacer("%", "\%", "_", "\_")\<close>.\<close>

definition escape_like :: "string \<Rightarrow> string" where
  "escape_like q = concat (map (\<lambda>c. if c = percent \<or> c = underscore then [backslash, c] else [c]) q)"

definition memory_Search :: "go_error option \<Rightarrow> mem_table \<Rightarrow> string \<Rightarrow> string \<Rightarrow> mem_error + mem_entry list" where
  "memory_Search fault t agentID query =
     (let pattern = [percent] @ escape_like query @ [percent] in
      case fault of Some err \<Rightarrow> Inl (MemDb err)
      | None \<Rightarrow> Inr (sort_key (\<lambda>e. - me_updated e)
          (filter (\<lambda>e. me_agent e = agentID \<and> (sql_like pattern (me_key e) \<or> sql_like pattern (me_value e))) t)))"

subsection \<open>The memory section of the prompt\<close>

definition entry_line :: "mem_entry \<Rightarrow> string" where
  "entry_line e = ''['' @ me_key e @ '']: '' @ me_value e"

text \<open>A missing key of the hash map reads as the empty string.\<close>

definition hash_at :: "(string \<rightharpoonup> string) \<Rightarrow> string \<Rightarrow> string" where
  "hash_at m k = (case m k of None \<Rightarrow> [] | Some h \<Rightarrow> h)"

definition memory_BuildContext :: "go_error option \<Rightarrow> mem_table \<Rightarrow> string \<Rightarrow> (string \<rightharpoonup> string) \<Rightarrow>
    mem_error + (string \<times> (string \<rightharpoonup> string))" where
  "memory_BuildContext fault t agentID lastHashes =
     (case memory_List fault t agentID of
        Inl err \<Rightarrow> Inl err
      | Inr entries \<Rightarrow>
          (let currentHashes = map_of (rev (map (\<lambda>e. (me_key e, me_hash e)) entries));
               parts = map entry_line (filter (\<lambda>e. hash_at lastHashes (me_key e) \<noteq> me_hash e) entries)
           in if parts = [] then Inr ([], currentHashes) else Inr (Join parts nl, currentHashes)))"

subsection \<open>The table as a keyed store\<close>

definition mem_key :: "mem_entry \<Rightarrow> string \<times> string" where
  "mem_key e = (me_agent e, me_key e)"

definition mem_ok :: "mem_table \<Rightarrow> bool" where
  "mem_ok t \<longleftrightarrow> distinct (map mem_key t)"

definition mem_lookup :: "mem_table \<Rightarrow> string \<times> string \<Rightarrow> string option" where
  "mem_lookup t k = map_option me_value (find (mem_match (fst k) (snd k)) t)"

definition mem_put :: "(string \<Rightarrow> string) \<Rightarrow> string \<Rightarrow> timestamp \<Rightarrow> string \<times> string \<Rightarrow> string \<Rightarrow> mem_table \<Rightarrow> mem_table" where
  "mem_put h i now k v t = mem_upsert (new_entry h i now (fst k) (snd k) v) t"

definition mem_remove :: "string \<times> string \<Rightarrow> mem_table \<Rightarrow> mem_table" where
  "mem_remove k t = filter (\<lambda>e. \<not> mem_match (fst k) (snd k) e) t"

lemma mem_match_key: "mem_match a k e \<longleftrightarrow> mem_key e = (a, k)"
  by (auto simp: mem_match_def mem_key_def)

lemma mem_lookup_alist: "mem_lookup t k = map_of (map (\<lambda>e. (mem_key e, me_value e)) t) k"
  by (induction t) (auto simp: mem_lookup_def mem_match_key)

lemma mem_remove_alist:
  "map (\<lambda>e. (mem_key e, me_value e)) (mem_remove k t) = filter (\<lambda>(k', v). k' \<noteq> k) (map (\<lambda>e. (mem_key e, me_value e)) t)"
  by (induction t) (auto simp: mem_remove_def mem_match_key)

lemma mem_upsert_key: "map mem_key (mem_upsert e t) = (if mem_key e \<in> mem_key ` set t then map mem_key t else map mem_key t @ [mem_key e])"
proof -
  have "list_ex (mem_match (me_agent e) (me_key e)) t \<longleftrightarrow> mem_key e \<in> mem_key ` set t"
    by (auto simp: list_ex_iff mem_match_key mem_key_def image_iff intro: bexI [rotated])
  moreover have "map mem_key (map (\<lambda>x. if mem_match (me_agent e) (me_key e) x
        then x\<lparr>me_value := v, me_hash := h, me_updated := u\<rparr> else x) t) = map mem_key t" for v h u
    by (induction t) (auto simp: mem_key_def)
  ultimately show ?thesis by (simp add: mem_upsert_def del: map_map)
qed


lemma mem_upsert_lookup: "mem_lookup (mem_upsert e t) = (mem_lookup t)(mem_key e \<mapsto> me_value e)"
proof -
  let ?m = "mem_match (me_agent e) (me_key e)"
  let ?u = "\<lambda>x. if ?m x then x\<lparr>me_value := me_value e, me_hash := me_hash e, me_updated := me_updated e\<rparr> else x"
  have upd: "mem_lookup (map ?u t) = (mem_lookup t)(mem_key e \<mapsto> me_value e)" if "list_ex ?m t"
    using that
  proof (induction t)
    case (Cons x t)
    have other: "map_of (map (\<lambda>e. (mem_key e, me_value e)) (map ?u t)) k = map_of (map (\<lambda>e. (mem_key e, me_value e)) t) k"
      if "k \<noteq> mem_key e" for k
      using that by (induction t) (auto simp: mem_match_def mem_key_def)
    show ?case
    proof (cases "?m x")
      case True
      then show ?thesis
        using other by (auto simp: mem_lookup_alist fun_eq_iff mem_key_def mem_match_def simp del: map_map)
    next
      case False
      with Cons.prems have "list_ex ?m t" by simp
      note IH = fun_cong [OF Cons.IH [OF this], unfolded fun_upd_apply]
      have cons: "mem_lookup (y # ys) k = (if mem_key y = k then Some (me_value y) else mem_lookup ys k)" for y ys k
        by (simp add: mem_lookup_alist)
      from False have "mem_key x \<noteq> mem_key e" "?u x = x" by (auto simp: mem_match_key mem_key_def)
      then show ?thesis by (auto simp: fun_eq_iff cons IH)
    qed
  qed simp
  have new: "mem_lookup (t @ [e]) = (mem_lookup t)(mem_key e \<mapsto> me_value e)" if "\<not> list_ex ?m t"
  proof -
    from that have "mem_lookup t (mem_key e) = None"
      by (auto simp: mem_lookup_alist map_of_eq_None_iff list_ex_iff mem_match_key mem_key_def)
    then show ?thesis by (auto simp: mem_lookup_alist fun_eq_iff map_add_def split: option.splits)
  qed
  show ?thesis using upd new by (simp add: mem_upsert_def)
qed

lemma mem_ok_upsert: "mem_ok t \<Longrightarrow> mem_ok (mem_upsert e t)"
  by (simp add: mem_ok_def mem_upsert_key)

lemma mem_key_new [simp]: "mem_key (new_entry h i now a k v) = (a, k)" "me_value (new_entry h i now a k v) = v"
    "me_hash (new_entry h i now a k v) = h v" "me_agent (new_entry h i now a k v) = a"
    "me_key (new_entry h i now a k v) = k"
  by (simp_all add: new_entry_def mem_key_def)

interpretation memory: keyed_store mem_lookup "mem_put h i now" mem_remove mem_ok
proof (unfold_locales, goal_cases)
  case (2 s k)
  have "map_of (filter (\<lambda>(k', v). k' \<noteq> k) xs) = (map_of xs)(k := None)" for xs :: "((string \<times> string) \<times> string) list"
    by (induction xs) (auto simp: fun_eq_iff)
  then show ?case by (simp add: mem_lookup_alist [abs_def] mem_remove_alist del: map_map)
next
  case (4 s k)
  then show ?case by (auto simp: mem_ok_def mem_remove_def intro: distinct_map_filter)
qed (simp_all add: mem_put_def mem_upsert_lookup mem_ok_upsert)

lemma memory_Get_lookup:
  "memory_Get None t a k = (case find (mem_match a k) t of None \<Rightarrow> Inl (MemNotFound k a) | Some e \<Rightarrow> Inr e)"
  by (simp add: memory_Get_def)

lemma memory_Set_table:
  "snd (memory_Set h ik fget fput i now a k v t) =
     (if fst (memory_Set h ik fget fput i now a k v t) = Inr () then mem_put h i now (a, k) v t else t)"
  by (auto simp: memory_Set_def mem_put_def split: option.splits)

lemma memory_Delete_table:
  "snd (memory_Delete ik fault a k t) = (if k \<in> ik \<or> fault \<noteq> None then t else mem_remove (a, k) t)"
  by (auto simp: memory_Delete_def mem_remove_def Let_def split: option.splits)

subsection \<open>Runs of memory operations\<close>

datatype mem_op =
    OpSet "go_error option" "go_error option" string timestamp string string string
  | OpDelete "go_error option" string string

fun mem_step :: "(string \<Rightarrow> string) \<Rightarrow> string set \<Rightarrow> mem_op \<Rightarrow> mem_table \<Rightarrow> mem_table" where
  "mem_step h ik (OpSet fget fput i now a k v) t = snd (memory_Set h ik fget fput i now a k v t)"
| "mem_step h ik (OpDelete fault a k) t = snd (memory_Delete ik fault a k t)"

text \<open>The read that guards an immutable key did not fail.\<close>

fun guard_reads :: "mem_op \<Rightarrow> bool" where
  "guard_reads (OpSet fget fput i now a k v) \<longleftrightarrow> fget = None"
| "guard_reads (OpDelete fault a k) \<longleftrightarrow> True"

lemma mem_step_ok: "mem_ok t \<Longrightarrow> mem_ok (mem_step h ik op t)"
  by (cases op) (simp_all add: memory_Set_table memory_Delete_table memory.inv_put memory.inv_remove)

lemma mem_step_immutable:
  assumes "guard_reads op" "k \<in> ik" "mem_ok t" "mem_lookup t (a, k) = Some v"
  shows "mem_lookup (mem_step h ik op t) (a, k) = Some v"
proof (cases op)
  case (OpSet fget fput i now a' k' v')
  show ?thesis
  proof (cases "(a', k') = (a, k)")
    case True
    with assms OpSet show ?thesis
      by (auto simp: memory_Set_def memory_Get_def mem_lookup_def split: option.splits)
  next
    case False
    then have "mem_lookup (mem_put h i now (a', k') v' t) (a, k) = Some v"
      using memory.get_put_other [OF assms(3), of "(a, k)" "(a', k')"] assms(4) by auto
    with assms OpSet show ?thesis by (simp add: memory_Set_table)
  qed
next
  case (OpDelete fault a' k')
  with assms show ?thesis
    by (cases "(a', k') = (a, k)") (auto simp: memory_Delete_table memory.get_remove_other)
qed

subsection \<open>Search patterns\<close>

lemma sql_like_percent: "sql_like (percent # p) s \<longleftrightarrow> (\<exists>u w. s = u @ w \<and> sql_like p w)"
proof (induction s)
  case Nil
  then show ?case by (simp add: sql_like.simps)
next
  case (Cons d t)
  have "sql_like (percent # p) (d # t) \<longleftrightarrow> sql_like p (d # t) \<or> sql_like (percent # p) t"
    by (subst sql_like.simps) simp
  also have "\<dots> \<longleftrightarrow> (\<exists>u w. d # t = u @ w \<and> sql_like p w)"
    unfolding Cons.IH by (metis append_Cons append_Nil list.exhaust list.sel(3) list.inject)
  finally show ?case .
qed

lemma sql_like_all: "sql_like [percent] s"
  unfolding sql_like_percent by (auto simp: sql_like.simps intro!: exI [of _ s])

lemma sql_like_escaped:
  "sql_like (backslash # e # p) s \<longleftrightarrow> (case s of [] \<Rightarrow> False | d # t \<Rightarrow> same_letter e d \<and> sql_like p t)"
  by (subst sql_like.simps) simp

lemma sql_like_plain:
  "c \<notin> {percent, underscore, backslash} \<Longrightarrow>
     sql_like (c # p) s \<longleftrightarrow> (case s of [] \<Rightarrow> False | d # t \<Rightarrow> same_letter c d \<and> sql_like p t)"
  by (subst sql_like.simps) simp

text \<open>An escaped query without a backslash matches itself and nothing else, up to letter case.\<close>

lemma sql_like_escape:
  assumes "backslash \<notin> set q"
  shows "sql_like (escape_like q @ p) s \<longleftrightarrow>
           (\<exists>u w. s = u @ w \<and> map lower_char u = map lower_char q \<and> sql_like p w)"
  using assms
proof (induction q arbitrary: s)
  case (Cons c q)
  have esc: "escape_like (c # q) @ p =
      (if c = percent \<or> c = underscore then [backslash, c] else [c]) @ escape_like q @ p"
    by (simp add: escape_like_def)
  have step: "sql_like (escape_like (c # q) @ p) s \<longleftrightarrow>
      (case s of [] \<Rightarrow> False | d # t \<Rightarrow> same_letter c d \<and> sql_like (escape_like q @ p) t)"
    unfolding esc using Cons.prems
    by (auto simp: sql_like_escaped sql_like_plain)
  show ?case
  proof (cases s)
    case Nil
    then show ?thesis using step by simp
  next
    case (Cons d t)
    have "sql_like (escape_like (c # q) @ p) s \<longleftrightarrow> same_letter c d \<and> sql_like (escape_like q @ p) t"
      using step Cons by simp
    also have "\<dots> \<longleftrightarrow> same_letter c d \<and> (\<exists>u w. t = u @ w \<and> map lower_char u = map lower_char q \<and> sql_like p w)"
      using Cons.IH Cons.prems by simp
    also have "\<dots> \<longleftrightarrow> (\<exists>u w. s = u @ w \<and> map lower_char u = map lower_char (c # q) \<and> sql_like p w)"
      unfolding Cons same_letter_def
      by (auto simp: Cons_eq_append_conv) (metis append_Cons list.simps(9))
    finally show ?thesis .
  qed
qed (simp add: escape_like_def)

lemma search_pattern:
  assumes "backslash \<notin> set q"
  shows "sql_like ([percent] @ escape_like q @ [percent]) s \<longleftrightarrow> Contains (map lower_char s) (map lower_char q)"
proof -
  have "sql_like ([percent] @ escape_like q @ [percent]) s \<longleftrightarrow>
      (\<exists>x u w. s = x @ u @ w \<and> map lower_char u = map lower_char q)"
    unfolding append_Cons append_Nil sql_like_percent [of "escape_like q @ [percent]"] sql_like_escape [OF assms]
    by (auto simp: sql_like_all)
  also have "\<dots> \<longleftrightarrow> Contains (map lower_char s) (map lower_char q)"
  proof
    assume "\<exists>x u w. s = x @ u @ w \<and> map lower_char u = map lower_char q"
    then obtain x u w where "s = x @ u @ w" "map lower_char u = map lower_char q" by blast
    then have "map lower_char s = map lower_char x @ map lower_char q @ map lower_char w" by simp
    then show "Contains (map lower_char s) (map lower_char q)" unfolding Contains_iff by blast
  next
    assume "Contains (map lower_char s) (map lower_char q)"
    then obtain a b where "map lower_char s = a @ map lower_char q @ b" unfolding Contains_iff by blast
    then obtain x u w where "s = x @ u @ w" "map lower_char u = map lower_char q"
      using map_eq_append_conv [of lower_char] append_eq_map_conv [of "map lower_char q" b lower_char] by metis
    then show "\<exists>x u w. s = x @ u @ w \<and> map lower_char u = map lower_char q" by blast
  qed
  finally show ?thesis .
qed


subsection \<open>The change report\<close>

lemma mem_upsert_agent:
  "mem_ok t \<Longrightarrow> x \<in> set (mem_upsert e t) \<Longrightarrow> mem_key x = mem_key e \<Longrightarrow>
     me_value x = me_value e \<and> me_hash x = me_hash e"
  by (auto simp: mem_upsert_def mem_match_key mem_key_def list_ex_iff split: if_splits)

lemma mem_upsert_other:
  "mem_key x \<noteq> mem_key e \<Longrightarrow> x \<in> set (mem_upsert e t) \<longleftrightarrow> x \<in> set t"
  by (auto simp: mem_upsert_def mem_match_key mem_key_def image_iff split: if_splits)

lemma mem_upsert_has: "\<exists>x \<in> set (mem_upsert e t). mem_key x = mem_key e"
proof -
  have "mem_key e \<in> set (map mem_key (mem_upsert e t))" unfolding mem_upsert_key by auto
  then show ?thesis by auto
qed

lemma mem_ok_inj: "mem_ok t \<Longrightarrow> x \<in> set t \<Longrightarrow> y \<in> set t \<Longrightarrow> mem_key x = mem_key y \<Longrightarrow> x = y"
  unfolding mem_ok_def by (metis distinct_map inj_on_eq_iff)

text \<open>The hashes a context report returns are those of the agent's entries.\<close>

definition agent_hashes :: "mem_table \<Rightarrow> string \<Rightarrow> (string \<rightharpoonup> string)" where
  "agent_hashes t a = map_of (rev (map (\<lambda>e. (me_key e, me_hash e)) (sort_key me_key (filter (\<lambda>e. me_agent e = a) t))))"

lemma agent_hashes_entry:
  assumes "mem_ok t" "e \<in> set t"
  shows "agent_hashes t (me_agent e) (me_key e) = Some (me_hash e)"
proof -
  let ?es = "sort_key me_key (filter (\<lambda>x. me_agent x = me_agent e) t)"
  have "distinct (filter (\<lambda>x. me_agent x = me_agent e) t)"
    using assms(1) by (auto simp: mem_ok_def distinct_map)
  then have "distinct (map me_key ?es)"
    using assms(1) by (auto simp: distinct_map mem_ok_def inj_on_def mem_key_def)
  then have "distinct (map fst (rev (map (\<lambda>e. (me_key e, me_hash e)) ?es)))"
    by (simp add: rev_map [symmetric] o_def)
  moreover have "(me_key e, me_hash e) \<in> set (rev (map (\<lambda>e. (me_key e, me_hash e)) ?es))"
    using assms(2) by auto
  ultimately show ?thesis unfolding agent_hashes_def by (rule map_of_is_SomeI)
qed

lemma agent_hashes_None: "agent_hashes t a k = None \<longleftrightarrow> (a, k) \<notin> mem_key ` set t"
  by (auto simp: agent_hashes_def map_of_eq_None_iff mem_key_def image_iff)

definition changed_entries :: "mem_table \<Rightarrow> string \<Rightarrow> (string \<rightharpoonup> string) \<Rightarrow> mem_entry list" where
  "changed_entries t a hs = filter (\<lambda>e. hash_at hs (me_key e) \<noteq> me_hash e) (sort_key me_key (filter (\<lambda>e. me_agent e = a) t))"

lemma BuildContext_report:
  "memory_BuildContext None t a hs = Inr (Join (map entry_line (changed_entries t a hs)) nl, agent_hashes t a)"
  by (simp add: memory_BuildContext_def memory_List_def Let_def changed_entries_def agent_hashes_def filter_empty_conv)

lemma changed_entries_none: "mem_ok t \<Longrightarrow> changed_entries t a (agent_hashes t a) = []"
  using agent_hashes_entry by (auto simp: changed_entries_def filter_empty_conv hash_at_def)

lemma filter_unique:
  assumes "distinct xs" "x \<in> set xs" "\<And>y. y \<in> set xs \<Longrightarrow> P y \<longleftrightarrow> y = x"
  shows "filter P xs = [x]"
proof -
  have "filter P xs = filter (\<lambda>y. y = x) xs" using assms(3) by (intro filter_cong) auto
  also have "\<dots> = [x]" using assms(1,2) by (induction xs) (auto simp: filter_empty_conv)
  finally show ?thesis .
qed

lemma changed_entries_upsert:
  assumes ok: "mem_ok t" and ne: "me_hash e \<noteq> []"
    and diff: "agent_hashes t (me_agent e) (me_key e) \<noteq> Some (me_hash e)"
  shows "map entry_line (changed_entries (mem_upsert e t) (me_agent e) (agent_hashes t (me_agent e))) = [entry_line e]"
proof -
  let ?t = "mem_upsert e t" and ?hs = "agent_hashes t (me_agent e)"
  have ok': "mem_ok ?t" using ok by (rule mem_ok_upsert)
  obtain x where x: "x \<in> set ?t" "mem_key x = mem_key e" using mem_upsert_has by blast
  with ok have xe: "me_value x = me_value e" "me_hash x = me_hash e" by (auto dest: mem_upsert_agent)
  have ka: "me_key x = me_key e" "me_agent x = me_agent e" using x(2) by (simp_all add: mem_key_def)
  have "hash_at ?hs (me_key y) \<noteq> me_hash y \<longleftrightarrow> y = x" if "y \<in> set ?t" "me_agent y = me_agent e" for y
  proof (cases "mem_key y = mem_key e")
    case True
    with x that ok' have "y = x" by (metis mem_ok_inj)
    with ka xe diff ne show ?thesis by (auto simp: hash_at_def split: option.splits)
  next
    case False
    with that have "y \<in> set t" by (simp add: mem_upsert_other)
    with ok that False x(2) show ?thesis using agent_hashes_entry [of t y] by (auto simp: hash_at_def)
  qed
  moreover have "distinct (sort_key me_key (filter (\<lambda>y. me_agent y = me_agent e) ?t))"
    using ok' by (auto simp: mem_ok_def distinct_map)
  ultimately have "changed_entries ?t (me_agent e) ?hs = [x]"
    unfolding changed_entries_def using x ka by (intro filter_unique) auto
  then show ?thesis using ka xe by (simp add: entry_line_def)
qed

subsection \<open>Properties\<close>

definition demo_mem :: mem_table where
  "demo_mem = [\<lparr>me_id = ''1'', me_agent = ''a'', me_key = ''name'', me_value = ''Ada'', me_hash = ''h1'', me_updated = 5\<rparr>,
               \<lparr>me_id = ''2'', me_agent = ''a'', me_key = ''rate'', me_value = ''5%'', me_hash = ''h2'', me_updated = 7\<rparr>]"

text \<open>
  C15: An immutable key that has a value keeps it: along any sequence of \<^verbatim>\<open>Set\<close> and \<^verbatim>\<open>Delete\<close>
  calls by any agents, with any database faults on the writes, as long as the read that
  guards a \<^verbatim>\<open>Set\<close> does not fail.
\<close>
theorem memory_immutable:
  assumes "k \<in> ik" and "mem_ok t" and "mem_lookup t (a, k) = Some v" and "\<forall>op \<in> set ops. guard_reads op"
  shows "mem_lookup (fold (mem_step h ik) ops t) (a, k) = Some v"
  using assms
proof (induction ops arbitrary: t)
  case (Cons op ops)
  then have "mem_lookup (mem_step h ik op t) (a, k) = Some v" by (simp add: mem_step_immutable)
  with Cons show ?case by (simp add: mem_step_ok)
qed simp

theorem memory_immutable_witness:
  "mem_lookup (fold (mem_step (\<lambda>s. s) {''name''})
     [OpSet None None ''3'' 9 ''a'' ''name'' ''Bob'', OpDelete None ''a'' ''name'', OpSet None None ''4'' 9 ''b'' ''name'' ''Bob''] demo_mem)
     (''a'', ''name'') = Some ''Ada''"
  by (rule memory_immutable) (simp_all add: mem_ok_def demo_mem_def mem_key_def mem_lookup_def mem_match_def)

text \<open>
  When the read that guards an immutable key fails, \<^verbatim>\<open>Set\<close> goes on and overwrites the value:
  the check fails open.
\<close>
theorem immutable_fails_open:
  assumes "mem_ok t"
  shows "fst (memory_Set h ik (Some err) None i now a k v t) = Inr ()
    \<and> mem_lookup (snd (memory_Set h ik (Some err) None i now a k v t)) (a, k) = Some v"
proof -
  have "memory_Set h ik (Some err) None i now a k v t = (Inr (), mem_put h i now (a, k) v t)"
    by (simp add: memory_Set_def memory_Get_def mem_put_def)
  then show ?thesis using memory.get_put [OF assms] by simp
qed

theorem immutable_fails_open_witness:
  "mem_lookup demo_mem (''a'', ''name'') = Some ''Ada'' \<and>
   mem_lookup (snd (memory_Set (\<lambda>s. s) {''name''} (Some DeadlineExceeded) None ''3'' 9 ''a'' ''name'' ''Bob'' demo_mem)) (''a'', ''name'') = Some ''Bob''"
  using immutable_fails_open [of demo_mem "\<lambda>s. s" "{''name''}" DeadlineExceeded "''3''" 9 "''a''" "''name''" "''Bob''"]
  by (simp add: mem_ok_def demo_mem_def mem_key_def mem_lookup_def mem_match_def)

text \<open>
  \<^verbatim>\<open>Search\<close> returns exactly the agent's entries whose key or value contains the query, letters
  of either case alike, newest first: the escaping of \<^verbatim>\<open>%\<close> and \<^verbatim>\<open>_\<close> makes them match
  themselves only. A query with a backslash is outside: the backslash is not escaped.
\<close>
theorem Search_exact:
  assumes "backslash \<notin> set q"
  shows "memory_Search None t a q =
    Inr (sort_key (\<lambda>e. - me_updated e) (filter (\<lambda>e. me_agent e = a \<and>
      (Contains (map lower_char (me_key e)) (map lower_char q)
       \<or> Contains (map lower_char (me_value e)) (map lower_char q))) t))"
  unfolding memory_Search_def Let_def search_pattern [OF assms] by simp

theorem Search_exact_witness: "memory_Search None demo_mem ''a'' ''%'' = Inr [demo_mem ! 1]"
proof -
  have "backslash \<notin> set ''%''" by simp
  from Search_exact [OF this, of demo_mem "''a''"] show ?thesis
    by (simp add: demo_mem_def lower_char_def Let_def HasPrefix_def char_of_def)
qed

text \<open>
  The memory section of the prompt after a report: asking again at once reports nothing, and
  after a \<^verbatim>\<open>Set\<close> that changes the hash of a key's entry the next report is exactly that
  key's line, whatever else the agent remembers.
\<close>
theorem BuildContext_incremental:
  assumes "mem_ok t" and "memory_BuildContext None t a lastHashes = Inr (ctx, hs)"
    and "h v \<noteq> []" and "hs k \<noteq> Some (h v)"
    and "memory_Set h ik fget None i now a k v t = (Inr (), t')"
  shows "memory_BuildContext None t a hs = Inr ([], hs)
    \<and> (\<exists>hs'. memory_BuildContext None t' a hs = Inr (''['' @ k @ '']: '' @ v, hs') \<and> hs' k = Some (h v))"
proof -
  let ?e = "new_entry h i now a k v"
  from assms(2) have hs: "hs = agent_hashes t a" by (simp add: BuildContext_report)
  from assms(5) have t': "t' = mem_upsert ?e t" by (auto simp: memory_Set_def split: if_splits)
  have "map entry_line (changed_entries t' a hs) = [entry_line ?e]"
    using changed_entries_upsert [of t ?e] assms(1,3,4) by (simp add: hs t')
  moreover have "agent_hashes t' a k = Some (h v)"
    using mem_upsert_has [of ?e t] agent_hashes_entry [OF mem_ok_upsert [OF assms(1), of ?e]]
      mem_upsert_agent [OF assms(1), of _ ?e] unfolding t' by (auto simp: mem_key_def)
  ultimately show ?thesis
    using assms(1) by (simp add: BuildContext_report hs changed_entries_none entry_line_def)
qed

theorem BuildContext_incremental_witness:
  "\<exists>hs'. memory_BuildContext None (snd (memory_Set (\<lambda>s. s) {} None None ''3'' 9 ''a'' ''name'' ''Bob'' demo_mem)) ''a'' (agent_hashes demo_mem ''a'')
     = Inr (''[name]: Bob'', hs')"
proof -
  let ?r = "memory_Set (\<lambda>s. s) {} None None ''3'' 9 ''a'' ''name'' ''Bob'' demo_mem"
  have ok: "mem_ok demo_mem" by (simp add: mem_ok_def demo_mem_def mem_key_def)
  have h: "agent_hashes demo_mem ''a'' ''name'' = Some ''h1''"
    using agent_hashes_entry [OF ok, of "hd demo_mem"] by (simp add: demo_mem_def)
  have r: "?r = (Inr (), snd ?r)" by (simp add: memory_Set_def)
  from BuildContext_incremental [OF ok BuildContext_report, where h = "\<lambda>s. s" and v = "''Bob''" and k = "''name''", OF _ _ r] h
  show ?thesis by auto
qed

end
