(* ===== verification/Audit_Log.thy ===== *)
theory Audit_Log
  imports Prelude
begin

section \<open>Audit log (\<^verbatim>\<open>pkg/audit/audit.go\<close>)\<close>

text \<open>
  The audit table as a list of rows in insertion order. A fault of the insert is an argument;
  the detail is a string, or another value with its JSON text (or the error of its marshalling).
\<close>

definition EventToolExec :: string where "EventToolExec = ''tool_exec''"
definition EventToolApprove :: string where "EventToolApprove = ''tool_approve''"
definition EventToolDeny :: string where "EventToolDeny = ''tool_deny''"
definition EventMemorySet :: string where "EventMemorySet = ''memory_set''"
definition EventMemoryDel :: string where "EventMemoryDel = ''memory_del''"
definition EventCredSet :: string where "EventCredSet = ''credential_set''"
definition EventCredDel :: string where "EventCredDel = ''credential_del''"
definition EventSessionNew :: string where "EventSessionNew = ''session_new''"
definition EventA2ATaskNew :: string where "EventA2ATaskNew = ''a2a_task_new''"
definition EventA2ATaskDone :: string where "EventA2ATaskDone = ''a2a_task_done''"
definition EventA2ATaskFail :: string where "EventA2ATaskFail = ''a2a_task_fail''"
definition EventA2ATaskCancel :: string where "EventA2ATaskCancel = ''a2a_task_cancel''"

record audit_entry =
  ae_id :: string
  ae_time :: timestamp
  ae_type :: string
  ae_session :: string
  ae_agent :: string
  ae_actor :: string
  ae_detail :: string

type_synonym audit_table = "audit_entry list"

datatype audit_detail = DetailString string | DetailValue "go_error + string" string

definition detail_string :: "audit_detail \<Rightarrow> string" where
  "detail_string detail =
     (case detail of
        DetailString v \<Rightarrow> v
      | DetailValue json printed \<Rightarrow> (case json of Inl err \<Rightarrow> printed | Inr b \<Rightarrow> b))"

definition audit_Log :: "go_error option \<Rightarrow> string \<Rightarrow> timestamp \<Rightarrow> string \<Rightarrow> string \<Rightarrow> string \<Rightarrow> string \<Rightarrow> audit_detail \<Rightarrow>
    audit_table \<Rightarrow> (go_error + unit) \<times> audit_table" where
  "audit_Log fault newID now eventType sessionID agentID actor detail t =
     (case fault of
        Some err \<Rightarrow> (Inl err, t)
      | None \<Rightarrow> (Inr (), t @ [\<lparr>ae_id = newID, ae_time = now, ae_type = eventType, ae_session = sessionID,
          ae_agent = agentID, ae_actor = actor, ae_detail = detail_string detail\<rparr>]))"

text \<open>A zero time in the filter (\<^verbatim>\<open>IsZero\<close>) is \<^term>\<open>None\<close>.\<close>

record audit_filter =
  af_type :: string
  af_session :: string
  af_agent :: string
  af_since :: "timestamp option"
  af_until :: "timestamp option"
  af_limit :: int

definition audit_matches :: "audit_filter \<Rightarrow> audit_entry \<Rightarrow> bool" where
  "audit_matches f e \<longleftrightarrow>
     (af_type f \<noteq> [] \<longrightarrow> ae_type e = af_type f) \<and> (af_session f \<noteq> [] \<longrightarrow> ae_session e = af_session f)
     \<and> (af_agent f \<noteq> [] \<longrightarrow> ae_agent e = af_agent f)
     \<and> (case af_since f of None \<Rightarrow> True | Some s \<Rightarrow> ae_time e \<ge> s)
     \<and> (case af_until f of None \<Rightarrow> True | Some u \<Rightarrow> ae_time e \<le> u)"

definition audit_Query :: "go_error option \<Rightarrow> audit_filter \<Rightarrow> audit_table \<Rightarrow> go_error + audit_entry list" where
  "audit_Query fault f t =
     (case fault of
        Some err \<Rightarrow> Inl err
      | None \<Rightarrow> (let es = sort_key (\<lambda>e. - ae_time e) (filter (audit_matches f) t)
                 in Inr (if af_limit f > 0 then take (nat (af_limit f)) es else es)))"

subsection \<open>The tool logger\<close>

text \<open>A nil logger and a logger with neither sink do nothing.\<close>

datatype tool_logger = NilLogger | FuncLogger | DbLogger string | EmptyLogger

definition NewToolLogger :: "bool \<Rightarrow> string \<Rightarrow> tool_logger" where
  "NewToolLogger has_logger actor = (if has_logger then DbLogger actor else EmptyLogger)"

record log_sinks =
  sink_calls :: "(string \<times> string \<times> string) list"
  sink_table :: audit_table

definition ToolLogger_Log :: "tool_logger \<Rightarrow> go_error option \<Rightarrow> string \<Rightarrow> timestamp \<Rightarrow> string \<Rightarrow> string \<Rightarrow> string \<Rightarrow>
    log_sinks \<Rightarrow> log_sinks" where
  "ToolLogger_Log lg fault newID now eventType sessionID detail s =
     (case lg of
        NilLogger \<Rightarrow> s
      | FuncLogger \<Rightarrow> s\<lparr>sink_calls := sink_calls s @ [(eventType, sessionID, detail)]\<rparr>
      | EmptyLogger \<Rightarrow> s
      | DbLogger actor \<Rightarrow>
          s\<lparr>sink_table := snd (audit_Log fault newID now eventType sessionID [] actor (DetailString detail) (sink_table s))\<rparr>)"

lemma audit_Log_prefix: "prefix t (snd (audit_Log fault i now et sid aid actor detail t))"
  by (simp add: audit_Log_def split: option.splits)

lemma sort_key_take_newest:
  assumes "x \<in> set (take n (sort_key (\<lambda>e. - f e) xs))" "y \<in> set (drop n (sort_key (\<lambda>e. - f e) xs))"
  shows "f y \<le> (f x :: int)"
proof -
  have "sorted (map (\<lambda>e. - f e) (take n (sort_key (\<lambda>e. - f e) xs) @ drop n (sort_key (\<lambda>e. - f e) xs)))"
    by simp
  with assms show ?thesis unfolding map_append sorted_append by fastforce
qed

subsection \<open>Properties\<close>

text \<open>
  A query of the audit log without faults returns entries of the log that match the filter,
  newest first; every matching entry that is not returned was cut by the limit and is not newer
  than any returned one.
\<close>
theorem audit_Query_exact:
  assumes "audit_Query None f t = Inr es"
  shows "set es \<subseteq> {e \<in> set t. audit_matches f e} \<and> sorted (map (\<lambda>e. - ae_time e) es)
    \<and> (af_limit f \<le> 0 \<longrightarrow> set es = {e \<in> set t. audit_matches f e})
    \<and> (0 < af_limit f \<longrightarrow> int (length es) \<le> af_limit f)
    \<and> (\<forall>e \<in> set t. audit_matches f e \<and> e \<notin> set es \<longrightarrow> (\<forall>e' \<in> set es. ae_time e \<le> ae_time e') \<and> int (length es) = af_limit f)"
proof -
  let ?s = "sort_key (\<lambda>e. - ae_time e) (filter (audit_matches f) t)"
  have es: "es = (if af_limit f > 0 then take (nat (af_limit f)) ?s else ?s)"
    using assms by (simp add: audit_Query_def Let_def)
  have set: "set ?s = {e \<in> set t. audit_matches f e}" by auto
  have sorted: "sorted (map (\<lambda>e. - ae_time e) es)" by (simp add: es take_map [symmetric] sorted_wrt_take)
  have cut: "(\<forall>e' \<in> set es. ae_time e \<le> ae_time e') \<and> int (length es) = af_limit f"
    if "e \<in> set t" "audit_matches f e" "e \<notin> set es" for e
  proof -
    from that set have mem: "e \<in> set ?s" by auto
    with that(3) have lim: "af_limit f > 0" by (auto simp: es split: if_splits)
    have "e \<in> set (take (nat (af_limit f)) ?s) \<union> set (drop (nat (af_limit f)) ?s)"
      using mem by (metis append_take_drop_id set_append)
    with that(3) lim have d: "e \<in> set (drop (nat (af_limit f)) ?s)" by (simp add: es)
    then have "length ?s > nat (af_limit f)" by (cases "length ?s > nat (af_limit f)") auto
    with d lim show ?thesis by (auto simp: es intro: sort_key_take_newest)
  qed
  show ?thesis
    using sorted cut set by (auto simp: es dest: in_set_takeD)
qed

definition demo_audit :: audit_table where
  "demo_audit = snd (audit_Log None ''2'' 9 EventToolExec ''s'' ''default'' ''shell'' (DetailString ''ok'')
     (snd (audit_Log None ''1'' 4 EventToolDeny ''s'' ''default'' ''shell'' (DetailString ''no'') [])))"

theorem audit_Query_exact_witness:
  "\<exists>es. audit_Query None \<lparr>af_type = EventToolExec, af_session = ''s'', af_agent = [], af_since = None, af_until = None, af_limit = 0\<rparr> demo_audit
     = Inr es \<and> set es = {e \<in> set demo_audit. ae_type e = EventToolExec \<and> ae_session e = ''s''}"
proof -
  let ?f = "\<lparr>af_type = EventToolExec, af_session = ''s'', af_agent = [], af_since = None, af_until = None, af_limit = 0\<rparr>"
  obtain es where "audit_Query None ?f demo_audit = Inr es" by (simp add: audit_Query_def Let_def)
  with audit_Query_exact [OF this] show ?thesis by (auto simp: audit_matches_def EventToolExec_def)
qed

end
