(* ===== verification/Tool_Registry.thy ===== *)
theory Tool_Registry
  imports Llm_Types Keyed_Store
begin

section \<open>Tool registry (\<^verbatim>\<open>pkg/agent/tools/registry.go\<close>)\<close>

text \<open>
  The registry maps a tool's name to the tool. A tool is its definition and whether it
  produces images; what running it does is part of the runtime's environment. The registry's
  map is a Go map in the order of its iteration.
\<close>

record tool =
  Definition :: tool_definition
  produces_images :: bool

type_synonym registry = "(string, tool) gomap"

definition NewRegistry :: registry where
  "NewRegistry = []"

definition Register :: "tool \<Rightarrow> registry \<Rightarrow> registry" where
  "Register t r = gomap_put (td_name (Definition t)) t r"

definition Unregister :: "string \<Rightarrow> registry \<Rightarrow> registry" where
  "Unregister name r = gomap_delete name r"

definition registry_Get :: "registry \<Rightarrow> string \<Rightarrow> go_error + tool" where
  "registry_Get r name = (case map_of r name of None \<Rightarrow> Inl (ErrText (''unknown tool: '' @ name)) | Some t \<Rightarrow> Inr t)"

definition Definitions :: "registry \<Rightarrow> tool_definition list" where
  "Definitions r = map (\<lambda>(n, t). Definition t) r"

fun filter_into :: "registry \<Rightarrow> string list \<Rightarrow> registry \<Rightarrow> registry" where
  "filter_into r [] filtered = filtered"
| "filter_into r (name # names) filtered =
     (case map_of r name of
        Some t \<Rightarrow> filter_into r names (gomap_put name t filtered)
      | None \<Rightarrow> filter_into r names filtered)"

definition registry_Filter :: "registry \<Rightarrow> string list \<Rightarrow> registry" where
  "registry_Filter r names = (if names = [] then r else filter_into r names NewRegistry)"

text \<open>\<^verbatim>\<open>Without\<close> copies the entries whose name is not excluded, in iteration order.\<close>

definition registry_Without :: "registry \<Rightarrow> string list \<Rightarrow> registry" where
  "registry_Without r names =
     (if names = [] then r
      else fold (\<lambda>(name, t) filtered. if name \<notin> set names then gomap_put name t filtered else filtered) r NewRegistry)"

text \<open>Every tool is filed under the name of its definition.\<close>

definition registry_ok :: "registry \<Rightarrow> bool" where
  "registry_ok r \<longleftrightarrow> gomap_ok r \<and> (\<forall>(n, t) \<in> set r. td_name (Definition t) = n)"

lemma registry_okD: "registry_ok r \<Longrightarrow> map_of r n = Some t \<Longrightarrow> td_name (Definition t) = n"
  by (auto simp: registry_ok_def dest: map_of_SomeD)

lemma gomap_put_set: "set (gomap_put k v m) \<subseteq> insert (k, v) (set m)"
  by (induction m) (auto simp: gomap_put_def)

lemma gomap_delete_set: "set (gomap_delete k m) \<subseteq> set m"
  by (auto simp: gomap_delete_def AList.delete_eq)

lemma Register_ok: "registry_ok r \<Longrightarrow> registry_ok (Register t r)"
  unfolding registry_ok_def Register_def using gomap_put_set [of "td_name (Definition t)" t r] by auto

lemma Unregister_ok: "registry_ok r \<Longrightarrow> registry_ok (Unregister n r)"
  unfolding registry_ok_def Unregister_def using gomap_delete_set [of n r] by auto

lemma filter_into_lookup:
  "map_of (filter_into r names f) n = (if n \<in> set names \<and> map_of r n \<noteq> None then map_of r n else map_of f n)"
  by (induction names arbitrary: f) (auto split: option.splits)

lemma registry_Filter_lookup:
  "map_of (registry_Filter r names) n = (if names = [] \<or> n \<in> set names then map_of r n else None)"
  by (auto simp: registry_Filter_def filter_into_lookup NewRegistry_def)

lemma without_lookup:
  "gomap_ok r \<Longrightarrow>
   map_of (fold (\<lambda>(name, t) f. if P name then gomap_put name t f else f) r f0) n
     = (case map_of r n of Some t \<Rightarrow> if P n then Some t else map_of f0 n | None \<Rightarrow> map_of f0 n)"
proof (induction r arbitrary: f0)
  case (Cons a r)
  obtain k t where a: "a = (k, t)" by force
  from Cons.prems a have "map_of r k = None" "gomap_ok r"
    by (auto simp: gomap_ok_def map_of_eq_None_iff)
  with Cons.IH show ?case by (auto simp: a split: option.splits)
qed simp

lemma registry_Without_lookup:
  "gomap_ok r \<Longrightarrow> map_of (registry_Without r names) n = (if n \<in> set names then None else map_of r n)"
  using without_lookup [of r "\<lambda>n. n \<notin> set names" NewRegistry n]
  by (auto simp: registry_Without_def NewRegistry_def split: option.splits)

lemma filter_into_ok: "gomap_ok f \<Longrightarrow> gomap_ok (filter_into r names f)"
  by (induction names arbitrary: f) (auto split: option.splits)

lemma without_ok: "gomap_ok f0 \<Longrightarrow>
   gomap_ok (fold (\<lambda>(name, t) f. if P name then gomap_put name t f else f) r f0)"
proof (induction r arbitrary: f0)
  case (Cons e r)
  obtain name t where "e = (name, t)" by force
  with Cons.IH [of f0] Cons.IH [of "gomap_put name t f0"] Cons.prems show ?case
    by (cases "P name") simp_all
qed simp

lemma registry_ok_by_lookup:
  "gomap_ok r \<Longrightarrow> (\<And>n t. map_of r n = Some t \<Longrightarrow> td_name (Definition t) = n) \<Longrightarrow> registry_ok r"
  by (auto simp: registry_ok_def gomap_lookup_iff)

lemma registry_Filter_ok: "registry_ok r \<Longrightarrow> registry_ok (registry_Filter r names)"
proof (rule registry_ok_by_lookup)
  assume ok: "registry_ok r"
  then show "gomap_ok (registry_Filter r names)"
    by (simp add: registry_Filter_def registry_ok_def filter_into_ok NewRegistry_def)
  fix n t
  assume "map_of (registry_Filter r names) n = Some t"
  then have "map_of r n = Some t" by (simp add: registry_Filter_lookup split: if_splits)
  with ok show "td_name (Definition t) = n" by (rule registry_okD)
qed

lemma registry_Without_ok: "registry_ok r \<Longrightarrow> registry_ok (registry_Without r names)"
proof (rule registry_ok_by_lookup)
  assume ok: "registry_ok r"
  then show "gomap_ok (registry_Without r names)"
    using without_ok [of NewRegistry "\<lambda>n. n \<notin> set names" r]
    by (simp add: registry_Without_def registry_ok_def NewRegistry_def)
  fix n t
  assume "map_of (registry_Without r names) n = Some t"
  moreover from ok have "gomap_ok r" by (simp add: registry_ok_def)
  ultimately have "map_of r n = Some t" by (simp add: registry_Without_lookup split: if_splits)
  with ok show "td_name (Definition t) = n" by (rule registry_okD)
qed

text \<open>The registry is a keyed store of tools, filed under their own names.\<close>

interpretation registry: keyed_store "map_of :: registry \<Rightarrow> string \<Rightarrow> tool option" gomap_put Unregister gomap_ok
  by unfold_locales (auto simp: Unregister_def)

lemma Register_all_lookup:
  "gomap_ok r \<Longrightarrow> map_of (fold Register ts r) n =
     (case map_of (rev (map (\<lambda>t. (td_name (Definition t), t)) ts)) n of Some t \<Rightarrow> Some t | None \<Rightarrow> map_of r n)"
proof -
  assume ok: "gomap_ok r"
  have "fold Register ts r = fold (\<lambda>(k, v). gomap_put k v) (map (\<lambda>t. (td_name (Definition t), t)) ts) r"
    by (induction ts arbitrary: r) (auto simp: Register_def)
  then show ?thesis
    using registry.lookup_puts [OF ok, of "map (\<lambda>t. (td_name (Definition t), t)) ts"]
    by (simp add: map_add_def split: option.splits)
qed

end
