(* ===== verification/Sandbox_Policy.thy ===== *)
theory Sandbox_Policy
  imports Prelude
begin

section \<open>Sandbox (\<^verbatim>\<open>pkg/sandbox/policy.go\<close>, \<^verbatim>\<open>sandbox.go\<close>, \<^verbatim>\<open>process.go\<close>)\<close>

text \<open>
  The path checks of the sandbox policy and the process sandbox. The lexical functions of
  package \<^verbatim>\<open>path/filepath\<close> (Unix) are defined here on component lists; the working directory
  and the resolution of symbolic links belong to the file system and are fields of \<open>os_env\<close>.
  The outcome of a started process is an argument of \<^verbatim>\<open>Exec\<close>.
\<close>

datatype NetworkPolicy = NetworkDeny | NetworkAllowList | NetworkAllow

record policy =
  pol_Timeout :: duration
  MaxOutputBytes :: int
  NetworkAccess :: NetworkPolicy
  AllowedPaths :: "string list"
  ReadOnlyPaths :: "string list"
  RequireApproval :: bool

definition DefaultPolicy :: policy where
  "DefaultPolicy = \<lparr>pol_Timeout = 30 * second, MaxOutputBytes = 1024 * 1024, NetworkAccess = NetworkDeny,
     AllowedPaths = [], ReadOnlyPaths = [], RequireApproval = True\<rparr>"

subsection \<open>Package filepath\<close>

abbreviation slash :: char where "slash \<equiv> CHR ''/''"

fun split_slash :: "string \<Rightarrow> string list" where
  "split_slash [] = [[]]"
| "split_slash (c # s) =
     (if c = slash then [] # split_slash s
      else (case split_slash s of [] \<Rightarrow> [[c]] | w # ws \<Rightarrow> (c # w) # ws))"

text \<open>The stack of components, last first; \<^verbatim>\<open>..\<close> removes one, and is dropped at the root.\<close>

fun clean_comps :: "bool \<Rightarrow> string list \<Rightarrow> string list \<Rightarrow> string list" where
  "clean_comps rooted stack [] = stack"
| "clean_comps rooted stack (c # cs) =
     (if c = [] \<or> c = ''.'' then clean_comps rooted stack cs
      else if c = ''..'' then
        (case stack of
           [] \<Rightarrow> clean_comps rooted (if rooted then [] else [''..'']) cs
         | d # ds \<Rightarrow> if d = ''..'' then clean_comps rooted (''..'' # stack) cs else clean_comps rooted ds cs)
      else clean_comps rooted (c # stack) cs)"

definition rooted_path :: "string \<Rightarrow> bool" where
  "rooted_path p \<longleftrightarrow> (case p of c # _ \<Rightarrow> c = slash | [] \<Rightarrow> False)"

definition abs_path :: "string list \<Rightarrow> string" where
  "abs_path cs = slash # Join cs [slash]"

definition Clean :: "string \<Rightarrow> string" where
  "Clean p =
     (let cs = rev (clean_comps (rooted_path p) [] (split_slash p)) in
      if rooted_path p then abs_path cs else if cs = [] then ''.'' else Join cs [slash])"

definition path_Join :: "string \<Rightarrow> string \<Rightarrow> string" where
  "path_Join a b = (if a \<noteq> [] then Clean (a @ [slash] @ b) else if b \<noteq> [] then Clean b else [])"

text \<open>The part up to and including the last slash, and the part after it.\<close>

definition dir_part :: "string \<Rightarrow> string" where
  "dir_part p = rev (dropWhile (\<lambda>c. c \<noteq> slash) (rev p))"

definition Dir :: "string \<Rightarrow> string" where
  "Dir p = Clean (dir_part p)"

definition Base :: "string \<Rightarrow> string" where
  "Base p =
     (if p = [] then ''.''
      else (let q = rev (dropWhile (\<lambda>c. c = slash) (rev p));
                b = rev (takeWhile (\<lambda>c. c \<noteq> slash) (rev q))
            in if b = [] then [slash] else b))"

record os_env =
  Getwd :: "string option"
  EvalSymlinks :: "string \<Rightarrow> string option"

definition path_Abs :: "os_env \<Rightarrow> string \<Rightarrow> string option" where
  "path_Abs os p = (if rooted_path p then Some (Clean p) else map_option (\<lambda>wd. path_Join wd p) (Getwd os))"

lemma split_slash_nonempty [simp]: "split_slash p \<noteq> []"
  by (induction p) (auto split: list.splits)

text \<open>The space components take with their separators bounds the length of a cleaned path.\<close>

definition total :: "string list \<Rightarrow> nat" where
  "total cs = sum_list (map (\<lambda>c. Suc (length c)) cs)"

lemma total_simps [simp]: "total [] = 0" "total (c # cs) = Suc (length c) + total cs"
    "total (cs @ ds) = total cs + total ds" "total (rev cs) = total cs"
  by (simp_all add: total_def rev_map [symmetric])

lemma total_split: "total (split_slash p) = Suc (length p)"
  by (induction p) (auto split: list.splits)

lemma total_clean: "total (clean_comps rooted stack cs) \<le> total stack + total cs"
  by (induction rooted stack cs rule: clean_comps.induct) (auto split: list.splits)

lemma length_Join: "cs \<noteq> [] \<Longrightarrow> Suc (length (Join cs [slash])) = total cs"
  by (induction cs "[slash]" rule: Join.induct) auto

lemma split_slash_append: "split_slash (p @ slash # q) = split_slash p @ split_slash q"
  by (induction p) (auto split: list.splits)

lemma clean_comps_append: "clean_comps r stack (cs @ ds) = clean_comps r (clean_comps r stack cs) ds"
  by (induction r stack cs rule: clean_comps.induct) (auto split: list.splits)

lemma length_Clean_dir:
  assumes "p \<noteq> []" "last p = slash"
  shows "length (Clean p) \<le> max 1 (length p - 1)"
proof -
  obtain q where q: "p = q @ [slash]" using assms by (metis append_butlast_last_id)
  let ?cs = "clean_comps (rooted_path p) [] (split_slash p)"
  have split: "split_slash p = split_slash q @ [[]]" using split_slash_append [of q "[]"] q by simp
  show ?thesis
  proof (cases "rooted_path p")
    case False
    have "total ?cs \<le> Suc (length q)"
      using total_clean [of "rooted_path p" "[]" "split_slash q"] by (simp add: split clean_comps_append total_split)
    then have "Suc (length (Join (rev ?cs) [slash])) \<le> Suc (length q)" if "?cs \<noteq> []"
      using length_Join [of "rev ?cs"] that by simp
    with False show ?thesis unfolding Clean_def Let_def by (auto simp: q)
  next
    case True
    show ?thesis
    proof (cases q)
      case Nil
      then show ?thesis using q by (simp add: Clean_def rooted_path_def abs_path_def)
    next
      case (Cons c q')
      with True q have c: "c = slash" by (simp add: rooted_path_def)
      have "total ?cs \<le> Suc (length q')"
        using total_clean [of True "[]" "split_slash q'"] True
        by (simp add: split Cons c clean_comps_append total_split)
      then have "?cs \<noteq> [] \<Longrightarrow> length (Join (rev ?cs) [slash]) \<le> length q'"
        using length_Join [of "rev ?cs"] by simp
      with True show ?thesis unfolding Clean_def Let_def by (cases "?cs = []") (auto simp: q Cons abs_path_def)
    qed
  qed
qed

text \<open>Going up ends: the parent is shorter, or it is the path itself or a dot.\<close>

lemma Dir_shorter: "Dir p \<noteq> p \<Longrightarrow> Dir p = ''.'' \<or> length (Dir p) < length p"
proof -
  assume ne: "Dir p \<noteq> p"
  show ?thesis
  proof (cases "dir_part p = []")
    case True
    then show ?thesis by (simp add: Dir_def Clean_def rooted_path_def)
  next
    case False
    have len: "length (dir_part p) \<le> length p"
      unfolding dir_part_def length_rev by (metis length_dropWhile_le length_rev)
    have last: "last (dir_part p) = slash"
      using hd_dropWhile [of "\<lambda>c. c \<noteq> slash" "rev p"] False by (simp add: dir_part_def last_rev)
    have b: "length (Dir p) \<le> max 1 (length (dir_part p) - 1)"
      unfolding Dir_def using length_Clean_dir [OF False last] .
    show ?thesis
    proof (cases "length p > 1")
      case True
      with b len show ?thesis by linarith
    next
      case short: False
      with False len have "length (dir_part p) = 1" "length p = 1"
        by (metis One_nat_def le_SucE le_zero_eq length_0_conv less_Suc_eq_le nat_neq_iff not_less_iff_gr_or_eq)+
      then obtain c d where "dir_part p = [c]" "p = [d]" by (auto simp: length_Suc_conv)
      with last have "p = [slash]" unfolding dir_part_def by (auto split: if_splits)
      then have "Dir p = p" by (simp add: Dir_def dir_part_def Clean_def rooted_path_def abs_path_def)
      with ne show ?thesis by simp
    qed
  qed
qed

lemma Dir_dot: "Dir ''.'' = ''.''"
  by (simp add: Dir_def dir_part_def Clean_def rooted_path_def)

subsection \<open>Resolving and checking paths\<close>

text \<open>
  The loop that resolves the longest existing ancestor; \<open>trail\<close> holds the components below
  it, innermost first.
\<close>

function resolve_up :: "os_env \<Rightarrow> string \<Rightarrow> string \<Rightarrow> string list \<Rightarrow> string" where
  "resolve_up os orig cur trail =
     (let parent = Dir cur; trail' = trail @ [Base cur] in
      if parent = cur then orig
      else (case EvalSymlinks os parent of
              Some resolved \<Rightarrow> foldl path_Join resolved (rev trail')
            | None \<Rightarrow> resolve_up os orig parent trail'))"
  by pat_completeness auto
termination
proof (relation "measure (\<lambda>(os, orig, cur, trail). if cur = ''.'' then 0 else Suc (length cur))", goal_cases)
  case (2 os orig cur trail x xa)
  then have "Dir cur \<noteq> cur" by simp
  moreover from this have "cur \<noteq> ''.''" using Dir_dot by auto
  ultimately show ?case using 2 Dir_shorter [of cur] by auto
qed simp

declare resolve_up.simps [simp del]

definition resolvePath :: "os_env \<Rightarrow> string \<Rightarrow> string" where
  "resolvePath os p =
     (case path_Abs os p of
        None \<Rightarrow> Clean p
      | Some a \<Rightarrow> (case EvalSymlinks os a of Some evaled \<Rightarrow> evaled | None \<Rightarrow> resolve_up os a a []))"

definition isSubPath :: "string \<Rightarrow> string \<Rightarrow> bool" where
  "isSubPath child parent \<longleftrightarrow> child = parent \<or> HasPrefix child (parent @ [slash])"

definition CheckPathAllowed :: "os_env \<Rightarrow> string \<Rightarrow> string list \<Rightarrow> go_error option" where
  "CheckPathAllowed os p allowedPaths =
     (if allowedPaths = [] then None
      else if list_ex (\<lambda>allowed. isSubPath (resolvePath os p) (resolvePath os allowed)) allowedPaths then None
      else Some (ErrText (''sandbox: path '' @ go_quote p @ '' is not under any allowed directory'')))"

definition CheckPathWritable :: "os_env \<Rightarrow> string \<Rightarrow> string list \<Rightarrow> go_error option" where
  "CheckPathWritable os p readOnlyPaths =
     (case find (\<lambda>ro. isSubPath (resolvePath os p) (resolvePath os ro)) readOnlyPaths of
        None \<Rightarrow> None
      | Some ro \<Rightarrow> Some (ErrText (''sandbox: path '' @ go_quote p @ '' is under read-only directory '' @ go_quote ro)))"

subsection \<open>The process sandbox\<close>

record command =
  cmd_Name :: string
  Program :: string
  Args :: "string list"
  Stdin :: string
  WorkDir :: string
  cmd_Env :: "string list"

record exec_output =
  Stdout :: string
  Stderr :: string
  ExitCode :: int
  out_Duration :: duration
  out_Error :: string

text \<open>How \<^verbatim>\<open>proc.Run\<close> ends, with the two output buffers and the time it took.\<close>

datatype proc_end = ProcOk | ProcDeadline | ProcExit int | ProcFail string

record proc_run =
  pr_stdout :: string
  pr_stderr :: string
  pr_end :: proc_end
  pr_time :: duration

definition sandbox_truncate :: "string \<Rightarrow> int \<Rightarrow> string" where
  "sandbox_truncate s maxBytes =
     (if int (length s) \<le> maxBytes then s else take (nat maxBytes) s @ nl @ ''... (output truncated)'')"

definition Exec :: "os_env \<Rightarrow> (duration \<Rightarrow> string) \<Rightarrow> (string \<Rightarrow> duration \<Rightarrow> proc_run) \<Rightarrow> string \<Rightarrow> command \<Rightarrow> policy \<Rightarrow> go_error + exec_output" where
  "Exec os show_dur run defaultWorkDir cmd pol =
     (if Program cmd = [] then Inl (ErrText ''sandbox: empty program'')
      else
        (let workDir = (if WorkDir cmd = [] then defaultWorkDir else WorkDir cmd) in
         case (if workDir \<noteq> [] then CheckPathAllowed os workDir (AllowedPaths pol) else None) of
           Some e \<Rightarrow> Inl (ErrWrap ''sandbox: work directory not allowed: '' e)
         | None \<Rightarrow>
             (let timeout = (if sint (pol_Timeout pol) \<le> 0 then 30 * second else pol_Timeout pol);
                  r = run workDir timeout;
                  maxOut = (if MaxOutputBytes pol \<le> 0 then 1024 * 1024 else MaxOutputBytes pol);
                  result = \<lparr>Stdout = sandbox_truncate (pr_stdout r) maxOut, Stderr = sandbox_truncate (pr_stderr r) maxOut,
                            ExitCode = 0, out_Duration = pr_time r, out_Error = []\<rparr>
              in case pr_end r of
                   ProcOk \<Rightarrow> Inr result
                 | ProcDeadline \<Rightarrow> Inr (result\<lparr>ExitCode := -1, out_Error := ''tool execution timed out after '' @ show_dur timeout\<rparr>)
                 | ProcExit code \<Rightarrow> Inr (result\<lparr>ExitCode := code\<rparr>)
                 | ProcFail msg \<Rightarrow> Inr (result\<lparr>out_Error := msg, ExitCode := -1\<rparr>))))"


subsection \<open>Resolved paths as component lists\<close>

definition ok_comp :: "string \<Rightarrow> bool" where
  "ok_comp c \<longleftrightarrow> c \<noteq> [] \<and> c \<noteq> ''.'' \<and> c \<noteq> ''..'' \<and> slash \<notin> set c"

text \<open>A clean absolute path; its components are what lies between the slashes.\<close>

definition clean_abs :: "string \<Rightarrow> bool" where
  "clean_abs p \<longleftrightarrow> rooted_path p \<and> Clean p = p"

definition path_comps :: "string \<Rightarrow> string list" where
  "path_comps p = filter (\<lambda>c. c \<noteq> []) (split_slash p)"

lemma split_slash_free: "w \<in> set (split_slash p) \<Longrightarrow> slash \<notin> set w"
  by (induction p arbitrary: w) (auto split: if_splits list.splits)

lemma split_slash_word: "slash \<notin> set w \<Longrightarrow> split_slash w = [w]"
  by (induction w) auto

lemma split_slash_Join:
  "cs \<noteq> [] \<Longrightarrow> list_all (\<lambda>c. slash \<notin> set c) cs \<Longrightarrow> split_slash (Join cs [slash]) = cs"
  by (induction cs "[slash]" rule: Join.induct) (auto simp: split_slash_word split_slash_append)

lemma list_all_ok_free: "list_all ok_comp cs \<Longrightarrow> list_all (\<lambda>c. slash \<notin> set c) cs"
  by (auto simp: list_all_iff ok_comp_def)

lemma split_abs_path: "list_all ok_comp cs \<Longrightarrow> split_slash (abs_path cs) = [] # (if cs = [] then [[]] else cs)"
  by (simp add: abs_path_def split_slash_Join list_all_ok_free)

lemma path_comps_abs [simp]: "list_all ok_comp cs \<Longrightarrow> path_comps (abs_path cs) = cs"
  by (auto simp: path_comps_def split_abs_path filter_id_conv list_all_iff ok_comp_def)

lemma clean_comps_ok:
  "list_all ok_comp stack \<Longrightarrow> list_all (\<lambda>c. slash \<notin> set c) cs \<Longrightarrow> list_all ok_comp (clean_comps True stack cs)"
proof (induction True stack cs rule: clean_comps.induct)
  case (2 stack c cs)
  then show ?case by (cases stack) (auto simp: ok_comp_def)
qed simp

lemma clean_comps_id: "list_all ok_comp cs \<Longrightarrow> clean_comps r stack cs = rev cs @ stack"
  by (induction cs arbitrary: stack) (auto simp: ok_comp_def)

lemma Clean_rooted: "rooted_path p \<Longrightarrow> \<exists>cs. Clean p = abs_path cs \<and> list_all ok_comp cs"
proof -
  assume r: "rooted_path p"
  have "list_all ok_comp (clean_comps True [] (split_slash p))"
    using split_slash_free by (intro clean_comps_ok) (auto simp: list_all_iff)
  then have "list_all ok_comp (rev (clean_comps True [] (split_slash p)))" by (simp add: list_all_iff)
  with r show ?thesis by (auto simp: Clean_def)
qed

lemma rooted_abs_path [simp]: "rooted_path (abs_path cs)"
  by (simp add: abs_path_def rooted_path_def)

lemma Clean_abs_path: "list_all ok_comp cs \<Longrightarrow> Clean (abs_path cs) = abs_path cs"
  using clean_comps_id [of cs True "[]"] by (simp add: Clean_def split_abs_path)

lemma clean_abs_iff: "clean_abs p \<longleftrightarrow> (\<exists>cs. p = abs_path cs \<and> list_all ok_comp cs)"
  using Clean_rooted Clean_abs_path by (fastforce simp: clean_abs_def)

lemma clean_abs_Clean: "rooted_path p \<Longrightarrow> clean_abs (Clean p)"
  using Clean_rooted unfolding clean_abs_iff by blast

text \<open>
  What the documentation of the file system calls promises: the working directory is
  absolute, and resolved links of a clean absolute path are again clean and absolute.
\<close>

definition os_ok :: "os_env \<Rightarrow> bool" where
  "os_ok os \<longleftrightarrow> (\<exists>wd. Getwd os = Some wd \<and> rooted_path wd)
     \<and> (\<forall>p q. clean_abs p \<longrightarrow> EvalSymlinks os p = Some q \<longrightarrow> clean_abs q)"

lemma path_Join_rooted: "rooted_path a \<Longrightarrow> clean_abs (path_Join a b)"
  by (cases a) (auto simp: path_Join_def rooted_path_def intro: clean_abs_Clean)

lemma clean_abs_rooted: "clean_abs p \<Longrightarrow> rooted_path p"
  by (simp add: clean_abs_def)

lemma path_Join_foldl: "clean_abs a \<Longrightarrow> clean_abs (foldl path_Join a bs)"
  by (induction bs arbitrary: a) (auto intro: path_Join_rooted clean_abs_rooted)

lemma Dir_clean: "clean_abs p \<Longrightarrow> clean_abs (Dir p)"
proof -
  assume "clean_abs p"
  then obtain s where p: "p = slash # s" by (auto simp: clean_abs_def rooted_path_def split: list.splits)
  have "rooted_path (dir_part p)"
    unfolding p dir_part_def by (cases "slash \<in> set s") (auto simp: rooted_path_def dropWhile_append)
  then show ?thesis unfolding Dir_def by (rule clean_abs_Clean)
qed

lemma resolve_up_clean:
  "os_ok os \<Longrightarrow> clean_abs orig \<Longrightarrow> clean_abs cur \<Longrightarrow> clean_abs (resolve_up os orig cur trail)"
proof (induction os orig cur trail rule: resolve_up.induct)
  case (1 os orig cur trail)
  show ?case
  proof (cases "Dir cur = cur")
    case True
    with 1 show ?thesis by (subst resolve_up.simps) simp
  next
    case False
    with 1 Dir_clean [of cur] show ?thesis
      by (subst resolve_up.simps) (auto simp: os_ok_def Let_def simp del: foldl_append intro!: path_Join_foldl path_Join_rooted clean_abs_rooted split: option.splits)
  qed
qed

lemma resolvePath_clean: "os_ok os \<Longrightarrow> clean_abs (resolvePath os p)"
proof -
  assume ok: "os_ok os"
  then obtain a where a: "path_Abs os p = Some a" "clean_abs a"
    by (cases "rooted_path p") (auto simp: os_ok_def path_Abs_def intro: clean_abs_Clean path_Join_rooted)
  with ok resolve_up_clean [OF ok a(2) a(2)] show ?thesis
    by (auto simp: resolvePath_def os_ok_def split: option.splits)
qed

subsection \<open>Sub-paths are prefixes of component lists\<close>

lemma HasPrefix_word:
  "slash \<notin> set a \<Longrightarrow> slash \<notin> set b \<Longrightarrow> HasPrefix (a @ slash # s) (b @ slash # t) \<longleftrightarrow> a = b \<and> HasPrefix s t"
  by (induction a arbitrary: b) (case_tac b, auto)+

lemma HasPrefix_word_short: "slash \<notin> set a \<Longrightarrow> \<not> HasPrefix a (b @ slash # t)"
proof (induction a arbitrary: b)
  case (Cons c a)
  then show ?case by (cases b) auto
qed auto

lemma HasPrefix_Join:
  "ps \<noteq> [] \<Longrightarrow> list_all ok_comp cs \<Longrightarrow> list_all ok_comp ps \<Longrightarrow>
     HasPrefix (Join cs [slash]) (Join ps [slash] @ [slash]) \<longleftrightarrow> strict_prefix ps cs"
proof (induction cs arbitrary: ps)
  case Nil
  then show ?case by (cases ps) auto
next
  case (Cons c cs)
  then obtain q qs where ps: "ps = q # qs" by (cases ps) auto
  with Cons.prems have free: "slash \<notin> set c" "slash \<notin> set q" by (auto simp: ok_comp_def)
  have head: "Join ps [slash] @ [slash] = q @ slash # (if qs = [] then [] else Join qs [slash] @ [slash])"
    by (cases qs) (simp_all add: ps)
  show ?case
  proof (cases cs)
    case Nil
    then show ?thesis
      using HasPrefix_word_short [OF free(1)] by (cases qs) (auto simp: ps strict_prefix_def)
  next
    case (Cons d ds)
    have "HasPrefix (Join (c # cs) [slash]) (Join ps [slash] @ [slash])
        \<longleftrightarrow> c = q \<and> HasPrefix (Join cs [slash]) (if qs = [] then [] else Join qs [slash] @ [slash])"
      unfolding head using HasPrefix_word [OF free] by (simp add: Cons)
    also have "\<dots> \<longleftrightarrow> c = q \<and> strict_prefix qs cs"
      using Cons.IH [of qs] Cons.prems Cons by (auto simp: ps)
    finally show ?thesis by (auto simp: ps)
  qed
qed

lemma isSubPath_comps:
  assumes "clean_abs c" "clean_abs p"
  shows "isSubPath c p \<longleftrightarrow> c = p \<or> (p \<noteq> [slash] \<and> prefix (path_comps p) (path_comps c))"
proof -
  from assms obtain cs ps where c: "c = abs_path cs" "list_all ok_comp cs" and p: "p = abs_path ps" "list_all ok_comp ps"
    unfolding clean_abs_iff by blast
  have eq: "c = p \<longleftrightarrow> cs = ps" using c p by (metis path_comps_abs)
  have root: "p = [slash] \<longleftrightarrow> ps = []"
    using p path_comps_abs [of ps] path_comps_abs [of "[]"] by (auto simp: abs_path_def)
  show ?thesis
  proof (cases "ps = []")
    case True
    have "\<not> HasPrefix (Join cs [slash]) [slash]"
      using c(2) by (cases cs; cases "tl cs") (auto simp: ok_comp_def HasPrefix_def hd_append neq_Nil_conv take_Suc)
    with True root show ?thesis by (auto simp: isSubPath_def c(1) p(1) abs_path_def)
  next
    case False
    have "HasPrefix c (p @ [slash]) \<longleftrightarrow> strict_prefix ps cs"
      using HasPrefix_Join [OF False c(2) p(2)] by (simp add: c(1) p(1) abs_path_def)
    with False root eq show ?thesis
      by (auto simp: isSubPath_def strict_prefix_def c p)
  qed
qed


subsection \<open>Properties\<close>

definition demo_os :: os_env where
  "demo_os = \<lparr>Getwd = Some ''/work'', EvalSymlinks = (\<lambda>p. if p = ''/work/link'' then Some ''/etc'' else None)\<rparr>"

lemma demo_os_ok: "os_ok demo_os"
proof -
  have "Clean ''/etc'' = ''/etc''" by code_simp
  then show ?thesis by (auto simp: os_ok_def demo_os_def clean_abs_def rooted_path_def)
qed

text \<open>
  C13: The sandbox's path check is containment of directories: after symbolic links and \<^verbatim>\<open>..\<close> are
  resolved, a path passes exactly when no allow-list is set, or it equals an allowed
  directory, or that directory is not the root and its components are the first components
  of the path. So neither \<^verbatim>\<open>..\<close>, nor a link, nor a sibling such as \<^verbatim>\<open>/data-evil\<close> for
  \<^verbatim>\<open>/data\<close> escapes; an allowed \<^verbatim>\<open>/\<close> admits only itself.
\<close>
theorem CheckPathAllowed_exact:
  assumes "os_ok os"
  shows "(CheckPathAllowed os p allowedPaths = None \<longleftrightarrow>
      allowedPaths = [] \<or> (\<exists>d \<in> set allowedPaths. resolvePath os p = resolvePath os d
        \<or> (resolvePath os d \<noteq> [slash] \<and> prefix (path_comps (resolvePath os d)) (path_comps (resolvePath os p)))))
    \<and> list_all ok_comp (path_comps (resolvePath os p))"
proof -
  note clean = resolvePath_clean [OF assms]
  from clean [of p] have "list_all ok_comp (path_comps (resolvePath os p))"
    unfolding clean_abs_iff by auto
  then show ?thesis
    by (auto simp: CheckPathAllowed_def list_ex_iff isSubPath_comps [OF clean clean])
qed

theorem CheckPathAllowed_exact_witness:
  "CheckPathAllowed demo_os ''a/../b'' [''/work''] = None \<and> CheckPathAllowed demo_os ''link/passwd'' [''/work''] \<noteq> None"
proof -
  have r: "resolvePath demo_os ''a/../b'' = ''/work/b''" "resolvePath demo_os ''/work'' = ''/work''"
    "resolvePath demo_os ''link/passwd'' = ''/etc/passwd''" by code_simp+
  have c: "path_comps ''/work/b'' = [''work'', ''b'']" "path_comps ''/work'' = [''work'']"
    "path_comps ''/etc/passwd'' = [''etc'', ''passwd'']" by code_simp+
  show ?thesis
    using CheckPathAllowed_exact [OF demo_os_ok, of "''a/../b''" "[''/work'']"]
      CheckPathAllowed_exact [OF demo_os_ok, of "''link/passwd''" "[''/work'']"]
    by (simp add: r c)
qed

text \<open>
  C14: What a run in the process sandbox guarantees: whenever a result comes back, the program name was
  not empty, the directory it ran in passes the path check, the limit it ran under is positive,
  and both outputs are at most the policy's limit plus the truncation marker; a program that
  exceeded its time is reported with exit code -1 and an error text.
\<close>
theorem Exec_guarded:
  fixes wd cmd pol
  defines "dir \<equiv> (if WorkDir cmd = [] then wd else WorkDir cmd)"
    and "limit \<equiv> (if MaxOutputBytes pol \<le> 0 then 1024 * 1024 else MaxOutputBytes pol)"
  assumes "Exec os show_dur run wd cmd pol = Inr out"
  shows "Program cmd \<noteq> [] \<and> (dir \<noteq> [] \<longrightarrow> CheckPathAllowed os dir (AllowedPaths pol) = None)
    \<and> (\<exists>timeout. 0 < sint timeout \<and> (pr_end (run dir timeout) = ProcDeadline \<longrightarrow> ExitCode out = -1 \<and> out_Error out \<noteq> [])
         \<and> take (nat limit) (Stdout out) = take (nat limit) (pr_stdout (run dir timeout)))
    \<and> int (length (Stdout out)) \<le> limit + 23 \<and> int (length (Stderr out)) \<le> limit + 23"
proof -
  let ?t = "if sint (pol_Timeout pol) \<le> 0 then 30 * second else pol_Timeout pol"
  have pos: "0 < sint ?t" by (simp add: second_def)
  have limit: "0 \<le> limit" by (simp add: limit_def)
  have len: "int (length (sandbox_truncate s limit)) \<le> limit + 23" for s
    using limit by (auto simp: sandbox_truncate_def nl_def)
  have keep: "take (nat limit) (sandbox_truncate s limit) = take (nat limit) s" for s
    using limit by (auto simp: sandbox_truncate_def)
  from assms(3) have prog: "Program cmd \<noteq> []" and path: "dir \<noteq> [] \<longrightarrow> CheckPathAllowed os dir (AllowedPaths pol) = None"
    by (auto simp: Exec_def Let_def dir_def split: if_splits option.splits)
  from assms(3) prog path have out: "Stdout out = sandbox_truncate (pr_stdout (run dir ?t)) limit"
      "Stderr out = sandbox_truncate (pr_stderr (run dir ?t)) limit"
      "pr_end (run dir ?t) = ProcDeadline \<Longrightarrow> ExitCode out = -1 \<and> out_Error out \<noteq> []"
    unfolding dir_def limit_def by (auto simp: Exec_def Let_def split: proc_end.splits if_splits option.splits)
  have "\<exists>timeout. 0 < sint timeout \<and> (pr_end (run dir timeout) = ProcDeadline \<longrightarrow> ExitCode out = -1 \<and> out_Error out \<noteq> [])
         \<and> take (nat limit) (Stdout out) = take (nat limit) (pr_stdout (run dir timeout))"
    using pos out keep by (intro exI [of _ ?t]) auto
  with prog path len out show ?thesis by auto
qed

definition demo_cmd :: command where
  "demo_cmd = \<lparr>cmd_Name = ''shell'', Program = ''bash'', Args = [], Stdin = [], WorkDir = ''/work/b'', cmd_Env = []\<rparr>"

theorem Exec_guarded_witness:
  "\<exists>out. Exec demo_os (\<lambda>d. ''30s'') (\<lambda>dir t. \<lparr>pr_stdout = replicate 9 (CHR ''x''), pr_stderr = [], pr_end = ProcDeadline, pr_time = 1\<rparr>)
     [] demo_cmd (DefaultPolicy\<lparr>AllowedPaths := [''/work''], MaxOutputBytes := 4\<rparr>) = Inr out \<and> length (Stdout out) \<le> 27 \<and> ExitCode out = -1"
proof -
  let ?run = "\<lambda>dir t. \<lparr>pr_stdout = replicate 9 (CHR ''x''), pr_stderr = [], pr_end = ProcDeadline, pr_time = 1\<rparr>"
  let ?pol = "DefaultPolicy\<lparr>AllowedPaths := [''/work''], MaxOutputBytes := 4\<rparr>"
  have c: "CheckPathAllowed demo_os ''/work/b'' [''/work''] = None" by code_simp
  obtain out where out: "Exec demo_os (\<lambda>d. ''30s'') ?run [] demo_cmd ?pol = Inr out"
    using c by (simp add: Exec_def demo_cmd_def Let_def)
  from Exec_guarded [OF out] out show ?thesis by (auto simp: demo_cmd_def)
qed

end
