(* ===== verification/Chat_Stream.thy ===== *)
theory Chat_Stream
  imports Llm_Types
begin

section \<open>Streams of chat events\<close>

text \<open>
  What a provider promises about the events of one response, and the clients that consume them. A
  provider's reader sends tokens and tool calls, then at most one final event (done or error), and closes
  the channel; the locale \<open>chat_reader\<close> is this contract, interpreted for every reader of the
  package. \<^verbatim>\<open>Check\<close> (\<^verbatim>\<open>cmd/pincer/start.go\<close>) is the client of the verification gate.
\<close>

subsection \<open>Request options\<close>

text \<open>
  The optional parts of a request that the agent itself never sets. A floating point number is its
  text.
\<close>

datatype ToolChoiceType = ToolChoiceAuto | ToolChoiceAny | ToolChoiceNone | ToolChoiceTool

definition choice_text :: "ToolChoiceType \<Rightarrow> string" where
  "choice_text c = (case c of ToolChoiceAuto \<Rightarrow> ''auto'' | ToolChoiceAny \<Rightarrow> ''any'' | ToolChoiceNone \<Rightarrow> ''none'' | ToolChoiceTool \<Rightarrow> ''tool'')"

record tool_choice =
  tch_type :: ToolChoiceType
  tch_name :: string
  tch_no_parallel :: "bool option"

record chat_options =
  opt_temperature :: "string option"
  opt_choice :: "tool_choice option"

definition no_options :: chat_options where
  "no_options = \<lparr>opt_temperature = None, opt_choice = None\<rparr>"

subsection \<open>Well-formed streams\<close>

fun payload_event :: "chat_event \<Rightarrow> bool" where
  "payload_event (EventToken t) = True"
| "payload_event (EventToolCall c) = True"
| "payload_event _ = False"

text \<open>A well-formed event sequence: payload events, then at most one final event.\<close>

fun wf_events :: "chat_event list \<Rightarrow> bool" where
  "wf_events [] = True"
| "wf_events (e # es) = (if payload_event e then wf_events es else es = [])"

lemma wf_events_append: "list_all payload_event xs \<Longrightarrow> wf_events (xs @ ys) = wf_events ys"
  by (induction xs) auto

lemma wf_events_iff:
  "wf_events es \<longleftrightarrow> (\<exists>xs tl. es = xs @ tl \<and> list_all payload_event xs \<and> length tl \<le> 1)"
proof
  assume "wf_events es"
  then show "\<exists>xs tl. es = xs @ tl \<and> list_all payload_event xs \<and> length tl \<le> 1"
  proof (induction es)
    case (Cons e es)
    show ?case
    proof (cases "payload_event e")
      case True
      with Cons obtain xs tl where "es = xs @ tl" "list_all payload_event xs" "length tl \<le> 1" by auto
      with True show ?thesis by (intro exI [of _ "e # xs"] exI [of _ tl]) simp
    next
      case False
      with Cons.prems show ?thesis by (intro exI [of _ "[]"] exI [of _ "[e]"]) simp
    qed
  qed simp
next
  assume "\<exists>xs tl. es = xs @ tl \<and> list_all payload_event xs \<and> length tl \<le> 1"
  then obtain xs tl where "es = xs @ tl" "list_all payload_event xs" "length tl \<le> 1" by blast
  then show "wf_events es"
    using wf_events_append [of xs "[]"] by (cases tl) (auto simp: wf_events_append)
qed

text \<open>A complete stream ends with its final event.\<close>

fun complete_events :: "chat_event list \<Rightarrow> bool" where
  "complete_events [] = False"
| "complete_events (e # es) = (if payload_event e then complete_events es else es = [])"

lemma complete_events_append: "list_all payload_event xs \<Longrightarrow> complete_events (xs @ ys) = complete_events ys"
  by (induction xs) auto

lemma complete_wf: "complete_events es \<Longrightarrow> wf_events es"
  by (induction es) (auto split: if_splits)

text \<open>\<^verbatim>\<open>dispatchResponse\<close>: a streaming request gets the stream reader. The reader runs in its own
  goroutine, so only the events on the channel are seen.\<close>

definition dispatchResponse :: "bool \<Rightarrow> chat_event list \<Rightarrow> chat_event list \<Rightarrow> chat_event list" where
  "dispatchResponse stream fromStream fromFull = (if stream then fromStream else fromFull)"

text \<open>The result of a \<^verbatim>\<open>Chat\<close> call: an error, or a channel whose events satisfy \<open>P\<close>.\<close>

definition chat_result :: "(chat_event list \<Rightarrow> bool) \<Rightarrow> go_error + chat_event list \<Rightarrow> bool" where
  "chat_result P r = (case r of Inl err \<Rightarrow> True | Inr events \<Rightarrow> P events)"

lemma chat_result_dispatch [simp]:
  "chat_result P (Inl err)" "chat_result P (Inr (dispatchResponse b xs ys)) = (if b then P xs else P ys)"
  by (simp_all add: chat_result_def dispatchResponse_def)

subsection \<open>A client of the stream\<close>

fun check_events :: "string \<Rightarrow> chat_event list \<Rightarrow> go_error + string" where
  "check_events result [] = Inr result"
| "check_events result (ev # evs) =
     (case ev of
        EventError err \<Rightarrow> Inl err
      | EventToken t \<Rightarrow> check_events (result @ t) evs
      | _ \<Rightarrow> check_events result evs)"

definition check_request :: "string \<Rightarrow> string \<Rightarrow> chat_request" where
  "check_request model prompt =
     \<lparr>rq_model = model, rq_messages = [user_msg prompt], rq_system = [], rq_max_tokens = 256, rq_stream = False, rq_tools = []\<rparr>"

definition checker_Check :: "(chat_request \<Rightarrow> go_error + chat_event list) \<Rightarrow> string \<Rightarrow> string \<Rightarrow> go_error + string" where
  "checker_Check chat model prompt =
     (case chat (check_request model prompt) of Inl err \<Rightarrow> Inl err | Inr events \<Rightarrow> check_events [] events)"

fun tokens :: "chat_event list \<Rightarrow> string" where
  "tokens [] = []"
| "tokens (EventToken t # es) = t @ tokens es"
| "tokens (e # es) = tokens es"

fun stream_error :: "chat_event list \<Rightarrow> go_error option" where
  "stream_error [] = None"
| "stream_error (EventError err # es) = Some err"
| "stream_error (e # es) = stream_error es"

lemma check_events_exact: "check_events r es = (case stream_error es of Some err \<Rightarrow> Inl err | None \<Rightarrow> Inr (r @ tokens es))"
  by (induction es arbitrary: r rule: stream_error.induct) (auto split: option.splits)

text \<open>What the client of a complete stream may conclude from its last event alone.\<close>

definition stream_answer :: "go_error + chat_event list \<Rightarrow> go_error + string" where
  "stream_answer r =
     (case r of Inl err \<Rightarrow> Inl err
      | Inr es \<Rightarrow> (case last es of EventError err \<Rightarrow> Inl err | _ \<Rightarrow> Inr (tokens es)))"

lemma complete_stream_error:
  "complete_events es \<Longrightarrow> stream_error es = (case last es of EventError err \<Rightarrow> Some err | _ \<Rightarrow> None)"
  by (induction es rule: stream_error.induct) (auto split: if_splits)

lemma checker_Check_complete:
  "chat_result complete_events (chat (check_request model prompt)) \<Longrightarrow>
   checker_Check chat model prompt = stream_answer (chat (check_request model prompt))"
  by (auto simp: checker_Check_def stream_answer_def chat_result_def check_events_exact complete_stream_error
      split: sum.split chat_event.split)

text \<open>The contract of a reader, over whatever it reads.\<close>

locale chat_reader =
  fixes read :: "'b \<Rightarrow> chat_event list"
  assumes read_wf: "wf_events (read b)"
begin

lemma final_alone: "read b = xs @ e # ys \<Longrightarrow> \<not> payload_event e \<Longrightarrow> ys = [] \<and> list_all payload_event xs"
proof -
  assume r: "read b = xs @ e # ys" and e: "\<not> payload_event e"
  have "wf_events (xs @ e # ys) \<Longrightarrow> ys = [] \<and> list_all payload_event xs" for xs
    using e by (induction xs) (auto split: if_splits)
  with read_wf [of b] r show ?thesis by simp
qed

text \<open>An error is the last event: the client of the gate sees it exactly when the reader sent it.\<close>

lemma check_sees_error: "check_events [] (read b) = Inl err \<longleftrightarrow> (\<exists>xs. read b = xs @ [EventError err])"
proof -
  have "wf_events es \<Longrightarrow> stream_error es = Some err \<longleftrightarrow> (\<exists>xs. es = xs @ [EventError err])" for es
  proof (induction es rule: stream_error.induct)
    case (2 e es)
    then have "es = []" by simp
    then show ?case by auto
  qed (auto simp: Cons_eq_append_conv split: if_splits)
  from this [OF read_wf [of b]] show ?thesis by (auto simp: check_events_exact split: option.splits)
qed

end

text \<open>A reader that always says how the response ended.\<close>

locale complete_reader = chat_reader +
  assumes read_complete: "complete_events (read b)"

end
