(* ===== verification/Anthropic_Provider.thy ===== *)
theory Anthropic_Provider
  imports Chat_Stream Keyed_Store
begin

section \<open>The Anthropic provider (\<^verbatim>\<open>pkg/llm/anthropic.go\<close>)\<close>

text \<open>
  The conversion of a chat request to the wire request, and the reader that turns the
  server-sent events of a streaming response into chat events, assembling each tool call
  from its fragments by block index. Decoding the JSON of one event is an argument
  (\<open>parse\<close>); each line of the response comes with the state of the context at that moment.
\<close>

subsection \<open>Requests\<close>

datatype inline_block = InlineText string | InlineImage string string

datatype result_body = BodyText string | BodyInline "inline_block list"

datatype content_block =
    TextBlock string
  | ToolUseBlock string string string
  | ToolResultBlock string result_body bool

datatype anthropic_content = PlainContent string | BlockContent "content_block list"

record anthropic_message =
  am_role :: string
  am_content :: anthropic_content

record anthropic_request =
  ar_model :: string
  ar_max_tokens :: int
  ar_system :: string
  ar_messages :: "anthropic_message list"
  ar_tools :: "tool_definition list"
  ar_stream :: bool
  ar_temperature :: "string option"
  ar_tool_choice :: "(string \<times> string \<times> bool option) option"

text \<open>\<^verbatim>\<open>base64.StdEncoding\<close>.\<close>

definition b64_char :: "nat \<Rightarrow> char" where
  "b64_char n = (if n < 26 then char_of (65 + n) else if n < 52 then char_of (71 + n)
     else if n < 62 then char_of (n - 4) else if n = 62 then CHR ''+'' else CHR ''/'')"

fun b64_encode :: "nat list \<Rightarrow> string" where
  "b64_encode (a # b # c # r) =
     b64_char (a div 4) # b64_char (a mod 4 * 16 + b div 16) #
     b64_char (b mod 16 * 4 + c div 64) # b64_char (c mod 64) # b64_encode r"
| "b64_encode [a, b] =
     [b64_char (a div 4), b64_char (a mod 4 * 16 + b div 16), b64_char (b mod 16 * 4), CHR ''='']"
| "b64_encode [a] = [b64_char (a div 4), b64_char (a mod 4 * 16), CHR ''='', CHR ''='']"
| "b64_encode [] = []"

definition base64 :: "string \<Rightarrow> string" where
  "base64 s = b64_encode (map of_char s)"

definition image_blocks :: "image_content list \<Rightarrow> inline_block list" where
  "image_blocks imgs = concat (map (\<lambda>img. case ic_data img of
     None \<Rightarrow> [] | Some d \<Rightarrow> [InlineImage (ic_media_type img) (base64 d)]) imgs)"

definition tool_result_block :: "tool_result \<Rightarrow> content_block" where
  "tool_result_block tr = ToolResultBlock (tr_tool_call_id tr)
     (if tr_images tr \<noteq> []
      then BodyInline ((if tr_content tr \<noteq> [] then [InlineText (tr_content tr)] else []) @ image_blocks (tr_images tr))
      else BodyText (tr_content tr))
     (tr_is_error tr)"

definition convertToAnthropicMessage :: "chat_message \<Rightarrow> anthropic_message" where
  "convertToAnthropicMessage m =
     (if cm_role m = RoleAssistant \<and> cm_tool_calls m \<noteq> []
      then \<lparr>am_role = cm_role m, am_content = BlockContent
             ((if cm_content m \<noteq> [] then [TextBlock (cm_content m)] else []) @
              map (\<lambda>tc. ToolUseBlock (tc_id tc) (tc_name tc) (tc_input tc)) (cm_tool_calls m))\<rparr>
      else if cm_role m = RoleUser \<and> cm_tool_results m \<noteq> []
      then \<lparr>am_role = cm_role m, am_content = BlockContent (map tool_result_block (cm_tool_results m))\<rparr>
      else \<lparr>am_role = cm_role m, am_content = PlainContent (cm_content m)\<rparr>)"

definition anthropic_Chat_request :: "chat_options \<Rightarrow> chat_request \<Rightarrow> anthropic_request" where
  "anthropic_Chat_request opts req =
     \<lparr>ar_model = (if rq_model req = [] then ''claude-sonnet-4-20250514'' else rq_model req),
      ar_max_tokens = (if rq_max_tokens req \<le> 0 then 4096 else rq_max_tokens req),
      ar_system = rq_system req,
      ar_messages = map convertToAnthropicMessage (filter (\<lambda>m. cm_role m \<noteq> RoleSystem) (rq_messages req)),
      ar_tools = rq_tools req,
      ar_stream = rq_stream req,
      ar_temperature = opt_temperature opts,
      ar_tool_choice = map_option (\<lambda>c. (choice_text (tch_type c), tch_name c, tch_no_parallel c)) (opt_choice opts)\<rparr>"

subsection \<open>The provider\<close>

record anthropic_provider =
  ap_key :: string
  ap_url :: string
  ap_auth_header :: string

definition anthropicDefaultBaseURL :: string where "anthropicDefaultBaseURL = ''https://api.anthropic.com''"

definition NewAnthropicProvider :: "(string \<Rightarrow> string) \<Rightarrow> string \<Rightarrow> string \<Rightarrow> string \<Rightarrow> go_error + anthropic_provider" where
  "NewAnthropicProvider getenv apiKey0 baseURL0 authHeader =
     (let apiKey = (if apiKey0 = [] then getenv ''ANTHROPIC_API_KEY'' else apiKey0);
          baseURL = (if baseURL0 = [] then anthropicDefaultBaseURL else baseURL0) in
      if apiKey = [] \<and> baseURL = anthropicDefaultBaseURL
      then Inl (ErrText ''anthropic: API key not set (provide it or set ANTHROPIC_API_KEY)'')
      else Inr \<lparr>ap_key = apiKey, ap_url = baseURL, ap_auth_header = (if authHeader = [] then ''X-Api-Key'' else authHeader)\<rparr>)"

text \<open>The headers set on the request, a Go map: the version is set last here and has a name of its own.\<close>

definition anthropic_headers :: "anthropic_provider \<Rightarrow> (string \<times> string) list" where
  "anthropic_headers p = [(ap_auth_header p, ap_key p), (''Anthropic-Version'', ''2023-06-01'')]"

subsection \<open>Streaming responses\<close>

record sse_event =
  se_type :: string
  se_index :: int
  se_block :: "(string \<times> string \<times> string) option"
  se_delta_type :: string
  se_delta_text :: string
  se_delta_json :: string
  se_message_input :: int
  se_usage_output :: int

record stream_tool =
  st_id :: string
  st_name :: string
  st_input :: string

record stream_state =
  ss_usage :: usage
  ss_tools :: "(int, stream_tool) gomap"

definition tool_call_of :: "stream_tool \<Rightarrow> tool_call" where
  "tool_call_of ts = \<lparr>tc_id = st_id ts, tc_name = st_name ts,
     tc_input = (if st_input ts = [] then ''{}'' else st_input ts)\<rparr>"

text \<open>
  One decoded event: the chat events sent, the new state, and whether the reader returns.
\<close>

definition sse_step :: "stream_state \<Rightarrow> sse_event \<Rightarrow> chat_event list \<times> stream_state \<times> bool" where
  "sse_step st ev =
     (if se_type ev = ''content_block_start'' then
        (case se_block ev of
           Some (ty, i, n) \<Rightarrow>
             if ty = ''tool_use''
             then ([], st\<lparr>ss_tools := gomap_put (se_index ev) \<lparr>st_id = i, st_name = n, st_input = []\<rparr> (ss_tools st)\<rparr>, False)
             else ([], st, False)
         | None \<Rightarrow> ([], st, False))
      else if se_type ev = ''content_block_delta'' then
        (if se_delta_type ev = ''text_delta'' then ([EventToken (se_delta_text ev)], st, False)
         else if se_delta_type ev = ''input_json_delta'' then
           (case map_of (ss_tools st) (se_index ev) of
              Some ts \<Rightarrow> ([], st\<lparr>ss_tools := gomap_put (se_index ev)
                 (ts\<lparr>st_input := st_input ts @ se_delta_json ev\<rparr>) (ss_tools st)\<rparr>, False)
            | None \<Rightarrow> ([], st, False))
         else ([], st, False))
      else if se_type ev = ''content_block_stop'' then
        (case map_of (ss_tools st) (se_index ev) of
           Some ts \<Rightarrow> ([EventToolCall (tool_call_of ts)],
              st\<lparr>ss_tools := gomap_delete (se_index ev) (ss_tools st)\<rparr>, False)
         | None \<Rightarrow> ([], st, False))
      else if se_type ev = ''message_start'' then
        ([], (if se_message_input ev > 0 then st\<lparr>ss_usage := (ss_usage st)\<lparr>InputTokens := se_message_input ev\<rparr>\<rparr> else st), False)
      else if se_type ev = ''message_delta'' then
        ([], (if se_usage_output ev > 0 then st\<lparr>ss_usage := (ss_usage st)\<lparr>OutputTokens := se_usage_output ev\<rparr>\<rparr> else st), False)
      else if se_type ev = ''message_stop'' then ([EventDone (Some (ss_usage st))], st, True)
      else ([], st, False))"

fun stream_loop :: "(string \<Rightarrow> sse_event option) \<Rightarrow> stream_state \<Rightarrow> (go_error option \<times> string) list \<Rightarrow>
    go_error option \<Rightarrow> chat_event list" where
  "stream_loop parse st [] scan_err = (case scan_err of None \<Rightarrow> [] | Some e \<Rightarrow> [EventError e])"
| "stream_loop parse st ((ctx, line) # rest) scan_err =
     (case ctx of
        Some e \<Rightarrow> [EventError e]
      | None \<Rightarrow>
        (if \<not> HasPrefix line ''data: '' then stream_loop parse st rest scan_err
         else (case parse (TrimPrefix line ''data: '') of
           None \<Rightarrow> stream_loop parse st rest scan_err
         | Some ev \<Rightarrow> (case sse_step st ev of (out, st', stop) \<Rightarrow>
             if stop then out else out @ stream_loop parse st' rest scan_err))))"

definition stream_init :: stream_state where
  "stream_init = \<lparr>ss_usage = \<lparr>InputTokens = 0, OutputTokens = 0\<rparr>, ss_tools = []\<rparr>"

definition readStream :: "(string \<Rightarrow> sse_event option) \<Rightarrow> (go_error option \<times> string) list \<Rightarrow> go_error option \<Rightarrow> chat_event list" where
  "readStream parse lines scan_err = stream_loop parse stream_init lines scan_err"

subsection \<open>Full responses\<close>

record full_response =
  fr_content :: "content_block list"
  fr_usage :: usage

fun block_events :: "content_block \<Rightarrow> chat_event list" where
  "block_events (TextBlock t) = [EventToken t]"
| "block_events (ToolUseBlock i n input) =
     [EventToolCall \<lparr>tc_id = i, tc_name = n, tc_input = (if input = [] then ''{}'' else input)\<rparr>]"
| "block_events (ToolResultBlock i b e) = []"

definition readFull :: "go_error + full_response \<Rightarrow> chat_event list" where
  "readFull decoded =
     (case decoded of
        Inl e \<Rightarrow> [EventError (ErrWrap ''anthropic: decoding response: '' e)]
      | Inr resp \<Rightarrow> concat (map block_events (fr_content resp)) @ [EventDone (Some (fr_usage resp))])"

text \<open>
  The whole \<^verbatim>\<open>Chat\<close>: \<open>post\<close> sends the request, \<open>scan\<close> is the scanner over a body (its lines, each
  with the state of the context, and its error), \<open>decode\<close> the JSON decoder.
\<close>

definition anthropic_Chat :: "(string \<Rightarrow> (string \<times> string) list \<Rightarrow> anthropic_request \<Rightarrow> http_outcome) \<Rightarrow>
    (string \<Rightarrow> (go_error option \<times> string) list \<times> go_error option) \<Rightarrow> (string \<Rightarrow> sse_event option) \<Rightarrow>
    (string \<Rightarrow> go_error + full_response) \<Rightarrow> anthropic_provider \<Rightarrow> chat_options \<Rightarrow> chat_request \<Rightarrow> go_error + chat_event list" where
  "anthropic_Chat post scan parse decode p opts req =
     (case doLLMRequest ''anthropic'' (post (ap_url p @ ''/v1/messages'') (anthropic_headers p) (anthropic_Chat_request opts req)) of
        Inl err \<Rightarrow> Inl err
      | Inr body \<Rightarrow> Inr (dispatchResponse (rq_stream req)
          (case scan body of (lines, scan_err) \<Rightarrow> readStream parse lines scan_err) (readFull (decode body))))"

subsection \<open>Lemmas\<close>

lemma sse_step_out:
  "sse_step st ev = (out, st', stop) \<Longrightarrow>
     (stop \<longrightarrow> out = [EventDone (Some (ss_usage st))]) \<and> (\<not> stop \<longrightarrow> list_all payload_event out)"
  by (auto simp: sse_step_def split: if_splits option.splits prod.splits)

lemma sse_step_tools_ok:
  "sse_step st ev = (out, st', stop) \<Longrightarrow> gomap_ok (ss_tools st) \<Longrightarrow> gomap_ok (ss_tools st')"
  by (auto simp: sse_step_def split: if_splits option.splits prod.splits)

lemma stream_loop_wf: "wf_events (stream_loop parse st lines scan_err)"
proof (induction parse st lines scan_err rule: stream_loop.induct)
  case (1 parse st scan_err)
  then show ?case by (simp split: option.splits)
next
  case (2 parse st ctx line rest scan_err)
  have "sse_step st ev = (out, st', stop) \<Longrightarrow> stop \<Longrightarrow> wf_events out"
    "sse_step st ev = (out, st', stop) \<Longrightarrow> \<not> stop \<Longrightarrow> wf_events (out @ es) = wf_events es" for ev out st' stop es
    by (auto dest!: sse_step_out simp: wf_events_append)
  with 2 show ?case by (auto split: option.splits prod.splits)
qed

text \<open>Events of a run of decoded server events, without the line scanning.\<close>

fun sse_run :: "stream_state \<Rightarrow> sse_event list \<Rightarrow> chat_event list \<times> stream_state" where
  "sse_run st [] = ([], st)"
| "sse_run st (ev # evs) =
     (case sse_step st ev of (out, st', stop) \<Rightarrow>
        if stop then (out, st') else (case sse_run st' evs of (out', st'') \<Rightarrow> (out @ out', st'')))"

lemma stream_loop_data_lines:
  "(\<forall>ev \<in> set evs. parse (render ev) = Some ev) \<Longrightarrow>
   stream_loop parse st (map (\<lambda>ev. (None, ''data: '' @ render ev)) evs) None = fst (sse_run st evs)"
proof (induction evs arbitrary: st)
  case (Cons ev evs)
  then have p: "parse (render ev) = Some ev" by simp
  have hp: "HasPrefix (''data: '' @ render ev) ''data: ''" "TrimPrefix (''data: '' @ render ev) ''data: '' = render ev"
    by (simp_all only: HasPrefix_append TrimPrefix_append)
  obtain out st' stop where step: "sse_step st ev = (out, st', stop)" by (metis prod_cases3)
  have "stream_loop parse st (map (\<lambda>ev. (None, ''data: '' @ render ev)) (ev # evs)) None
     = (if stop then out else out @ stream_loop parse st' (map (\<lambda>ev. (None, ''data: '' @ render ev)) evs) None)"
    by (simp only: list.map stream_loop.simps hp p step option.case prod.case not_True_eq_False if_False)
  with Cons step show ?case by (simp split: prod.splits)
qed simp

text \<open>An event that neither ends the message nor starts or stops the tool block \<open>i\<close>.\<close>

definition quiet_for :: "int \<Rightarrow> sse_event \<Rightarrow> bool" where
  "quiet_for i ev \<longleftrightarrow> se_type ev \<noteq> ''message_stop'' \<and>
     (se_index ev = i \<longrightarrow> se_type ev \<noteq> ''content_block_start'' \<and> se_type ev \<noteq> ''content_block_stop'')"

definition fragment :: "int \<Rightarrow> sse_event \<Rightarrow> string" where
  "fragment i ev = (if se_type ev = ''content_block_delta'' \<and> se_delta_type ev = ''input_json_delta'' \<and> se_index ev = i
     then se_delta_json ev else [])"

lemma sse_step_quiet:
  assumes "quiet_for i ev" and "map_of (ss_tools st) i = Some ts" and "sse_step st ev = (out, st', stop)"
  shows "\<not> stop \<and> map_of (ss_tools st') i = Some (ts\<lparr>st_input := st_input ts @ fragment i ev\<rparr>)"
  using assms
  by (auto simp: sse_step_def quiet_for_def fragment_def split: if_splits option.splits prod.splits)

lemma sse_run_quiet:
  "list_all (quiet_for i) evs \<Longrightarrow> map_of (ss_tools st) i = Some ts \<Longrightarrow> sse_run st evs = (out, st') \<Longrightarrow>
     map_of (ss_tools st') i = Some (ts\<lparr>st_input := st_input ts @ concat (map (fragment i) evs)\<rparr>)"
proof (induction evs arbitrary: st ts out)
  case (Cons ev evs)
  obtain o1 s1 stop where step: "sse_step st ev = (o1, s1, stop)" by (metis prod_cases3)
  with Cons.prems have ns: "\<not> stop" and
    m: "map_of (ss_tools s1) i = Some (ts\<lparr>st_input := st_input ts @ fragment i ev\<rparr>)"
    using sse_step_quiet [of i ev st ts o1 s1 stop] by auto
  obtain o2 s2 where run: "sse_run s1 evs = (o2, s2)" by force
  with Cons.prems(3) step ns have "sse_run s1 evs = (o2, st')" by simp
  with Cons.IH [OF _ m] Cons.prems(1) show ?case by simp
qed simp

lemma sse_run_append:
  "list_all (quiet_for i) evs \<Longrightarrow>
   sse_run st (evs @ rest) = (let (o1, s1) = sse_run st evs; (o2, s2) = sse_run s1 rest in (o1 @ o2, s2))"
proof (induction evs arbitrary: st)
  case (Cons ev evs)
  obtain o1 s1 stop where step: "sse_step st ev = (o1, s1, stop)" by (metis prod_cases3)
  from Cons.prems have "se_type ev \<noteq> ''message_stop''" by (simp add: quiet_for_def)
  with step have "\<not> stop" by (auto simp: sse_step_def split: if_splits option.splits prod.splits)
  with Cons step show ?case by (simp add: Let_def split: prod.splits)
qed (simp add: Let_def split: prod.splits)

subsection \<open>Properties\<close>

text \<open>
  what a stream reader sends is well formed: tokens and tool calls, then at most one
  final event (done or error), whatever bytes the server sends, wherever the context ends
  and however the scan of the body ends.
\<close>

theorem readStream_wf:
  "\<exists>evs tl. readStream parse lines scan_err = evs @ tl \<and> list_all payload_event evs \<and> length tl \<le> 1"
  using stream_loop_wf [of parse stream_init lines scan_err]
  unfolding readStream_def wf_events_iff .

text \<open>
  a tool call is assembled from the fragments of its own block. When the start event of
  tool block \<open>i\<close> is followed by any events that do not end the message or the block
  (text, other blocks and their fragments included) and then by the stop of block \<open>i\<close>,
  each on a data line that decodes to it, the last event the reader sends is the call with
  the block's id and name and, as its input, the concatenation of the block's own JSON
  fragments in order, or \<^verbatim>\<open>{}\<close> if there are none.
\<close>

theorem readStream_assembles_call:
  assumes decode: "\<forall>ev \<in> set (start # evs @ [fin]). parse (render ev) = Some ev"
    and start: "se_type start = ''content_block_start''" "se_index start = i"
      "se_block start = Some (''tool_use'', cid, name)"
    and quiet: "list_all (quiet_for i) evs"
    and stop: "se_type fin = ''content_block_stop''" "se_index fin = i"
  shows "\<exists>out. readStream parse (map (\<lambda>ev. (None, ''data: '' @ render ev)) (start # evs @ [fin])) None
    = out @ [EventToolCall \<lparr>tc_id = cid, tc_name = name,
       tc_input = (let s = concat (map (fragment i) evs) in if s = [] then ''{}'' else s)\<rparr>]"
proof -
  let ?ts = "\<lparr>st_id = cid, st_name = name, st_input = []\<rparr>"
  let ?st = "stream_init\<lparr>ss_tools := gomap_put i ?ts (ss_tools stream_init)\<rparr>"
  obtain o1 s1 where run: "sse_run ?st evs = (o1, s1)" by force
  then have "map_of (ss_tools s1) i = Some (?ts\<lparr>st_input := [] @ concat (map (fragment i) evs)\<rparr>)"
    using sse_run_quiet [OF quiet, of ?st ?ts] by simp
  moreover have "sse_run stream_init (start # evs @ [fin]) = sse_run ?st (evs @ [fin])"
    using start by (simp add: sse_step_def split: prod.splits)
  ultimately have "\<exists>out. fst (sse_run stream_init (start # evs @ [fin])) = out @ [EventToolCall
      \<lparr>tc_id = cid, tc_name = name,
       tc_input = (let s = concat (map (fragment i) evs) in if s = [] then ''{}'' else s)\<rparr>]"
    using run stop by (simp add: sse_run_append [OF quiet] sse_step_def tool_call_of_def Let_def)
  then show ?thesis
    unfolding readStream_def stream_loop_data_lines [OF decode] .
qed

definition demo_sse :: "string \<Rightarrow> int \<Rightarrow> sse_event" where
  "demo_sse ty i = \<lparr>se_type = ty, se_index = i, se_block = Some (''tool_use'', ''t1'', ''shell''),
     se_delta_type = ''input_json_delta'', se_delta_text = [], se_delta_json = ''ab'',
     se_message_input = 0, se_usage_output = 0\<rparr>"

definition demo_render :: "sse_event \<Rightarrow> string" where
  "demo_render ev = (if se_index ev = 1 then ''1'' else ''2'') @ se_type ev"

definition demo_parse :: "string \<Rightarrow> sse_event option" where
  "demo_parse s = (case s of [] \<Rightarrow> None | c # ty \<Rightarrow> Some (demo_sse ty (if c = CHR ''1'' then 1 else 2)))"

theorem readStream_assembles_call_witness:
  "\<exists>out. readStream demo_parse (map (\<lambda>ev. (None, ''data: '' @ demo_render ev))
      (demo_sse ''content_block_start'' 1 #
       [demo_sse ''content_block_delta'' 1, demo_sse ''content_block_delta'' 2, demo_sse ''content_block_delta'' 1]
       @ [demo_sse ''content_block_stop'' 1])) None
   = out @ [EventToolCall \<lparr>tc_id = ''t1'', tc_name = ''shell'', tc_input = ''abab''\<rparr>]"
proof -
  let ?evs = "[demo_sse ''content_block_delta'' 1, demo_sse ''content_block_delta'' 2, demo_sse ''content_block_delta'' 1]"
  have "\<forall>ev \<in> set (demo_sse ''content_block_start'' 1 # ?evs @ [demo_sse ''content_block_stop'' 1]).
      demo_parse (demo_render ev) = Some ev"
    by (simp add: demo_sse_def demo_render_def demo_parse_def)
  from readStream_assembles_call [OF this, of 1 "''t1''" "''shell''"] show ?thesis
    by (simp add: demo_sse_def quiet_for_def fragment_def)
qed

text \<open>
  a response whose body ends without the message's stop event is indistinguishable, for
  the consumer, from one in progress: no done and no error event is sent when the scan ends
  cleanly, the context is alive and no decoded event is the stop event.
\<close>

theorem readStream_truncation_silent:
  assumes "\<forall>(ctx, line) \<in> set lines. ctx = None \<and>
    (\<forall>ev. parse (TrimPrefix line ''data: '') = Some ev \<longrightarrow> se_type ev \<noteq> ''message_stop'')"
  shows "list_all payload_event (readStream parse lines None)"
proof -
  have "list_all payload_event (stream_loop parse st lines None)" for st
    using assms
  proof (induction lines arbitrary: st)
    case (Cons l lines)
    have "sse_step st ev = (out, st', stop) \<Longrightarrow> se_type ev \<noteq> ''message_stop'' \<Longrightarrow> \<not> stop \<and> list_all payload_event out"
      for ev out st' stop
      by (auto simp: sse_step_def split: if_splits option.splits prod.splits)
    with Cons show ?case by (cases l) (fastforce split: option.splits prod.splits)
  qed simp
  then show ?thesis by (simp add: readStream_def)
qed

theorem readStream_truncation_silent_witness:
  "readStream (\<lambda>s. None) [(None, ''data: x'')] None = [] \<and>
   list_all payload_event (readStream (\<lambda>s. None) [(None, ''data: x'')] None)"
  using readStream_truncation_silent [of "[(None, ''data: x'')]" "\<lambda>s. None"]
  by (simp add: readStream_def)

end
