(* ===== verification/OpenAI_Provider.thy ===== *)
theory OpenAI_Provider
  imports Anthropic_Provider "HOL-Library.Multiset"
begin

section \<open>OpenAI and Ollama (\<^verbatim>\<open>pkg/llm/openai.go\<close>, \<^verbatim>\<open>pkg/llm/ollama.go\<close>)\<close>

text \<open>
  The request of the chat completions interface and the readers of its streaming and full responses.
  Decoding the JSON of a chunk is an argument, each line comes with the state of the context at that
  moment, and the order in which Go ranges over the map of unfinished tool calls is the argument
  \<open>order\<close>, of which only that it is a permutation is known. Ollama is the same interface at
  another address.
\<close>

subsection \<open>Providers\<close>

record openai_provider =
  oa_key :: string
  oa_url :: string
  oa_auth_header :: string

definition openaiAPIURL :: string where "openaiAPIURL = ''https://api.openai.com/v1/chat/completions''"

definition NewOpenAIProvider :: "(string \<Rightarrow> string) \<Rightarrow> string \<Rightarrow> string \<Rightarrow> string \<Rightarrow> go_error + openai_provider" where
  "NewOpenAIProvider getenv apiKey0 baseURL authHeader =
     (let apiKey = (if apiKey0 = [] then getenv ''OPENAI_API_KEY'' else apiKey0) in
      if apiKey = [] then Inl (ErrText ''openai: API key not set (provide it or set OPENAI_API_KEY)'')
      else Inr \<lparr>oa_key = apiKey, oa_url = (if baseURL = [] then openaiAPIURL else baseURL),
                oa_auth_header = (if authHeader = [] then ''Authorization'' else authHeader)\<rparr>)"

record ollama_provider =
  ol_inner :: openai_provider
  ol_model :: string

definition ollamaDefaultURL :: string where "ollamaDefaultURL = ''http://localhost:11434/v1/chat/completions''"

definition NewOllamaProvider :: "(string \<Rightarrow> string) \<Rightarrow> string \<Rightarrow> string \<Rightarrow> go_error + ollama_provider" where
  "NewOllamaProvider getenv baseURL0 model =
     (let u = (if baseURL0 = [] then getenv ''OLLAMA_BASE_URL'' else baseURL0);
          baseURL = (if u = [] then ollamaDefaultURL else u) in
      case NewOpenAIProvider getenv ''ollama'' baseURL [] of
        Inl err \<Rightarrow> Inl (ErrWrap ''ollama: creating provider: '' err)
      | Inr inner \<Rightarrow> Inr \<lparr>ol_inner = inner, ol_model = (if model = [] then ''llama3'' else model)\<rparr>)"

subsection \<open>Requests\<close>

record openai_call =
  oc_id :: string
  oc_name :: string
  oc_args :: string

record openai_message =
  om_role :: string
  om_content :: string
  om_calls :: "openai_call list"
  om_call_id :: string

datatype openai_choice_option = ChoiceWord string | ChoiceFunction string

record openai_request =
  or_model :: string
  or_messages :: "openai_message list"
  or_max_tokens :: int
  or_temperature :: "string option"
  or_tools :: "tool_definition list"
  or_stream :: bool
  or_tool_choice :: "openai_choice_option option"
  or_parallel :: "bool option"

definition convertToOpenAIMessages :: "chat_message \<Rightarrow> openai_message list" where
  "convertToOpenAIMessages m =
     (if cm_role m = RoleAssistant \<and> cm_tool_calls m \<noteq> []
      then [\<lparr>om_role = ''assistant'', om_content = cm_content m,
             om_calls = map (\<lambda>tc. \<lparr>oc_id = tc_id tc, oc_name = tc_name tc, oc_args = tc_input tc\<rparr>) (cm_tool_calls m), om_call_id = []\<rparr>]
      else if cm_role m = RoleUser \<and> cm_tool_results m \<noteq> []
      then map (\<lambda>tr. \<lparr>om_role = ''tool'', om_content = tr_content tr, om_calls = [], om_call_id = tr_tool_call_id tr\<rparr>) (cm_tool_results m)
      else [\<lparr>om_role = cm_role m, om_content = cm_content m, om_calls = [], om_call_id = []\<rparr>])"

definition openai_tool_choice :: "tool_choice \<Rightarrow> openai_choice_option" where
  "openai_tool_choice c =
     (case tch_type c of
        ToolChoiceAuto \<Rightarrow> ChoiceWord ''auto''
      | ToolChoiceNone \<Rightarrow> ChoiceWord ''none''
      | ToolChoiceAny \<Rightarrow> ChoiceWord ''required''
      | ToolChoiceTool \<Rightarrow> ChoiceFunction (tch_name c))"

definition openai_Chat_request :: "chat_options \<Rightarrow> chat_request \<Rightarrow> openai_request" where
  "openai_Chat_request opts req =
     \<lparr>or_model = (if rq_model req = [] then ''gpt-4o'' else rq_model req),
      or_messages = (if rq_system req \<noteq> [] then [\<lparr>om_role = ''system'', om_content = rq_system req, om_calls = [], om_call_id = []\<rparr>] else [])
        @ concat (map convertToOpenAIMessages (rq_messages req)),
      or_max_tokens = (if rq_max_tokens req \<le> 0 then 4096 else rq_max_tokens req),
      or_temperature = opt_temperature opts,
      or_tools = rq_tools req,
      or_stream = rq_stream req,
      or_tool_choice = map_option openai_tool_choice (opt_choice opts),
      or_parallel = (case opt_choice opts of Some c \<Rightarrow> if tch_no_parallel c = Some True then Some False else None | None \<Rightarrow> None)\<rparr>"

definition openai_auth :: "openai_provider \<Rightarrow> string \<times> string" where
  "openai_auth p = (oa_auth_header p, (if oa_auth_header p = ''Authorization'' then ''Bearer '' @ oa_key p else oa_key p))"

subsection \<open>Streaming responses\<close>

record openai_delta =
  de_index :: int
  de_id :: string
  de_name :: string
  de_args :: string

record openai_choice =
  ch_content :: string
  ch_calls :: "openai_delta list"
  ch_finish :: "string option"

record openai_chunk =
  ck_choices :: "openai_choice list"
  ck_usage :: "usage option"

record openai_state =
  os_tools :: "(int, stream_tool) gomap"
  os_usage :: usage
  os_ranges :: nat

definition add_fragment :: "openai_delta \<Rightarrow> (int, stream_tool) gomap \<Rightarrow> (int, stream_tool) gomap" where
  "add_fragment tc tools =
     (let state = (case map_of tools (de_index tc) of Some s \<Rightarrow> s | None \<Rightarrow> \<lparr>st_id = de_id tc, st_name = de_name tc, st_input = []\<rparr>)
      in gomap_put (de_index tc) (state\<lparr>st_input := st_input state @ de_args tc\<rparr>) tools)"

definition openai_choice_step :: "(nat \<Rightarrow> (int \<times> stream_tool) list \<Rightarrow> (int \<times> stream_tool) list) \<Rightarrow> openai_state \<Rightarrow> openai_choice \<Rightarrow>
    chat_event list \<times> openai_state" where
  "openai_choice_step order st choice =
     (let toks = (if ch_content choice \<noteq> [] then [EventToken (ch_content choice)] else []);
          tools = fold add_fragment (ch_calls choice) (os_tools st);
          st1 = st\<lparr>os_tools := tools\<rparr>
      in if ch_finish choice \<noteq> None
         then (toks @ map (\<lambda>(i, s). EventToolCall (tool_call_of s)) (order (os_ranges st) tools), st1\<lparr>os_ranges := Suc (os_ranges st)\<rparr>)
         else (toks, st1))"

fun openai_choices :: "(nat \<Rightarrow> (int \<times> stream_tool) list \<Rightarrow> (int \<times> stream_tool) list) \<Rightarrow> openai_state \<Rightarrow> openai_choice list \<Rightarrow>
    chat_event list \<times> openai_state" where
  "openai_choices order st [] = ([], st)"
| "openai_choices order st (c # cs) =
     (let (out, st1) = openai_choice_step order st c; (out', st2) = openai_choices order st1 cs in (out @ out', st2))"

definition openai_chunk_step :: "(nat \<Rightarrow> (int \<times> stream_tool) list \<Rightarrow> (int \<times> stream_tool) list) \<Rightarrow> openai_state \<Rightarrow> openai_chunk \<Rightarrow>
    chat_event list \<times> openai_state" where
  "openai_chunk_step order st ck =
     openai_choices order (case ck_usage ck of Some u \<Rightarrow> st\<lparr>os_usage := u\<rparr> | None \<Rightarrow> st) (ck_choices ck)"

fun openai_stream_loop :: "(nat \<Rightarrow> (int \<times> stream_tool) list \<Rightarrow> (int \<times> stream_tool) list) \<Rightarrow> (string \<Rightarrow> openai_chunk option) \<Rightarrow>
    openai_state \<Rightarrow> (go_error option \<times> string) list \<Rightarrow> chat_event list" where
  "openai_stream_loop order parse st [] = [EventDone (Some (os_usage st))]"
| "openai_stream_loop order parse st ((ctx, line) # rest) =
     (case ctx of
        Some e \<Rightarrow> [EventError e]
      | None \<Rightarrow>
          if \<not> HasPrefix line ''data: '' then openai_stream_loop order parse st rest
          else (let d = TrimPrefix line ''data: '' in
            if d = ''[DONE]'' then [EventDone (Some (os_usage st))]
            else (case parse d of
              None \<Rightarrow> openai_stream_loop order parse st rest
            | Some ck \<Rightarrow> (let (out, st1) = openai_chunk_step order st ck in out @ openai_stream_loop order parse st1 rest))))"

definition openai_init :: openai_state where
  "openai_init = \<lparr>os_tools = [], os_usage = \<lparr>InputTokens = 0, OutputTokens = 0\<rparr>, os_ranges = 0\<rparr>"

definition openai_readStream :: "(nat \<Rightarrow> (int \<times> stream_tool) list \<Rightarrow> (int \<times> stream_tool) list) \<Rightarrow> (string \<Rightarrow> openai_chunk option) \<Rightarrow>
    (go_error option \<times> string) list \<Rightarrow> chat_event list" where
  "openai_readStream order parse lines = openai_stream_loop order parse openai_init lines"

subsection \<open>Full responses\<close>

record openai_full =
  of_choices :: "(string \<times> openai_call list) list"
  of_usage :: usage

definition full_call :: "openai_call \<Rightarrow> chat_event" where
  "full_call c = EventToolCall \<lparr>tc_id = oc_id c, tc_name = oc_name c, tc_input = (if oc_args c = [] then ''{}'' else oc_args c)\<rparr>"

definition openai_readFull :: "go_error + openai_full \<Rightarrow> chat_event list" where
  "openai_readFull decoded =
     (case decoded of
        Inl err \<Rightarrow> [EventError (ErrWrap ''openai: decoding response: '' err)]
      | Inr resp \<Rightarrow>
          concat (map (\<lambda>(content, calls). (if content \<noteq> [] then [EventToken content] else []) @ map full_call calls) (of_choices resp))
          @ [EventDone (Some (of_usage resp))])"

subsection \<open>Chat\<close>

definition openai_Chat :: "(string \<Rightarrow> (string \<times> string) list \<Rightarrow> openai_request \<Rightarrow> http_outcome) \<Rightarrow>
    (string \<Rightarrow> (go_error option \<times> string) list) \<Rightarrow> (string \<Rightarrow> openai_chunk option) \<Rightarrow> (string \<Rightarrow> go_error + openai_full) \<Rightarrow>
    (nat \<Rightarrow> (int \<times> stream_tool) list \<Rightarrow> (int \<times> stream_tool) list) \<Rightarrow>
    openai_provider \<Rightarrow> chat_options \<Rightarrow> chat_request \<Rightarrow> go_error + chat_event list" where
  "openai_Chat post scan parse decode order p opts req =
     (case doLLMRequest ''openai'' (post (oa_url p) [openai_auth p] (openai_Chat_request opts req)) of
        Inl err \<Rightarrow> Inl err
      | Inr body \<Rightarrow> Inr (dispatchResponse (rq_stream req) (openai_readStream order parse (scan body)) (openai_readFull (decode body))))"

definition ollama_Chat :: "(string \<Rightarrow> (string \<times> string) list \<Rightarrow> openai_request \<Rightarrow> http_outcome) \<Rightarrow>
    (string \<Rightarrow> (go_error option \<times> string) list) \<Rightarrow> (string \<Rightarrow> openai_chunk option) \<Rightarrow> (string \<Rightarrow> go_error + openai_full) \<Rightarrow>
    (nat \<Rightarrow> (int \<times> stream_tool) list \<Rightarrow> (int \<times> stream_tool) list) \<Rightarrow>
    ollama_provider \<Rightarrow> chat_options \<Rightarrow> chat_request \<Rightarrow> go_error + chat_event list" where
  "ollama_Chat post scan parse decode order p opts req =
     openai_Chat post scan parse decode order (ol_inner p) opts (if rq_model req = [] then req\<lparr>rq_model := ol_model p\<rparr> else req)"

subsection \<open>The contract of a reader\<close>

lemma openai_choice_payload: "list_all payload_event (fst (openai_choice_step order st c))"
  by (auto simp: openai_choice_step_def Let_def list_all_iff)

lemma openai_choices_payload: "list_all payload_event (fst (openai_choices order st cs))"
proof (induction cs arbitrary: st)
  case (Cons c cs)
  then show ?case using openai_choice_payload [of order st c] by (auto simp: Let_def split: prod.splits) (metis fst_conv)
qed simp

lemma openai_chunk_payload: "openai_chunk_step order st ck = (out, st1) \<Longrightarrow> list_all payload_event out"
  using openai_choices_payload unfolding openai_chunk_step_def by (metis fst_conv)

lemma openai_loop_complete: "complete_events (openai_stream_loop order parse st lines)"
proof (induction order parse st lines rule: openai_stream_loop.induct)
  case (2 order parse st ctx line rest)
  show ?case
  proof (cases "ctx \<noteq> None \<or> \<not> HasPrefix line ''data: '' \<or> TrimPrefix line ''data: '' = ''[DONE]'' \<or> parse (TrimPrefix line ''data: '') = None")
    case True
    with "2.IH"(1,2) show ?thesis by (auto simp: Let_def split: option.splits)
  next
    case False
    then obtain ck where ck: "ctx = None" "HasPrefix line ''data: ''" "TrimPrefix line ''data: '' \<noteq> ''[DONE]''" "parse (TrimPrefix line ''data: '') = Some ck" by auto
    obtain out st1 where st: "openai_chunk_step order st ck = (out, st1)" by force
    from "2.IH"(3) [OF ck(1) _ refl ck(3,4) st [symmetric] refl] ck st openai_chunk_payload [OF st] show ?thesis
      by (simp add: complete_events_append)
  qed
qed simp

lemma openai_full_complete: "complete_events (openai_readFull decoded)"
proof (cases decoded)
  case (Inr resp)
  have "list_all payload_event (concat (map (\<lambda>(content, calls). (if content \<noteq> [] then [EventToken content] else []) @ map full_call calls) (of_choices resp)))"
    by (auto simp: list_all_iff full_call_def)
  then show ?thesis by (simp add: openai_readFull_def Inr complete_events_append)
qed (simp add: openai_readFull_def)

lemma anthropic_full_complete: "complete_events (readFull decoded)"
proof (cases decoded)
  case (Inr resp)
  have "list_all payload_event (block_events b)" for b by (cases b) auto
  then have "list_all payload_event (concat (map block_events (fr_content resp)))" by (auto simp: list_all_iff)
  then show ?thesis by (simp add: readFull_def Inr complete_events_append)
qed (simp add: readFull_def)

interpretation anthropic_full: complete_reader readFull
  by unfold_locales (simp_all add: anthropic_full_complete complete_wf)

interpretation anthropic_stream: chat_reader "\<lambda>(lines, scan_err). readStream parse lines scan_err" for parse
  by unfold_locales (simp add: readStream_def stream_loop_wf split: prod.split)

interpretation openai_stream: complete_reader "openai_readStream order parse" for order parse
  by unfold_locales (simp_all add: openai_readStream_def openai_loop_complete complete_wf)

interpretation openai_full: complete_reader openai_readFull
  by unfold_locales (simp_all add: openai_full_complete complete_wf)

subsection \<open>Assembling tool calls\<close>

text \<open>The reference: the fragments of one index, in order, and the indices in the order they first appear.\<close>

definition indices :: "openai_delta list \<Rightarrow> int list" where
  "indices ds = rev (remdups (rev (map de_index ds)))"

definition assembled :: "openai_delta list \<Rightarrow> int \<Rightarrow> stream_tool" where
  "assembled ds i = (let mine = filter (\<lambda>d. de_index d = i) ds in
     \<lparr>st_id = de_id (hd mine), st_name = de_name (hd mine), st_input = concat (map de_args mine)\<rparr>)"

lemma indices_snoc: "indices (ds @ [d]) = (if de_index d \<in> de_index ` set ds then indices ds else indices ds @ [de_index d])"
  by (simp add: indices_def)

lemma set_indices [simp]: "set (indices ds) = de_index ` set ds" "distinct (indices ds)"
  by (simp_all add: indices_def)

lemma gomap_put_map:
  "distinct is' \<Longrightarrow> gomap_put j v (map (\<lambda>i. (i, f i)) is') =
     (if j \<in> set is' then map (\<lambda>i. (i, (f(j := v)) i)) is' else map (\<lambda>i. (i, f i)) is' @ [(j, v)])"
  by (induction is') (auto simp: gomap_put_def)

lemma filter_none: "j \<notin> de_index ` set ds \<Longrightarrow> filter (\<lambda>d. de_index d = j) ds = []"
  by (induction ds) auto

lemma filter_some: "j \<in> de_index ` set ds \<Longrightarrow> filter (\<lambda>d. de_index d = j) ds \<noteq> []"
  by (induction ds) auto

lemma add_fragments: "fold add_fragment ds [] = map (\<lambda>i. (i, assembled ds i)) (indices ds)"
proof (induction ds rule: rev_induct)
  case (snoc d ds)
  let ?j = "de_index d" and ?l = "map (\<lambda>i. (i, assembled ds i)) (indices ds)"
  have look: "map_of ?l ?j = (if ?j \<in> de_index ` set ds then Some (assembled ds ?j) else None)"
    by (simp add: map_of_map_restrict restrict_map_def)
  have other: "assembled (ds @ [d]) i = assembled ds i" if "i \<noteq> ?j" for i using that by (simp add: assembled_def)
  show ?case
  proof (cases "?j \<in> de_index ` set ds")
    case True
    have "assembled (ds @ [d]) ?j = (assembled ds ?j)\<lparr>st_input := st_input (assembled ds ?j) @ de_args d\<rparr>"
      using filter_some [OF True] by (simp add: assembled_def Let_def)
    with True other show ?thesis by (auto simp: snoc add_fragment_def [of d] Let_def look gomap_put_map indices_snoc)
  next
    case False
    have "assembled (ds @ [d]) ?j = \<lparr>st_id = de_id d, st_name = de_name d, st_input = de_args d\<rparr>"
      by (simp add: assembled_def filter_none [OF False])
    with False other show ?thesis
      by (simp add: snoc add_fragment_def [of d] look gomap_put_map indices_snoc) (metis image_eqI)
  qed
qed (simp add: indices_def)

text \<open>The texts and fragments of a sequence of chunks.\<close>

definition chunk_choices :: "openai_chunk list \<Rightarrow> openai_choice list" where
  "chunk_choices cks = concat (map ck_choices cks)"

definition texts :: "openai_choice list \<Rightarrow> string list" where
  "texts cs = filter (\<lambda>t. t \<noteq> []) (map ch_content cs)"

definition fragments :: "openai_choice list \<Rightarrow> openai_delta list" where
  "fragments cs = concat (map ch_calls cs)"

fun openai_chunks :: "(nat \<Rightarrow> (int \<times> stream_tool) list \<Rightarrow> (int \<times> stream_tool) list) \<Rightarrow> openai_state \<Rightarrow> openai_chunk list \<Rightarrow> chat_event list \<times> openai_state" where
  "openai_chunks order st [] = ([], st)"
| "openai_chunks order st (c # cs) =
     (let (out, st1) = openai_chunk_step order st c; (out', st2) = openai_chunks order st1 cs in (out @ out', st2))"

definition data_line :: "string \<Rightarrow> go_error option \<times> string" where
  "data_line d = (None, ''data: '' @ d)"

lemma openai_loop_line:
  "openai_stream_loop order parse st (data_line d # rest) =
     (if d = ''[DONE]'' then [EventDone (Some (os_usage st))]
      else (case parse d of
        None \<Rightarrow> openai_stream_loop order parse st rest
      | Some ck \<Rightarrow> (let (out, st1) = openai_chunk_step order st ck in out @ openai_stream_loop order parse st1 rest)))"
  unfolding data_line_def openai_stream_loop.simps HasPrefix_append TrimPrefix_append Let_def by simp

lemma openai_loop_data:
  "(\<forall>ck \<in> set cks. parse (render ck) = Some ck \<and> render ck \<noteq> ''[DONE]'') \<Longrightarrow>
   openai_stream_loop order parse st (map (\<lambda>ck. data_line (render ck)) cks @ rest) =
     (let (out, st1) = openai_chunks order st cks in out @ openai_stream_loop order parse st1 rest)"
  by (induction cks arbitrary: st) (auto simp: openai_loop_line Let_def split: prod.splits)

lemma openai_choices_open:
  "(\<forall>c \<in> set cs. ch_finish c = None) \<Longrightarrow>
   openai_choices order st cs = (map EventToken (texts cs), st\<lparr>os_tools := fold add_fragment (fragments cs) (os_tools st)\<rparr>)"
  by (induction cs arbitrary: st) (auto simp: openai_choice_step_def Let_def texts_def fragments_def)

lemma openai_chunks_open:
  "(\<forall>c \<in> set (chunk_choices cks). ch_finish c = None) \<Longrightarrow>
   \<exists>u. openai_chunks order st cks = (map EventToken (texts (chunk_choices cks)),
     st\<lparr>os_tools := fold add_fragment (fragments (chunk_choices cks)) (os_tools st), os_usage := u\<rparr>)"
proof (induction cks arbitrary: st)
  case Nil
  show ?case by (rule exI [of _ "os_usage st"]) (simp add: chunk_choices_def texts_def fragments_def)
next
  case (Cons ck cks)
  let ?st = "case ck_usage ck of Some u \<Rightarrow> st\<lparr>os_usage := u\<rparr> | None \<Rightarrow> st"
  have op: "\<forall>c \<in> set (ck_choices ck). ch_finish c = None" "\<forall>c \<in> set (chunk_choices cks). ch_finish c = None"
    using Cons.prems by (simp_all add: chunk_choices_def)
  let ?st1 = "?st\<lparr>os_tools := fold add_fragment (fragments (ck_choices ck)) (os_tools ?st)\<rparr>"
  have step: "openai_chunk_step order st ck = (map EventToken (texts (ck_choices ck)), ?st1)"
    unfolding openai_chunk_step_def by (rule openai_choices_open [OF op(1)])
  obtain u where "openai_chunks order ?st1 cks = (map EventToken (texts (chunk_choices cks)),
     ?st1\<lparr>os_tools := fold add_fragment (fragments (chunk_choices cks)) (os_tools ?st1), os_usage := u\<rparr>)"
    using Cons.IH [OF op(2)] by blast
  with step show ?case by (intro exI [of _ u]) (simp add: chunk_choices_def texts_def fragments_def split: option.split)
qed

lemma openai_chunk_finish:
  assumes "ck_choices ck = [c]" "ch_finish c = Some reason"
  shows "\<exists>u. openai_chunk_step order st ck = (map EventToken (texts [c]) @ map (\<lambda>(i, s). EventToolCall (tool_call_of s))
      (order (os_ranges st) (fold add_fragment (ch_calls c) (os_tools st))),
    st\<lparr>os_tools := fold add_fragment (ch_calls c) (os_tools st), os_usage := u, os_ranges := Suc (os_ranges st)\<rparr>)"
proof -
  let ?st = "case ck_usage ck of Some u \<Rightarrow> st\<lparr>os_usage := u\<rparr> | None \<Rightarrow> st"
  have "?st = st\<lparr>os_usage := os_usage ?st\<rparr>" by (simp split: option.split)
  then obtain u where "?st = st\<lparr>os_usage := u\<rparr>" by blast
  then show ?thesis
    by (intro exI [of _ u]) (simp add: openai_chunk_step_def openai_choice_step_def assms Let_def texts_def)
qed

text \<open>
  C24: tool calls are assembled from their own fragments. When the chunks of a streamed response decode,
  none finishes a choice before the last, and the last finishes its one choice, the reader sends the
  texts in order, then one call per index that occurred, then done. The calls are those of
  the reference: id and name of the index's first fragment, the arguments of all its fragments joined in
  order, \<^verbatim>\<open>{}\<close> if there are none. Only their order is not fixed: it is the order in which Go
  ranges over a map.
\<close>

theorem openai_assembles_calls:
  assumes decode: "\<forall>ck \<in> set (cks @ [fin]). parse (render ck) = Some ck \<and> render ck \<noteq> ''[DONE]''"
    and order: "\<forall>n xs. mset (order n xs) = mset xs"
    and nofin: "\<forall>c \<in> set (chunk_choices cks). ch_finish c = None"
    and fin: "ck_choices fin = [c]" "ch_finish c = Some reason"
  shows "\<exists>calls u. openai_readStream order parse (map (\<lambda>ck. data_line (render ck)) (cks @ [fin]) @ [data_line ''[DONE]''])
      = map EventToken (texts (chunk_choices (cks @ [fin]))) @ calls @ [EventDone (Some u)]
    \<and> (let ds = fragments (chunk_choices (cks @ [fin])) in
        mset calls = mset (map (\<lambda>i. EventToolCall (tool_call_of (assembled ds i))) (indices ds)))"
proof -
  let ?cs = "chunk_choices cks" and ?ds = "fragments (chunk_choices (cks @ [fin]))"
  let ?tools = "fold add_fragment ?ds []"
  obtain u where run: "openai_chunks order openai_init cks = (map EventToken (texts ?cs),
      openai_init\<lparr>os_tools := fold add_fragment (fragments ?cs) (os_tools openai_init), os_usage := u\<rparr>)"
    using openai_chunks_open [OF nofin] by blast
  have tx: "texts (chunk_choices (cks @ [fin])) = texts ?cs @ texts [c]" by (simp add: chunk_choices_def texts_def fin)
  have ds: "?ds = fragments ?cs @ ch_calls c" by (simp add: chunk_choices_def fragments_def fin)
  let ?calls = "map (\<lambda>(i, s). EventToolCall (tool_call_of s)) (order 0 ?tools)"
  have d1: "\<forall>ck \<in> set cks. parse (render ck) = Some ck \<and> render ck \<noteq> ''[DONE]''"
    and d2: "parse (render fin) = Some fin" "render fin \<noteq> ''[DONE]''" using decode by simp_all
  let ?st = "openai_init\<lparr>os_tools := fold add_fragment (fragments ?cs) (os_tools openai_init), os_usage := u\<rparr>"
  obtain u' st' where last_step: "openai_chunk_step order ?st fin = (map EventToken (texts [c]) @ ?calls, st')" "os_usage st' = u'"
    using openai_chunk_finish [OF fin, of order ?st] by (auto simp: ds openai_init_def)
  have "openai_readStream order parse (map (\<lambda>ck. data_line (render ck)) (cks @ [fin]) @ [data_line ''[DONE]''])
      = map EventToken (texts (chunk_choices (cks @ [fin]))) @ ?calls @ [EventDone (Some u')]"
    using openai_loop_data [OF d1, of order openai_init "[data_line (render fin), data_line ''[DONE]'']"]
    by (simp add: openai_readStream_def run openai_loop_line d2 last_step tx)
  moreover have "mset ?calls = mset (map (\<lambda>i. EventToolCall (tool_call_of (assembled ?ds i))) (indices ?ds))"
  proof -
    have "mset ?calls = image_mset (\<lambda>(i, s). EventToolCall (tool_call_of s)) (mset ?tools)" using order by simp
    also have "\<dots> = mset (map (\<lambda>i. EventToolCall (tool_call_of (assembled ?ds i))) (indices ?ds))"
      by (simp add: add_fragments image_mset.compositionality comp_def)
    finally show ?thesis .
  qed
  ultimately show ?thesis unfolding Let_def by auto
qed

definition demo_delta :: "int \<Rightarrow> string \<Rightarrow> openai_delta" where
  "demo_delta i a = \<lparr>de_index = i, de_id = (if i = 0 then ''c0'' else ''c1''), de_name = ''shell'', de_args = a\<rparr>"

definition demo_choice :: "string \<Rightarrow> openai_delta list \<Rightarrow> string option \<Rightarrow> openai_choice" where
  "demo_choice t ds f = \<lparr>ch_content = t, ch_calls = ds, ch_finish = f\<rparr>"

definition demo_first :: openai_chunk where
  "demo_first = \<lparr>ck_choices = [demo_choice ''hi'' [demo_delta 0 ''a'', demo_delta 1 []] None], ck_usage = None\<rparr>"

definition demo_last :: openai_chunk where
  "demo_last = \<lparr>ck_choices = [demo_choice [] [demo_delta 0 ''b''] (Some ''tool_calls'')], ck_usage = None\<rparr>"

theorem openai_assembles_calls_witness:
  "\<exists>calls u. openai_readStream (\<lambda>n xs. rev xs) (\<lambda>s. if s = ''1'' then Some demo_first else if s = ''2'' then Some demo_last else None)
      [data_line ''1'', data_line ''2'', data_line ''[DONE]''] = [EventToken ''hi''] @ calls @ [EventDone (Some u)]
   \<and> mset calls = {#EventToolCall \<lparr>tc_id = ''c0'', tc_name = ''shell'', tc_input = ''ab''\<rparr>,
                   EventToolCall \<lparr>tc_id = ''c1'', tc_name = ''shell'', tc_input = ''{}''\<rparr>#}"
proof -
  let ?parse = "\<lambda>s. if s = ''1'' then Some demo_first else if s = ''2'' then Some demo_last else None"
  let ?render = "\<lambda>ck. if ck = demo_first then ''1'' else ''2''"
  note d = demo_first_def demo_last_def demo_choice_def demo_delta_def
  have ne: "demo_last \<noteq> demo_first" by (simp add: d)
  have p: "\<forall>ck \<in> set ([demo_first] @ [demo_last]). ?parse (?render ck) = Some ck \<and> ?render ck \<noteq> ''[DONE]''" using ne by auto
  have o: "\<forall>n xs. mset ((\<lambda>n. rev) n xs) = mset xs" by simp
  have n: "\<forall>c \<in> set (chunk_choices [demo_first]). ch_finish c = None" by (simp add: chunk_choices_def d)
  have c: "ck_choices demo_last = [demo_choice [] [demo_delta 0 ''b''] (Some ''tool_calls'')]"
    "ch_finish (demo_choice [] [demo_delta 0 ''b''] (Some ''tool_calls'')) = Some ''tool_calls''" by (simp_all add: demo_last_def demo_choice_def)
  have t: "texts (chunk_choices ([demo_first] @ [demo_last])) = [''hi'']" by code_simp
  have m: "map (\<lambda>i. EventToolCall (tool_call_of (assembled (fragments (chunk_choices ([demo_first] @ [demo_last]))) i)))
        (indices (fragments (chunk_choices ([demo_first] @ [demo_last])))) =
      [EventToolCall \<lparr>tc_id = ''c0'', tc_name = ''shell'', tc_input = ''ab''\<rparr>,
       EventToolCall \<lparr>tc_id = ''c1'', tc_name = ''shell'', tc_input = ''{}''\<rparr>]" by code_simp
  from openai_assembles_calls [OF p o n c, unfolded Let_def m t] ne show ?thesis by simp
qed

text \<open>
  A stream that ends early looks like a finished one: the error of the scanner is not read, the calls that were
  not finished are dropped, and the last event is done.
\<close>

lemma openai_truncation_done:
  assumes "\<forall>ck \<in> set cks. parse (render ck) = Some ck \<and> render ck \<noteq> ''[DONE]''"
    and "\<forall>c \<in> set (chunk_choices cks). ch_finish c = None"
  shows "\<exists>u. openai_readStream order parse (map (\<lambda>ck. data_line (render ck)) cks)
      = map EventToken (texts (chunk_choices cks)) @ [EventDone (Some u)]"
  using openai_chunks_open [OF assms(2), of order openai_init] openai_loop_data [OF assms(1), of order openai_init "[]"]
  by (auto simp: openai_readStream_def)

end
