(* ===== verification/Gemini_Provider.thy ===== *)
theory Gemini_Provider
  imports OpenAI_Provider
begin

section \<open>Gemini (\<^verbatim>\<open>pkg/llm/gemini.go\<close>)\<close>

text \<open>
  Gemini names no call ids: the reader makes one up from the function name and a counter, and the request
  finds the name again from the id. As for the other providers, JSON decoding is an argument and
  each line of a stream comes with the state of the context.
\<close>

subsection \<open>Requests\<close>

record gemini_call =
  gc_name :: string
  gc_args :: string

record gemini_response =
  gr_name :: string
  gr_content :: string

record gemini_part =
  gp_text :: string
  gp_call :: "gemini_call option"
  gp_response :: "gemini_response option"

record gemini_content =
  ge_role :: string
  ge_parts :: "gemini_part list"

record gemini_request =
  ge_contents :: "gemini_content list"
  ge_system :: "gemini_content option"
  ge_tools :: "tool_definition list list"
  ge_mode :: "(string \<times> string list) option"
  ge_max_tokens :: int
  ge_temperature :: "string option"

definition geminiBaseURL :: string where "geminiBaseURL = ''https://generativelanguage.googleapis.com/v1beta''"

definition NewGeminiProvider :: "(string \<Rightarrow> string) \<Rightarrow> string \<Rightarrow> go_error + string" where
  "NewGeminiProvider getenv apiKey0 =
     (let apiKey = (if apiKey0 = [] then getenv ''GEMINI_API_KEY'' else apiKey0) in
      if apiKey = [] then Inl (ErrText ''gemini: API key not set (provide it or set GEMINI_API_KEY)'') else Inr apiKey)"

definition text_part :: "string \<Rightarrow> gemini_part" where
  "text_part t = \<lparr>gp_text = t, gp_call = None, gp_response = None\<rparr>"

definition call_part :: "tool_call \<Rightarrow> gemini_part" where
  "call_part tc = \<lparr>gp_text = [], gp_call = Some \<lparr>gc_name = tc_name tc, gc_args = tc_input tc\<rparr>, gp_response = None\<rparr>"

definition response_part :: "(string \<rightharpoonup> string) \<Rightarrow> tool_result \<Rightarrow> gemini_part" where
  "response_part toolCallNames tr = \<lparr>gp_text = [], gp_call = None, gp_response = Some
     \<lparr>gr_name = (case toolCallNames (tr_tool_call_id tr) of Some name \<Rightarrow> name | None \<Rightarrow> tr_tool_call_id tr), gr_content = tr_content tr\<rparr>\<rparr>"

definition convertToGeminiContent :: "chat_message \<Rightarrow> (string \<rightharpoonup> string) \<Rightarrow> gemini_content" where
  "convertToGeminiContent m toolCallNames =
     (let role = (if cm_role m = RoleAssistant then ''model'' else ''user'') in
      if cm_role m = RoleAssistant \<and> cm_tool_calls m \<noteq> []
      then \<lparr>ge_role = role, ge_parts = (if cm_content m \<noteq> [] then [text_part (cm_content m)] else []) @ map call_part (cm_tool_calls m)\<rparr>
      else if cm_role m = RoleUser \<and> cm_tool_results m \<noteq> []
      then \<lparr>ge_role = role, ge_parts = map (response_part toolCallNames) (cm_tool_results m)\<rparr>
      else \<lparr>ge_role = role, ge_parts = [text_part (cm_content m)]\<rparr>)"

definition note_calls :: "tool_call list \<Rightarrow> (string \<rightharpoonup> string) \<Rightarrow> (string \<rightharpoonup> string)" where
  "note_calls calls names = fold (\<lambda>tc n. n(tc_id tc \<mapsto> tc_name tc)) calls names"

fun gemini_contents :: "(string \<rightharpoonup> string) \<Rightarrow> chat_message list \<Rightarrow> gemini_content list" where
  "gemini_contents toolCallNames [] = []"
| "gemini_contents toolCallNames (m # ms) =
     (if cm_role m = RoleSystem then gemini_contents toolCallNames ms
      else (let names = note_calls (cm_tool_calls m) toolCallNames in convertToGeminiContent m names # gemini_contents names ms))"

definition gemini_tool_mode :: "tool_choice \<Rightarrow> string \<times> string list" where
  "gemini_tool_mode c =
     (case tch_type c of
        ToolChoiceAuto \<Rightarrow> (''AUTO'', [])
      | ToolChoiceAny \<Rightarrow> (''ANY'', [])
      | ToolChoiceNone \<Rightarrow> (''NONE'', [])
      | ToolChoiceTool \<Rightarrow> (''ANY'', [tch_name c]))"

definition gemini_Chat_request :: "chat_options \<Rightarrow> chat_request \<Rightarrow> gemini_request" where
  "gemini_Chat_request opts req =
     \<lparr>ge_contents = gemini_contents Map.empty (rq_messages req),
      ge_system = (if rq_system req \<noteq> [] then Some \<lparr>ge_role = [], ge_parts = [text_part (rq_system req)]\<rparr> else None),
      ge_tools = (if rq_tools req \<noteq> [] then [rq_tools req] else []),
      ge_mode = map_option gemini_tool_mode (opt_choice opts),
      ge_max_tokens = (if rq_max_tokens req \<le> 0 then 4096 else rq_max_tokens req),
      ge_temperature = opt_temperature opts\<rparr>"

definition gemini_url :: "string \<Rightarrow> chat_request \<Rightarrow> string" where
  "gemini_url apiKey req =
     (let model = (if rq_model req = [] then ''gemini-2.0-flash'' else rq_model req) in
      geminiBaseURL @ ''/models/'' @ model @ '':'' @
      (if rq_stream req then ''streamGenerateContent?alt=sse&key='' else ''generateContent?key='') @ apiKey)"

subsection \<open>Responses\<close>

record gemini_stream_response =
  gs_candidates :: "gemini_content list"
  gs_usage :: "usage option"

definition gemini_call_id :: "string \<Rightarrow> nat \<Rightarrow> string" where
  "gemini_call_id name callIndex = ''gemini_call_'' @ name @ ''_'' @ nat_to_dec callIndex"

definition gemini_part_step :: "nat \<Rightarrow> gemini_part \<Rightarrow> chat_event list \<times> nat" where
  "gemini_part_step callIndex p =
     (let toks = (if gp_text p \<noteq> [] then [EventToken (gp_text p)] else []) in
      case gp_call p of
        None \<Rightarrow> (toks, callIndex)
      | Some c \<Rightarrow> (toks @ [EventToolCall \<lparr>tc_id = gemini_call_id (gc_name c) (Suc callIndex), tc_name = gc_name c, tc_input = gc_args c\<rparr>],
          Suc callIndex))"

fun gemini_parts :: "nat \<Rightarrow> gemini_part list \<Rightarrow> chat_event list \<times> nat" where
  "gemini_parts callIndex [] = ([], callIndex)"
| "gemini_parts callIndex (p # ps) =
     (let (out, n) = gemini_part_step callIndex p; (out', n') = gemini_parts n ps in (out @ out', n'))"

definition gemini_candidates :: "nat \<Rightarrow> gemini_content list \<Rightarrow> chat_event list \<times> nat" where
  "gemini_candidates callIndex cs = gemini_parts callIndex (concat (map ge_parts cs))"

fun gemini_stream_loop :: "(string \<Rightarrow> gemini_stream_response option) \<Rightarrow> usage \<Rightarrow> nat \<Rightarrow> (go_error option \<times> string) list \<Rightarrow> chat_event list" where
  "gemini_stream_loop parse usage callIndex [] = [EventDone (Some usage)]"
| "gemini_stream_loop parse usage callIndex ((ctx, line) # rest) =
     (case ctx of
        Some e \<Rightarrow> [EventError e]
      | None \<Rightarrow>
          if \<not> HasPrefix line ''data: '' then gemini_stream_loop parse usage callIndex rest
          else (case parse (TrimPrefix line ''data: '') of
            None \<Rightarrow> gemini_stream_loop parse usage callIndex rest
          | Some resp \<Rightarrow> (let (out, n) = gemini_candidates callIndex (gs_candidates resp) in
              out @ gemini_stream_loop parse (case gs_usage resp of Some u \<Rightarrow> u | None \<Rightarrow> usage) n rest)))"

definition zero_usage :: usage where "zero_usage = \<lparr>InputTokens = 0, OutputTokens = 0\<rparr>"

definition gemini_readStream :: "(string \<Rightarrow> gemini_stream_response option) \<Rightarrow> (go_error option \<times> string) list \<Rightarrow> chat_event list" where
  "gemini_readStream parse lines = gemini_stream_loop parse zero_usage 0 lines"

definition gemini_readFull :: "go_error + gemini_stream_response \<Rightarrow> chat_event list" where
  "gemini_readFull decoded =
     (case decoded of
        Inl err \<Rightarrow> [EventError (ErrWrap ''gemini: decoding response: '' err)]
      | Inr resp \<Rightarrow> fst (gemini_candidates 0 (gs_candidates resp))
          @ [EventDone (Some (case gs_usage resp of Some u \<Rightarrow> u | None \<Rightarrow> zero_usage))])"

definition gemini_Chat :: "(string \<Rightarrow> (string \<times> string) list \<Rightarrow> gemini_request \<Rightarrow> http_outcome) \<Rightarrow>
    (string \<Rightarrow> (go_error option \<times> string) list) \<Rightarrow> (string \<Rightarrow> gemini_stream_response option) \<Rightarrow>
    (string \<Rightarrow> go_error + gemini_stream_response) \<Rightarrow> string \<Rightarrow> chat_options \<Rightarrow> chat_request \<Rightarrow> go_error + chat_event list" where
  "gemini_Chat post scan parse decode apiKey opts req =
     (case doLLMRequest ''gemini'' (post (gemini_url apiKey req) [] (gemini_Chat_request opts req)) of
        Inl err \<Rightarrow> Inl err
      | Inr body \<Rightarrow> Inr (dispatchResponse (rq_stream req) (gemini_readStream parse (scan body)) (gemini_readFull (decode body))))"

subsection \<open>The contract of a reader\<close>

lemma gemini_parts_payload: "list_all payload_event (fst (gemini_parts n ps))"
proof (induction ps arbitrary: n)
  case (Cons p ps)
  have "list_all payload_event (fst (gemini_part_step n p))"
    by (simp add: gemini_part_step_def Let_def split: option.split)
  with Cons [of "snd (gemini_part_step n p)"] show ?case by (simp add: split_beta Let_def)
qed simp

lemma gemini_candidates_payload: "gemini_candidates n cs = (out, n') \<Longrightarrow> list_all payload_event out"
  using gemini_parts_payload unfolding gemini_candidates_def by (metis fst_conv)

lemma gemini_loop_complete: "complete_events (gemini_stream_loop parse u n lines)"
proof (induction lines arbitrary: u n)
  case (Cons l rest)
  then show ?case
    by (cases l) (auto split: option.split prod.split simp: Let_def complete_events_append [OF gemini_candidates_payload])
qed simp

lemma gemini_full_complete: "complete_events (gemini_readFull decoded)"
  by (cases decoded) (simp_all add: gemini_readFull_def gemini_candidates_def complete_events_append [OF gemini_parts_payload])

interpretation gemini_stream: complete_reader "gemini_readStream parse" for parse
  by unfold_locales (simp_all add: gemini_readStream_def gemini_loop_complete complete_wf)

interpretation gemini_full: complete_reader gemini_readFull
  by unfold_locales (simp_all add: gemini_full_complete complete_wf)

lemma openai_Chat_complete: "chat_result complete_events (openai_Chat post scan parse decode order p opts req)"
  by (simp add: openai_Chat_def openai_stream.read_complete openai_full.read_complete split: sum.split)

lemma gemini_Chat_complete: "chat_result complete_events (gemini_Chat post scan parse decode key opts req)"
  by (simp add: gemini_Chat_def gemini_stream.read_complete gemini_full.read_complete split: sum.split)

lemma anthropic_Chat_wf: "chat_result wf_events (anthropic_Chat post scan parse decode p opts req)"
  using anthropic_stream.read_wf [of parse "scan b" for b]
  by (auto simp: anthropic_Chat_def anthropic_full.read_wf split: sum.split prod.split)

text \<open>
  C23: whatever the network and the bodies are, the channel a provider returns is a well-formed stream: texts and
  tool calls, then at most one final event, done or error, and nothing after it. For OpenAI, Ollama and Gemini the
  final event is always there, so the client of the verification gate fails exactly if the call failed or
  the stream ended with an error, and otherwise answers with the texts in order.
\<close>

theorem provider_streams_well_formed:
  "chat_result wf_events (anthropic_Chat postA scanA parseA decodeA pA opts req)
   \<and> chat_result complete_events (openai_Chat postO scanO parseO decodeO order pO opts req)
   \<and> chat_result complete_events (ollama_Chat postO scanO parseO decodeO order pL opts req)
   \<and> chat_result complete_events (gemini_Chat postG scanG parseG decodeG key opts req)
   \<and> checker_Check (openai_Chat postO scanO parseO decodeO order pO opts) model prompt
     = stream_answer (openai_Chat postO scanO parseO decodeO order pO opts (check_request model prompt))
   \<and> checker_Check (gemini_Chat postG scanG parseG decodeG key opts) model prompt
     = stream_answer (gemini_Chat postG scanG parseG decodeG key opts (check_request model prompt))"
  by (intro conjI anthropic_Chat_wf openai_Chat_complete gemini_Chat_complete checker_Check_complete)
    (simp add: ollama_Chat_def openai_Chat_complete)

subsection \<open>Names and ids of calls\<close>

text \<open>The last underscore of an id separates the name from the number.\<close>

lemma no_underscore: "CHR ''_'' \<notin> set (nat_to_dec n)"
proof (induction n rule: nat_to_dec.induct)
  case (1 n)
  have "digit_char d \<noteq> CHR ''_''" if "d < 10" for d
  proof
    assume "digit_char d = CHR ''_''"
    then have "48 + d = of_char (CHR ''_'')" using digit_char_value [OF that] by metis
    with that show False by simp
  qed
  from this [of n] this [of "n mod 10"] 1 show ?case by (subst nat_to_dec.simps) (auto simp del: digit_char_value)
qed

lemma gemini_call_id_inj:
  assumes "gemini_call_id name i = gemini_call_id name' j"
  shows "name = name' \<and> i = j"
proof -
  have split: "name @ [CHR ''_''] @ nat_to_dec i = name' @ [CHR ''_''] @ nat_to_dec j"
    using assms by (simp add: gemini_call_id_def)
  have "u = u' \<and> v = v'" if "u @ [c] @ v = u' @ [c] @ v'" "c \<notin> set v" "c \<notin> set v'" for u v u' v' :: string and c
    using that by (auto simp: append_eq_append_conv2 append_eq_Cons_conv Cons_eq_append_conv)
  from this [OF split no_underscore no_underscore] show ?thesis using inj_nat_to_dec by (auto simp: inj_eq)
qed

text \<open>The calls of a stream.\<close>

fun stream_calls :: "chat_event list \<Rightarrow> tool_call list" where
  "stream_calls [] = []"
| "stream_calls (EventToolCall c # es) = c # stream_calls es"
| "stream_calls (e # es) = stream_calls es"

lemma stream_calls_append [simp]: "stream_calls (xs @ ys) = stream_calls xs @ stream_calls ys"
  by (induction xs rule: stream_calls.induct) simp_all

text \<open>Calls numbered from \<open>n\<close>.\<close>

fun numbered :: "nat \<Rightarrow> tool_call list \<Rightarrow> bool" where
  "numbered n [] = True"
| "numbered n (c # cs) = (tc_id c = gemini_call_id (tc_name c) (Suc n) \<and> numbered (Suc n) cs)"

lemma numbered_append: "numbered n (xs @ ys) \<longleftrightarrow> numbered n xs \<and> numbered (n + length xs) ys"
  by (induction xs arbitrary: n) auto

lemma numbered_nth: "numbered n cs \<Longrightarrow> k < length cs \<Longrightarrow> tc_id (cs ! k) = gemini_call_id (tc_name (cs ! k)) (Suc (n + k))"
  by (induction cs arbitrary: n k) (auto simp: nth_Cons split: nat.split)

lemma numbered_distinct: "numbered n cs \<Longrightarrow> distinct (map tc_id cs)"
  by (auto simp: distinct_conv_nth numbered_nth dest!: gemini_call_id_inj)

lemma gemini_parts_numbered:
  "gemini_parts n ps = (out, n') \<Longrightarrow> numbered n (stream_calls out) \<and> n' = n + length (stream_calls out)"
proof (induction ps arbitrary: n out n')
  case (Cons p ps)
  obtain o1 n1 where p: "gemini_part_step n p = (o1, n1)" by force
  obtain o2 where ps: "gemini_parts n1 ps = (o2, n')" "out = o1 @ o2" using Cons.prems p by (auto simp: Let_def split: prod.splits)
  have "numbered n (stream_calls o1) \<and> n1 = n + length (stream_calls o1)"
    using p by (auto simp: gemini_part_step_def Let_def split: option.splits if_splits)
  with Cons.IH [OF ps(1)] ps(2) show ?case by (simp add: numbered_append)
qed simp

lemma gemini_loop_numbered: "numbered n (stream_calls (gemini_stream_loop parse u n lines))"
proof (induction lines arbitrary: u n)
  case (Cons l rest)
  show ?case
  proof (cases l)
    case (Pair ctx line)
    have "numbered n (stream_calls out @ stream_calls (gemini_stream_loop parse u' n' rest))"
      if "gemini_candidates n cs = (out, n')" for out n' u' cs
      using gemini_parts_numbered [OF that [unfolded gemini_candidates_def]] Cons by (simp add: numbered_append)
    with Cons show ?thesis by (auto simp: Pair Let_def split: option.split prod.split)
  qed
qed simp

lemma note_calls_distinct:
  "distinct (map tc_id cs) \<Longrightarrow> c \<in> set cs \<Longrightarrow> note_calls cs names (tc_id c) = Some (tc_name c)"
proof (induction cs rule: rev_induct)
  case (snoc d cs)
  then show ?case by (cases "c = d") (auto simp: note_calls_def, metis image_eqI)
qed simp

fun names_after :: "(string \<rightharpoonup> string) \<Rightarrow> chat_message list \<Rightarrow> (string \<rightharpoonup> string)" where
  "names_after names [] = names"
| "names_after names (m # ms) = names_after (if cm_role m = RoleSystem then names else note_calls (cm_tool_calls m) names) ms"

lemma gemini_contents_append:
  "gemini_contents names (xs @ ys) = gemini_contents names xs @ gemini_contents (names_after names xs) ys"
  by (induction xs arbitrary: names) (simp_all add: Let_def)

text \<open>
  C25: a round with Gemini closes. When the calls read from a streamed response are put into the history as they came
  and their results follow, one per call with the ids of the calls, then the next
  request shows the model its own calls, with names and arguments, and directly after them one response per
  call under the name of that call, in order. That the ids start again in each response does no harm,
  whatever precedes the round.
\<close>

theorem gemini_round_trip:
  assumes calls: "cm_tool_calls a = stream_calls (gemini_readStream parse lines)" "cm_tool_calls a \<noteq> []"
    and roles: "cm_role a = RoleAssistant" "cm_role r = RoleUser" "cm_tool_calls r = []"
    and ids: "map tr_tool_call_id (cm_tool_results r) = map tc_id (cm_tool_calls a)"
  shows "\<exists>before after ca cr. ge_contents (gemini_Chat_request opts (req\<lparr>rq_messages := pre @ [a, r] @ post\<rparr>)) = before @ [ca, cr] @ after
    \<and> length before = length (filter (\<lambda>m. cm_role m \<noteq> RoleSystem) pre)
    \<and> ge_role ca = ''model'' \<and> ge_role cr = ''user''
    \<and> filter (\<lambda>p. gp_call p \<noteq> None) (ge_parts ca) = map call_part (cm_tool_calls a)
    \<and> map gp_response (ge_parts cr) =
        map2 (\<lambda>c tr. Some \<lparr>gr_name = tc_name c, gr_content = tr_content tr\<rparr>) (cm_tool_calls a) (cm_tool_results r)"
proof -
  let ?n = "note_calls (cm_tool_calls a) (names_after Map.empty pre)"
  let ?ca = "convertToGeminiContent a ?n" and ?cr = "convertToGeminiContent r ?n"
  have dist: "distinct (map tc_id (cm_tool_calls a))"
    unfolding calls(1) gemini_readStream_def by (rule numbered_distinct [OF gemini_loop_numbered])
  have len: "length (cm_tool_results r) = length (cm_tool_calls a)" using ids by (metis length_map)
  then have res: "cm_tool_results r \<noteq> []" using calls(2) by auto
  have eq: "ge_contents (gemini_Chat_request opts (req\<lparr>rq_messages := pre @ [a, r] @ post\<rparr>)) =
      gemini_contents Map.empty pre @ [?ca, ?cr] @ gemini_contents ?n post"
    using roles by (simp add: gemini_Chat_request_def gemini_contents_append Let_def note_calls_def)
  have lenb: "length (gemini_contents names xs) = length (filter (\<lambda>m. cm_role m \<noteq> RoleSystem) xs)" for names xs
    by (induction xs arbitrary: names) (simp_all add: Let_def)
  have parts: "filter (\<lambda>p. gp_call p \<noteq> None) (ge_parts ?ca) = map call_part (cm_tool_calls a)"
    using calls(2) roles by (auto simp: convertToGeminiContent_def Let_def text_part_def call_part_def filter_id_conv)
  have "map gp_response (ge_parts ?cr) =
      map2 (\<lambda>c tr. Some \<lparr>gr_name = tc_name c, gr_content = tr_content tr\<rparr>) (cm_tool_calls a) (cm_tool_results r)"
  proof (rule nth_equalityI)
    fix k assume k: "k < length (map gp_response (ge_parts ?cr))"
    then have k': "k < length (cm_tool_calls a)" using roles res len by (simp add: convertToGeminiContent_def Let_def)
    have "tr_tool_call_id (cm_tool_results r ! k) = tc_id (cm_tool_calls a ! k)" using ids k' len by (metis nth_map)
    with k' len roles res note_calls_distinct [OF dist nth_mem [OF k']]
    show "map gp_response (ge_parts ?cr) ! k =
      map2 (\<lambda>c tr. Some \<lparr>gr_name = tc_name c, gr_content = tr_content tr\<rparr>) (cm_tool_calls a) (cm_tool_results r) ! k"
      by (simp add: convertToGeminiContent_def Let_def response_part_def)
  qed (use roles res len in \<open>simp add: convertToGeminiContent_def Let_def\<close>)
  with eq parts lenb roles calls(2) res show ?thesis
    by (intro exI [of _ "gemini_contents Map.empty pre"] exI [of _ "gemini_contents ?n post"] exI [of _ ?ca] exI [of _ ?cr])
      (simp add: convertToGeminiContent_def Let_def)
qed

definition demo_gemini :: gemini_stream_response where
  "demo_gemini = \<lparr>gs_candidates = [\<lparr>ge_role = ''model'', ge_parts =
     [call_part \<lparr>tc_id = [], tc_name = ''shell'', tc_input = ''1''\<rparr>, call_part \<lparr>tc_id = [], tc_name = ''file_read'', tc_input = ''2''\<rparr>]\<rparr>], gs_usage = None\<rparr>"

definition demo_gemini_calls :: "tool_call list" where
  "demo_gemini_calls = stream_calls (gemini_readStream (\<lambda>s. Some demo_gemini) [data_line ''x''])"

definition demo_answer :: "string \<Rightarrow> string \<Rightarrow> tool_result" where
  "demo_answer i c = zero_tool_result\<lparr>tr_tool_call_id := i, tr_content := c\<rparr>"

theorem gemini_round_trip_witness:
  "\<exists>before after ca cr. ge_contents (gemini_Chat_request no_options ((check_request ''m'' [])\<lparr>rq_messages :=
      [user_msg ''q''] @ [\<lparr>cm_role = RoleAssistant, cm_content = [], cm_tool_calls = demo_gemini_calls, cm_tool_results = []\<rparr>,
        \<lparr>cm_role = RoleUser, cm_content = [], cm_tool_calls = [],
          cm_tool_results = [demo_answer ''gemini_call_shell_1'' ''out'', demo_answer ''gemini_call_file_read_2'' ''text'']\<rparr>] @ []\<rparr>)) = before @ [ca, cr] @ after \<and> length before = 1
    \<and> map gp_response (ge_parts cr) = [Some \<lparr>gr_name = ''shell'', gr_content = ''out''\<rparr>, Some \<lparr>gr_name = ''file_read'', gr_content = ''text''\<rparr>]"
proof -
  let ?a = "\<lparr>cm_role = RoleAssistant, cm_content = [], cm_tool_calls = demo_gemini_calls, cm_tool_results = []\<rparr> :: chat_message"
  let ?r = "\<lparr>cm_role = RoleUser, cm_content = [], cm_tool_calls = [],
          cm_tool_results = [demo_answer ''gemini_call_shell_1'' ''out'', demo_answer ''gemini_call_file_read_2'' ''text'']\<rparr> :: chat_message"
  have c: "demo_gemini_calls = [\<lparr>tc_id = ''gemini_call_shell_1'', tc_name = ''shell'', tc_input = ''1''\<rparr>,
      \<lparr>tc_id = ''gemini_call_file_read_2'', tc_name = ''file_read'', tc_input = ''2''\<rparr>]" by code_simp
  have a: "cm_tool_calls ?a = stream_calls (gemini_readStream (\<lambda>s. Some demo_gemini) [data_line ''x''])" by (simp add: demo_gemini_calls_def)
  have "map tr_tool_call_id (cm_tool_results ?r) = map tc_id (cm_tool_calls ?a)" by (simp add: c demo_answer_def)
  from gemini_round_trip [where a = ?a and r = ?r and opts = no_options and req = "check_request ''m'' []" and pre = "[user_msg ''q'']" and post = "[]",
      OF a _ _ _ _ this]
  show ?thesis by (simp add: c demo_answer_def user_msg_def) (elim exE conjE; intro exI conjI; assumption)
qed

end
