(* ===== verification/Context_Builder.thy ===== *)
theory Context_Builder
  imports Session_Store Config_Defaults
begin

section \<open>Prompt context (\<^verbatim>\<open>pkg/agent/context.go\<close>)\<close>

text \<open>
  The context builder: workspace files and history selected under a token budget, with the
  image data of the most recent tool results loaded from disk, and the repair of tool call
  and tool result pairs that selection may cut. Arguments stand for the file system
  (\<open>readFile\<close>), the content hash, and the JSON decoders of stored messages. Token counts
  are Go ints; they count bytes of strings in memory, so they are modelled as \<^typ>\<open>int\<close>.
\<close>

record workspace_file =
  wf_key :: string
  wf_content :: string

record context_builder =
  cb_static_hash :: "string \<rightharpoonup> string"
  cb_cached_tokens :: "string \<rightharpoonup> int"
  cb_image_cache :: "string \<rightharpoonup> string"
  cb_budget :: int
  cb_output_reserve :: int
  cb_last_used :: int

text \<open>The decoders of a message's JSON content: tool calls with their text, and tool results.\<close>

record msg_codec =
  dec_calls :: "string \<Rightarrow> (string \<times> tool_call list) option"
  dec_results :: "string \<Rightarrow> tool_result list option"

definition NewContextBuilder :: "int \<Rightarrow> int \<Rightarrow> context_builder" where
  "NewContextBuilder budget outputReserve =
     \<lparr>cb_static_hash = Map.empty, cb_cached_tokens = Map.empty, cb_image_cache = Map.empty,
      cb_budget = (if budget \<le> 0 then 128000 else budget),
      cb_output_reserve = (if outputReserve \<le> 0 then 4096 else outputReserve),
      cb_last_used = 0\<rparr>"

definition estimateTokens :: "string \<Rightarrow> int" where
  "estimateTokens s = (int (length s) + 3) div 4"

definition messageToLLM :: "msg_codec \<Rightarrow> message \<Rightarrow> chat_message" where
  "messageToLLM codec m =
     (let plain = \<lparr>cm_role = msg_role m, cm_content = msg_content m, cm_tool_calls = [], cm_tool_results = []\<rparr> in
      if msg_type m = ContentTypeToolCalls then
        (case dec_calls codec (msg_content m) of
           Some (txt, calls) \<Rightarrow> \<lparr>cm_role = msg_role m, cm_content = txt, cm_tool_calls = calls, cm_tool_results = []\<rparr>
         | None \<Rightarrow> plain)
      else if msg_type m = ContentTypeToolResults then
        (case dec_results codec (msg_content m) of
           Some results \<Rightarrow> \<lparr>cm_role = msg_role m, cm_content = [], cm_tool_calls = [], cm_tool_results = results\<rparr>
         | None \<Rightarrow> plain)
      else plain)"

subsection \<open>Image data\<close>

type_synonym file_system = "string \<Rightarrow> string option"

definition resolve_image :: "file_system \<Rightarrow> image_content \<Rightarrow> (string \<rightharpoonup> string) \<Rightarrow> image_content \<times> (string \<rightharpoonup> string)" where
  "resolve_image readFile img cache =
     (if ic_data img = None \<and> ic_path img \<noteq> [] then
        (case cache (ic_path img) of
           Some cached \<Rightarrow> (img\<lparr>ic_data := Some cached\<rparr>, cache)
         | None \<Rightarrow> (case readFile (ic_path img) of
             Some data \<Rightarrow> (img\<lparr>ic_data := Some data\<rparr>, cache(ic_path img \<mapsto> data))
           | None \<Rightarrow> (img, cache)))
      else (img, cache))"

fun map_accum :: "('a \<Rightarrow> 's \<Rightarrow> 'b \<times> 's) \<Rightarrow> 'a list \<Rightarrow> 's \<Rightarrow> 'b list \<times> 's" where
  "map_accum f [] s = ([], s)"
| "map_accum f (x # xs) s = (let (y, s1) = f x s; (ys, s2) = map_accum f xs s1 in (y # ys, s2))"

definition resolveImageData :: "file_system \<Rightarrow> tool_result list \<Rightarrow> (string \<rightharpoonup> string) \<Rightarrow> tool_result list \<times> (string \<rightharpoonup> string)" where
  "resolveImageData readFile = map_accum (\<lambda>r cache.
     let (imgs, cache') = map_accum (resolve_image readFile) (tr_images r) cache
     in (r\<lparr>tr_images := imgs\<rparr>, cache'))"

subsection \<open>Tool pairs\<close>

fun sanitizeToolPairs :: "chat_message list \<Rightarrow> chat_message list" where
  "sanitizeToolPairs [] = []"
| "sanitizeToolPairs (m # ms) =
     (if cm_role m = RoleAssistant \<and> cm_tool_calls m \<noteq> [] then
        (case ms of
           m' # ms' \<Rightarrow> if cm_tool_results m' \<noteq> [] then m # m' # sanitizeToolPairs ms' else sanitizeToolPairs ms
         | [] \<Rightarrow> sanitizeToolPairs ms)
      else if cm_tool_results m \<noteq> [] then sanitizeToolPairs ms
      else m # sanitizeToolPairs ms)"

subsection \<open>Selecting history\<close>

text \<open>
  One message of the loop, newest first: its chat form, its cost, and the updated count of
  image messages and image cache.
\<close>

definition has_images :: "chat_message \<Rightarrow> bool" where
  "has_images m \<longleftrightarrow> list_ex (\<lambda>r. tr_images r \<noteq> []) (cm_tool_results m)"

definition image_cost :: "chat_message \<Rightarrow> int" where
  "image_cost m = sum_list (map (\<lambda>r. int (length (tr_images r)) * ImageTokenEstimate) (cm_tool_results m))"

definition prepare_message :: "msg_codec \<Rightarrow> file_system \<Rightarrow> message \<Rightarrow> int \<times> (string \<rightharpoonup> string) \<Rightarrow>
    (chat_message \<times> int) \<times> (int \<times> (string \<rightharpoonup> string))" where
  "prepare_message codec readFile m st =
     (let (seen, cache) = st; tokens = estimateTokens (msg_content m); chatMsg = messageToLLM codec m in
      if has_images chatMsg \<and> seen < MaxRecentImageMessages then
        (let (rs, cache') = resolveImageData readFile (cm_tool_results chatMsg) cache
         in ((chatMsg\<lparr>cm_tool_results := rs\<rparr>, tokens + image_cost chatMsg), (seen + 1, cache')))
      else if has_images chatMsg then
        ((chatMsg\<lparr>cm_tool_results := map (\<lambda>r. r\<lparr>tr_images := []\<rparr>) (cm_tool_results chatMsg)\<rparr>, tokens), (seen, cache))
      else ((chatMsg, tokens), (seen, cache)))"

fun select_loop :: "msg_codec \<Rightarrow> file_system \<Rightarrow> int \<Rightarrow> int \<Rightarrow> int \<times> (string \<rightharpoonup> string) \<Rightarrow> message list \<Rightarrow>
    chat_message list \<times> (string \<rightharpoonup> string)" where
  "select_loop codec readFile budget used st [] = ([], snd st)"
| "select_loop codec readFile budget used st (m # ms) =
     (let ((chatMsg, tokens), st') = prepare_message codec readFile m st in
      if used + tokens > budget then ([], snd st')
      else (let (sel, cache) = select_loop codec readFile budget (used + tokens) st' ms in (chatMsg # sel, cache)))"

definition selectHistory :: "msg_codec \<Rightarrow> file_system \<Rightarrow> message list \<Rightarrow> int \<Rightarrow> context_builder \<Rightarrow>
    chat_message list \<times> context_builder" where
  "selectHistory codec readFile history budget cb =
     (if budget \<le> 0 \<or> history = [] then ([], cb)
      else (let (selected, cache) = select_loop codec readFile budget 0 (0, cb_image_cache cb) (rev history)
            in (sanitizeToolPairs (rev selected), cb\<lparr>cb_image_cache := cache\<rparr>)))"

definition RebuildMessages :: "msg_codec \<Rightarrow> file_system \<Rightarrow> message list \<Rightarrow> context_builder \<Rightarrow> chat_message list \<times> context_builder" where
  "RebuildMessages codec readFile history cb =
     selectHistory codec readFile history (cb_budget cb - cb_last_used cb - cb_output_reserve cb) cb"

subsection \<open>Building a prompt\<close>

text \<open>
  The loop over the workspace files: a file whose content is unchanged is left out when it
  does not fit half the budget; a new or changed one is always included.
\<close>

definition ws_entry :: "workspace_file \<Rightarrow> string" where
  "ws_entry file = nl @ nl @ ''--- '' @ wf_key file @ '' ---'' @ nl @ wf_content file"

definition ws_skip :: "(string \<Rightarrow> string) \<Rightarrow> int \<Rightarrow> workspace_file \<Rightarrow> context_builder \<Rightarrow> bool" where
  "ws_skip ContentHash used file cb \<longleftrightarrow>
     (case cb_static_hash cb (wf_key file) of
        None \<Rightarrow> False
      | Some prevHash \<Rightarrow> ContentHash (wf_content file) = prevHash
          \<and> used + (case cb_cached_tokens cb (wf_key file) of Some c \<Rightarrow> c | None \<Rightarrow> 0) > cb_budget cb div 2)"

definition ws_note :: "(string \<Rightarrow> string) \<Rightarrow> workspace_file \<Rightarrow> context_builder \<Rightarrow> context_builder" where
  "ws_note ContentHash file cb =
     cb\<lparr>cb_static_hash := (cb_static_hash cb)(wf_key file \<mapsto> ContentHash (wf_content file)),
        cb_cached_tokens := (cb_cached_tokens cb)(wf_key file \<mapsto> estimateTokens (wf_content file))\<rparr>"

fun workspace_loop :: "(string \<Rightarrow> string) \<Rightarrow> workspace_file list \<Rightarrow> string \<times> int \<times> context_builder \<Rightarrow> string \<times> int \<times> context_builder" where
  "workspace_loop ContentHash [] st = st"
| "workspace_loop ContentHash (file # files) (wsContext, used, cb) =
     (if ws_skip ContentHash used file cb then workspace_loop ContentHash files (wsContext, used, cb)
      else workspace_loop ContentHash files
             (wsContext @ ws_entry file, used + estimateTokens (wf_content file), ws_note ContentHash file cb))"

definition Build :: "msg_codec \<Rightarrow> file_system \<Rightarrow> (string \<Rightarrow> string) \<Rightarrow> workspace_file list \<Rightarrow> message list \<Rightarrow> string \<Rightarrow>
    context_builder \<Rightarrow> (string \<times> chat_message list) \<times> context_builder" where
  "Build codec readFile ContentHash workspaceFiles history systemPrompt cb =
     (let (wsContext, used, cb1) = workspace_loop ContentHash workspaceFiles ([], estimateTokens systemPrompt, cb);
          finalPrompt = (if wsContext \<noteq> [] then systemPrompt @ nl @ nl @ ''# Workspace Context'' @ wsContext else systemPrompt);
          cb2 = cb1\<lparr>cb_last_used := used\<rparr>;
          remaining = cb_budget cb2 - used - cb_output_reserve cb2;
          (messages, cb3) = selectHistory codec readFile history remaining cb2
      in ((finalPrompt, messages), cb3))"

subsection \<open>Well-formed conversations\<close>

text \<open>
  What a provider accepts: each assistant message with tool calls is directly followed by a
  message with tool results, and tool results appear only there.
\<close>

definition calls_msg :: "chat_message \<Rightarrow> bool" where
  "calls_msg m \<longleftrightarrow> cm_role m = RoleAssistant \<and> cm_tool_calls m \<noteq> []"

definition results_msg :: "chat_message \<Rightarrow> bool" where
  "results_msg m \<longleftrightarrow> cm_tool_results m \<noteq> []"

definition tool_paired :: "chat_message list \<Rightarrow> bool" where
  "tool_paired ms \<longleftrightarrow>
     (\<forall>i < length ms. calls_msg (ms ! i) \<longrightarrow> Suc i < length ms \<and> results_msg (ms ! Suc i))
     \<and> (\<forall>i < length ms. results_msg (ms ! i) \<longrightarrow> (\<exists>j. i = Suc j \<and> calls_msg (ms ! j)))"

text \<open>No message holds both, as every message of the store decodes.\<close>

definition one_kind :: "chat_message \<Rightarrow> bool" where
  "one_kind m \<longleftrightarrow> \<not> (calls_msg m \<and> results_msg m)"

lemma all_nth_Cons: "(\<forall>i < length (x # xs). P i) \<longleftrightarrow> P 0 \<and> (\<forall>i < length xs. P (Suc i))"
  by (auto simp: less_Suc_eq_0_disj)

lemma tool_paired_Nil [simp]: "tool_paired []"
  by (simp add: tool_paired_def)

lemma tool_paired_plain:
  "\<not> calls_msg m \<Longrightarrow> \<not> results_msg m \<Longrightarrow> tool_paired ms \<Longrightarrow> tool_paired (m # ms)"
  unfolding tool_paired_def all_nth_Cons
  by (auto simp: nth_Cons split: nat.splits)

lemma tool_paired_pair:
  assumes "calls_msg m" "\<not> results_msg m" "results_msg r" "\<not> calls_msg r" "tool_paired ms"
  shows "tool_paired (m # r # ms)"
proof -
  have "\<not> results_msg (ms ! 0)" if "ms \<noteq> []"
    using assms(5) that unfolding tool_paired_def by (metis length_greater_0_conv nat.distinct(1))
  show ?thesis unfolding tool_paired_def
  proof (intro conjI allI impI)
    fix i assume "i < length (m # r # ms)" "calls_msg ((m # r # ms) ! i)"
    then show "Suc i < length (m # r # ms)" "results_msg ((m # r # ms) ! Suc i)"
      using assms unfolding tool_paired_def by (auto simp: nth_Cons split: nat.splits)
  next
    fix i assume i: "i < length (m # r # ms)" "results_msg ((m # r # ms) ! i)"
    show "\<exists>j. i = Suc j \<and> calls_msg ((m # r # ms) ! j)"
    proof (cases "i < 2")
      case True
      then show ?thesis using i assms by (cases i) (auto simp: results_msg_def calls_msg_def)
    next
      case False
      then obtain k where k: "i = Suc (Suc k)" by (metis add_2_eq_Suc le_Suc_ex not_less)
      with i assms(5) obtain j where "k = Suc j" "calls_msg (ms ! j)"
        unfolding tool_paired_def by auto
      then show ?thesis using k by auto
    qed
  qed
qed


lemma sanitize_paired: "list_all one_kind ms \<Longrightarrow> tool_paired (sanitizeToolPairs ms)"
proof (induction ms rule: sanitizeToolPairs.induct)
  case (2 m ms)
  show ?case
  proof (cases "calls_msg m")
    case calls: True
    with "2.prems" have nm: "\<not> results_msg m" by (auto simp: one_kind_def)
    show ?thesis
    proof (cases ms)
      case Nil
      with calls show ?thesis by (simp add: calls_msg_def)
    next
      case (Cons r rs)
      show ?thesis
      proof (cases "results_msg r")
        case True
        with "2.prems" Cons have "one_kind r" "list_all one_kind rs" by simp_all
        with True have "\<not> calls_msg r" "list_all one_kind rs" by (simp_all add: one_kind_def)
        moreover from this have "tool_paired (sanitizeToolPairs rs)"
          using "2.IH"(2) [OF _ Cons] calls True by (simp add: calls_msg_def results_msg_def)
        ultimately have "tool_paired (m # r # sanitizeToolPairs rs)"
          using tool_paired_pair calls nm True by blast
        then show ?thesis using calls True Cons by (simp add: calls_msg_def results_msg_def)
      next
        case False
        then have "sanitizeToolPairs (m # ms) = sanitizeToolPairs ms"
          using calls Cons by (simp add: calls_msg_def results_msg_def)
        moreover have "tool_paired (sanitizeToolPairs ms)"
          by (rule "2.IH"(3) [OF _ Cons]) (use calls False "2.prems" in \<open>auto simp: calls_msg_def results_msg_def\<close>)
        ultimately show ?thesis by simp
      qed
    qed
  next
    case False
    show ?thesis
    proof (cases "results_msg m")
      case True
      have "sanitizeToolPairs (m # ms) = sanitizeToolPairs ms"
        using False True by (auto simp: calls_msg_def results_msg_def)
      moreover have "tool_paired (sanitizeToolPairs ms)"
        by (rule "2.IH"(4)) (use False True "2.prems" in \<open>auto simp: calls_msg_def results_msg_def\<close>)
      ultimately show ?thesis by simp
    next
      case nr: False
      then have "sanitizeToolPairs (m # ms) = m # sanitizeToolPairs ms"
        using False by (auto simp: calls_msg_def results_msg_def)
      moreover have "tool_paired (sanitizeToolPairs ms)"
        by (rule "2.IH"(5)) (use False nr "2.prems" in \<open>auto simp: calls_msg_def results_msg_def\<close>)
      ultimately show ?thesis using tool_paired_plain False nr by simp
    qed
  qed
qed simp

lemma sanitize_subseq: "subseq (sanitizeToolPairs ms) ms"
proof (induction ms rule: sanitizeToolPairs.induct)
  case (2 m ms)
  then show ?case by (cases ms) auto
qed simp

text \<open>A conversation that is already well formed passes unchanged.\<close>

lemma tool_paired_tl: "tool_paired (m # ms) \<Longrightarrow> \<not> calls_msg m \<Longrightarrow> tool_paired ms"
proof -
  assume paired: "tool_paired (m # ms)" and m: "\<not> calls_msg m"
  have results: "\<exists>j. i = Suc j \<and> calls_msg (ms ! j)" if "i < length ms" "results_msg (ms ! i)" for i
  proof -
    from paired that have "calls_msg ((m # ms) ! i)" unfolding tool_paired_def all_nth_Cons by auto
    with m show ?thesis by (cases i) auto
  qed
  from paired show ?thesis unfolding tool_paired_def all_nth_Cons using results by auto
qed

lemma tool_paired_tl2:
  assumes "tool_paired (m # r # ms)" "\<not> calls_msg r"
  shows "tool_paired ms"
proof -
  have calls: "\<And>i. i < length (m # r # ms) \<Longrightarrow> calls_msg ((m # r # ms) ! i) \<Longrightarrow>
      Suc i < length (m # r # ms) \<and> results_msg ((m # r # ms) ! Suc i)"
    and results: "\<And>i. i < length (m # r # ms) \<Longrightarrow> results_msg ((m # r # ms) ! i) \<Longrightarrow>
      \<exists>j. i = Suc j \<and> calls_msg ((m # r # ms) ! j)"
    using assms(1) unfolding tool_paired_def by blast+
  show ?thesis unfolding tool_paired_def
  proof (intro conjI allI impI)
    fix i assume "i < length ms" "calls_msg (ms ! i)"
    then show "Suc i < length ms" "results_msg (ms ! Suc i)" using calls [of "Suc (Suc i)"] by simp_all
  next
    fix i assume "i < length ms" "results_msg (ms ! i)"
    then have "calls_msg ((m # r # ms) ! Suc i)" using results [of "Suc (Suc i)"] by simp
    with assms(2) show "\<exists>j. i = Suc j \<and> calls_msg (ms ! j)" by (cases i) auto
  qed
qed

lemma sanitize_id: "list_all one_kind ms \<Longrightarrow> tool_paired ms \<Longrightarrow> sanitizeToolPairs ms = ms"
proof (induction ms rule: sanitizeToolPairs.induct)
  case (2 m ms)
  have nr: "\<not> results_msg m" using "2.prems"(2) unfolding tool_paired_def by force
  show ?case
  proof (cases "calls_msg m")
    case True
    with "2.prems"(2) obtain r rs where ms: "ms = r # rs" "results_msg r"
      unfolding tool_paired_def by (cases ms) force+
    with "2.prems"(1) have "one_kind r" "list_all one_kind rs" by simp_all
    with ms have "\<not> calls_msg r" by (simp add: one_kind_def)
    with "2.prems"(2) ms have "tool_paired rs" using tool_paired_tl2 by blast
    with True ms \<open>list_all one_kind rs\<close> show ?thesis
      using "2.IH"(2) [OF _ ms(1)] by (simp add: calls_msg_def results_msg_def)
  next
    case False
    with "2.prems" have "tool_paired ms" "list_all one_kind ms" using tool_paired_tl by auto
    with False nr show ?thesis using "2.IH"(5) by (auto simp: calls_msg_def results_msg_def)
  qed
qed simp

lemma sanitize_kinds: "list_all one_kind ms \<Longrightarrow> list_all one_kind (sanitizeToolPairs ms)"
  using sanitize_subseq [of ms] by (auto simp: list_all_iff dest: list_emb_set)

subsection \<open>What is selected\<close>

text \<open>
  The candidates, newest first, as they would be prepared if the budget never ran out; the
  loop takes a prefix of them.
\<close>

fun candidates :: "msg_codec \<Rightarrow> file_system \<Rightarrow> int \<times> (string \<rightharpoonup> string) \<Rightarrow> message list \<Rightarrow> (chat_message \<times> int) list" where
  "candidates codec readFile st [] = []"
| "candidates codec readFile st (m # ms) =
     (let (c, st') = prepare_message codec readFile m st in c # candidates codec readFile st' ms)"

definition cost :: "(chat_message \<times> int) list \<Rightarrow> int" where
  "cost cs = sum_list (map snd cs)"

lemma length_candidates [simp]: "length (candidates codec rf st ms) = length ms"
  by (induction ms arbitrary: st) (simp_all add: split_beta Let_def)

lemma select_loop_prefix:
  "used \<le> budget \<Longrightarrow>
   \<exists>n \<le> length ms. fst (select_loop codec rf budget used st ms) = map fst (take n (candidates codec rf st ms))
     \<and> used + cost (take n (candidates codec rf st ms)) \<le> budget
     \<and> (n < length ms \<longrightarrow> used + cost (take (Suc n) (candidates codec rf st ms)) > budget)"
proof (induction ms arbitrary: used st)
  case Nil
  then show ?case by (simp add: cost_def)
next
  case (Cons m ms)
  obtain c k st' where p: "prepare_message codec rf m st = ((c, k), st')" by (metis prod.exhaust)
  show ?case
  proof (cases "used + k > budget")
    case True
    with Cons.prems p show ?thesis by (intro exI [of _ 0]) (simp add: cost_def)
  next
    case False
    with Cons.IH [of "used + k" st'] obtain n where n: "n \<le> length ms"
      "fst (select_loop codec rf budget (used + k) st' ms) = map fst (take n (candidates codec rf st' ms))"
      "used + k + cost (take n (candidates codec rf st' ms)) \<le> budget"
      "n < length ms \<longrightarrow> used + k + cost (take (Suc n) (candidates codec rf st' ms)) > budget" by auto
    with False p show ?thesis
      by (intro exI [of _ "Suc n"]) (auto simp: cost_def split_beta Let_def)
  qed
qed

lemma messageToLLM_kind: "one_kind (messageToLLM codec m)"
  by (auto simp: messageToLLM_def one_kind_def calls_msg_def results_msg_def Let_def split: option.splits)

lemma prepare_kind: "one_kind (fst (fst (prepare_message codec rf m st)))"
proof -
  have "one_kind (c\<lparr>cm_tool_results := rs\<rparr>)" if "one_kind c" "has_images c" for c rs
    using that by (auto simp: one_kind_def calls_msg_def results_msg_def has_images_def)
  with messageToLLM_kind show ?thesis
    by (auto simp: prepare_message_def Let_def split_beta)
qed

lemma candidates_kind: "list_all (\<lambda>c. one_kind (fst c)) (candidates codec rf st ms)"
proof (induction ms arbitrary: st)
  case (Cons m ms)
  then show ?case using prepare_kind [of codec rf m st] by (simp add: split_beta Let_def)
qed simp

lemma selectHistory_selected:
  assumes "0 < budget"
  shows "\<exists>n \<le> length history. let cs = candidates codec rf (0, cb_image_cache cb) (rev history) in
     fst (selectHistory codec rf history budget cb) = sanitizeToolPairs (rev (map fst (take n cs)))
     \<and> cost (take n cs) \<le> budget \<and> (n < length history \<longrightarrow> cost (take (Suc n) cs) > budget)"
proof (cases "history = []")
  case True
  with assms show ?thesis by (simp add: selectHistory_def cost_def)
next
  case False
  from select_loop_prefix [of 0 budget "rev history" codec rf "(0, cb_image_cache cb)"] assms False show ?thesis
    by (auto simp: selectHistory_def split_beta Let_def)
qed

lemma selectHistory_kinds:
  "\<exists>ms. fst (selectHistory codec rf history budget cb) = sanitizeToolPairs ms \<and> list_all one_kind ms"
proof (cases "budget > 0")
  case True
  from selectHistory_selected [OF True, of history codec rf cb] obtain n where
    "fst (selectHistory codec rf history budget cb)
       = sanitizeToolPairs (rev (map fst (take n (candidates codec rf (0, cb_image_cache cb) (rev history)))))"
    by (auto simp: Let_def)
  moreover have "list_all one_kind (rev (map fst (take n (candidates codec rf (0, cb_image_cache cb) (rev history)))))"
    using candidates_kind [of codec rf "(0, cb_image_cache cb)" "rev history"]
    by (auto simp: list_all_iff dest: in_set_takeD)
  ultimately show ?thesis by blast
next
  case False
  then show ?thesis by (intro exI [of _ "[]"]) (simp add: selectHistory_def)
qed


lemma selectHistory_paired: "tool_paired (fst (selectHistory codec rf history budget cb))"
  using selectHistory_kinds [of codec rf history budget cb] by (auto simp: sanitize_paired)

subsection \<open>Images\<close>

lemma candidates_images:
  "seen \<le> MaxRecentImageMessages \<Longrightarrow>
   int (length (filter (\<lambda>c. has_images (fst c)) (candidates codec rf (seen, cache) ms))) \<le> MaxRecentImageMessages - seen"
proof (induction ms arbitrary: seen cache)
  case (Cons m ms)
  have strip: "\<not> has_images (c\<lparr>cm_tool_results := map (\<lambda>r. r\<lparr>tr_images := []\<rparr>) (cm_tool_results c)\<rparr>)" for c
    by (simp add: has_images_def list_ex_iff)
  show ?case
  proof (cases "has_images (messageToLLM codec m) \<and> seen < MaxRecentImageMessages")
    case True
    then obtain c k cache' where "prepare_message codec rf m (seen, cache) = ((c, k), (seen + 1, cache'))"
      by (simp add: prepare_message_def Let_def split_beta)
    with True Cons.IH [of "seen + 1" cache'] show ?thesis by simp
  next
    case False
    then obtain c k where "prepare_message codec rf m (seen, cache) = ((c, k), (seen, cache))" "\<not> has_images c"
      using strip by (cases "has_images (messageToLLM codec m)") (auto simp: prepare_message_def Let_def split_beta)
    with Cons show ?thesis by simp
  qed
qed simp

lemma subseq_length_filter: "subseq xs ys \<Longrightarrow> length (filter P xs) \<le> length (filter P ys)"
  by (rule list_emb_length [OF subseq_filter])

lemma length_filter_take: "length (filter P (take n xs)) \<le> length (filter P xs)"
  by (metis append_take_drop_id filter_append le_add1 length_append)

lemma selected_images:
  fixes codec rf cache ms
  defines "cs \<equiv> candidates codec rf (0, cache) ms"
  shows "int (length (filter has_images (sanitizeToolPairs (rev (map fst (take n cs)))))) \<le> MaxRecentImageMessages"
proof -
  have "length (filter has_images (sanitizeToolPairs (rev (map fst (take n cs))))) \<le> length (filter has_images (rev (map fst (take n cs))))"
    by (rule subseq_length_filter [OF sanitize_subseq])
  also have "\<dots> = length (filter (\<lambda>c. has_images (fst c)) (take n cs))"
    by (simp add: rev_filter [symmetric] filter_map o_def)
  also have "\<dots> \<le> length (filter (\<lambda>c. has_images (fst c)) cs)" by (rule length_filter_take)
  finally show ?thesis
    using candidates_images [of 0 codec rf cache ms] by (simp add: cs_def config_defs)
qed

lemma Build_select:
  "\<exists>used wsc cb1. workspace_loop h files ([], estimateTokens sys, cb) = (wsc, used, cb1) \<and>
     (let cb2 = cb1\<lparr>cb_last_used := used\<rparr>; r = selectHistory codec rf history (cb_budget cb2 - used - cb_output_reserve cb2) cb2
      in snd (fst (Build codec rf h files history sys cb)) = fst r \<and> snd (Build codec rf h files history sys cb) = snd r)"
  by (cases "workspace_loop h files ([], estimateTokens sys, cb)") (simp add: Build_def Let_def split_beta)

lemma Build_paired: "tool_paired (snd (fst (Build codec rf h files history sys cb)))"
  using Build_select [of h files sys cb codec rf history] selectHistory_paired by (auto simp: Let_def)

lemma selectHistory_frame [store_frame]:
  "cb_budget (snd (selectHistory codec rf history b cb)) = cb_budget cb"
  "cb_output_reserve (snd (selectHistory codec rf history b cb)) = cb_output_reserve cb"
  "cb_last_used (snd (selectHistory codec rf history b cb)) = cb_last_used cb"
  by (simp_all add: selectHistory_def split_beta Let_def)

lemma workspace_loop_frame [store_frame]:
  "cb_budget (snd (snd (workspace_loop h files st))) = cb_budget (snd (snd st))"
  "cb_output_reserve (snd (snd (workspace_loop h files st))) = cb_output_reserve (snd (snd st))"
  by (induction h files st rule: workspace_loop.induct) (simp_all add: ws_note_def)

subsection \<open>Properties\<close>

definition demo_codec :: msg_codec where
  "demo_codec = \<lparr>dec_calls = (\<lambda>s. Some ([], [\<lparr>tc_id = s, tc_name = ''shell'', tc_input = []\<rparr>])),
     dec_results = (\<lambda>s. Some [zero_tool_result\<lparr>tr_tool_call_id := s\<rparr>])\<rparr>"

definition demo_history :: "message list" where
  "demo_history =
     (let m = \<lambda>i r t c. \<lparr>msg_id = i, msg_session = ''s'', msg_role = r, msg_type = t, msg_content = c, msg_tokens = 0, msg_created = 0\<rparr>
      in [m ''1'' RoleUser ContentTypeText ''run it'', m ''2'' RoleAssistant ContentTypeToolCalls ''c1'',
          m ''3'' RoleUser ContentTypeToolResults ''c1'', m ''4'' RoleUser ContentTypeText ''thanks''])"

text \<open>
  C7: Whatever history is stored, and wherever the token budget cuts it, the conversation that
  \<^verbatim>\<open>Build\<close> and \<^verbatim>\<open>RebuildMessages\<close> hand to the provider is well formed: every assistant
  message with tool calls is directly followed by tool results and tool results occur nowhere
  else; it carries images in at most \<^verbatim>\<open>MaxRecentImageMessages\<close> messages; and repairing it again
  changes nothing.
\<close>
theorem context_well_formed:
  fixes codec rf history cb h files sys
  defines "ms \<equiv> fst (RebuildMessages codec rf history cb)"
    and "ms' \<equiv> snd (fst (Build codec rf h files history sys cb))"
  shows "tool_paired ms \<and> tool_paired ms' \<and> sanitizeToolPairs ms = ms
    \<and> int (length (filter has_images ms)) \<le> MaxRecentImageMessages
    \<and> int (length (filter has_images ms')) \<le> MaxRecentImageMessages"
proof -
  have wf: "tool_paired r \<and> sanitizeToolPairs r = r \<and> int (length (filter has_images r)) \<le> MaxRecentImageMessages"
    if r: "r = fst (selectHistory codec rf history b c)" for r b c
  proof (intro conjI)
    from selectHistory_kinds obtain ms where ms: "r = sanitizeToolPairs ms" "list_all one_kind ms"
      unfolding r by blast
    then show "tool_paired r" by (simp add: sanitize_paired)
    with ms show "sanitizeToolPairs r = r" using sanitize_id sanitize_kinds by blast
    show "int (length (filter has_images r)) \<le> MaxRecentImageMessages"
    proof (cases "0 < b")
      case True
      from selectHistory_selected [OF this, of history codec rf c] show ?thesis
        unfolding r Let_def using selected_images by force
    next
      case False
      then show ?thesis by (simp add: r selectHistory_def config_defs)
    qed
  qed
  from Build_select [of h files sys cb codec rf history]
  have "\<exists>b c. ms' = fst (selectHistory codec rf history b c)" by (auto simp: ms'_def Let_def)
  then show ?thesis using wf unfolding ms_def RebuildMessages_def by blast
qed



end
