(* ===== verification/Compaction.thy ===== *)
theory Compaction
  imports Context_Builder
begin

section \<open>Session compaction (\<^verbatim>\<open>pkg/agent/compaction.go\<close>)\<close>

text \<open>
  When a session has more messages than a threshold, all but the most recent ones are rendered
  as text, summarised by the model, deleted, and replaced by one summary message. The provider
  is an argument that answers a request with an error or with the events of its channel; times
  are nanoseconds.
\<close>

type_synonym chat_fn = "chat_request \<Rightarrow> go_error + chat_event list"

definition agent_truncate :: "string \<Rightarrow> nat \<Rightarrow> string" where
  "agent_truncate s maxlen = (if length s \<le> maxlen then s else take maxlen s @ ''...'')"

definition compactionPrompt :: "string \<Rightarrow> string" where
  "compactionPrompt conv =
     ''Summarize this conversation history for use as context in future turns.'' @ nl @ nl
     @ ''Preserve:'' @ nl
     @ ''- Key facts, decisions, and conclusions reached'' @ nl
     @ ''- User preferences, corrections, and explicit requests'' @ nl
     @ ''- Outcomes of tool calls (what was created, modified, found, or failed)'' @ nl
     @ ''- Names, paths, URLs, and identifiers that were referenced'' @ nl
     @ ''- Any pending or incomplete tasks'' @ nl @ nl
     @ ''Omit:'' @ nl
     @ ''- Intermediate debugging steps that led nowhere'' @ nl
     @ ''- Raw tool output already summarized in conversation'' @ nl
     @ ''- Redundant clarifications already resolved'' @ nl @ nl
     @ ''Use bullet points. Be specific and factual. Keep under 500 words.'' @ nl @ nl
     @ ''Conversation:'' @ nl @ conv"

definition summary_prefix :: string where
  "summary_prefix = ''[Session Summary]'' @ nl"

definition render_result :: "tool_result \<Rightarrow> string" where
  "render_result r = ''[tool result ('' @ (if tr_is_error r then ''error'' else ''ok'') @ ''): ''
     @ agent_truncate (tr_content r) 150 @ '']'' @ nl"

text \<open>The text of one old message in the conversation handed to the summariser.\<close>

definition render_message :: "msg_codec \<Rightarrow> message \<Rightarrow> string" where
  "render_message codec m =
     (if msg_type m = ContentTypeText \<and> HasPrefix (msg_content m) summary_prefix then
        ''[Previous Summary]: '' @ drop (length summary_prefix) (msg_content m) @ nl @ nl
      else if msg_type m = ContentTypeToolCalls then
        (case dec_calls codec (msg_content m) of
           Some (content, calls) \<Rightarrow>
             (let names = Join (map tc_name calls) '', '' in
              if content \<noteq> [] then msg_role m @ '': '' @ agent_truncate content 200 @ '' [called: '' @ names @ '']'' @ nl
              else msg_role m @ '': [called: '' @ names @ '']'' @ nl)
         | None \<Rightarrow> ''['' @ msg_role m @ '': tool interaction]'' @ nl)
      else if msg_type m = ContentTypeToolResults then
        (case dec_results codec (msg_content m) of
           Some results \<Rightarrow> concat (map render_result results)
         | None \<Rightarrow> ''['' @ msg_role m @ '': tool results]'' @ nl)
      else if msg_type m \<noteq> ContentTypeText then
        ''['' @ msg_role m @ '': '' @ msg_type m @ '' interaction]'' @ nl
      else msg_role m @ '': '' @ msg_content m @ nl @ nl)"

definition summary_request :: "string \<Rightarrow> string \<Rightarrow> chat_request" where
  "summary_request model conv =
     \<lparr>rq_model = model, rq_messages = [user_msg (compactionPrompt conv)],
      rq_system = ''You are a conversation summarizer for an AI assistant. Produce a structured, factual summary that preserves actionable context. Never fabricate information not present in the conversation.'',
      rq_max_tokens = CompactionMaxTokens, rq_stream = False, rq_tools = []\<rparr>"

text \<open>Reading the summary off the event channel; an error event ends it.\<close>

fun collect_summary :: "string \<Rightarrow> chat_event list \<Rightarrow> go_error + string" where
  "collect_summary acc [] = Inr acc"
| "collect_summary acc (EventToken t # evs) = collect_summary (acc @ t) evs"
| "collect_summary acc (EventError e # evs) = Inl e"
| "collect_summary acc (_ # evs) = collect_summary acc evs"

definition messageIDs :: "message list \<Rightarrow> string list" where
  "messageIDs msgs = map msg_id msgs"

definition summary_message :: "string \<Rightarrow> string \<Rightarrow> string \<Rightarrow> timestamp \<Rightarrow> message" where
  "summary_message newID sid content created =
     \<lparr>msg_id = newID, msg_session = sid, msg_role = RoleAssistant, msg_type = ContentTypeText,
      msg_content = summary_prefix @ content, msg_tokens = 0, msg_created = created\<rparr>"

definition replace_by_summary :: "string \<Rightarrow> string \<Rightarrow> message list \<Rightarrow> message list \<Rightarrow> string \<Rightarrow> db \<Rightarrow> unit db_result" where
  "replace_by_summary newID sid oldMessages recentMessages content d =
     (case DeleteMessages (messageIDs oldMessages) d of
        (Inl e, d1) \<Rightarrow> (Inl (ErrWrap ''deleting old messages: '' e), d1)
      | (Inr _, d1) \<Rightarrow>
          (case AppendMessage (summary_message newID sid content (msg_created (hd recentMessages) - 1000000000)) d1 of
             (Inl e, d2) \<Rightarrow> (Inl (ErrWrap ''inserting summary: '' e), d2)
           | (Inr _, d2) \<Rightarrow> (Inr (), d2)))"

definition CompactSession :: "msg_codec \<Rightarrow> chat_fn \<Rightarrow> string \<Rightarrow> string \<Rightarrow> string \<Rightarrow> db \<Rightarrow> unit db_result" where
  "CompactSession codec chat model newID sid d =
     (case MessageCount sid d of
        (Inl e, d1) \<Rightarrow> (Inl (ErrWrap ''counting messages: '' e), d1)
      | (Inr count, d1) \<Rightarrow>
          (if count \<le> CompactionThreshold then (Inr (), d1)
           else (case RecentMessages sid count d1 of
             (Inl e, d2) \<Rightarrow> (Inl (ErrWrap ''loading messages: '' e), d2)
           | (Inr msgs, d2) \<Rightarrow>
               (let splitIdx = int (length msgs) - CompactionKeepRecent in
                if splitIdx \<le> 0 then (Inr (), d2)
                else (let oldMessages = take (nat splitIdx) msgs; recentMessages = drop (nat splitIdx) msgs;
                          conv = concat (map (render_message codec) oldMessages) in
                  case chat (summary_request model conv) of
                    Inl e \<Rightarrow> (Inl (ErrWrap ''calling LLM for summary: '' e), d2)
                  | Inr events \<Rightarrow>
                      (case collect_summary [] events of
                         Inl e \<Rightarrow> (Inl (ErrWrap ''LLM summary error: '' e), d2)
                       | Inr content \<Rightarrow> replace_by_summary newID sid oldMessages recentMessages content d2))))))"

subsection \<open>Rows of the session\<close>

lemma filter_not_taken:
  assumes "distinct (map f xs)"
  shows "filter (\<lambda>x. f x \<notin> f ` set (take k xs)) xs = drop k xs"
proof -
  have "distinct (map f (take k xs @ drop k xs))" using assms by simp
  then have disj: "f ` set (take k xs) \<inter> f ` set (drop k xs) = {}"
    unfolding map_append distinct_append by simp
  have "filter (\<lambda>x. f x \<notin> f ` set (take k xs)) (take k xs @ drop k xs) = drop k xs"
    unfolding filter_append using disj by (auto simp: filter_empty_conv filter_id_conv)
  then show ?thesis by simp
qed

lemma session_messages_ids: "db_ok d \<Longrightarrow> distinct (map msg_id (session_messages sid d))"
proof -
  assume "db_ok d"
  then have "distinct (messages d)" "inj_on msg_id (set (messages d))" by (auto simp: db_ok_def distinct_map)
  then show ?thesis by (auto simp: session_messages_def distinct_map inj_on_def)
qed

lemma DeleteMessages_cases:
  "DeleteMessages ids d = (r, d') \<Longrightarrow>
     (r = Inr () \<and> messages d' = filter (\<lambda>m. msg_id m \<notin> set ids) (messages d))
     \<or> (isl r \<and> messages d' = messages d)"
  by (auto simp: DeleteMessages_def db_stmt_def Let_def filter_id_conv split: if_splits option.splits)

lemma session_messages_deleted:
  assumes ok: "db_ok d" and d': "messages d' = filter (\<lambda>m. msg_id m \<notin> set (messageIDs (take k (session_messages sid d)))) (messages d)"
  shows "session_messages sid d' = drop k (session_messages sid d)"
    and "other \<noteq> sid \<Longrightarrow> session_messages other d' = session_messages other d"
proof -
  let ?ids = "msg_id ` set (take k (session_messages sid d))"
  have "session_messages sid d' = filter (\<lambda>m. msg_id m \<notin> ?ids) (session_messages sid d)"
    by (simp add: session_messages_def d' messageIDs_def filter_sort conj_commute)
  with filter_not_taken [OF session_messages_ids [OF ok]]
  show "session_messages sid d' = drop k (session_messages sid d)" by simp
  assume other: "other \<noteq> sid"
  have keep: "msg_id m \<notin> ?ids" if m: "m \<in> set (messages d)" "msg_session m = other" for m
  proof
    assume "msg_id m \<in> ?ids"
    then obtain x where x: "x \<in> set (take k (session_messages sid d))" "msg_id x = msg_id m" by auto
    from x(1) have "x \<in> set (session_messages sid d)" by (rule in_set_takeD)
    then have "x \<in> set (messages d)" "msg_session x = sid" by (simp_all add: session_messages_def)
    with x m ok have "x = m" by (metis db_ok_def distinct_map inj_on_eq_iff)
    with \<open>msg_session x = sid\<close> m other show False by simp
  qed
  have "filter (\<lambda>m. msg_id m \<notin> ?ids \<and> msg_session m = other) (messages d) = filter (\<lambda>m. msg_session m = other) (messages d)"
    using keep by (intro filter_cong) auto
  then show "session_messages other d' = session_messages other d"
    by (simp add: session_messages_def d' messageIDs_def)
qed

lemma sort_key_cons_min:
  fixes f :: "'a \<Rightarrow> 'b :: linorder"
  shows "(\<forall>x \<in> set xs. f y < f x) \<Longrightarrow> sort_key f (xs @ [y]) = y # sort_key f xs"
proof (induction xs)
  case (Cons x xs)
  then have "sort_key f (x # xs @ [y]) = insort_key f x (y # sort_key f xs)" by simp
  moreover have "\<not> f x \<le> f y" using Cons.prems by auto
  ultimately show ?case by simp
qed simp

lemma session_messages_prepend:
  assumes app: "AppendMessage m d = (Inr (), d')" and sid: "msg_session m = sid"
    and min: "\<forall>x \<in> set (session_messages sid d). msg_created m < msg_created x"
  shows "session_messages sid d' = normalize_msg m # session_messages sid d"
    and "other \<noteq> sid \<Longrightarrow> session_messages other d' = session_messages other d"
proof -
  have n: "msg_session (normalize_msg m) = sid" "msg_created (normalize_msg m) = msg_created m"
    using sid by (simp_all add: normalize_msg_def)
  from AppendMessage_Inr [OF app] have ms: "messages d' = messages d @ [normalize_msg m]" by simp
  show "session_messages sid d' = normalize_msg m # session_messages sid d"
    using min by (simp add: session_messages_def ms n sort_key_cons_min)
  show "session_messages other d' = session_messages other d" if "other \<noteq> sid"
    using that by (simp add: session_messages_def ms n)
qed

lemma session_messages_cong: "messages d' = messages d \<Longrightarrow> session_messages sid d' = session_messages sid d"
  by (simp add: session_messages_def)

lemma sorted_hd_least: "sorted (map f xs) \<Longrightarrow> x \<in> set xs \<Longrightarrow> f (hd xs) \<le> f x"
  by (cases xs) auto

text \<open>The three outcomes of replacing the old messages.\<close>

lemma replace_by_summary_cases:
  assumes ok: "db_ok d" and k: "k < length (session_messages sid d)"
    and run: "replace_by_summary newID sid (take k (session_messages sid d)) (drop k (session_messages sid d)) content d = (r, d')"
  shows "(isl r \<and> session_messages sid d' = session_messages sid d)
    \<or> (\<exists>e. r = Inl (ErrWrap ''inserting summary: '' e) \<and> session_messages sid d' = drop k (session_messages sid d))
    \<or> (r = Inr () \<and> (\<exists>t. session_messages sid d' = summary_message newID sid content t # drop k (session_messages sid d)))"
    and "other \<noteq> sid \<Longrightarrow> session_messages other d' = session_messages other d"
proof -
  let ?ms = "session_messages sid d" and ?m = "summary_message newID sid content (msg_created (hd (drop k (session_messages sid d))) - 1000000000)"
  obtain r1 d1 where del: "DeleteMessages (messageIDs (take k ?ms)) d = (r1, d1)" by force
  obtain r2 d2 where app: "AppendMessage ?m d1 = (r2, d2)" by force
  have norm: "normalize_msg ?m = ?m" by (simp add: normalize_msg_def summary_message_def ContentTypeText_def)
  have "(isl r \<and> session_messages sid d' = ?ms \<or> (\<exists>e. r = Inl (ErrWrap ''inserting summary: '' e) \<and> session_messages sid d' = drop k ?ms)
      \<or> (r = Inr () \<and> (\<exists>t. session_messages sid d' = summary_message newID sid content t # drop k ?ms)))
      \<and> (other \<noteq> sid \<longrightarrow> session_messages other d' = session_messages other d)"
  proof (cases r1)
    case (Inl e)
    then have "messages d1 = messages d" using DeleteMessages_cases [OF del] by auto
    moreover have "isl r" "d' = d1" using run unfolding replace_by_summary_def del Inl by auto
    ultimately show ?thesis using session_messages_cong [of d1 d] by simp
  next
    case (Inr u)
    with DeleteMessages_cases [OF del] have d1: "messages d1 = filter (\<lambda>m. msg_id m \<notin> set (messageIDs (take k ?ms))) (messages d)"
      by auto
    note del' = session_messages_deleted [OF ok d1]
    show ?thesis
    proof (cases r2)
      case (Inl e)
      with AppendMessage_Inl app have "messages d2 = messages d1" by blast
      moreover have "r = Inl (ErrWrap ''inserting summary: '' e)" "d' = d2"
        using run unfolding replace_by_summary_def del Inr using app Inl by auto
      ultimately show ?thesis using del' session_messages_cong [of d2 d1] by simp
    next
      case (Inr u2)
      have "sorted (map msg_created (drop k ?ms))"
        by (simp add: session_messages_def drop_map [symmetric] sorted_wrt_drop)
      then have "\<forall>x \<in> set (session_messages sid d1). msg_created ?m < msg_created x"
        using sorted_hd_least [of msg_created "drop k ?ms"] by (fastforce simp: del' summary_message_def)
      with Inr app have "session_messages sid d2 = ?m # drop k ?ms" "other \<noteq> sid \<Longrightarrow> session_messages other d2 = session_messages other d"
        using session_messages_prepend [of ?m d1 d2 sid] del' norm by (auto simp: summary_message_def)
      moreover have "r = Inr ()" "d' = d2"
        using run unfolding replace_by_summary_def del \<open>r1 = Inr u\<close> using app Inr by auto
      ultimately show ?thesis by blast
    qed
  qed
  then show "(isl r \<and> session_messages sid d' = session_messages sid d)
    \<or> (\<exists>e. r = Inl (ErrWrap ''inserting summary: '' e) \<and> session_messages sid d' = drop k (session_messages sid d))
    \<or> (r = Inr () \<and> (\<exists>t. session_messages sid d' = summary_message newID sid content t # drop k (session_messages sid d)))"
    and "other \<noteq> sid \<Longrightarrow> session_messages other d' = session_messages other d" by blast+
qed


lemma MessageCount_Inr:
  "MessageCount sid d = (Inr n, d') \<Longrightarrow> n = int (length (session_messages sid d)) \<and> messages d' = messages d"
  by (auto simp: MessageCount_def db_stmt_def Let_def session_messages_def split: option.splits)

lemma take_last_all: "take_last (int (length xs)) xs = xs"
  by (simp add: take_last_def)

text \<open>Up to the model call the run has read all messages and changed nothing.\<close>

lemma CompactSession_read:
  assumes "db_ok d" and "CompactSession codec chat model newID sid d = (r, d')"
  shows "messages d' = messages d \<or>
    (\<exists>d2 content k. messages d2 = messages d \<and> db_ok d2 \<and> int (length (session_messages sid d)) > CompactionThreshold
      \<and> k = length (session_messages sid d) - 10
      \<and> replace_by_summary newID sid (take k (session_messages sid d)) (drop k (session_messages sid d)) content d2 = (r, d'))"
proof -
  obtain c d1 where c: "MessageCount sid d = (c, d1)" by force
  have m1: "messages d1 = messages d" and ok1: "db_ok d1"
    using MessageCount.rows_result [OF c] MessageCount.ok_result [OF assms(1) c] by simp_all
  show ?thesis
  proof (cases "\<exists>n. c = Inr n \<and> n > CompactionThreshold")
    case False
    then have "d' = d1" using assms(2) by (cases c) (auto simp: CompactSession_def c)
    with m1 show ?thesis by simp
  next
    case True
    then obtain n where n: "c = Inr n" "n > CompactionThreshold" by blast
    with MessageCount_Inr c have len: "n = int (length (session_messages sid d))" by blast
    obtain ms d2 where rm: "RecentMessages sid n d1 = (ms, d2)" by force
    have m2: "messages d2 = messages d" and ok2: "db_ok d2"
      using RecentMessages.rows_result [OF rm] RecentMessages.ok_result [OF ok1 rm] m1 by simp_all
    show ?thesis
    proof (cases ms)
      case (Inl e)
      then have "d' = d2" using assms(2) n unfolding CompactSession_def c by (simp add: rm)
      with m2 show ?thesis by simp
    next
      case (Inr msgs)
      have msgs: "msgs = session_messages sid d"
        using RecentMessages_Inr [of sid n d1] rm Inr session_messages_cong [OF m1] by (simp add: len take_last_all)
      let ?k = "length msgs - 10"
      have k: "int (length msgs) > 40" "nat (int (length msgs) - CompactionKeepRecent) = ?k"
        "\<not> int (length msgs) - CompactionKeepRecent \<le> 0"
        using n len by (simp_all add: config_defs msgs)
      have "d' = d2 \<or> (\<exists>content. replace_by_summary newID sid (take ?k msgs) (drop ?k msgs) content d2 = (r, d'))"
        using assms(2) n k unfolding CompactSession_def c
        by (auto simp: rm Inr Let_def split: sum.splits)
      with m2 ok2 n len show ?thesis unfolding msgs by blast
    qed
  qed
qed

lemma CompactSession_ok: "db_ok d \<Longrightarrow> db_ok (snd (CompactSession codec chat model newID sid d))"
proof -
  assume ok: "db_ok d"
  have rep: "db_ok (snd (replace_by_summary newID sid old recent content d2))" if "db_ok d2" for old recent content d2
    using that by (auto simp: replace_by_summary_def split: prod.splits sum.splits dest: store_ok)
  show ?thesis
    using ok by (auto simp: CompactSession_def Let_def split: prod.splits sum.splits dest: store_ok intro: rep)
qed

lemma replace_by_summary_routes: "same_routes d (snd (replace_by_summary newID sid old recent content d))"
  by (auto simp: replace_by_summary_def same_routes_def split: prod.splits sum.splits dest!: store_routes)

lemma CompactSession_routes: "same_routes d (snd (CompactSession codec chat model newID sid d))"
  using replace_by_summary_routes
  by (auto simp: CompactSession_def Let_def same_routes_def split: prod.splits sum.splits dest!: store_routes)

subsection \<open>Success\<close>

lemma collect_summary_ok:
  "\<forall>e. EventError e \<notin> set evs \<Longrightarrow> collect_summary acc evs = Inr (acc @ concat [t. EventToken t \<leftarrow> evs])"
proof (induction evs arbitrary: acc)
  case (Cons ev evs)
  then show ?case by (cases ev) auto
qed simp

lemma session_messages_length:
  "length (filter (\<lambda>m. msg_session m = sid) (messages d)) = length (session_messages sid d)"
  by (simp add: session_messages_def)

lemma session_messages_ops: "session_messages sid (d\<lparr>db_ops := n\<rparr>) = session_messages sid d"
  by (simp add: session_messages_def)

lemma replace_by_summary_succeeds:
  assumes "\<forall>n. db_fault d n = None" and "newID \<notin> msg_id ` set (messages d)"
  shows "fst (replace_by_summary newID sid old recent content d) = Inr ()"
proof -
  obtain r1 d1 where del: "DeleteMessages (messageIDs old) d = (r1, d1)" by force
  have "r1 = Inr ()" using del assms(1) by (auto simp: DeleteMessages_def db_stmt_def Let_def split: if_splits)
  moreover have "db_fault d1 = db_fault d" using DeleteMessages.fault_result [OF del] .
  moreover have "newID \<notin> msg_id ` set (messages d1)"
    using DeleteMessages_cases [OF del] assms(2) by auto
  ultimately show ?thesis
    using assms(1) by (auto simp: replace_by_summary_def del AppendMessage_def db_stmt_def Let_def
        normalize_msg_def summary_message_def list_ex_iff)
qed

subsection \<open>Properties\<close>

text \<open>
  C9: What compaction does to the stored conversation, on every path through errors of the
  database and of the model: the session's messages are untouched; or compaction succeeded on a
  session over the threshold and they are one summary message followed by exactly the most recent
  \<^verbatim>\<open>CompactionKeepRecent\<close> messages in order; or the insert of the summary failed and only the
  recent messages remain (the old ones are lost with no summary). Other sessions read the same
  messages as before in every case.
\<close>
theorem CompactSession_outcomes:
  fixes sid d
  defines "old \<equiv> session_messages sid d"
  defines "recent \<equiv> drop (length old - nat CompactionKeepRecent) old"
  assumes "db_ok d" and "CompactSession codec chat model newID sid d = (r, d')"
  shows "(session_messages sid d' = old
      \<or> (r = Inr () \<and> int (length old) > CompactionThreshold
         \<and> (\<exists>content t. session_messages sid d' = summary_message newID sid content t # recent))
      \<or> (\<exists>e. r = Inl (ErrWrap ''inserting summary: '' e) \<and> session_messages sid d' = recent))
    \<and> (other \<noteq> sid \<longrightarrow> session_messages other d' = session_messages other d) \<and> length recent \<le> 10"
proof -
  have k10: "nat CompactionKeepRecent = 10" by (simp add: config_defs)
  from CompactSession_read [OF assms(3,4)] consider "messages d' = messages d"
    | d2 content where "messages d2 = messages d" "db_ok d2" "int (length old) > CompactionThreshold"
      "replace_by_summary newID sid (take (length old - 10) old) (drop (length old - 10) old) content d2 = (r, d')"
    unfolding old_def by blast
  then show ?thesis
  proof cases
    case 1
    then show ?thesis
      using session_messages_cong [of d' d] by (simp add: old_def recent_def k10)
  next
    case 2
    note same = session_messages_cong [OF 2(1)]
    have "length old - 10 < length (session_messages sid d2)" "old = session_messages sid d2"
      using 2(3) by (simp_all add: same old_def config_defs)
    with 2(4) have "replace_by_summary newID sid (take (length old - 10) (session_messages sid d2))
        (drop (length old - 10) (session_messages sid d2)) content d2 = (r, d')" by simp
    from replace_by_summary_cases [OF 2(2) \<open>length old - 10 < _\<close> this] 2(3)
    show ?thesis unfolding recent_def k10 \<open>old = session_messages sid d2\<close> by (auto simp: same)
  qed
qed

definition demo_long_db :: db where
  "demo_long_db = demo_db\<lparr>messages := map (\<lambda>i. normalize_msg (demo_msg (nat_to_dec i) (int i))) [0..<42]\<rparr>"


definition demo_summary :: chat_fn where
  "demo_summary rq = Inr [EventToken ''all '', EventToken ''fine'', EventDone None]"

lemma demo_long_db_facts:
  "db_ok demo_long_db" "length (session_messages ''s'' demo_long_db) = 42" "\<forall>n. db_fault demo_long_db n = None"
  "''new'' \<notin> msg_id ` set (messages demo_long_db)"
proof -
  have "distinct (map msg_id (messages demo_long_db))" by code_simp
  then show "db_ok demo_long_db"
    by (auto simp: db_ok_def demo_long_db_def demo_db_def checkpoint_unique_def normalize_msg_def demo_msg_def ContentTypeText_def)
  show "length (session_messages ''s'' demo_long_db) = 42" "\<forall>n. db_fault demo_long_db n = None"
    by (simp_all add: session_messages_def demo_long_db_def demo_db_def normalize_msg_def demo_msg_def)
  have "\<not> list_ex (\<lambda>m. msg_id m = ''new'') (messages demo_long_db)" by code_simp
  then show "''new'' \<notin> msg_id ` set (messages demo_long_db)" by (auto simp: list_ex_iff)
qed

theorem CompactSession_outcomes_witness:
  "length (session_messages ''s'' (snd (CompactSession demo_codec demo_summary ''m'' ''new'' ''s'' demo_long_db))) \<in> {42, 11, 10}
   \<and> session_messages ''t'' (snd (CompactSession demo_codec demo_summary ''m'' ''new'' ''s'' demo_long_db)) = session_messages ''t'' demo_long_db"
proof -
  obtain r d' where run: "CompactSession demo_codec demo_summary ''m'' ''new'' ''s'' demo_long_db = (r, d')" by force
  from CompactSession_outcomes [OF demo_long_db_facts(1) run, of "''t''"] run demo_long_db_facts(2) show ?thesis
    by (auto simp: config_defs)
qed

text \<open>
  Compaction does its work: on a session over the threshold, when the database does not fail, the
  new id is fresh and the model answers without an error event, the call returns no error and
  the session then holds the summary, whose text is the model's tokens in order, followed by
  the recent messages.
\<close>
theorem CompactSession_succeeds:
  fixes sid d
  defines "old \<equiv> session_messages sid d"
  assumes "db_ok d" and nofault: "\<forall>n. db_fault d n = None" and "newID \<notin> msg_id ` set (messages d)"
    and long: "int (length old) > CompactionThreshold"
    and chat: "\<And>rq. chat rq = Inr events" and "\<forall>e. EventError e \<notin> set events"
  shows "\<exists>d' t. CompactSession codec chat model newID sid d = (Inr (), d')
    \<and> session_messages sid d' = summary_message newID sid (concat [t. EventToken t \<leftarrow> events]) t # drop (length old - 10) old"
proof -
  let ?k = "length old - 10" and ?c = "concat [t. EventToken t \<leftarrow> events]"
  let ?d2 = "d\<lparr>db_ops := Suc (Suc (db_ops d))\<rparr>"
  have k: "nat (int (length old) - CompactionKeepRecent) = ?k" "\<not> int (length old) - CompactionKeepRecent \<le> 0" "?k < length old"
    using long by (simp_all add: config_defs)
  have c: "collect_summary [] events = Inr ?c" using collect_summary_ok [of events "[]"] assms(7) by simp
  have run: "CompactSession codec chat model newID sid d = replace_by_summary newID sid (take ?k old) (drop ?k old) ?c ?d2"
    using nofault long k
    by (simp add: CompactSession_def MessageCount_def RecentMessages_def db_stmt_def Let_def chat c
        session_messages_length take_last_all old_def [symmetric] session_messages_ops)
  have old2: "old = session_messages sid ?d2" by (simp add: old_def session_messages_def)
  have ok2: "db_ok ?d2" using assms(2) by (simp add: db_ok_def)
  have ok: "fst (replace_by_summary newID sid (take ?k old) (drop ?k old) ?c ?d2) = Inr ()"
    using assms(4) nofault by (intro replace_by_summary_succeeds) simp_all
  obtain r d' where r: "replace_by_summary newID sid (take ?k old) (drop ?k old) ?c ?d2 = (r, d')" by force
  from replace_by_summary_cases(1) [OF ok2 _ r [unfolded old2]] ok r run k(3) show ?thesis
    unfolding old2 [symmetric] by auto
qed

theorem CompactSession_succeeds_witness:
  "\<exists>d' t. CompactSession demo_codec demo_summary ''m'' ''new'' ''s'' demo_long_db = (Inr (), d')
     \<and> hd (session_messages ''s'' d') = summary_message ''new'' ''s'' ''all fine'' t"
proof -
  have "\<forall>e. EventError e \<notin> set [EventToken ''all '', EventToken ''fine'', EventDone None]" by simp
  from CompactSession_succeeds [where chat = demo_summary and sid = "''s''" and codec = demo_codec and model = "''m''",
      OF demo_long_db_facts(1,3,4) _ demo_summary_def this] demo_long_db_facts(2)
  obtain d' t where "CompactSession demo_codec demo_summary ''m'' ''new'' ''s'' demo_long_db = (Inr (), d')"
    "session_messages ''s'' d' = summary_message ''new'' ''s'' ''all fine'' t # drop 32 (session_messages ''s'' demo_long_db)"
    by (auto simp: config_defs)
  then show ?thesis by auto
qed

end
