(* ===== verification/Agent_Tools.thy ===== *)
theory Agent_Tools
  imports Compaction Memory_Store Audit_Log Tool_Registry Executor Approval Sandbox_Policy
begin

section \<open>Running tools and calling the model (\<^verbatim>\<open>pkg/agent/agent.go\<close>, \<^verbatim>\<open>pkg/agent/tools/context.go\<close>)\<close>

text \<open>
  The state of the agent runtime as one record, its environment, and the operations of one
  step: the model call with its retries, the approval and execution of one tool call, a batch
  of concurrent calls, and the persistence of messages. Everything the program does not
  decide (the model, the tools' effects, a user's answer, the end of a context, the schedule
  of goroutines, ids and the clock) is a field of \<open>agent_env\<close>, read at the step number
  \<open>w_tick\<close>, so every behaviour of the outside is some environment.
\<close>

subsection \<open>Context values\<close>

record go_ctx =
  ctx_session_val :: "string option"
  ctx_agent_val :: "string option"
  ctx_depth_val :: "int option"
  ctx_auto_approve :: bool

definition WithSessionInfo :: "go_ctx \<Rightarrow> string \<Rightarrow> string \<Rightarrow> go_ctx" where
  "WithSessionInfo ctx sessionID agentID = ctx\<lparr>ctx_session_val := Some sessionID, ctx_agent_val := Some agentID\<rparr>"

definition SessionIDFromContext :: "go_ctx \<Rightarrow> string" where
  "SessionIDFromContext ctx = (case ctx_session_val ctx of Some v \<Rightarrow> v | None \<Rightarrow> [])"

definition AgentIDFromContext :: "go_ctx \<Rightarrow> string" where
  "AgentIDFromContext ctx = (case ctx_agent_val ctx of Some v \<Rightarrow> if v \<noteq> [] then v else ''default'' | None \<Rightarrow> ''default'')"

definition WithSubagentDepth :: "go_ctx \<Rightarrow> int \<Rightarrow> go_ctx" where
  "WithSubagentDepth ctx depth = ctx\<lparr>ctx_depth_val := Some depth\<rparr>"

definition SubagentDepthFromContext :: "go_ctx \<Rightarrow> int" where
  "SubagentDepthFromContext ctx = (case ctx_depth_val ctx of Some v \<Rightarrow> v | None \<Rightarrow> 0)"

definition WithAutoApprove :: "go_ctx \<Rightarrow> go_ctx" where
  "WithAutoApprove ctx = ctx\<lparr>ctx_auto_approve := True\<rparr>"

definition autoApproveFromContext :: "go_ctx \<Rightarrow> bool" where
  "autoApproveFromContext ctx = ctx_auto_approve ctx"

subsection \<open>Events, environment and state\<close>

datatype turn_event =
    TurnToken string
  | TurnDone string "usage option"
  | TurnError go_error
  | TurnToolCall tool_call string
  | TurnToolResult string
  | TurnApprovalNeeded approval_request
  | TurnProgress string
  | TurnToolStart tool_call string

text \<open>What \<^verbatim>\<open>tool.Execute\<close> returns, and the images its producer hands over afterwards.\<close>

record tool_outcome =
  to_output :: string
  to_err :: "go_error option"
  to_images :: "image_content list"
  to_elapsed :: duration

record agent_env =
  env_chat :: "nat \<Rightarrow> chat_fn"
  env_wait :: "nat \<Rightarrow> duration \<Rightarrow> go_error option"
  env_tool :: "nat \<Rightarrow> nat \<Rightarrow> tool_call \<Rightarrow> policy \<Rightarrow> tool_outcome"
  env_approve :: "nat \<Rightarrow> nat \<Rightarrow> approval_request \<Rightarrow> go_error + bool"
  env_give_up :: "nat \<Rightarrow> nat \<Rightarrow> go_error option"
  env_schedule :: "nat \<Rightarrow> nat list"
  env_newid :: "nat \<Rightarrow> string"
  env_now :: "nat \<Rightarrow> timestamp"
  env_audit_fault :: "nat \<Rightarrow> go_error option"
  env_reqid :: "nat \<Rightarrow> nat \<Rightarrow> string"
  env_mem :: "nat \<Rightarrow> mem_table"
  env_mem_fault :: "nat \<Rightarrow> go_error option"
  env_show_dur :: "duration \<Rightarrow> string"

text \<open>
  \<open>w_out\<close> is what has been sent on the turn's event channel; \<open>w_requests\<close> and
  \<open>w_ran\<close> record the requests made to the model and the tool calls executed.
\<close>

record world =
  w_db :: db
  w_audit :: audit_table
  w_builder :: "context_builder option"
  w_mem_hashes :: "string \<rightharpoonup> (string \<rightharpoonup> string)"
  w_out :: "turn_event list"
  w_tick :: nat
  w_requests :: "chat_request list"
  w_ran :: "tool_call list"

definition emits :: "turn_event list \<Rightarrow> world \<Rightarrow> world" where
  "emits es w = w\<lparr>w_out := w_out w @ es\<rparr>"

definition next_tick :: "world \<Rightarrow> world" where
  "next_tick w = w\<lparr>w_tick := Suc (w_tick w)\<rparr>"

subsection \<open>The model call with retries\<close>

definition call_chat :: "agent_env \<Rightarrow> chat_request \<Rightarrow> world \<Rightarrow> (go_error + chat_event list) \<times> world" where
  "call_chat env rq w = (env_chat env (w_tick w) rq, next_tick (w\<lparr>w_requests := w_requests w @ [rq]\<rparr>))"

text \<open>\<^verbatim>\<open>select\<close> between the end of the context and a timer.\<close>

definition wait_for :: "agent_env \<Rightarrow> duration \<Rightarrow> world \<Rightarrow> go_error option \<times> world" where
  "wait_for env delay w = (env_wait env (w_tick w) delay, next_tick w)"

definition retry_delay :: "duration \<Rightarrow> nat \<Rightarrow> duration" where
  "retry_delay retryAfter attempt =
     (if retryAfter = 0 then
        (let delay = LLMBaseRetryDelay * push_bit attempt 1
         in if sint LLMMaxRetryDelay < sint delay then LLMMaxRetryDelay else delay)
      else retryAfter)"

definition retry_notice :: "agent_env \<Rightarrow> duration \<Rightarrow> nat \<Rightarrow> turn_event" where
  "retry_notice env delay attempt =
     TurnProgress (''Rate limited, retrying in '' @ env_show_dur env delay @ '' ('' @ nat_to_dec (attempt + 1) @ ''/''
       @ nat_to_dec LLMMaxRetries @ '')...'')"

function chat_attempt :: "agent_env \<Rightarrow> chat_request \<Rightarrow> bool \<Rightarrow> nat \<Rightarrow> world \<Rightarrow> (go_error + chat_event list) \<times> world" where
  "chat_attempt env rq notify attempt w =
     (case call_chat env rq w of
        (Inr events, w1) \<Rightarrow> (Inr events, w1)
      | (Inl err, w1) \<Rightarrow>
          (let (retryAfter, retryable) = IsRetryable err in
           if \<not> retryable then (Inl err, w1)
           else if attempt \<ge> LLMMaxRetries then (Inl err, w1)
           else
             (let delay = retry_delay retryAfter attempt;
                  w2 = (if notify then emits [retry_notice env delay attempt] w1 else w1)
              in case wait_for env delay w2 of
                   (Some e, w3) \<Rightarrow> (Inl e, w3)
                 | (None, w3) \<Rightarrow> chat_attempt env rq notify (Suc attempt) w3)))"
  by pat_completeness auto
termination
  by (relation "measure (\<lambda>(env, rq, notify, attempt, w). LLMMaxRetries - attempt)") auto

declare chat_attempt.simps [simp del]

definition chatWithRetry :: "agent_env \<Rightarrow> chat_request \<Rightarrow> bool \<Rightarrow> world \<Rightarrow> (go_error + chat_event list) \<times> world" where
  "chatWithRetry env rq notify w = chat_attempt env rq notify 0 w"

subsection \<open>One tool call\<close>

definition tool_error :: "tool_call \<Rightarrow> string \<Rightarrow> ToolErrorKind \<Rightarrow> tool_result" where
  "tool_error tc content kind =
     zero_tool_result\<lparr>tr_tool_call_id := tc_id tc, tr_content := content, tr_is_error := True, tr_error_kind := kind\<rparr>"

text \<open>The result and whether \<^verbatim>\<open>Execute\<close> was called.\<close>

definition runTool :: "(tool_call \<Rightarrow> policy \<Rightarrow> tool_outcome) \<Rightarrow> tool_call \<Rightarrow> registry option \<Rightarrow> policy \<Rightarrow> tool_result \<times> bool" where
  "runTool exec tc registry pol =
     (case registry of
        None \<Rightarrow> (tool_error tc ''no tools available'' ToolErrorPermanent, False)
      | Some reg \<Rightarrow>
          (case registry_Get reg (tc_name tc) of
             Inl _ \<Rightarrow> (tool_error tc (''unknown tool: '' @ tc_name tc) ToolErrorPermanent, False)
           | Inr tool \<Rightarrow>
               (let oc = exec tc pol in
                case to_err oc of
                  Some err \<Rightarrow>
                    (tool_error tc (''error: '' @ err_msg err)
                       (if ClassifyError err = Transient then ToolErrorTransient else ToolErrorPermanent), True)
                | None \<Rightarrow>
                    (zero_tool_result\<lparr>tr_tool_call_id := tc_id tc, tr_content := to_output oc,
                       tr_images := (if produces_images tool then to_images oc else [])\<rparr>, True))))"

text \<open>\<^verbatim>\<open>RequestApproval\<close>: the answer of the mode, or what the pending request returns.\<close>

definition RequestApproval :: "approver \<Rightarrow> (approval_request \<Rightarrow> go_error + bool) \<Rightarrow> approval_request \<Rightarrow> go_error + bool" where
  "RequestApproval a answer req =
     (case snd (request_start a (apr_id req)) of Some b \<Rightarrow> Inr b | None \<Rightarrow> answer req)"

record tool_policy =
  tp_approver :: "approver option"
  tp_registry :: "registry option"
  tp_policy :: policy

record tool_trace =
  tt_result :: tool_result
  tt_events :: "turn_event list"
  tt_audit :: "(string \<times> string \<times> string) list"
  tt_ran :: bool

definition effective_policy :: "tool_policy \<Rightarrow> go_ctx \<Rightarrow> policy" where
  "effective_policy tp ctx =
     (let pol = (if pol_Timeout (tp_policy tp) = 0 then DefaultPolicy else tp_policy tp) in
      if (case tp_approver tp of Some a \<Rightarrow> ap_mode a = ApprovalAuto | None \<Rightarrow> False) \<or> autoApproveFromContext ctx
      then pol\<lparr>RequireApproval := False\<rparr> else pol)"

definition run_approved :: "tool_policy \<Rightarrow> go_ctx \<Rightarrow> (tool_call \<Rightarrow> policy \<Rightarrow> tool_outcome) \<Rightarrow> tool_call \<Rightarrow>
    turn_event list \<Rightarrow> (string \<times> string \<times> string) list \<Rightarrow> tool_trace" where
  "run_approved tp ctx exec tc evs audits =
     (let (result, ran) = runTool exec tc (tp_registry tp) (effective_policy tp ctx) in
      \<lparr>tt_result = result, tt_events = evs,
       tt_audit = audits @ [(EventToolExec, tc_name tc, if tr_is_error result then tr_content result else ''ok'')],
       tt_ran = ran\<rparr>)"

definition executeTool :: "tool_policy \<Rightarrow> go_ctx \<Rightarrow> (approval_request \<Rightarrow> go_error + bool) \<Rightarrow>
    (tool_call \<Rightarrow> policy \<Rightarrow> tool_outcome) \<Rightarrow> string \<Rightarrow> string \<Rightarrow> tool_call \<Rightarrow> tool_trace" where
  "executeTool tp ctx answer exec reqID sessionID tc =
     (case tp_approver tp of
        Some a \<Rightarrow>
          if \<not> autoApproveFromContext ctx then
            (let req = \<lparr>apr_id = reqID, apr_session = sessionID, apr_tool = tc_name tc, apr_input = tc_input tc\<rparr>;
                 evs = (if ap_mode a = ApprovalAsk then [TurnApprovalNeeded req] else []);
                 deny = (\<lambda>reason. \<lparr>tt_result = tool_error tc reason ToolErrorPermanent, tt_events = evs,
                           tt_audit = [(EventToolDeny, tc_name tc, reason)], tt_ran = False\<rparr>)
             in case RequestApproval a answer req of
                  Inl err \<Rightarrow> deny (''approval error: '' @ err_msg err)
                | Inr False \<Rightarrow> deny ''tool call denied by user''
                | Inr True \<Rightarrow> run_approved tp ctx exec tc evs [(EventToolApprove, tc_name tc, [])])
          else run_approved tp ctx exec tc [] []
      | None \<Rightarrow> run_approved tp ctx exec tc [] [])"

subsection \<open>A batch of tool calls\<close>

text \<open>The error of a task, as the executor and the recovery strategy see it.\<close>

definition task_error :: "tool_result \<Rightarrow> go_error option" where
  "task_error r =
     (if tr_is_error r then
        Some (if tr_error_kind r = ToolErrorPermanent then PermanentError (tr_content r) else ErrText (tr_content r))
      else None)"

definition tool_task :: "tool_call \<Rightarrow> duration \<Rightarrow> tool_result \<Rightarrow> task" where
  "tool_task tc elapsed r = \<lparr>task_id = tc_id tc, task_outcome = (tr_content r, task_error r, elapsed)\<rparr>"

text \<open>\<^verbatim>\<open>RunBatch\<close> where some tasks give up waiting for a slot because the context ended.\<close>

definition batch_outcome :: "(nat \<Rightarrow> go_error option) \<Rightarrow> task list \<Rightarrow> exec_result list" where
  "batch_outcome give_up ts =
     map (\<lambda>i. case give_up i of Some e \<Rightarrow> cancel_result (ts ! i) e | None \<Rightarrow> task_result (ts ! i)) [0..<length ts]"

text \<open>An interleaving of lists: the schedule names whose next element comes.\<close>

fun interleave :: "nat list \<Rightarrow> 'a list list \<Rightarrow> 'a list" where
  "interleave [] xss = concat xss"
| "interleave (i # is) xss =
     (if i < length xss then
        (case xss ! i of [] \<Rightarrow> interleave is xss | x # xs \<Rightarrow> x # interleave is (xss[i := xs]))
      else interleave is xss)"

definition done_message :: "tool_call \<Rightarrow> exec_result \<Rightarrow> string" where
  "done_message tc res =
     (case res_err res of
        None \<Rightarrow> tc_name tc @ '' completed''
      | Some e \<Rightarrow> tc_name tc @ '' failed: '' @ agent_truncate (err_msg e) ToolResultTruncateLen)"

definition task_events :: "bool \<Rightarrow> tool_call \<Rightarrow> exec_result \<Rightarrow> tool_trace \<Rightarrow> turn_event list" where
  "task_events with_callbacks tc res tr =
     (if with_callbacks
      then [TurnToolStart tc (''Running '' @ tc_name tc @ ''...'')] @ tt_events tr @ [TurnToolResult (done_message tc res)]
      else tt_events tr)"

text \<open>Each row is written in turn; a failed write is ignored, and without a log nothing is written.\<close>

fun audit_rows :: "agent_env \<Rightarrow> bool \<Rightarrow> string \<Rightarrow> string \<Rightarrow> (string \<times> string \<times> string) list \<Rightarrow> world \<Rightarrow> world" where
  "audit_rows env has_audit agentID sessionID [] w = w"
| "audit_rows env has_audit agentID sessionID ((et, actor, detail) # rows) w =
     audit_rows env has_audit agentID sessionID rows
       (if has_audit then
          next_tick (w\<lparr>w_audit := snd (audit_Log (env_audit_fault env (w_tick w)) (env_newid env (w_tick w))
             (env_now env (w_tick w)) et sessionID agentID actor (DetailString detail) (w_audit w))\<rparr>)
        else w)"

record batch_run =
  br_results :: "exec_result list"
  br_traces :: "tool_trace option list"

text \<open>
  The traces of a batch at step \<open>n\<close>: none for a call that gave up. The result slots that a
  call wrote are updated, the others keep their value.
\<close>

definition batch_traces :: "agent_env \<Rightarrow> nat \<Rightarrow> (nat \<Rightarrow> tool_call \<Rightarrow> tool_trace) \<Rightarrow> tool_call list \<Rightarrow> tool_trace option list" where
  "batch_traces env n run calls =
     map (\<lambda>i. case env_give_up env n i of Some e \<Rightarrow> None | None \<Rightarrow> Some (run i (calls ! i))) [0..<length calls]"

definition batch_tasks :: "agent_env \<Rightarrow> nat \<Rightarrow> (nat \<Rightarrow> tool_call \<Rightarrow> tool_trace) \<Rightarrow> tool_call list \<Rightarrow> policy \<Rightarrow> task list" where
  "batch_tasks env n run calls pol =
     map (\<lambda>i. tool_task (calls ! i) (to_elapsed (env_tool env n i (calls ! i) pol)) (tt_result (run i (calls ! i)))) [0..<length calls]"

definition per_call :: "(nat \<Rightarrow> tool_trace \<Rightarrow> 'a list) \<Rightarrow> tool_trace option list \<Rightarrow> 'a list list" where
  "per_call f traces = map (\<lambda>i. case traces ! i of Some tr \<Rightarrow> f i tr | None \<Rightarrow> []) [0..<length traces]"

definition run_calls :: "agent_env \<Rightarrow> tool_policy \<Rightarrow> go_ctx \<Rightarrow> bool \<Rightarrow> bool \<Rightarrow> string \<Rightarrow>
    (nat \<Rightarrow> tool_call \<Rightarrow> tool_trace) \<Rightarrow> tool_call list \<Rightarrow> world \<Rightarrow> batch_run \<times> world" where
  "run_calls env tp ctx callbacks has_audit sessionID run calls w =
     (let n = w_tick w;
          traces = batch_traces env n run calls;
          results = batch_outcome (env_give_up env n) (batch_tasks env n run calls (effective_policy tp ctx));
          evs = interleave (env_schedule env n) (per_call (\<lambda>i tr. task_events callbacks (calls ! i) (results ! i) tr) traces);
          rows = interleave (env_schedule env n) (per_call (\<lambda>i tr. tt_audit tr) traces);
          ran = concat (per_call (\<lambda>i tr. if tt_ran tr then [calls ! i] else []) traces);
          w1 = emits evs (next_tick (w\<lparr>w_ran := w_ran w @ ran\<rparr>))
      in (\<lparr>br_results = results, br_traces = traces\<rparr>, audit_rows env has_audit (AgentIDFromContext ctx) sessionID rows w1))"

definition write_results :: "tool_result list \<Rightarrow> tool_trace option list \<Rightarrow> tool_result list" where
  "write_results slots traces = map2 (\<lambda>old tr. case tr of Some t \<Rightarrow> tt_result t | None \<Rightarrow> old) slots traces"

subsection \<open>Persistence\<close>

definition persistMessage :: "agent_env \<Rightarrow> string \<Rightarrow> string \<Rightarrow> string \<Rightarrow> string \<Rightarrow> usage option \<Rightarrow> world \<Rightarrow> (go_error + unit) \<times> world" where
  "persistMessage env sessionID role contentType content us w =
     (let msg = \<lparr>msg_id = env_newid env (w_tick w), msg_session = sessionID, msg_role = role, msg_type = contentType,
                 msg_content = content, msg_tokens = (case us of Some u \<Rightarrow> OutputTokens u | None \<Rightarrow> 0),
                 msg_created = env_now env (w_tick w)\<rparr>;
          (r, d) = AppendMessage msg (w_db w)
      in (r, next_tick (w\<lparr>w_db := d\<rparr>)))"

definition persistAssistantMessage :: "agent_env \<Rightarrow> string \<Rightarrow> string \<Rightarrow> usage option \<Rightarrow> world \<Rightarrow> (go_error + unit) \<times> world" where
  "persistAssistantMessage env sessionID content us w =
     (case persistMessage env sessionID RoleAssistant ContentTypeText content us w of
        (Inl e, w1) \<Rightarrow> (Inl e, w1)
      | (Inr _, w1) \<Rightarrow> (let (r, d) = TouchSession (env_now env (w_tick w1)) sessionID (w_db w1)
                        in (r, next_tick (w1\<lparr>w_db := d\<rparr>))))"

end
