(* ===== verification/Agent_Loop.thy ===== *)
theory Agent_Loop
  imports Agent_Tools Retry_Rotator Verification_Gates Checkpoint_Manager
begin

section \<open>The agentic loop (\<^verbatim>\<open>RunTurn\<close>, \<^verbatim>\<open>runAgenticLoop\<close> of \<^verbatim>\<open>pkg/agent/agent.go\<close>)\<close>

text \<open>
  A turn: the session is resolved, the user's message stored, and then up to
  \<^verbatim>\<open>maxToolIter\<close> iterations of model call, tool batch with recovery, and persistence. The
  loop is a recursion on the iterations that are left; each iteration either ends the turn
  or goes on with the next loop state. The session lock serialises the turns of a session,
  so a turn is one sequence of steps.
\<close>

record runtime =
  rt_model :: string
  rt_maxOutputTokens :: int
  rt_maxToolIter :: int
  rt_systemPrompt :: string
  rt_tools :: tool_policy
  rt_supports_tools :: bool
  rt_has_memory :: bool
  rt_has_audit :: bool
  rt_recovery :: default_recovery
  rt_strategies :: "strategy list"
  rt_cooldown :: duration
  rt_checkpoint :: "int option"
  rt_verifier :: "gate_runner option"
  rt_codec :: msg_codec
  rt_enc_calls :: "string \<Rightarrow> tool_call list \<Rightarrow> go_error + string"
  rt_enc_results :: "tool_result list \<Rightarrow> go_error + string"
  rt_readFile :: file_system
  rt_hash :: "string \<Rightarrow> string"
  rt_marshal_names :: "string list \<Rightarrow> string"

subsection \<open>Configuration\<close>

record runtime_config =
  cfg_Model :: string
  cfg_MaxTokens :: int
  cfg_MaxOutputTokens :: int
  cfg_MaxToolIterations :: int
  cfg_SystemPrompt :: string
  cfg_Recovery :: "default_recovery option"

text \<open>
  \<^verbatim>\<open>NewRuntime\<close>: the numeric defaults; the remaining fields are copied from the
  configuration, here from \<open>base\<close>. The text of the default system prompt is an argument.
\<close>

definition NewRuntime :: "string \<Rightarrow> runtime \<Rightarrow> runtime_config \<Rightarrow> runtime \<times> context_builder" where
  "NewRuntime defaultSystemPrompt base cfg =
     (let maxTokens = (if cfg_MaxTokens cfg \<le> 0 then DefaultMaxContextTokens else cfg_MaxTokens cfg);
          maxOut = (if cfg_MaxOutputTokens cfg \<le> 0 then DefaultMaxOutputTokens else cfg_MaxOutputTokens cfg)
      in (base\<lparr>rt_model := cfg_Model cfg, rt_maxOutputTokens := maxOut,
            rt_maxToolIter := (if cfg_MaxToolIterations cfg \<le> 0 then DefaultMaxToolIterations else cfg_MaxToolIterations cfg),
            rt_systemPrompt := (if cfg_SystemPrompt cfg = [] then defaultSystemPrompt else cfg_SystemPrompt cfg),
            rt_recovery := (case cfg_Recovery cfg of Some r \<Rightarrow> r
               | None \<Rightarrow> \<lparr>MaxRetries = DefaultRecoveryRetries, BaseDelay = RecoveryBaseDelay, MaxDelay = RecoveryMaxDelay\<rparr>)\<rparr>,
          NewContextBuilder maxTokens maxOut))"

subsection \<open>Context building\<close>

definition buildContext :: "runtime \<Rightarrow> message list \<Rightarrow> chat_message list" where
  "buildContext rt history = sanitizeToolPairs (map (messageToLLM (rt_codec rt)) history)"

definition rebuildMessages :: "runtime \<Rightarrow> message list \<Rightarrow> world \<Rightarrow> chat_message list \<times> world" where
  "rebuildMessages rt history w =
     (case w_builder w of
        Some cb \<Rightarrow> (let (ms, cb') = RebuildMessages (rt_codec rt) (rt_readFile rt) history cb in (ms, w\<lparr>w_builder := Some cb'\<rparr>))
      | None \<Rightarrow> (buildContext rt history, w))"

text \<open>The memory section: the entries changed since the session's last turn.\<close>

definition memory_files :: "runtime \<Rightarrow> agent_env \<Rightarrow> string \<Rightarrow> string \<Rightarrow> world \<Rightarrow> workspace_file list \<times> world" where
  "memory_files rt env agentID sessionID w =
     (if rt_has_memory rt then
        (let lastHashes = (case w_mem_hashes w sessionID of Some h \<Rightarrow> h | None \<Rightarrow> Map.empty) in
         case memory_BuildContext (env_mem_fault env (w_tick w)) (env_mem env (w_tick w)) agentID lastHashes of
           Inl _ \<Rightarrow> ([], next_tick w)
         | Inr (memCtx, newHashes) \<Rightarrow>
             ((if memCtx \<noteq> [] then [\<lparr>wf_key = ''memory'', wf_content = memCtx\<rparr>] else []),
              next_tick (w\<lparr>w_mem_hashes := (w_mem_hashes w)(sessionID \<mapsto> newHashes)\<rparr>)))
      else ([], w))"

definition buildSmartContext :: "runtime \<Rightarrow> agent_env \<Rightarrow> string \<Rightarrow> string \<Rightarrow> message list \<Rightarrow> world \<Rightarrow> (string \<times> chat_message list) \<times> world" where
  "buildSmartContext rt env agentID sessionID history w =
     (case w_builder w of
        None \<Rightarrow> ((rt_systemPrompt rt, buildContext rt history), w)
      | Some cb \<Rightarrow>
          (let (wsFiles, w1) = memory_files rt env agentID sessionID w;
               (r, cb') = Build (rt_codec rt) (rt_readFile rt) (rt_hash rt) wsFiles history (rt_systemPrompt rt) cb
           in (r, w1\<lparr>w_builder := Some cb'\<rparr>)))"

subsection \<open>Reading the model's answer\<close>

record reply =
  rp_text :: string
  rp_calls :: "tool_call list"
  rp_usage :: "usage option"
  rp_err :: "go_error option"

fun reply_step :: "chat_event \<Rightarrow> reply \<Rightarrow> reply" where
  "reply_step (EventToken t) r = r\<lparr>rp_text := rp_text r @ t\<rparr>"
| "reply_step (EventToolCall tc) r = r\<lparr>rp_calls := rp_calls r @ [tc]\<rparr>"
| "reply_step (EventDone u) r = r\<lparr>rp_usage := u\<rparr>"
| "reply_step (EventError e) r = r\<lparr>rp_err := Some e\<rparr>"

fun reply_event :: "chat_event \<Rightarrow> turn_event list" where
  "reply_event (EventToken t) = [TurnToken t]"
| "reply_event (EventToolCall tc) = [TurnToolCall tc (''Calling '' @ tc_name tc @ ''...'')]"
| "reply_event (EventDone u) = []"
| "reply_event (EventError e) = []"

definition empty_reply :: reply where
  "empty_reply = \<lparr>rp_text = [], rp_calls = [], rp_usage = None, rp_err = None\<rparr>"

definition read_reply :: "chat_event list \<Rightarrow> reply" where
  "read_reply events = fold reply_step events empty_reply"

subsection \<open>Recovery of failed tool calls\<close>

text \<open>The closure of a task: approval and execution of one call of the batch at step \<open>n\<close>.\<close>

definition call_run :: "runtime \<Rightarrow> agent_env \<Rightarrow> go_ctx \<Rightarrow> string \<Rightarrow> nat \<Rightarrow> nat \<Rightarrow> tool_call \<Rightarrow> tool_trace" where
  "call_run rt env ctx sessionID n i tc =
     executeTool (rt_tools rt) ctx (env_approve env n i) (env_tool env n i) (env_reqid env n i) sessionID tc"

definition run_tool_calls :: "runtime \<Rightarrow> agent_env \<Rightarrow> go_ctx \<Rightarrow> string \<Rightarrow> tool_call list \<Rightarrow> world \<Rightarrow> batch_run \<times> world" where
  "run_tool_calls rt env ctx sessionID calls w =
     run_calls env (rt_tools rt) ctx True (rt_has_audit rt) sessionID (call_run rt env ctx sessionID (w_tick w)) calls w"

record recovery_state =
  rc_slot :: tool_result
  rc_failed :: "failed_tool_info option"

text \<open>
  The recovery loop for one call: retry with back-off while the strategy says so; a retry
  that runs overwrites the call's result slot.
\<close>

definition retry_event :: "tool_call \<Rightarrow> turn_event" where
  "retry_event tc = TurnToolStart tc (''Retrying '' @ tc_name tc @ ''...'')"

function recover_call :: "runtime \<Rightarrow> agent_env \<Rightarrow> go_ctx \<Rightarrow> string \<Rightarrow> tool_call \<Rightarrow> exec_result \<Rightarrow> nat \<Rightarrow> tool_result \<Rightarrow> world \<Rightarrow>
    recovery_state \<times> world" where
  "recover_call rt env ctx sessionID tc res attempts slot w =
     (case Decide (rt_recovery rt) res (int attempts) of
        ActionRetry \<Rightarrow>
          (let w1 = emits [retry_event tc] w;
               (ended, w2) = wait_for env (Backoff (rt_recovery rt) attempts) w1;
               (res', slot', w3) =
                 (case ended of
                    Some e \<Rightarrow> (cancel_result \<lparr>task_id = res_id res, task_outcome = ([], None, 0)\<rparr> e, slot, w2)
                  | None \<Rightarrow> (let (b, w') = run_tool_calls rt env ctx sessionID [tc] w2
                             in (br_results b ! 0, write_results [slot] (br_traces b) ! 0, w')))
           in if res_err res' = None then (\<lparr>rc_slot = slot', rc_failed = None\<rparr>, w3)
              else recover_call rt env ctx sessionID tc res' (Suc attempts) slot' w3)
      | ActionReplan \<Rightarrow>
          (\<lparr>rc_slot = slot,
            rc_failed = Some \<lparr>ft_name = tc_name tc,
              ft_error = agent_truncate (case res_err res of Some e \<Rightarrow> err_msg e | None \<Rightarrow> []) ErrorTruncateLen,
              ft_retries = int attempts\<rparr>\<rparr>, w)
      | ActionSkip \<Rightarrow> (\<lparr>rc_slot = slot, rc_failed = None\<rparr>, w))"
  by pat_completeness auto

termination
proof (relation "measure (\<lambda>(rt, env, ctx, sid, tc, res, attempts, slot, w). nat (MaxRetries (rt_recovery rt) - int attempts))", goal_cases)
  case (2 rt env ctx sessionID tc res attempts slot w)
  then show ?case by (auto dest!: Decide_retry_bound)
qed simp

declare recover_call.simps [simp del]

fun recover_all :: "runtime \<Rightarrow> agent_env \<Rightarrow> go_ctx \<Rightarrow> string \<Rightarrow> (tool_call \<times> exec_result \<times> tool_result) list \<Rightarrow> world \<Rightarrow>
    (tool_result list \<times> failed_tool_info list) \<times> world" where
  "recover_all rt env ctx sessionID [] w = (([], []), w)"
| "recover_all rt env ctx sessionID ((tc, res, slot) # rest) w =
     (let (st, w1) = (if res_err res = None then (\<lparr>rc_slot = slot, rc_failed = None\<rparr>, w)
                      else recover_call rt env ctx sessionID tc res 0 slot w);
          ((slots, failed), w2) = recover_all rt env ctx sessionID rest w1
      in ((rc_slot st # slots, (case rc_failed st of Some f \<Rightarrow> [f] | None \<Rightarrow> []) @ failed), w2))"


subsection \<open>One iteration\<close>

record loop_state =
  ls_history :: "message list"
  ls_messages :: "chat_message list"
  ls_llmErrors :: nat
  ls_verifications :: nat
  ls_checkpointTokens :: int
  ls_ephemeral :: string
  ls_toolsUsed :: "string list"
  ls_rotator :: "rotator option"

text \<open>What is fixed during a turn.\<close>

record turn_ctx =
  tn_ctx :: go_ctx
  tn_session :: string
  tn_systemPrompt :: string
  tn_toolDefs :: "tool_definition list"
  tn_originalPrompt :: string

datatype iter_result = Stop | Again loop_state

definition fail_turn :: "go_error \<Rightarrow> world \<Rightarrow> iter_result \<times> world" where
  "fail_turn e w = (Stop, emits [TurnError e] w)"

definition llm_failure_hint :: "go_error \<Rightarrow> string" where
  "llm_failure_hint err = ''Previous LLM call failed: '' @ agent_truncate (err_msg err) ErrorTruncateLen @
     ''. To recover: (1) reduce parallel tool calls, (2) produce a shorter response, (3) break the task into a smaller step. Do not repeat the exact same approach.''"

definition stream_failure_hint :: "go_error \<Rightarrow> string" where
  "stream_failure_hint err = ''Previous response stream was interrupted: '' @ agent_truncate (err_msg err) ErrorTruncateLen @
     ''. Your output was lost. Retry with a shorter response or fewer tool calls. If this recurs, complete the task in smaller increments.''"

text \<open>A failed call or stream: give up after too many in a row, else go on with a hint.\<close>

definition llm_failed :: "go_error \<Rightarrow> string \<Rightarrow> (nat \<Rightarrow> string) \<Rightarrow> loop_state \<Rightarrow> world \<Rightarrow> iter_result \<times> world" where
  "llm_failed final hint progress st w =
     (let n = Suc (ls_llmErrors st) in
      if n > LLMMaxErrors then fail_turn final w
      else (Again (st\<lparr>ls_llmErrors := n, ls_ephemeral := hint\<rparr>), emits [TurnProgress (progress n)] w))"

definition verify_reply :: "runtime \<Rightarrow> turn_ctx \<Rightarrow> loop_state \<Rightarrow> string \<Rightarrow> gate_result option" where
  "verify_reply rt tn st content =
     map_option (\<lambda>v. Runner_Run v \<lparr>tr_session = tn_session tn, FinalMessage = content, ToolsUsed = ls_toolsUsed st, FilesWritten = []\<rparr>)
       (rt_verifier rt)"

text \<open>A reply without tool calls: store it, verify it, and end the turn or try again.\<close>

definition finish_reply :: "runtime \<Rightarrow> agent_env \<Rightarrow> turn_ctx \<Rightarrow> loop_state \<Rightarrow> reply \<Rightarrow> world \<Rightarrow> iter_result \<times> world" where
  "finish_reply rt env tn st rp w =
     (case persistAssistantMessage env (tn_session tn) (rp_text rp) (rp_usage rp) w of
        (Inl e, w1) \<Rightarrow> fail_turn (ErrWrap ''persisting assistant message: '' e) w1
      | (Inr _, w1) \<Rightarrow>
          (let finished = (Stop, emits [TurnDone (rp_text rp) (rp_usage rp)] w1) in
           case verify_reply rt tn st (rp_text rp) of
             None \<Rightarrow> finished
           | Some v \<Rightarrow>
               (if Status v = Failed then
                  (let n = Suc (ls_verifications st) in
                   if n \<le> DefaultVerificationMaxAttempts
                   then (Again (st\<lparr>ls_verifications := n,
                           ls_ephemeral := ''Your previous response failed verification: '' @ Reason v @ ''. Please try a different approach.''\<rparr>),
                         emits [TurnProgress ''Verification failed, retrying...''] w1)
                   else finished)
                else finished)))"

text \<open>
  After the recovery of a batch: the hint for the next call, from the rotator or the summary
  of failures. A context that ends during the cool-down ends the turn.
\<close>

definition failure_errors :: "failed_tool_info list \<Rightarrow> go_error list" where
  "failure_errors failed = map (\<lambda>f. ErrText (ft_name f @ '': '' @ ft_error f)) failed"

definition replan :: "runtime \<Rightarrow> agent_env \<Rightarrow> turn_ctx \<Rightarrow> nat \<Rightarrow> failed_tool_info list \<Rightarrow> loop_state \<Rightarrow> world \<Rightarrow> loop_state option \<times> world" where
  "replan rt env tn iteration failed st w =
     (if failed = [] then (Some st, w)
      else (case ls_rotator st of
        None \<Rightarrow> (Some (st\<lparr>ls_ephemeral := ErrorSummary_String failed\<rparr>), w)
      | Some rot \<Rightarrow>
          (case rotator_Next rot \<lparr>OriginalPrompt = tn_originalPrompt tn, ctx_session_id = tn_session tn, Iteration = int iteration\<rparr>
                  (failure_errors failed) of
             (None, rot') \<Rightarrow> (Some (st\<lparr>ls_rotator := Some rot', ls_ephemeral := ErrorSummary_String failed\<rparr>), w)
           | (Some (s, rf), rot') \<Rightarrow>
               (let st' = st\<lparr>ls_rotator := Some rot', ls_ephemeral := EphemeralHint rf\<rparr> in
                if sint (rt_cooldown rt) > 0 then
                  (case wait_for env (rt_cooldown rt) w of
                     (Some _, w1) \<Rightarrow> (None, w1)
                   | (None, w1) \<Rightarrow> (Some st', w1))
                else (Some st', w)))))"

definition checkpoint_state :: "nat \<Rightarrow> int \<Rightarrow> usage \<Rightarrow> iteration_state" where
  "checkpoint_state iteration lastTokens u =
     \<lparr>TokensConsumed = InputTokens u + OutputTokens u, LastCheckpointTokens = lastTokens,
      HasSideEffects = False, ExplicitCheckpoint = False, cp_Iteration = int iteration\<rparr>"

definition save_checkpoint :: "runtime \<Rightarrow> agent_env \<Rightarrow> turn_ctx \<Rightarrow> nat \<Rightarrow> string list \<Rightarrow> reply \<Rightarrow> loop_state \<Rightarrow> world \<Rightarrow> loop_state \<times> world" where
  "save_checkpoint rt env tn iteration toolNames rp st w =
     (case (rt_checkpoint rt, rp_usage rp) of
        (Some threshold, Some u) \<Rightarrow>
          (if ShouldCheckpoint threshold (checkpoint_state iteration (ls_checkpointTokens st) u) then
             (let totalTokens = InputTokens u + OutputTokens u;
                  snap = BuildSnapshot (rt_marshal_names rt) (env_newid env (w_tick w)) (int iteration + 1) toolNames (rp_text rp);
                  row = \<lparr>cpr_id = sn_id snap, cpr_session = tn_session tn, cpr_step = StepIndex snap,
                         cpr_snapshot = ''{'' @ [CHR 0x22] @ ''iteration'' @ [CHR 0x22] @ '':'' @ nat_to_dec iteration @ '','' @ [CHR 0x22]
                           @ ''tokens'' @ [CHR 0x22] @ '':'' @ int_to_dec totalTokens @ ''}'',
                         cpr_outputs = ToolOutputs snap, cpr_summary = ContextSummary snap, cpr_created = 0\<rparr>;
                  (r, d) = SaveCheckpoint (env_now env (w_tick w)) row (w_db w);
                  w1 = next_tick (w\<lparr>w_db := d\<rparr>)
              in case r of Inl _ \<Rightarrow> (st, w1) | Inr _ \<Rightarrow> (st\<lparr>ls_checkpointTokens := totalTokens\<rparr>, w1))
           else (st, w))
      | _ \<Rightarrow> (st, w))"

text \<open>The two messages an iteration adds to its history carry only role, type and content.\<close>

definition history_message :: "string \<Rightarrow> string \<Rightarrow> string \<Rightarrow> message" where
  "history_message role ty content =
     \<lparr>msg_id = [], msg_session = [], msg_role = role, msg_type = ty, msg_content = content, msg_tokens = 0, msg_created = 0\<rparr>"

definition store_results :: "runtime \<Rightarrow> agent_env \<Rightarrow> turn_ctx \<Rightarrow> nat \<Rightarrow> string \<Rightarrow> reply \<Rightarrow> tool_result list \<Rightarrow> loop_state \<Rightarrow> world \<Rightarrow> iter_result \<times> world" where
  "store_results rt env tn iteration callContent rp results st w =
     (case rt_enc_results rt results of
        Inl e \<Rightarrow> fail_turn (ErrWrap ''marshaling tool results: '' (ErrWrap ''marshaling tool results: '' e)) w
      | Inr resultContent \<Rightarrow>
          (case persistMessage env (tn_session tn) RoleUser ContentTypeToolResults resultContent None w of
             (Inl e, w1) \<Rightarrow> fail_turn (ErrWrap ''persisting tool results: '' e) w1
           | (Inr _, w1) \<Rightarrow>
               (let toolNames = map tc_name (rp_calls rp);
                    (st1, w2) = save_checkpoint rt env tn iteration toolNames rp st w1;
                    st2 = st1\<lparr>ls_history := ls_history st1 @
                      [history_message RoleAssistant ContentTypeToolCalls callContent,
                       history_message RoleUser ContentTypeToolResults resultContent]\<rparr>
                in (Again st2, emits [TurnProgress (''Step '' @ nat_to_dec (iteration + 1) @ '': executed '' @ Join toolNames '', '')] w2))))"

text \<open>A reply with tool calls.\<close>

definition tool_iteration :: "runtime \<Rightarrow> agent_env \<Rightarrow> turn_ctx \<Rightarrow> nat \<Rightarrow> loop_state \<Rightarrow> reply \<Rightarrow> world \<Rightarrow> iter_result \<times> world" where
  "tool_iteration rt env tn iteration st rp w =
     (case rt_enc_calls rt (rp_text rp) (rp_calls rp) of
        Inl e \<Rightarrow> fail_turn (ErrWrap ''marshaling tool calls: '' (ErrWrap ''marshaling tool calls: '' e)) w
      | Inr callContent \<Rightarrow>
          (case persistMessage env (tn_session tn) RoleAssistant ContentTypeToolCalls callContent (rp_usage rp) w of
             (Inl e, w1) \<Rightarrow> fail_turn (ErrWrap ''persisting tool calls: '' e) w1
           | (Inr _, w1) \<Rightarrow>
               (let calls = rp_calls rp;
                    (b, w2) = run_tool_calls rt env (tn_ctx tn) (tn_session tn) calls w1;
                    slots = write_results (replicate (length calls) zero_tool_result) (br_traces b);
                    st1 = st\<lparr>ls_toolsUsed := ls_toolsUsed st @ map tc_name calls\<rparr>;
                    ((results, failed), w3) = recover_all rt env (tn_ctx tn) (tn_session tn) (zip calls (zip (br_results b) slots)) w2
                in case replan rt env tn iteration failed st1 w3 of
                     (None, w4) \<Rightarrow> (Stop, w4)
                   | (Some st2, w4) \<Rightarrow> store_results rt env tn iteration callContent rp results st2 w4)))"

definition turn_request :: "runtime \<Rightarrow> turn_ctx \<Rightarrow> loop_state \<Rightarrow> chat_request" where
  "turn_request rt tn st =
     \<lparr>rq_model = rt_model rt, rq_messages = ls_messages st,
      rq_system = (if ls_ephemeral st \<noteq> [] then tn_systemPrompt tn @ nl @ nl @ ''# Error Recovery Context'' @ nl @ ls_ephemeral st
                   else tn_systemPrompt tn),
      rq_max_tokens = rt_maxOutputTokens rt, rq_stream = True, rq_tools = tn_toolDefs tn\<rparr>"

definition iterate :: "runtime \<Rightarrow> agent_env \<Rightarrow> turn_ctx \<Rightarrow> nat \<Rightarrow> loop_state \<Rightarrow> world \<Rightarrow> iter_result \<times> world" where
  "iterate rt env tn iteration st0 w0 =
     (let (ms, w1) = (if iteration > 0 then rebuildMessages rt (ls_history st0) w0 else (ls_messages st0, w0));
          st1 = st0\<lparr>ls_messages := ms\<rparr>;
          rq = turn_request rt tn st1;
          st = st1\<lparr>ls_ephemeral := []\<rparr>
      in if ms = [] then fail_turn (ErrText ''no messages after context building'') w1
         else (case chatWithRetry env rq True w1 of
           (Inl err, w2) \<Rightarrow>
             llm_failed (ErrWrap ''calling LLM: '' err) (llm_failure_hint err)
               (\<lambda>n. ''LLM error, retrying ('' @ nat_to_dec n @ ''/'' @ nat_to_dec LLMMaxErrors @ '')...'') st w2
         | (Inr events, w2) \<Rightarrow>
             (let rp = read_reply events; w3 = emits (concat (map reply_event events)) w2 in
              case rp_err rp of
                Some e \<Rightarrow> llm_failed e (stream_failure_hint e) (\<lambda>n. ''Stream interrupted, retrying...'') st w3
              | None \<Rightarrow>
                  (let st' = st\<lparr>ls_llmErrors := 0\<rparr> in
                   if rp_calls rp = [] then finish_reply rt env tn st' rp w3
                   else tool_iteration rt env tn iteration st' rp w3))))"

fun iterations :: "runtime \<Rightarrow> agent_env \<Rightarrow> turn_ctx \<Rightarrow> nat \<Rightarrow> nat \<Rightarrow> loop_state \<Rightarrow> world \<Rightarrow> world" where
  "iterations rt env tn iteration 0 st w = emits [TurnDone ''(max tool iterations reached)'' None] w"
| "iterations rt env tn iteration (Suc left) st w =
     (case iterate rt env tn iteration st w of
        (Stop, w1) \<Rightarrow> w1
      | (Again st1, w1) \<Rightarrow> iterations rt env tn (Suc iteration) left st1 w1)"

subsection \<open>A turn\<close>

definition original_prompt :: "message list \<Rightarrow> string" where
  "original_prompt history =
     (case find (\<lambda>m. msg_role m = RoleUser \<and> msg_type m \<noteq> ContentTypeToolResults) (rev history) of
        Some m \<Rightarrow> msg_content m | None \<Rightarrow> [])"

definition compact_step :: "runtime \<Rightarrow> agent_env \<Rightarrow> string \<Rightarrow> world \<Rightarrow> world" where
  "compact_step rt env sessionID w =
     (let (r, d) = CompactSession (rt_codec rt) (env_chat env (w_tick w)) (rt_model rt) (env_newid env (w_tick w)) sessionID (w_db w)
      in next_tick (w\<lparr>w_db := d\<rparr>))"

definition runAgenticLoop :: "runtime \<Rightarrow> agent_env \<Rightarrow> go_ctx \<Rightarrow> string \<Rightarrow> world \<Rightarrow> world" where
  "runAgenticLoop rt env ctx0 sessionID w0 =
     (case GetSession sessionID (w_db w0) of
        (Inl e, d) \<Rightarrow> emits [TurnError (ErrWrap ''loading session: '' e)] (w0\<lparr>w_db := d\<rparr>)
      | (Inr sess, d) \<Rightarrow>
          (let ctx = WithSessionInfo ctx0 sessionID (sess_agent sess);
               w1 = compact_step rt env sessionID (w0\<lparr>w_db := d\<rparr>);
               toolDefs = (case tp_registry (rt_tools rt) of
                   Some reg \<Rightarrow> if rt_supports_tools rt then Definitions reg else [] | None \<Rightarrow> [])
           in case RecentMessages sessionID RecentMessagesLimit (w_db w1) of
                (Inl e, d2) \<Rightarrow> emits [TurnError (ErrWrap ''loading history: '' e)] (w1\<lparr>w_db := d2\<rparr>)
              | (Inr history, d2) \<Rightarrow>
                  (let ((sys, ms), w2) = buildSmartContext rt env (sess_agent sess) sessionID history (w1\<lparr>w_db := d2\<rparr>);
                       tn = \<lparr>tn_ctx = ctx, tn_session = sessionID, tn_systemPrompt = sys, tn_toolDefs = toolDefs,
                             tn_originalPrompt = original_prompt history\<rparr>;
                       st = \<lparr>ls_history = history, ls_messages = ms, ls_llmErrors = 0, ls_verifications = 0,
                             ls_checkpointTokens = 0, ls_ephemeral = [], ls_toolsUsed = [],
                             ls_rotator = (if rt_strategies rt \<noteq> [] then Some (NewRotator (rt_strategies rt) DefaultRetryMaxAttempts) else None)\<rparr>
                   in iterations rt env tn 0 (nat (rt_maxToolIter rt)) st w2)))"

definition getOrCreateSession :: "runtime \<Rightarrow> agent_env \<Rightarrow> go_ctx \<Rightarrow> string \<Rightarrow> world \<Rightarrow> (go_error + session) \<times> world" where
  "getOrCreateSession rt env ctx sessionID w =
     (case GetOrCreateSession (env_now env (w_tick w)) sessionID ''webchat'' ''anonymous'' (w_db w) of
        (Inl e, d) \<Rightarrow> (Inl e, next_tick (w\<lparr>w_db := d\<rparr>))
      | (Inr (sess, created), d) \<Rightarrow>
          (let w1 = next_tick (w\<lparr>w_db := d\<rparr>) in
           (Inr sess, if created
              then audit_rows env (rt_has_audit rt) (AgentIDFromContext ctx) sessionID
                     [(EventSessionNew, ''system'', ''channel='' @ sess_channel sess @ '' peer='' @ sess_peer sess)] w1
              else w1)))"

text \<open>The result is an error, or the world after the turn's goroutine has finished.\<close>

definition RunTurn :: "runtime \<Rightarrow> agent_env \<Rightarrow> go_ctx \<Rightarrow> string \<Rightarrow> string \<Rightarrow> world \<Rightarrow> (go_error + unit) \<times> world" where
  "RunTurn rt env ctx sessionID userMessage w =
     (case getOrCreateSession rt env ctx sessionID w of
        (Inl e, w1) \<Rightarrow> (Inl (ErrWrap ''resolving session: '' e), w1)
      | (Inr sess, w1) \<Rightarrow>
          (case persistMessage env (sess_id sess) RoleUser [] userMessage None w1 of
             (Inl e, w2) \<Rightarrow> (Inl (ErrWrap ''persisting user message: '' e), w2)
           | (Inr _, w2) \<Rightarrow> (Inr (), runAgenticLoop rt env ctx (sess_id sess) w2)))"

end
