(* ===== verification/Agent_Steps.thy ===== *)
theory Agent_Steps
  imports Agent_Loop
begin

section \<open>The contract of the runtime's steps\<close>

text \<open>
  Every operation a turn is composed of, up to the one that ends it, keeps the same contract,
  stated once as the locale \<open>turn_step\<close>: it sends no event that ends the turn, keeps the
  integrity of the database and the route of every session, and only extends the record of executed calls. The operations of
  the loop are interpreted in it one by one; the turn's properties rest on these facts.
\<close>

definition terminal :: "turn_event \<Rightarrow> bool" where
  "terminal e \<longleftrightarrow> (case e of TurnDone m u \<Rightarrow> True | TurnError err \<Rightarrow> True | _ \<Rightarrow> False)"

lemma terminal_simps [simp]:
  "terminal (TurnDone m u)" "terminal (TurnError err)" "\<not> terminal (TurnToken t)" "\<not> terminal (TurnToolCall tc m)"
  "\<not> terminal (TurnToolResult m)" "\<not> terminal (TurnApprovalNeeded r)" "\<not> terminal (TurnProgress m)"
  "\<not> terminal (TurnToolStart tc m)"
  by (simp_all add: terminal_def)

text \<open>
  \<open>quiet P Q w w'\<close>: between the two states the executed calls satisfy \<open>P\<close> and the requests to
  the model satisfy \<open>Q\<close>.
\<close>

definition quiet :: "(tool_call \<Rightarrow> bool) \<Rightarrow> (chat_request \<Rightarrow> bool) \<Rightarrow> world \<Rightarrow> world \<Rightarrow> bool" where
  "quiet P Q w w' \<longleftrightarrow> (\<exists>es. w_out w' = w_out w @ es \<and> (\<forall>e \<in> set es. \<not> terminal e))
     \<and> (db_ok (w_db w) \<longrightarrow> db_ok (w_db w')) \<and> same_routes (w_db w) (w_db w')
     \<and> (\<exists>ts. w_ran w' = w_ran w @ ts \<and> (\<forall>t \<in> set ts. P t))
     \<and> (\<exists>qs. w_requests w' = w_requests w @ qs \<and> (\<forall>q \<in> set qs. Q q))"

lemma quiet_refl [simp, intro]: "quiet P Q w w"
  by (simp add: quiet_def)

lemma ex_append_trans:
  "\<exists>es. b = a @ es \<and> (\<forall>e \<in> set es. R e) \<Longrightarrow> \<exists>es. c = b @ es \<and> (\<forall>e \<in> set es. R e) \<Longrightarrow> \<exists>es. c = a @ es \<and> (\<forall>e \<in> set es. R e)"
proof (elim exE conjE)
  fix es es'
  assume "b = a @ es" "\<forall>e \<in> set es. R e" "c = b @ es'" "\<forall>e \<in> set es'. R e"
  then have "c = a @ (es @ es') \<and> (\<forall>e \<in> set (es @ es'). R e)" by auto
  then show ?thesis by blast
qed

lemma quiet_trans [trans]: "quiet P Q w w1 \<Longrightarrow> quiet P Q w1 w2 \<Longrightarrow> quiet P Q w w2"
  unfolding quiet_def
  using ex_append_trans [of "w_out w1" "w_out w" "\<lambda>e. \<not> terminal e" "w_out w2"]
    ex_append_trans [of "w_ran w1" "w_ran w" P "w_ran w2"]
    ex_append_trans [of "w_requests w1" "w_requests w" Q "w_requests w2"] same_routes_trans by blast

lemma quiet_db:
  "w_out w' = w_out w \<Longrightarrow> w_ran w' = w_ran w \<Longrightarrow> w_requests w' = w_requests w \<Longrightarrow> (db_ok (w_db w) \<Longrightarrow> db_ok (w_db w')) \<Longrightarrow>
     same_routes (w_db w) (w_db w') \<Longrightarrow> quiet P Q w w'"
  by (simp add: quiet_def)

lemma quiet_same:
  "w_out w' = w_out w \<Longrightarrow> w_ran w' = w_ran w \<Longrightarrow> w_requests w' = w_requests w \<Longrightarrow> w_db w' = w_db w \<Longrightarrow> quiet P Q w w'"
  by (rule quiet_db) simp_all

lemma emits_simps [simp]: "w_out (emits es w) = w_out w @ es" "w_db (emits es w) = w_db w" "w_ran (emits es w) = w_ran w"
    "w_tick (emits es w) = w_tick w" "w_requests (emits es w) = w_requests w" "w_builder (emits es w) = w_builder w"
  by (simp_all add: emits_def)

lemma next_tick_simps [simp]: "w_out (next_tick w) = w_out w" "w_db (next_tick w) = w_db w" "w_ran (next_tick w) = w_ran w"
    "w_requests (next_tick w) = w_requests w" "w_tick (next_tick w) = Suc (w_tick w)" "w_builder (next_tick w) = w_builder w"
  by (simp_all add: next_tick_def)

lemma quiet_emits: "\<forall>e \<in> set es. \<not> terminal e \<Longrightarrow> quiet P Q w (emits es w)"
  by (auto simp: quiet_def)

lemma quiet_then_emits: "quiet P Q w w1 \<Longrightarrow> \<forall>e \<in> set es. \<not> terminal e \<Longrightarrow> quiet P Q w (emits es w1)"
  using quiet_trans quiet_emits by blast

lemma quiet_next_tick: "quiet P Q w (next_tick w)"
  by (rule quiet_same) simp_all

lemma quiet_no_request: "quiet P (\<lambda>q. False) w w' \<Longrightarrow> w_requests w' = w_requests w"
  by (auto simp: quiet_def)

locale turn_step =
  fixes P :: "tool_call \<Rightarrow> bool" and Q :: "chat_request \<Rightarrow> bool" and run :: "world \<Rightarrow> 'a \<times> world"
  assumes quiet_run: "quiet P Q w (snd (run w))"
begin

lemma quiet_result: "run w = (r, w') \<Longrightarrow> quiet P Q w w'"
  using quiet_run [of w] by simp

lemma quiet_before: "quiet P Q w0 w \<Longrightarrow> run w = (r, w') \<Longrightarrow> quiet P Q w0 w'"
  using quiet_trans quiet_result by blast

end

interpretation wait_step: turn_step P Q "wait_for env delay" for P Q env delay
  by unfold_locales (simp add: wait_for_def quiet_next_tick)

subsection \<open>Model calls\<close>

lemma call_chat_quiet: "Q rq \<Longrightarrow> call_chat env rq w = (r, w1) \<Longrightarrow> quiet P Q w w1"
  by (auto simp: call_chat_def quiet_def)

lemma chat_attempt_quiet: "Q rq \<Longrightarrow> quiet P Q w (snd (chat_attempt env rq notify attempt w))"
proof (induction env rq notify attempt w rule: chat_attempt.induct)
  case (1 env rq notify attempt w)
  obtain r w1 where c: "call_chat env rq w = (r, w1)" by force
  note q1 = call_chat_quiet [of Q, OF "1.prems" c, of P]
  show ?case
  proof (cases "\<exists>err ra. r = Inl err \<and> IsRetryable err = (ra, True) \<and> \<not> attempt \<ge> LLMMaxRetries")
    case False
    with q1 c show ?thesis by (subst chat_attempt.simps) (auto simp: Let_def split: sum.splits prod.splits)
  next
    case True
    then obtain err ra where e: "r = Inl err" "IsRetryable err = (ra, True)" "\<not> attempt \<ge> LLMMaxRetries" by blast
    let ?d = "retry_delay ra attempt"
    let ?w2 = "if notify then emits [retry_notice env ?d attempt] w1 else w1"
    have q2: "quiet P Q w ?w2" using q1 by (auto intro: quiet_then_emits simp: retry_notice_def)
    obtain s w3 where wt: "wait_for env ?d ?w2 = (s, w3)" by force
    note q3 = wait_step.quiet_before [OF q2 wt]
    show ?thesis
    proof (cases s)
      case None
      have "quiet P Q w3 (snd (chat_attempt env rq notify (Suc attempt) w3))"
        by (rule "1.IH" [OF c [symmetric] e(1) refl e(2) [symmetric] _ e(3) refl refl wt [symmetric] None "1.prems"]) simp
      with q3 have "quiet P Q w (snd (chat_attempt env rq notify (Suc attempt) w3))" by (rule quiet_trans)
      then show ?thesis using None c e wt by (subst chat_attempt.simps) (simp add: Let_def)
    next
      case (Some x)
      with q3 c e wt show ?thesis by (subst chat_attempt.simps) (simp add: Let_def)
    qed
  qed
qed

lemma chatWithRetry_quiet: "Q rq \<Longrightarrow> chatWithRetry env rq notify w = (r, w1) \<Longrightarrow> quiet P Q w w1"
  using chat_attempt_quiet [of Q rq P w env notify 0] by (simp add: chatWithRetry_def)


text \<open>A model call makes at most one request more than the retries that are left.\<close>

lemma chat_attempt_requests:
  "\<exists>n \<le> Suc (LLMMaxRetries - attempt). w_requests (snd (chat_attempt env rq notify attempt w)) = w_requests w @ replicate n rq"
proof (induction env rq notify attempt w rule: chat_attempt.induct)
  case (1 env rq notify attempt w)
  obtain r w1 where c: "call_chat env rq w = (r, w1)" by force
  then have r1: "w_requests w1 = w_requests w @ [rq]" by (auto simp: call_chat_def)
  show ?case
  proof (cases "\<exists>err ra. r = Inl err \<and> IsRetryable err = (ra, True) \<and> \<not> attempt \<ge> LLMMaxRetries")
    case False
    with r1 c show ?thesis
      by (subst chat_attempt.simps) (rule exI [of _ 1], auto simp: Let_def split: sum.splits prod.splits)
  next
    case True
    then obtain err ra where e: "r = Inl err" "IsRetryable err = (ra, True)" "\<not> attempt \<ge> LLMMaxRetries" by blast
    let ?d = "retry_delay ra attempt"
    let ?w2 = "if notify then emits [retry_notice env ?d attempt] w1 else w1"
    obtain s w3 where wt: "wait_for env ?d ?w2 = (s, w3)" by force
    have r3: "w_requests w3 = w_requests w @ [rq]" using wt r1 by (auto simp: wait_for_def split: if_splits)
    show ?thesis
    proof (cases s)
      case None
      from "1.IH" [OF c [symmetric] e(1) refl e(2) [symmetric] _ e(3) refl refl wt [symmetric] None]
      obtain n where n: "n \<le> Suc (LLMMaxRetries - Suc attempt)"
        "w_requests (snd (chat_attempt env rq notify (Suc attempt) w3)) = w_requests w3 @ replicate n rq" by auto
      have "chat_attempt env rq notify attempt w = chat_attempt env rq notify (Suc attempt) w3"
        using None c e wt by (subst chat_attempt.simps) (simp add: Let_def)
      with n r3 e(3) show ?thesis by (intro exI [of _ "Suc n"]) auto
    next
      case (Some x)
      with r3 c e wt show ?thesis
        by (subst chat_attempt.simps) (rule exI [of _ 1], simp add: Let_def)
    qed
  qed
qed

lemma chatWithRetry_requests:
  "chatWithRetry env rq notify w = (r, w1) \<Longrightarrow>
     \<exists>n \<le> Suc LLMMaxRetries. w_requests w1 = w_requests w @ replicate n rq"
  using chat_attempt_requests [of 0 env rq notify w] by (simp add: chatWithRetry_def)

subsection \<open>Tool calls\<close>

text \<open>The calls a policy lets run: the tool exists, and the user did not forbid it.\<close>

definition permitted :: "tool_policy \<Rightarrow> go_ctx \<Rightarrow> tool_call \<Rightarrow> bool" where
  "permitted tp ctx tc \<longleftrightarrow>
     (\<exists>reg. tp_registry tp = Some reg \<and> map_of reg (tc_name tc) \<noteq> None)
     \<and> (autoApproveFromContext ctx \<or> (case tp_approver tp of None \<Rightarrow> True | Some a \<Rightarrow> ap_mode a \<noteq> ApprovalDeny))"

lemma runTool_result: "tr_tool_call_id (fst (runTool exec tc reg pol)) = tc_id tc"
  by (auto simp: runTool_def tool_error_def zero_tool_result_def Let_def split: option.splits sum.splits)

lemma runTool_ran: "snd (runTool exec tc reg pol) \<Longrightarrow> \<exists>r. reg = Some r \<and> map_of r (tc_name tc) \<noteq> None"
  by (auto simp: runTool_def registry_Get_def Let_def split: option.splits sum.splits)

lemma executeTool_result: "tr_tool_call_id (tt_result (executeTool tp ctx answer exec reqID sid tc)) = tc_id tc"
  by (auto simp: executeTool_def run_approved_def runTool_result tool_error_def Let_def split_beta
      split: option.splits sum.splits bool.splits)

lemma executeTool_ran: "tt_ran (executeTool tp ctx answer exec reqID sid tc) \<Longrightarrow> permitted tp ctx tc"
  by (auto simp: executeTool_def run_approved_def permitted_def RequestApproval_def request_start_def Let_def split_beta
      dest!: runTool_ran split: option.splits sum.splits bool.splits ApprovalMode.splits if_splits)

lemma executeTool_events: "e \<in> set (tt_events (executeTool tp ctx answer exec reqID sid tc)) \<Longrightarrow> \<not> terminal e"
  by (auto simp: executeTool_def run_approved_def Let_def split_beta split: option.splits sum.splits bool.splits if_splits)

lemma set_interleave: "set (interleave is xss) = \<Union> (set ` set xss)"
proof (induction "is" xss rule: interleave.induct)
  case (2 i "is" xss)
  show ?case
  proof (cases "i < length xss \<and> xss ! i \<noteq> []")
    case False
    with 2 show ?thesis by (auto split: list.splits)
  next
    case True
    then obtain x xs where x: "xss ! i = x # xs" "i < length xss" by (meson neq_Nil_conv)
    then have "set xss = insert (x # xs) (set xss)" by (metis insert_absorb nth_mem)
    moreover have "\<Union> (set ` set (xss[i := xs])) \<union> {x} = \<Union> (set ` set xss)"
    proof -
      have "xss = take i xss @ (x # xs) # drop (Suc i) xss" using x by (metis id_take_nth_drop)
      then have "\<Union> (set ` set xss) = \<Union> (set ` set (take i xss @ (x # xs) # drop (Suc i) xss))" by simp
      moreover have "xss[i := xs] = take i xss @ xs # drop (Suc i) xss" using x by (simp add: upd_conv_take_nth_drop)
      ultimately show ?thesis by auto
    qed
    ultimately show ?thesis using "2.IH"(2) x by auto
  qed
qed auto

lemma audit_rows_frame [simp]:
  "w_out (audit_rows env h a s rows w) = w_out w" "w_db (audit_rows env h a s rows w) = w_db w"
  "w_ran (audit_rows env h a s rows w) = w_ran w" "w_requests (audit_rows env h a s rows w) = w_requests w"
  "w_builder (audit_rows env h a s rows w) = w_builder w"
  by (induction env h a s rows w rule: audit_rows.induct) simp_all

lemma per_call_in: "x \<in> \<Union> (set ` set (per_call f traces)) \<Longrightarrow> \<exists>i tr. i < length traces \<and> traces ! i = Some tr \<and> x \<in> set (f i tr)"
  unfolding per_call_def by (auto split: option.splits) metis

lemma batch_traces_in:
  "i < length (batch_traces env n run calls) \<Longrightarrow> batch_traces env n run calls ! i = Some tr \<Longrightarrow>
     i < length calls \<and> tr = run i (calls ! i)"
  by (auto simp: batch_traces_def split: option.splits)

lemma run_calls_quiet:
  assumes "\<And>i tc. tt_ran (run i tc) \<Longrightarrow> P tc" "\<And>i tc e. e \<in> set (tt_events (run i tc)) \<Longrightarrow> \<not> terminal e"
  shows "quiet P Q w (snd (run_calls env tp ctx cbs h sid run calls w))"
proof -
  let ?traces = "batch_traces env (w_tick w) run calls"
  have ran: "P tc" if tc: "tc \<in> set (concat (per_call (\<lambda>i tr. if tt_ran tr then [calls ! i] else []) ?traces))" for tc
  proof -
    from tc have "tc \<in> \<Union> (set ` set (per_call (\<lambda>i tr. if tt_ran tr then [calls ! i] else []) ?traces))" by simp
    from per_call_in [OF this] show ?thesis using assms(1) by (auto dest!: batch_traces_in split: if_splits)
  qed
  have evs: "\<not> terminal e" if e: "e \<in> set (interleave sch (per_call (\<lambda>i tr. task_events cbs (calls ! i) (rs ! i) tr) ?traces))" for e sch rs
    using per_call_in [OF e [unfolded set_interleave]] assms(2)
    by (auto simp: task_events_def dest!: batch_traces_in split: if_splits)
  show ?thesis using ran evs by (auto simp: run_calls_def Let_def quiet_def)
qed

interpretation run_tool_calls: turn_step "permitted (rt_tools rt) ctx" Q "run_tool_calls rt env ctx sid calls" for rt env ctx sid calls Q
  by unfold_locales
    (auto simp: run_tool_calls_def call_run_def intro!: run_calls_quiet dest: executeTool_ran executeTool_events)


subsection \<open>The other steps\<close>

lemma recover_call_quiet:
  "quiet (permitted (rt_tools rt) ctx) Q w (snd (recover_call rt env ctx sid tc res attempts slot w))"
proof (induction rt env ctx sid tc res attempts slot w rule: recover_call.induct)
  case (1 rt env ctx sid tc res attempts slot w)
  show ?case
  proof (cases "Decide (rt_recovery rt) res (int attempts) = ActionRetry")
    case False
    then show ?thesis
      by (subst recover_call.simps) (cases "Decide (rt_recovery rt) res (int attempts)", auto)
  next
    case True
    let ?w1 = "emits [retry_event tc] w"
    have q1: "quiet (permitted (rt_tools rt) ctx) Q w ?w1" by (rule quiet_emits) (simp add: retry_event_def)
    obtain ended w2 where wt: "wait_for env (Backoff (rt_recovery rt) attempts) ?w1 = (ended, w2)" by force
    note q2 = wait_step.quiet_before [OF q1 wt]
    let ?c = "case ended of
        Some e \<Rightarrow> (cancel_result \<lparr>task_id = res_id res, task_outcome = ([], None, 0)\<rparr> e, slot, w2)
      | None \<Rightarrow> (let (b, w') = run_tool_calls rt env ctx sid [tc] w2 in (br_results b ! 0, write_results [slot] (br_traces b) ! 0, w'))"
    obtain res' slot' w3 where c: "?c = (res', slot', w3)" by (cases ?c)
    have q3: "quiet (permitted (rt_tools rt) ctx) Q w w3"
      using c q2 run_tool_calls.quiet_before [OF q2]
      by (cases ended) (auto simp: Let_def split: prod.splits)
    have eq: "recover_call rt env ctx sid tc res attempts slot w =
        (if res_err res' = None then (\<lparr>rc_slot = slot', rc_failed = None\<rparr>, w3)
         else recover_call rt env ctx sid tc res' (Suc attempts) slot' w3)"
      using True wt c by (subst recover_call.simps) (simp add: Let_def)
    show ?thesis
    proof (cases "res_err res' = None")
      case False
      have "quiet (permitted (rt_tools rt) ctx) Q w3 (snd (recover_call rt env ctx sid tc res' (Suc attempts) slot' w3))"
        by (rule "1.IH" [OF True refl refl wt [symmetric] refl c [symmetric] refl False])
      then show ?thesis unfolding eq using False q3 by (auto intro: quiet_trans)
    qed (simp add: eq q3)
  qed
qed

interpretation recover_all: turn_step "permitted (rt_tools rt) ctx" Q "recover_all rt env ctx sid items" for rt env ctx sid items Q
proof
  show "quiet (permitted (rt_tools rt) ctx) Q w (snd (recover_all rt env ctx sid items w))" for w
  proof (induction rt env ctx sid items w rule: recover_all.induct)
    case (2 rt env ctx sid tc res slot rest w)
    obtain st w1 where s: "(if res_err res = None then (\<lparr>rc_slot = slot, rc_failed = None\<rparr>, w)
        else recover_call rt env ctx sid tc res 0 slot w) = (st, w1)" by force
    have "quiet (permitted (rt_tools rt) ctx) Q w w1"
      using s recover_call_quiet [of rt ctx Q w env sid tc res 0 slot] by (auto split: if_splits)
    moreover have "quiet (permitted (rt_tools rt) ctx) Q w1 (snd (recover_all rt env ctx sid rest w1))"
      by (rule "2.IH" [OF s [symmetric] refl])
    ultimately have "quiet (permitted (rt_tools rt) ctx) Q w (snd (recover_all rt env ctx sid rest w1))" by (rule quiet_trans)
    then show ?case by (simp only: recover_all.simps s) (simp add: split_beta Let_def)
  qed simp
qed

interpretation persistMessage: turn_step P Q "persistMessage env sid role ty content us" for P Q env sid role ty content us
  by unfold_locales (simp add: persistMessage_def Let_def split_beta quiet_db AppendMessage.keeps_ok AppendMessage.same_routes_run)

interpretation touch: turn_step P Q "\<lambda>w. (fst (TouchSession t sid (w_db w)), next_tick (w\<lparr>w_db := snd (TouchSession t sid (w_db w))\<rparr>))" for P Q t sid
  by unfold_locales (simp add: quiet_db TouchSession.keeps_ok TouchSession.same_routes_run)

interpretation persistAssistantMessage: turn_step P Q "persistAssistantMessage env sid content us" for P Q env sid content us
proof
  fix w
  obtain r w1 where p: "persistMessage env sid RoleAssistant ContentTypeText content us w = (r, w1)" by force
  note q = persistMessage.quiet_result [OF p]
  show "quiet P Q w (snd (persistAssistantMessage env sid content us w))"
  proof (cases r)
    case (Inr u)
    have "quiet P Q w (snd (fst (TouchSession (env_now env (w_tick w1)) sid (w_db w1)),
        next_tick (w1\<lparr>w_db := snd (TouchSession (env_now env (w_tick w1)) sid (w_db w1))\<rparr>)))"
      using q touch.quiet_run quiet_trans by blast
    then show ?thesis by (simp add: persistAssistantMessage_def p Inr Let_def split_beta)
  qed (simp add: persistAssistantMessage_def p q)
qed

interpretation save_checkpoint: turn_step P Q "save_checkpoint rt env tn it names rp st" for P Q rt env tn it names rp st
proof
  fix w
  have "quiet P Q w (next_tick (w\<lparr>w_db := snd (SaveCheckpoint t row (w_db w))\<rparr>))" for t row
    by (rule quiet_db) (simp_all add: SaveCheckpoint.keeps_ok SaveCheckpoint.same_routes_run)
  then show "quiet P Q w (snd (save_checkpoint rt env tn it names rp st w))"
    by (simp add: save_checkpoint_def Let_def split_beta split: option.splits sum.splits)
qed

interpretation replan: turn_step P Q "replan rt env tn it failed st" for P Q rt env tn it failed st
  by unfold_locales
    (auto simp: replan_def Let_def wait_for_def quiet_next_tick split: option.splits prod.splits)

lemma rebuildMessages_frame:
  "rebuildMessages rt history w = (ms, w1) \<Longrightarrow>
     w_out w1 = w_out w \<and> w_db w1 = w_db w \<and> w_ran w1 = w_ran w \<and> w_requests w1 = w_requests w"
  by (auto simp: rebuildMessages_def Let_def split: option.splits prod.splits)

interpretation rebuildMessages: turn_step P Q "rebuildMessages rt history" for P Q rt history
  by unfold_locales (rule quiet_same; use rebuildMessages_frame in \<open>metis prod.collapse\<close>)

interpretation buildSmartContext: turn_step P Q "buildSmartContext rt env aid sid history" for P Q rt env aid sid history
  by unfold_locales
    (rule quiet_same; simp add: buildSmartContext_def memory_files_def Let_def split: option.splits prod.splits sum.splits)

end
