(* ===== verification/Agent_Turn.thy ===== *)
theory Agent_Turn
  imports Agent_Steps
begin

section \<open>Properties of a turn\<close>

text \<open>
  What a turn guarantees whatever the model, the tools, the user and the clock do: that it ends
  with exactly one closing event, what it sends to the model, which tools it may run, what it
  stores, and the behaviours of the loop that differ from its intent.
\<close>

definition turn_ends :: "(tool_call \<Rightarrow> bool) \<Rightarrow> (chat_request \<Rightarrow> bool) \<Rightarrow> world \<Rightarrow> world \<Rightarrow> bool" where
  "turn_ends P Q w w' \<longleftrightarrow> (\<exists>w1 e. quiet P Q w w1 \<and> terminal e \<and> w' = emits [e] w1)"

text \<open>The one way a turn ends without a closing event: the context ends in the cool-down.\<close>

definition interrupted :: "runtime \<Rightarrow> agent_env \<Rightarrow> bool" where
  "interrupted rt env \<longleftrightarrow> sint (rt_cooldown rt) > 0 \<and> (\<exists>n. env_wait env n (rt_cooldown rt) \<noteq> None)"

definition step_outcome :: "(tool_call \<Rightarrow> bool) \<Rightarrow> (chat_request \<Rightarrow> bool) \<Rightarrow> bool \<Rightarrow> world \<Rightarrow> iter_result \<times> world \<Rightarrow> bool" where
  "step_outcome P Q silent w r \<longleftrightarrow>
     (case fst r of Again st \<Rightarrow> quiet P Q w (snd r) | Stop \<Rightarrow> turn_ends P Q w (snd r) \<or> (silent \<and> quiet P Q w (snd r)))"

lemma turn_endsI: "quiet P Q w w1 \<Longrightarrow> terminal e \<Longrightarrow> turn_ends P Q w (emits [e] w1)"
  unfolding turn_ends_def by blast

lemma turn_ends_fail [simp]: "quiet P Q w w1 \<Longrightarrow> step_outcome P Q b w (fail_turn e w1)"
  by (simp add: step_outcome_def fail_turn_def turn_endsI)

lemma turn_ends_done: "quiet P Q w w1 \<Longrightarrow> step_outcome P Q b w (Stop, emits [TurnDone m u] w1)"
  by (simp add: step_outcome_def turn_endsI)

lemma step_again_emits: "quiet P Q w w1 \<Longrightarrow> \<forall>e \<in> set es. \<not> terminal e \<Longrightarrow> step_outcome P Q b w (Again st, emits es w1)"
  by (simp add: step_outcome_def quiet_then_emits)

lemma step_again: "quiet P Q w w1 \<Longrightarrow> step_outcome P Q b w (Again st, w1)"
  by (simp add: step_outcome_def)

lemma step_outcome_trans: "quiet P Q w w1 \<Longrightarrow> step_outcome P Q b w1 r \<Longrightarrow> step_outcome P Q b w r"
  by (auto simp: step_outcome_def turn_ends_def split: iter_result.splits intro: quiet_trans)

lemma llm_failed_outcome: "step_outcome P Q b w (llm_failed final hint progress st w)"
  by (simp add: llm_failed_def Let_def step_again_emits)

lemma finish_reply_outcome: "step_outcome P Q b w (finish_reply rt env tn st rp w)"
proof -
  obtain r w1 where p: "persistAssistantMessage env (tn_session tn) (rp_text rp) (rp_usage rp) w = (r, w1)" by force
  note q = persistAssistantMessage.quiet_result [of env "tn_session tn" "rp_text rp" "rp_usage rp" w r w1 P Q, OF p]
  show ?thesis
    using q by (simp add: finish_reply_def p Let_def turn_ends_done step_again_emits
        split: sum.splits option.splits)
qed

lemma store_results_outcome: "step_outcome P Q b w (store_results rt env tn it cc rp results st w)"
proof (cases "rt_enc_results rt results")
  case (Inr content)
  obtain r w1 where p: "persistMessage env (tn_session tn) RoleUser ContentTypeToolResults content None w = (r, w1)" by force
  note q = persistMessage.quiet_result [of env "tn_session tn" RoleUser ContentTypeToolResults content None w r w1 P Q, OF p]
  show ?thesis
  proof (cases r)
    case (Inr u)
    obtain st1 w2 where s: "save_checkpoint rt env tn it (map tc_name (rp_calls rp)) rp st w1 = (st1, w2)" by force
    show ?thesis
      using save_checkpoint.quiet_before [OF q s] \<open>rt_enc_results rt results = Inr content\<close>
      by (simp add: store_results_def p Inr s Let_def step_again_emits)
  qed (simp add: store_results_def p \<open>rt_enc_results rt results = Inr content\<close> q)
qed (simp add: store_results_def)

lemma replan_None:
  "replan rt env tn it failed st w = (None, w1) \<Longrightarrow> interrupted rt env"
  by (auto simp: replan_def interrupted_def wait_for_def Let_def split: if_splits option.splits prod.splits)

lemma tool_iteration_outcome:
  "step_outcome (permitted (rt_tools rt) (tn_ctx tn)) Q (interrupted rt env) w (tool_iteration rt env tn it st rp w)"
  (is "step_outcome ?P _ ?b _ _")
proof (cases "rt_enc_calls rt (rp_text rp) (rp_calls rp)")
  case (Inr content)
  note enc = Inr
  obtain r w1 where p: "persistMessage env (tn_session tn) RoleAssistant ContentTypeToolCalls content (rp_usage rp) w = (r, w1)" by force
  note q1 = persistMessage.quiet_result [of env "tn_session tn" RoleAssistant ContentTypeToolCalls content "rp_usage rp" w r w1 ?P Q, OF p]
  show ?thesis
  proof (cases r)
    case (Inr u)
    obtain b w2 where rc: "run_tool_calls rt env (tn_ctx tn) (tn_session tn) (rp_calls rp) w1 = (b, w2)" by force
    note q2 = run_tool_calls.quiet_before [OF q1 rc]
    let ?items = "zip (rp_calls rp) (zip (br_results b) (write_results (replicate (length (rp_calls rp)) zero_tool_result) (br_traces b)))"
    obtain results failed w3 where ra: "recover_all rt env (tn_ctx tn) (tn_session tn) ?items w2 = ((results, failed), w3)"
      by (metis prod.exhaust)
    note q3 = recover_all.quiet_before [OF q2 ra]
    let ?st1 = "st\<lparr>ls_toolsUsed := ls_toolsUsed st @ map tc_name (rp_calls rp)\<rparr>"
    obtain o2 w4 where rp4: "replan rt env tn it failed ?st1 w3 = (o2, w4)" by force
    note q4 = replan.quiet_before [OF q3 rp4]
    have eq: "tool_iteration rt env tn it st rp w =
        (case o2 of None \<Rightarrow> (Stop, w4) | Some st2 \<Rightarrow> store_results rt env tn it content rp results st2 w4)"
      by (simp add: tool_iteration_def enc p Inr rc ra rp4 Let_def)
    show ?thesis
    proof (cases o2)
      case None
      then show ?thesis using q4 replan_None rp4 by (simp add: eq step_outcome_def)
    next
      case (Some st2)
      then show ?thesis using step_outcome_trans [OF q4 store_results_outcome] by (simp add: eq)
    qed
  qed (simp add: tool_iteration_def enc p q1)
qed (simp add: tool_iteration_def)

text \<open>One iteration: its request, and what follows the answer.\<close>

definition iter_messages :: "runtime \<Rightarrow> nat \<Rightarrow> loop_state \<Rightarrow> world \<Rightarrow> chat_message list \<times> world" where
  "iter_messages rt it st w = (if it > 0 then rebuildMessages rt (ls_history st) w else (ls_messages st, w))"

lemma iter_messages_quiet: "iter_messages rt it st w = (ms, w1) \<Longrightarrow> quiet P Q w w1"
  using rebuildMessages.quiet_result by (auto simp: iter_messages_def split: if_splits)

definition iter_request :: "runtime \<Rightarrow> turn_ctx \<Rightarrow> nat \<Rightarrow> loop_state \<Rightarrow> world \<Rightarrow> chat_request" where
  "iter_request rt tn it st w = turn_request rt tn (st\<lparr>ls_messages := fst (iter_messages rt it st w)\<rparr>)"

lemma reply_events_quiet: "\<forall>e \<in> set (concat (map reply_event events)). \<not> terminal e"
proof -
  have "\<forall>e \<in> set (reply_event ev). \<not> terminal e" for ev by (cases ev) auto
  then show ?thesis by auto
qed

lemma iterate_split:
  obtains (empty) w1 where "fst (iter_messages rt it st w) = []" "quiet (\<lambda>_. False) (\<lambda>_. False) w w1"
      "iterate rt env tn it st w = fail_turn (ErrText ''no messages after context building'') w1"
  | (asked) w1 r w2 where "fst (iter_messages rt it st w) \<noteq> []" "quiet (\<lambda>_. False) (\<lambda>_. False) w w1"
      "chatWithRetry env (iter_request rt tn it st w) True w1 = (r, w2)"
      "\<And>Q. step_outcome (permitted (rt_tools rt) (tn_ctx tn)) Q (interrupted rt env) w2 (iterate rt env tn it st w)"
proof (cases "iter_messages rt it st w")
  case (Pair ms w1)
  note q1 = iter_messages_quiet [OF Pair]
  show ?thesis
  proof (cases "ms = []")
    case True
    with Pair q1 show ?thesis
      by (intro empty [of w1]) (auto simp: iterate_def iter_messages_def [symmetric] Let_def)
  next
    case False
    obtain r w2 where c: "chatWithRetry env (iter_request rt tn it st w) True w1 = (r, w2)" by force
    have it: "iterate rt env tn it st w = (case r of
        Inl err \<Rightarrow> llm_failed (ErrWrap ''calling LLM: '' err) (llm_failure_hint err)
             (\<lambda>n. ''LLM error, retrying ('' @ nat_to_dec n @ ''/'' @ nat_to_dec LLMMaxErrors @ '')...'') (st\<lparr>ls_messages := ms, ls_ephemeral := []\<rparr>) w2
      | Inr events \<Rightarrow> (let rp = read_reply events; w3 = emits (concat (map reply_event events)) w2 in
           case rp_err rp of
             Some e \<Rightarrow> llm_failed e (stream_failure_hint e) (\<lambda>n. ''Stream interrupted, retrying...'') (st\<lparr>ls_messages := ms, ls_ephemeral := []\<rparr>) w3
           | None \<Rightarrow> (if rp_calls rp = [] then finish_reply rt env tn (st\<lparr>ls_messages := ms, ls_ephemeral := [], ls_llmErrors := 0\<rparr>) rp w3
                else tool_iteration rt env tn it (st\<lparr>ls_messages := ms, ls_ephemeral := [], ls_llmErrors := 0\<rparr>) rp w3)))"
      using Pair False c unfolding iter_request_def
      by (simp add: iterate_def iter_messages_def [symmetric] Let_def split: sum.splits option.splits)
    have "step_outcome (permitted (rt_tools rt) (tn_ctx tn)) Q (interrupted rt env) w2 (iterate rt env tn it st w)" for Q
    proof (cases r)
      case (Inr events)
      have q: "quiet (permitted (rt_tools rt) (tn_ctx tn)) Q w2 (emits (concat (map reply_event events)) w2)"
        by (rule quiet_emits [OF reply_events_quiet])
      show ?thesis unfolding it Inr
        by (auto simp: Let_def intro!: step_outcome_trans [OF q] llm_failed_outcome finish_reply_outcome tool_iteration_outcome
            split: option.splits)
    qed (simp add: it llm_failed_outcome)
    with False Pair c q1 show ?thesis by (intro asked [of w1 r w2]) auto
  qed
qed


subsection \<open>The whole loop\<close>

definition good_request :: "runtime \<Rightarrow> tool_definition list \<Rightarrow> chat_request \<Rightarrow> bool" where
  "good_request rt defs rq \<longleftrightarrow> rq_messages rq \<noteq> [] \<and> tool_paired (rq_messages rq) \<and> rq_tools rq = defs
     \<and> rq_model rq = rt_model rt \<and> rq_max_tokens rq = rt_maxOutputTokens rt"

lemma buildContext_paired: "tool_paired (buildContext rt history)"
  unfolding buildContext_def by (rule sanitize_paired) (simp add: list_all_iff messageToLLM_kind)

lemma rebuildMessages_paired: "tool_paired (fst (rebuildMessages rt history w))"
  by (auto simp: rebuildMessages_def RebuildMessages_def buildContext_paired split_beta Let_def
      intro: selectHistory_paired split: option.splits)

lemma iter_request_good:
  assumes "fst (iter_messages rt it st w) \<noteq> []" "it = 0 \<Longrightarrow> tool_paired (ls_messages st)"
  shows "good_request rt (tn_toolDefs tn) (iter_request rt tn it st w)"
  using assms rebuildMessages_paired
  by (auto simp: good_request_def iter_request_def turn_request_def iter_messages_def)

lemma quiet_weaken: "quiet (\<lambda>_. False) (\<lambda>_. False) w w' \<Longrightarrow> quiet P Q w w'"
  by (auto simp: quiet_def)

lemma step_outcome_requests:
  "step_outcome P (\<lambda>_. False) b w r \<Longrightarrow> w_requests (snd r) = w_requests w"
  by (auto simp: step_outcome_def turn_ends_def split: iter_result.splits dest: quiet_no_request)

lemma iterate_outcome:
  assumes "it = 0 \<longrightarrow> tool_paired (ls_messages st)"
  shows "step_outcome (permitted (rt_tools rt) (tn_ctx tn)) (good_request rt (tn_toolDefs tn)) (interrupted rt env) w (iterate rt env tn it st w)"
    and "length (w_requests (snd (iterate rt env tn it st w))) \<le> length (w_requests w) + Suc LLMMaxRetries"
proof (atomize (full), cases rule: iterate_split [of rt it st w env tn])
  case (empty w1)
  then show "step_outcome (permitted (rt_tools rt) (tn_ctx tn)) (good_request rt (tn_toolDefs tn)) (interrupted rt env) w (iterate rt env tn it st w)
      \<and> length (w_requests (snd (iterate rt env tn it st w))) \<le> length (w_requests w) + Suc LLMMaxRetries"
    using quiet_weaken quiet_no_request [of "\<lambda>_. False" w w1] by (simp add: fail_turn_def [of _ w1]) (metis fail_turn_def turn_ends_fail)
next
  case (asked w1 r w2)
  have good: "good_request rt (tn_toolDefs tn) (iter_request rt tn it st w)"
    using asked(1) assms by (auto intro: iter_request_good)
  have "quiet (permitted (rt_tools rt) (tn_ctx tn)) (good_request rt (tn_toolDefs tn)) w w2"
    using quiet_weaken [OF asked(2)] chatWithRetry_quiet [of "good_request rt (tn_toolDefs tn)", OF good asked(3)] quiet_trans by blast
  then have 1: "step_outcome (permitted (rt_tools rt) (tn_ctx tn)) (good_request rt (tn_toolDefs tn)) (interrupted rt env) w (iterate rt env tn it st w)"
    using asked(4) by (rule step_outcome_trans)
  from chatWithRetry_requests [OF asked(3)] obtain n where "n \<le> Suc LLMMaxRetries"
    "w_requests w2 = w_requests w1 @ replicate n (iter_request rt tn it st w)" by blast
  with step_outcome_requests [OF asked(4)] quiet_no_request [OF asked(2)]
  have 2: "length (w_requests (snd (iterate rt env tn it st w))) \<le> length (w_requests w) + Suc LLMMaxRetries" by simp
  from 1 2 show "step_outcome (permitted (rt_tools rt) (tn_ctx tn)) (good_request rt (tn_toolDefs tn)) (interrupted rt env) w (iterate rt env tn it st w)
      \<and> length (w_requests (snd (iterate rt env tn it st w))) \<le> length (w_requests w) + Suc LLMMaxRetries" by blast
qed

lemma iterations_outcome:
  fixes rt tn
  defines "P \<equiv> permitted (rt_tools rt) (tn_ctx tn)" and "Q \<equiv> good_request rt (tn_toolDefs tn)"
  assumes "it = 0 \<longrightarrow> tool_paired (ls_messages st)"
  shows "(turn_ends P Q w (iterations rt env tn it left st w) \<or> (interrupted rt env \<and> quiet P Q w (iterations rt env tn it left st w)))
    \<and> length (w_requests (iterations rt env tn it left st w)) \<le> length (w_requests w) + Suc LLMMaxRetries * left"
  using assms(3)
proof (induction left arbitrary: it st w)
  case 0
  then show ?case by (simp add: turn_endsI)
next
  case (Suc left)
  note io = iterate_outcome [OF Suc.prems, where rt = rt and tn = tn and env = env and w = w, folded P_def Q_def]
  show ?case
  proof (cases "iterate rt env tn it st w")
    case (Pair r w1)
    note io' = io [unfolded Pair]
    show ?thesis
    proof (cases r)
      case Stop
      with io' Pair show ?thesis by (auto simp: step_outcome_def)
    next
      case (Again st1)
      with io' have q: "quiet P Q w w1" by (simp add: step_outcome_def)
      from Suc.IH [of "Suc it" st1 w1]
      have "(turn_ends P Q w1 (iterations rt env tn (Suc it) left st1 w1) \<or> (interrupted rt env \<and> quiet P Q w1 (iterations rt env tn (Suc it) left st1 w1)))
        \<and> length (w_requests (iterations rt env tn (Suc it) left st1 w1)) \<le> length (w_requests w1) + Suc LLMMaxRetries * left" by simp
      with q io'(2) show ?thesis
        by (auto simp: Pair Again turn_ends_def intro: quiet_trans)
    qed
  qed
qed

lemma compact_step_quiet: "quiet P Q w (compact_step rt env sid w)"
  by (rule quiet_db) (simp_all add: compact_step_def Let_def split_beta CompactSession_ok CompactSession_routes)

lemma buildSmartContext_paired: "tool_paired (snd (fst (buildSmartContext rt env aid sid history w)))"
  by (auto simp: buildSmartContext_def buildContext_paired split_beta Let_def intro: Build_paired split: option.splits)

definition offered_tools :: "runtime \<Rightarrow> tool_definition list" where
  "offered_tools rt = (case tp_registry (rt_tools rt) of
     Some reg \<Rightarrow> if rt_supports_tools rt then Definitions reg else [] | None \<Rightarrow> [])"

lemma permitted_session [simp]: "permitted tp (WithSessionInfo ctx sid aid) = permitted tp ctx"
  by (auto simp: permitted_def fun_eq_iff WithSessionInfo_def autoApproveFromContext_def)

lemma runAgenticLoop_outcome:
  fixes rt ctx
  defines "P \<equiv> permitted (rt_tools rt) ctx" and "Q \<equiv> good_request rt (offered_tools rt)"
  shows "(turn_ends P Q w (runAgenticLoop rt env ctx sid w) \<or> (interrupted rt env \<and> quiet P Q w (runAgenticLoop rt env ctx sid w)))
    \<and> length (w_requests (runAgenticLoop rt env ctx sid w)) \<le> length (w_requests w) + Suc LLMMaxRetries * nat (rt_maxToolIter rt)"
proof -
  obtain g d where g: "GetSession sid (w_db w) = (g, d)" by force
  have q0: "quiet P' Q' w (w\<lparr>w_db := d\<rparr>)" for P' Q'
    by (rule quiet_db) (use GetSession.ok_result [OF _ g] GetSession.same_routes_result [OF g] in simp_all)
  show ?thesis
  proof (cases g)
    case (Inl e)
    then show ?thesis using q0 by (simp add: runAgenticLoop_def g turn_endsI)
  next
    case (Inr sess)
    let ?w1 = "compact_step rt env sid (w\<lparr>w_db := d\<rparr>)"
    have q1: "quiet P' Q' w ?w1" for P' Q' using q0 compact_step_quiet quiet_trans by blast
    obtain h d2 where h: "RecentMessages sid RecentMessagesLimit (w_db ?w1) = (h, d2)" by force
    have q2: "quiet P' Q' w (?w1\<lparr>w_db := d2\<rparr>)" for P' Q'
      by (rule quiet_trans [OF q1], rule quiet_db) (use RecentMessages.ok_result [OF _ h] RecentMessages.same_routes_result [OF h] in simp_all)
    have r2: "w_requests (?w1\<lparr>w_db := d2\<rparr>) = w_requests w" using q2 by (rule quiet_no_request)
    show ?thesis
    proof (cases h)
      case (Inl e)
      then show ?thesis using q2 r2 by (simp add: runAgenticLoop_def g Inr h turn_endsI Let_def)
    next
      case (Inr history)
      obtain sys ms w3 where b: "buildSmartContext rt env (sess_agent sess) sid history (?w1\<lparr>w_db := d2\<rparr>) = ((sys, ms), w3)"
        by (metis prod.exhaust)
      have q3: "quiet P' Q' w w3" for P' Q' by (rule buildSmartContext.quiet_before [OF q2 b])
      then have r3: "w_requests w3 = w_requests w" by (rule quiet_no_request)
      have paired: "tool_paired ms"
        using buildSmartContext_paired [of rt env "sess_agent sess" sid history "?w1\<lparr>w_db := d2\<rparr>"] b by simp
      define tn where "tn = \<lparr>tn_ctx = WithSessionInfo ctx sid (sess_agent sess), tn_session = sid, tn_systemPrompt = sys,
          tn_toolDefs = offered_tools rt, tn_originalPrompt = original_prompt history\<rparr>"
      define st where "st = \<lparr>ls_history = history, ls_messages = ms, ls_llmErrors = 0, ls_verifications = 0,
          ls_checkpointTokens = 0, ls_ephemeral = [], ls_toolsUsed = [],
          ls_rotator = (if rt_strategies rt \<noteq> [] then Some (NewRotator (rt_strategies rt) DefaultRetryMaxAttempts) else None)\<rparr>"
      have run: "runAgenticLoop rt env ctx sid w = iterations rt env tn 0 (nat (rt_maxToolIter rt)) st w3"
        by (simp add: runAgenticLoop_def g \<open>g = Inr sess\<close> h Inr b Let_def tn_def st_def offered_tools_def)
      have tn: "permitted (rt_tools rt) (tn_ctx tn) = P" "good_request rt (tn_toolDefs tn) = Q"
        by (simp_all add: tn_def P_def Q_def)
      have "(turn_ends P Q w3 (iterations rt env tn 0 (nat (rt_maxToolIter rt)) st w3)
          \<or> (interrupted rt env \<and> quiet P Q w3 (iterations rt env tn 0 (nat (rt_maxToolIter rt)) st w3)))
        \<and> length (w_requests (iterations rt env tn 0 (nat (rt_maxToolIter rt)) st w3)) \<le> length (w_requests w3) + Suc LLMMaxRetries * nat (rt_maxToolIter rt)"
        using iterations_outcome [where it = 0 and st = st and rt = rt and tn = tn and w = w3 and env = env and left = "nat (rt_maxToolIter rt)"] paired by (simp add: tn st_def)
      then show ?thesis unfolding run r3 using q3 [of P Q] by (auto simp: turn_ends_def intro: quiet_trans)
    qed
  qed
qed


subsection \<open>Results and failures of a batch\<close>

definition never_gives_up :: "agent_env \<Rightarrow> bool" where
  "never_gives_up env \<longleftrightarrow> (\<forall>n i. env_give_up env n i = None)"

definition slot_ok :: "tool_call \<Rightarrow> exec_result \<Rightarrow> tool_result \<Rightarrow> bool" where
  "slot_ok tc res slot \<longleftrightarrow> tr_tool_call_id slot = tc_id tc \<and> (res_err res = None \<longleftrightarrow> \<not> tr_is_error slot)"

lemma length_batch [simp]:
  "length (batch_traces env n run calls) = length calls" "length (batch_tasks env n run calls pol) = length calls"
  "length (batch_outcome g ts) = length ts"
  by (simp_all add: batch_traces_def batch_tasks_def batch_outcome_def)

lemma run_tool_calls_slots:
  assumes "never_gives_up env" "run_tool_calls rt env ctx sid calls w = (b, w1)" "i < length calls" "length slots = length calls"
  shows "slot_ok (calls ! i) (br_results b ! i) (write_results slots (br_traces b) ! i)"
    and "length (br_results b) = length calls" "length (write_results slots (br_traces b)) = length calls"
proof -
  let ?run = "call_run rt env ctx sid (w_tick w)"
  have b: "br_results b = batch_outcome (env_give_up env (w_tick w)) (batch_tasks env (w_tick w) ?run calls (effective_policy (rt_tools rt) ctx))"
      "br_traces b = batch_traces env (w_tick w) ?run calls"
    using assms(2) by (auto simp: run_tool_calls_def run_calls_def Let_def)
  show len: "length (br_results b) = length calls" "length (write_results slots (br_traces b)) = length calls"
    using assms(4) by (simp_all add: b write_results_def)
  have "br_results b ! i = task_result (tool_task (calls ! i) (to_elapsed (env_tool env (w_tick w) i (calls ! i) (effective_policy (rt_tools rt) ctx)))
      (tt_result (?run i (calls ! i))))"
    using assms(1,3) by (simp add: b batch_outcome_def batch_tasks_def never_gives_up_def)
  moreover have "write_results slots (br_traces b) ! i = tt_result (?run i (calls ! i))"
    using assms(1,3,4) by (simp add: b write_results_def batch_traces_def never_gives_up_def)
  ultimately show "slot_ok (calls ! i) (br_results b ! i) (write_results slots (br_traces b) ! i)"
    by (simp add: slot_ok_def call_run_def executeTool_result task_result_def tool_task_def task_error_def)
qed

text \<open>Recovery keeps a result slot in step with the last outcome of its call.\<close>

lemma recover_call_slot:
  "never_gives_up env \<Longrightarrow> slot_ok tc res slot \<Longrightarrow> res_err res \<noteq> None \<Longrightarrow>
   recover_call rt env ctx sid tc res attempts slot w = (st, w') \<Longrightarrow>
   tr_tool_call_id (rc_slot st) = tc_id tc
   \<and> (case rc_failed st of None \<Rightarrow> True | Some f \<Rightarrow> tr_is_error (rc_slot st) \<and> ft_name f = tc_name tc)"
proof (induction rt env ctx sid tc res attempts slot w rule: recover_call.induct)
  case (1 rt env ctx sid tc res attempts slot w)
  show ?case
  proof (cases "Decide (rt_recovery rt) res (int attempts)")
    case ActionSkip
    with "1.prems" show ?thesis by (subst (asm) recover_call.simps) (auto simp: slot_ok_def)
  next
    case ActionReplan
    with "1.prems" show ?thesis by (subst (asm) recover_call.simps) (auto simp: slot_ok_def)
  next
    case ActionRetry
    obtain ended w2 where wt: "wait_for env (Backoff (rt_recovery rt) attempts) (emits [retry_event tc] w) = (ended, w2)" by force
    let ?c = "case ended of
        Some e \<Rightarrow> (cancel_result \<lparr>task_id = res_id res, task_outcome = ([], None, 0)\<rparr> e, slot, w2)
      | None \<Rightarrow> (let (b, w') = run_tool_calls rt env ctx sid [tc] w2 in (br_results b ! 0, write_results [slot] (br_traces b) ! 0, w'))"
    obtain res' slot' w3 where c: "?c = (res', slot', w3)" by (cases ?c)
    have ok: "slot_ok tc res' slot'"
    proof (cases ended)
      case None
      obtain b w' where b: "run_tool_calls rt env ctx sid [tc] w2 = (b, w')" by force
      with c None run_tool_calls_slots(1) [OF "1.prems"(1) b, of 0 "[slot]"] show ?thesis by auto
    next
      case (Some e)
      with c "1.prems"(2,3) show ?thesis by (auto simp: slot_ok_def cancel_result_def)
    qed
    have eq: "recover_call rt env ctx sid tc res attempts slot w =
        (if res_err res' = None then (\<lparr>rc_slot = slot', rc_failed = None\<rparr>, w3)
         else recover_call rt env ctx sid tc res' (Suc attempts) slot' w3)"
      using ActionRetry wt c by (subst recover_call.simps) (simp add: Let_def)
    show ?thesis
    proof (cases "res_err res' = None")
      case True
      with ok "1.prems"(4) show ?thesis by (auto simp: eq slot_ok_def)
    next
      case False
      show ?thesis
        by (rule "1.IH" [OF ActionRetry refl refl wt [symmetric] refl c [symmetric] refl False "1.prems"(1) ok])
          (rule False, use "1.prems"(4) [unfolded eq if_not_P [OF False]] in simp)
    qed
  qed
qed

lemma recover_all_slots:
  "never_gives_up env \<Longrightarrow> \<forall>(tc, res, slot) \<in> set items. slot_ok tc res slot \<Longrightarrow>
   recover_all rt env ctx sid items w = ((results, failed), w') \<Longrightarrow>
   map tr_tool_call_id results = map (tc_id \<circ> fst) items
   \<and> subseq (map ft_name failed) (map (tc_name \<circ> fst) (filter (\<lambda>(tc, r). tr_is_error r) (zip (map fst items) results)))"
proof (induction rt env ctx sid items w arbitrary: results failed w' rule: recover_all.induct)
  case (2 rt env ctx sid tc res slot rest w)
  let ?c = "if res_err res = None then (\<lparr>rc_slot = slot, rc_failed = None\<rparr>, w) else recover_call rt env ctx sid tc res 0 slot w"
  obtain st w1 where c: "?c = (st, w1)" by force
  obtain rs fs w2 where r: "recover_all rt env ctx sid rest w1 = ((rs, fs), w2)" by (metis prod.exhaust)
  have st: "tr_tool_call_id (rc_slot st) = tc_id tc
      \<and> (case rc_failed st of None \<Rightarrow> True | Some f \<Rightarrow> tr_is_error (rc_slot st) \<and> ft_name f = tc_name tc)"
    using c recover_call_slot [OF "2.prems"(1), of tc res slot rt ctx sid 0 w st w1] "2.prems"(2)
    by (auto simp: slot_ok_def split: if_splits)
  have IH: "map tr_tool_call_id rs = map (tc_id \<circ> fst) rest
      \<and> subseq (map ft_name fs) (map (tc_name \<circ> fst) (filter (\<lambda>(tc, r). tr_is_error r) (zip (map fst rest) rs)))"
    using "2.IH" [OF c [symmetric] refl "2.prems"(1) _ r] "2.prems"(2) by (simp add: o_def)
  have "results = rc_slot st # rs" "failed = (case rc_failed st of Some f \<Rightarrow> [f] | None \<Rightarrow> []) @ fs"
    using "2.prems"(3) by (simp_all only: recover_all.simps c) (simp_all add: r Let_def)
  with st IH show ?case by (auto simp: o_def intro: list_emb_Cons split: option.splits)
qed simp


subsection \<open>Properties\<close>

text \<open>
  C1: A turn always ends, and the receiver of its events is told so exactly once: whatever the
  model, the tools, the database and the user do, the events a run of the loop sends are some
  that do not close the turn followed by one closing event (done or error); the only exception is
  a context that ends during the cool-down of a retry strategy, where the channel is closed
  without a closing event.
\<close>
theorem turn_closes_once:
  fixes rt env ctx sid w
  defines "w' \<equiv> runAgenticLoop rt env ctx sid w"
  shows "(\<exists>es e. w_out w' = w_out w @ es @ [e] \<and> terminal e \<and> list_all (\<lambda>x. \<not> terminal x) es)
    \<or> (interrupted rt env \<and> (\<exists>es. w_out w' = w_out w @ es \<and> list_all (\<lambda>x. \<not> terminal x) es))"
proof -
  have "\<exists>es. w_out w2 = w_out w @ es \<and> list_all (\<lambda>x. \<not> terminal x) es" if "quiet P Q w w2" for P Q w2
    using that by (auto simp: quiet_def list_all_iff)
  with runAgenticLoop_outcome [of rt ctx w env sid] show ?thesis
    unfolding w'_def turn_ends_def by fastforce
qed


text \<open>
  C4: A turn runs no tool it may not run: every call whose \<^verbatim>\<open>Execute\<close> was reached names a tool of
  the registry, and the approver is not in deny mode unless the context approves everything. In
  deny mode a turn therefore runs nothing.
\<close>
theorem turn_tools_permitted:
  fixes rt env ctx sid w
  defines "w' \<equiv> runAgenticLoop rt env ctx sid w"
  shows "\<exists>ts. w_ran w' = w_ran w @ ts \<and> list_all (permitted (rt_tools rt) ctx) ts"
  using runAgenticLoop_outcome [of rt ctx w env sid]
  by (auto simp: w'_def turn_ends_def quiet_def list_all_iff)

text \<open>
  C3: No tool runs unapproved: when \<^verbatim>\<open>executeTool\<close> reaches a tool's \<^verbatim>\<open>Execute\<close>, then
  there is no approver, or the context approves all calls, or the approver answered yes for a request
  that carries this call's tool and input; every run is recorded in the audit rows, and a refused
  call yields an error result for the same call id and an audit row of the refusal.
\<close>
theorem executeTool_gate:
  assumes "executeTool tp ctx answer exec reqID sid tc = tr"
  shows "(tt_ran tr \<longrightarrow> tp_approver tp = None \<or> autoApproveFromContext ctx
        \<or> (\<exists>a. tp_approver tp = Some a \<and> RequestApproval a answer
              \<lparr>apr_id = reqID, apr_session = sid, apr_tool = tc_name tc, apr_input = tc_input tc\<rparr> = Inr True))
    \<and> (tt_ran tr \<longrightarrow> (\<exists>detail. last (tt_audit tr) = (EventToolExec, tc_name tc, detail)))
    \<and> (\<forall>a. tp_approver tp = Some a \<and> \<not> autoApproveFromContext ctx \<and> RequestApproval a answer
              \<lparr>apr_id = reqID, apr_session = sid, apr_tool = tc_name tc, apr_input = tc_input tc\<rparr> = Inr False \<longrightarrow>
          tr_is_error (tt_result tr) \<and> tt_audit tr = [(EventToolDeny, tc_name tc, ''tool call denied by user'')])
    \<and> tr_tool_call_id (tt_result tr) = tc_id tc"
proof -
  have "tr_tool_call_id (tt_result tr) = tc_id tc" using assms executeTool_result by blast
  with assms show ?thesis
    by (auto simp: executeTool_def run_approved_def tool_error_def Let_def split_beta
        split: option.splits sum.splits bool.splits if_splits)
qed

definition demo_call :: tool_call where
  "demo_call = \<lparr>tc_id = ''c1'', tc_name = ''shell'', tc_input = ''{}''\<rparr>"

definition demo_tools :: tool_policy where
  "demo_tools = \<lparr>tp_approver = Some (NewApprover ''ask''),
     tp_registry = Some [(''shell'', \<lparr>Definition = \<lparr>td_name = ''shell'', td_description = [], td_input_schema = ''{}''\<rparr>, produces_images = False\<rparr>)],
     tp_policy = DefaultPolicy\<rparr>"

definition demo_ctx :: go_ctx where
  "demo_ctx = \<lparr>ctx_session_val = None, ctx_agent_val = None, ctx_depth_val = None, ctx_auto_approve = False\<rparr>"

theorem executeTool_gate_witness:
  "tr_is_error (tt_result (executeTool demo_tools demo_ctx (\<lambda>r. Inr False)
     (\<lambda>tc pol. \<lparr>to_output = ''done'', to_err = None, to_images = [], to_elapsed = 1\<rparr>) ''r1'' ''s'' demo_call))"
  using executeTool_gate [OF refl, of demo_tools demo_ctx "\<lambda>r. Inr False"
      "\<lambda>tc pol. \<lparr>to_output = ''done'', to_err = None, to_images = [], to_elapsed = 1\<rparr>" "''r1''" "''s''" demo_call]
  by (auto simp: demo_tools_def demo_ctx_def autoApproveFromContext_def RequestApproval_def request_start_def
      NewApprover_def parse_mode_def)



definition demo_env :: agent_env where
  "demo_env = \<lparr>env_chat = (\<lambda>n rq. Inr [EventToken ''hi'', EventDone None]), env_wait = (\<lambda>n d. None),
     env_tool = (\<lambda>n i tc pol. \<lparr>to_output = ''done'', to_err = None, to_images = [], to_elapsed = 1\<rparr>),
     env_approve = (\<lambda>n i r. Inr True), env_give_up = (\<lambda>n i. None), env_schedule = (\<lambda>n. []),
     env_newid = (\<lambda>n. ''id'' @ nat_to_dec n), env_now = int, env_audit_fault = (\<lambda>n. None),
     env_reqid = (\<lambda>n i. nat_to_dec i), env_mem = (\<lambda>n. []), env_mem_fault = (\<lambda>n. None), env_show_dur = (\<lambda>d. ''5s'')\<rparr>"

definition demo_world :: world where
  "demo_world = \<lparr>w_db = demo_db, w_audit = [], w_builder = Some (NewContextBuilder 0 0), w_mem_hashes = Map.empty,
     w_out = [], w_tick = 0, w_requests = [], w_ran = []\<rparr>"

definition demo_rt :: runtime where
  "demo_rt = \<lparr>rt_model = ''m'', rt_maxOutputTokens = 100, rt_maxToolIter = 3, rt_systemPrompt = ''sys'', rt_tools = demo_tools,
     rt_supports_tools = True, rt_has_memory = False, rt_has_audit = True, rt_recovery = demo_recovery, rt_strategies = [],
     rt_cooldown = 0, rt_checkpoint = Some 10, rt_verifier = None, rt_codec = demo_codec,
     rt_enc_calls = (\<lambda>t cs. Inr t), rt_enc_results = (\<lambda>rs. Inr []), rt_readFile = (\<lambda>p. None), rt_hash = (\<lambda>s. s),
     rt_marshal_names = concat\<rparr>"


text \<open>
  A tool that fails because its deadline passed is never retried, although its error is
  classified as transient: \<^verbatim>\<open>runTool\<close> marks the result transient, but the task passes on only
  the text of the error, which the recovery strategy classifies again, as permanent.
\<close>
theorem deadline_not_retried:
  assumes "map_of reg (tc_name tc) = Some tool" and "to_err (exec tc pol) = Some DeadlineExceeded"
  shows "ClassifyError DeadlineExceeded = Transient
    \<and> tr_error_kind (fst (runTool exec tc (Some reg) pol)) = ToolErrorTransient
    \<and> Decide d (task_result (tool_task tc elapsed (fst (runTool exec tc (Some reg) pol)))) attempt = ActionSkip"
proof -
  have no: "\<not> Contains ''error: context deadline exceeded'' ''timeout''" "\<not> Contains ''error: context deadline exceeded'' ''temporary''"
    "\<not> Contains ''error: context deadline exceeded'' ''connection refused''" by code_simp+
  have t: "ClassifyError DeadlineExceeded = Transient" by (simp add: ClassifyError_def is_permanent_error_def errors_Is_def)
  have "ClassifyError (ErrText ''error: context deadline exceeded'') = Permanent"
    unfolding ClassifyError_def by (simp add: is_permanent_error_def errors_Is_def no Let_def)
  with t assms show ?thesis
    by (simp add: runTool_def registry_Get_def Let_def tool_error_def tool_task_def task_result_def task_error_def Decide_def)
qed

theorem deadline_not_retried_witness:
  "Decide demo_recovery (task_result (tool_task demo_call 1 (fst (runTool
     (\<lambda>tc pol. \<lparr>to_output = [], to_err = Some DeadlineExceeded, to_images = [], to_elapsed = 1\<rparr>) demo_call (tp_registry demo_tools) DefaultPolicy)))) 0 = ActionSkip"
  using deadline_not_retried [of "the (tp_registry demo_tools)" demo_call _
      "\<lambda>tc pol. \<lparr>to_output = [], to_err = Some DeadlineExceeded, to_images = [], to_elapsed = 1\<rparr>" DefaultPolicy demo_recovery 1 0]
  by (simp add: demo_tools_def demo_call_def)

end
