(* ===== verification/Agent_Subturn.thy ===== *)
theory Agent_Subturn
  imports Agent_Turn
begin

section \<open>Sub-agents (\<^verbatim>\<open>RunSubturn\<close> of \<^verbatim>\<open>pkg/agent/agent.go\<close>)\<close>

text \<open>
  A sub-agent runs its own loop on a conversation kept in memory: no session, no audit rows, no
  recovery of failed tools, every call approved, and a registry without the tools that would
  start further agents. \<^term>\<open>None\<close> is the panic of a call on a nil registry.
\<close>

definition subagent_registry :: "registry \<Rightarrow> string list \<Rightarrow> registry" where
  "subagent_registry reg allowedTools =
     registry_Without (if allowedTools \<noteq> [] then registry_Filter reg allowedTools else reg) [''subagent'', ''spawn'']"

definition buildSubagentContext :: "runtime \<Rightarrow> agent_env \<Rightarrow> string \<Rightarrow> world \<Rightarrow> string" where
  "buildSubagentContext rt env agentID w =
     (if rt_has_memory rt then
        (case memory_BuildContext (env_mem_fault env (w_tick w)) (env_mem env (w_tick w)) agentID Map.empty of
           Inl _ \<Rightarrow> rt_systemPrompt rt
         | Inr (memCtx, _) \<Rightarrow> if memCtx \<noteq> [] then rt_systemPrompt rt @ nl @ nl @ memCtx else rt_systemPrompt rt)
      else rt_systemPrompt rt)"

definition sub_policy :: "runtime \<Rightarrow> policy" where
  "sub_policy rt = (if pol_Timeout (tp_policy (rt_tools rt)) = 0 then DefaultPolicy else tp_policy (rt_tools rt))\<lparr>RequireApproval := False\<rparr>"

definition sub_call_run :: "runtime \<Rightarrow> agent_env \<Rightarrow> registry \<Rightarrow> nat \<Rightarrow> nat \<Rightarrow> tool_call \<Rightarrow> tool_trace" where
  "sub_call_run rt env reg n i tc =
     (let (result, ran) = runTool (env_tool env n i) tc (Some reg) (sub_policy rt)
      in \<lparr>tt_result = result, tt_events = [], tt_audit = [], tt_ran = ran\<rparr>)"

definition sub_request :: "runtime \<Rightarrow> string \<Rightarrow> tool_definition list \<Rightarrow> chat_message list \<Rightarrow> chat_request" where
  "sub_request rt systemPrompt toolDefs msgs =
     \<lparr>rq_model = rt_model rt, rq_messages = msgs, rq_system = systemPrompt,
      rq_max_tokens = rt_maxOutputTokens rt, rq_stream = False, rq_tools = toolDefs\<rparr>"

definition sub_call_note :: "go_error \<Rightarrow> string" where
  "sub_call_note err = ''[System: LLM call failed: '' @ agent_truncate (err_msg err) ErrorTruncateLen @
     ''. Reduce response length or tool call count and try a different approach.]''"

definition sub_stream_note :: "go_error \<Rightarrow> string" where
  "sub_stream_note err = ''[System: Stream interrupted: '' @ agent_truncate (err_msg err) ErrorTruncateLen @
     ''. Previous output was lost. Retry with a shorter response or break into smaller steps.]''"

definition sub_pair :: "reply \<Rightarrow> tool_result list \<Rightarrow> chat_message list" where
  "sub_pair rp results =
     [\<lparr>cm_role = RoleAssistant, cm_content = rp_text rp, cm_tool_calls = rp_calls rp, cm_tool_results = []\<rparr>,
      \<lparr>cm_role = RoleUser, cm_content = [], cm_tool_calls = [], cm_tool_results = results\<rparr>]"

definition sub_tools :: "runtime \<Rightarrow> agent_env \<Rightarrow> go_ctx \<Rightarrow> registry \<Rightarrow> reply \<Rightarrow> world \<Rightarrow> tool_result list \<times> world" where
  "sub_tools rt env ctx reg rp w =
     (let (b, w1) = run_calls env (rt_tools rt) ctx False False (SessionIDFromContext ctx)
                      (sub_call_run rt env reg (w_tick w)) (rp_calls rp) w
      in (write_results (replicate (length (rp_calls rp)) zero_tool_result) (br_traces b), w1))"

text \<open>The loop on the iterations that are left, with the errors in a row and the conversation.\<close>

fun subturn_loop :: "runtime \<Rightarrow> agent_env \<Rightarrow> go_ctx \<Rightarrow> registry \<Rightarrow> string \<Rightarrow> tool_definition list \<Rightarrow> nat \<Rightarrow> nat \<Rightarrow>
    chat_message list \<Rightarrow> world \<Rightarrow> (go_error + string) \<times> world" where
  "subturn_loop rt env ctx reg sys defs 0 llmErrors msgs w = (Inr ''(max tool iterations reached)'', w)"
| "subturn_loop rt env ctx reg sys defs (Suc left) llmErrors msgs w =
     (case chatWithRetry env (sub_request rt sys defs msgs) False w of
        (Inl err, w1) \<Rightarrow>
          (if Suc llmErrors > LLMMaxErrors then (Inl (ErrWrap ''calling LLM: '' err), w1)
           else subturn_loop rt env ctx reg sys defs left (Suc llmErrors) (msgs @ [user_msg (sub_call_note err)]) w1)
      | (Inr events, w1) \<Rightarrow>
          (let rp = read_reply events in
           case rp_err rp of
             Some e \<Rightarrow>
               (if Suc llmErrors > LLMMaxErrors then (Inl (ErrWrap ''LLM error: '' e), w1)
                else subturn_loop rt env ctx reg sys defs left (Suc llmErrors) (msgs @ [user_msg (sub_stream_note e)]) w1)
           | None \<Rightarrow>
               (if rp_calls rp = [] then (Inr (rp_text rp), w1)
                else (let (results, w2) = sub_tools rt env ctx reg rp w1
                      in subturn_loop rt env ctx reg sys defs left 0 (msgs @ sub_pair rp results) w2))))"

definition RunSubturn :: "runtime \<Rightarrow> agent_env \<Rightarrow> go_ctx \<Rightarrow> string \<Rightarrow> string list \<Rightarrow> world \<Rightarrow> (go_error + string) option \<times> world" where
  "RunSubturn rt env ctx0 prompt allowedTools w =
     (let depth = SubagentDepthFromContext ctx0 in
      if depth \<ge> MaxSubagentDepth
      then (Some (Inl (ErrText (''subagent depth limit exceeded (max '' @ int_to_dec MaxSubagentDepth @ '')''))), w)
      else
        (let ctx = WithAutoApprove (WithSubagentDepth ctx0 (depth + 1)) in
         case tp_registry (rt_tools rt) of
           None \<Rightarrow> (None, w)
         | Some reg0 \<Rightarrow>
             (let reg = subagent_registry reg0 allowedTools;
                  sys = buildSubagentContext rt env (AgentIDFromContext ctx) w;
                  defs = (if rt_supports_tools rt then Definitions reg else []);
                  (r, w1) = subturn_loop rt env ctx reg sys defs (nat (rt_maxToolIter rt)) 0 [user_msg prompt] (next_tick w)
              in (Some r, w1))))"

subsection \<open>The sub-agent's registry\<close>

lemma subagent_registry_lookup:
  assumes "gomap_ok reg"
  shows "map_of (subagent_registry reg allowed) n =
    (if n \<in> {''subagent'', ''spawn''} \<or> (allowed \<noteq> [] \<and> n \<notin> set allowed) then None else map_of reg n)"
proof -
  have ok: "gomap_ok (registry_Filter reg allowed)"
    using assms by (simp add: registry_Filter_def filter_into_ok NewRegistry_def)
  show ?thesis
    using assms ok registry_Filter_lookup [of reg allowed n]
    by (simp add: subagent_registry_def registry_Without_lookup)
qed


lemma subagent_registry_names:
  assumes "registry_ok reg"
  shows "list_all (\<lambda>d. td_name d \<notin> {''subagent'', ''spawn''}) (Definitions (subagent_registry reg allowed))"
proof -
  have ok: "gomap_ok reg" using assms by (simp add: registry_ok_def)
  have ok': "gomap_ok (subagent_registry reg allowed)"
    unfolding subagent_registry_def registry_Without_def
    using without_ok [of NewRegistry "\<lambda>n. n \<notin> set [''subagent'', ''spawn'']"] by (simp add: NewRegistry_def)
  have "td_name (Definition t) \<notin> {''subagent'', ''spawn''}" if "(n, t) \<in> set (subagent_registry reg allowed)" for n t
  proof -
    from that have l: "map_of (subagent_registry reg allowed) n = Some t" using ok' by (simp add: gomap_lookup_iff)
    then have "n \<notin> {''subagent'', ''spawn''}" "map_of reg n = Some t"
      by (auto simp: subagent_registry_lookup [OF ok] split: if_splits)
    with registry_okD [OF assms] show ?thesis by auto
  qed
  then show ?thesis by (auto simp: Definitions_def list_all_iff)
qed

subsection \<open>The conversation stays well formed\<close>

lemma tool_paired_append:
  assumes "tool_paired xs" "tool_paired ys"
  shows "tool_paired (xs @ ys)"
  unfolding tool_paired_def
proof (intro conjI allI impI)
  fix i assume i: "i < length (xs @ ys)" "calls_msg ((xs @ ys) ! i)"
  show "Suc i < length (xs @ ys)" "results_msg ((xs @ ys) ! Suc i)"
  proof (atomize (full), cases "i < length xs")
    case True
    then show "Suc i < length (xs @ ys) \<and> results_msg ((xs @ ys) ! Suc i)"
      using i assms(1) by (auto simp: tool_paired_def nth_append)
  next
    case False
    then have "i - length xs < length ys" "calls_msg (ys ! (i - length xs))" using i by (auto simp: nth_append)
    then show "Suc i < length (xs @ ys) \<and> results_msg ((xs @ ys) ! Suc i)"
      using assms(2) False by (auto simp: tool_paired_def nth_append Suc_diff_le)
  qed
next
  fix i assume i: "i < length (xs @ ys)" "results_msg ((xs @ ys) ! i)"
  show "\<exists>j. i = Suc j \<and> calls_msg ((xs @ ys) ! j)"
  proof (cases "i < length xs")
    case True
    then show ?thesis using i assms(1) by (force simp: tool_paired_def nth_append)
  next
    case False
    then have "i - length xs < length ys" "results_msg (ys ! (i - length xs))" using i by (auto simp: nth_append)
    then obtain j where "i - length xs = Suc j" "calls_msg (ys ! j)" using assms(2) unfolding tool_paired_def by blast
    then show ?thesis by (intro exI [of _ "length xs + j"]) (auto simp: nth_append)
  qed
qed

lemma tool_paired_user [simp]: "tool_paired [user_msg c]"
  by (rule tool_paired_plain) (simp_all add: user_msg_def calls_msg_def results_msg_def)

lemma tool_paired_sub_pair: "rp_calls rp \<noteq> [] \<Longrightarrow> results \<noteq> [] \<Longrightarrow> tool_paired (sub_pair rp results)"
  unfolding sub_pair_def by (rule tool_paired_pair) (simp_all add: calls_msg_def results_msg_def)

lemma sub_tools_length: "sub_tools rt env ctx reg rp w = (results, w1) \<Longrightarrow> length results = length (rp_calls rp)"
  by (auto simp: sub_tools_def run_calls_def write_results_def batch_traces_def Let_def split_beta)

definition sub_permitted :: "registry \<Rightarrow> tool_call \<Rightarrow> bool" where
  "sub_permitted reg tc \<longleftrightarrow> map_of reg (tc_name tc) \<noteq> None"

definition sub_good_request :: "tool_definition list \<Rightarrow> chat_request \<Rightarrow> bool" where
  "sub_good_request defs rq \<longleftrightarrow> rq_messages rq \<noteq> [] \<and> tool_paired (rq_messages rq) \<and> rq_tools rq = defs"

interpretation sub_tools: turn_step "sub_permitted reg" Q "sub_tools rt env ctx reg rp" for reg Q rt env ctx rp
proof
  fix w
  have "quiet (sub_permitted reg) Q w (snd (run_calls env (rt_tools rt) ctx False False (SessionIDFromContext ctx)
      (sub_call_run rt env reg (w_tick w)) (rp_calls rp) w))"
    by (rule run_calls_quiet)
      (auto simp: sub_call_run_def sub_permitted_def Let_def split_beta dest!: runTool_ran)
  then show "quiet (sub_permitted reg) Q w (snd (sub_tools rt env ctx reg rp w))"
    by (simp add: sub_tools_def Let_def split_beta)
qed

lemma subturn_loop_quiet:
  "tool_paired msgs \<Longrightarrow> msgs \<noteq> [] \<Longrightarrow>
   quiet (sub_permitted reg) (sub_good_request defs) w (snd (subturn_loop rt env ctx reg sys defs left n msgs w))
   \<and> length (w_requests (snd (subturn_loop rt env ctx reg sys defs left n msgs w))) \<le> length (w_requests w) + Suc LLMMaxRetries * left"
proof (induction left arbitrary: n msgs w)
  case (Suc left)
  let ?P = "sub_permitted reg" and ?Q = "sub_good_request defs"
  obtain r w1 where c: "chatWithRetry env (sub_request rt sys defs msgs) False w = (r, w1)" by force
  have good: "?Q (sub_request rt sys defs msgs)" using Suc.prems by (simp add: sub_good_request_def sub_request_def)
  have q1: "quiet ?P ?Q w w1" by (rule chatWithRetry_quiet [of ?Q, OF good c])
  have n1: "length (w_requests w1) \<le> length (w_requests w) + Suc LLMMaxRetries"
    using chatWithRetry_requests [OF c] by auto
  have more: "quiet ?P ?Q w (snd (subturn_loop rt env ctx reg sys defs left n' (msgs @ ms) w2))
      \<and> length (w_requests (snd (subturn_loop rt env ctx reg sys defs left n' (msgs @ ms) w2))) \<le> length (w_requests w) + Suc LLMMaxRetries * Suc left"
    if "tool_paired ms" "quiet ?P ?Q w1 w2" "w_requests w2 = w_requests w1" for n' ms w2
    using Suc.IH [of "msgs @ ms" w2 n'] Suc.prems that tool_paired_append [OF Suc.prems(1) that(1)] n1
      quiet_trans [OF quiet_trans [OF q1 that(2)]] by (auto simp: algebra_simps)
  show ?case
  proof (cases r)
    case (Inl err)
    with q1 n1 more [of "[user_msg (sub_call_note err)]" w1] show ?thesis by (simp add: c algebra_simps)
  next
    case (Inr events)
    let ?rp = "read_reply events"
    show ?thesis
    proof (cases "rp_err ?rp")
      case (Some e)
      with q1 n1 Inr more [of "[user_msg (sub_stream_note e)]" w1] show ?thesis by (simp add: c Let_def algebra_simps)
    next
      case None
      show ?thesis
      proof (cases "rp_calls ?rp = []")
        case True
        with q1 n1 Inr None show ?thesis by (simp add: c Let_def algebra_simps)
      next
        case False
        obtain results w2 where s: "sub_tools rt env ctx reg ?rp w1 = (results, w2)" by force
        have "results \<noteq> []" using sub_tools_length [OF s] False by auto
        with False have "tool_paired (sub_pair ?rp results)" by (rule tool_paired_sub_pair)
        moreover have "w_requests w2 = w_requests w1"
          using sub_tools.quiet_result [OF s, where Q = "\<lambda>_. False"] by (rule quiet_no_request)
        ultimately show ?thesis
          using more [OF _ sub_tools.quiet_result [OF s]] Inr None False by (simp add: c s Let_def)
      qed
    qed
  qed
qed simp

subsection \<open>Properties\<close>




end
