(* ===== verification/Message_Split.thy ===== *)
theory Message_Split
  imports Prelude
begin

section \<open>Splitting long messages (\<^verbatim>\<open>pkg/channels/split.go\<close>)\<close>

text \<open>
  Replies are cut to the length a channel accepts: before an open code block, at a blank line,
  a line end, a space, or else at a rune boundary. Positions are byte offsets, as in Go.
  The UTF-8 decoding of package \<^verbatim>\<open>unicode/utf8\<close> is written out.
\<close>

subsection \<open>UTF-8\<close>

definition byte :: "char \<Rightarrow> nat" where
  "byte c = of_char c"

definition RuneStart :: "char \<Rightarrow> bool" where
  "RuneStart c \<longleftrightarrow> \<not> (128 \<le> byte c \<and> byte c < 192)"

definition cont :: "nat \<Rightarrow> nat \<Rightarrow> char \<Rightarrow> bool" where
  "cont lo hi c \<longleftrightarrow> lo \<le> byte c \<and> byte c \<le> hi"

text \<open>
  The ranges of the bytes that follow a lead byte (none for a byte that starts no encoding),
  and the length of the valid encoding a string starts with, or 0.
\<close>

definition trail_ranges :: "nat \<Rightarrow> (nat \<times> nat) list option" where
  "trail_ranges b =
     (if b < 0x80 then Some []
      else if 0xC2 \<le> b \<and> b \<le> 0xDF then Some [(0x80, 0xBF)]
      else if 0xE0 \<le> b \<and> b \<le> 0xEF
      then Some [(if b = 0xE0 then 0xA0 else 0x80, if b = 0xED then 0x9F else 0xBF), (0x80, 0xBF)]
      else if 0xF0 \<le> b \<and> b \<le> 0xF4
      then Some [(if b = 0xF0 then 0x90 else 0x80, if b = 0xF4 then 0x8F else 0xBF), (0x80, 0xBF), (0x80, 0xBF)]
      else None)"

fun trails :: "(nat \<times> nat) list \<Rightarrow> string \<Rightarrow> bool" where
  "trails [] t = True"
| "trails ((lo, hi) # rs) [] = False"
| "trails ((lo, hi) # rs) (c # t) = (cont lo hi c \<and> trails rs t)"

definition rune_len :: "string \<Rightarrow> nat" where
  "rune_len s =
     (case s of [] \<Rightarrow> 0
      | c # t \<Rightarrow> (case trail_ranges (byte c) of None \<Rightarrow> 0 | Some rs \<Rightarrow> if trails rs t then Suc (length rs) else 0))"

lemma trails_length: "trails rs t \<Longrightarrow> length rs \<le> length t"
  by (induction rs t rule: trails.induct) auto

lemma trails_append: "trails rs t \<Longrightarrow> trails rs (t @ u)"
  by (induction rs t rule: trails.induct) auto

lemma trails_take: "trails rs t \<Longrightarrow> length rs \<le> k \<Longrightarrow> trails rs (take k t)"
proof (induction rs t arbitrary: k rule: trails.induct)
  case (3 lo hi rs c t)
  then show ?case by (cases k) auto
qed auto

lemma trails_nth: "trails rs t \<Longrightarrow> j < length rs \<Longrightarrow> cont (fst (rs ! j)) (snd (rs ! j)) (t ! j)"
proof (induction rs t arbitrary: j rule: trails.induct)
  case (3 lo hi rs c t)
  then show ?case by (cases j) auto
qed auto

lemma trail_ranges_cont:
  "trail_ranges b = Some rs \<Longrightarrow> length rs \<le> 3 \<and> list_all (\<lambda>r. 128 \<le> fst r \<and> snd r < 192) rs"
  by (auto simp: trail_ranges_def split: if_splits)

text \<open>The size \<^verbatim>\<open>utf8.DecodeRuneInString\<close> returns; an invalid byte has size 1.\<close>

definition decode_size :: "string \<Rightarrow> nat" where
  "decode_size s = (if s = [] then 0 else if rune_len s = 0 then 1 else rune_len s)"

lemma rune_len_bounds: "rune_len s \<le> 4" "rune_len s \<le> length s"
  by (auto simp: rune_len_def split: list.splits option.splits dest: trail_ranges_cont trails_length)

lemma decode_size_bounds: "s \<noteq> [] \<Longrightarrow> 0 < decode_size s" "decode_size s \<le> 4" "decode_size s \<le> length s"
  using rune_len_bounds [of s] by (cases s; simp add: decode_size_def)+

function valid_utf8 :: "string \<Rightarrow> bool" where
  "valid_utf8 s = (if s = [] then True else if rune_len s = 0 then False else valid_utf8 (drop (rune_len s) s))"
  by pat_completeness auto
termination
  by (relation "measure length") auto

declare valid_utf8.simps [simp del]

subsection \<open>Cut points\<close>

definition runeAlignedCut :: "string \<Rightarrow> nat \<Rightarrow> nat" where
  "runeAlignedCut content maxLen =
     (if maxLen \<ge> length content then length content
      else (let k = length (dropWhile (\<lambda>c. \<not> RuneStart c) (rev (take (Suc maxLen) content))) - 1
            in if k = 0 then decode_size content else k))"

definition fence :: string where "fence = ''```''"

text \<open>The offset of the first newline at or after \<open>j\<close>, or the end.\<close>

definition line_end :: "string \<Rightarrow> nat \<Rightarrow> nat" where
  "line_end content j = j + length (takeWhile (\<lambda>c. c \<noteq> newline) (drop j content))"

function code_scan :: "string \<Rightarrow> nat \<Rightarrow> bool \<Rightarrow> nat \<Rightarrow> nat \<Rightarrow> bool \<times> nat" where
  "code_scan content maxLen opened lastFenceEnd i =
     (if i < length content \<and> i < maxLen then
        (if HasPrefix (drop i content) fence then
           (if \<not> opened then
              code_scan content maxLen True (if i > 0 then i else lastFenceEnd) (line_end content (i + 3))
            else
              (let e = line_end content (i + 3);
                   fenceEnd = (if e < length content then e + 1 else e)
               in code_scan content maxLen False (if fenceEnd \<le> maxLen then fenceEnd else lastFenceEnd) (i + 3)))
         else code_scan content maxLen opened lastFenceEnd (i + 1))
      else (opened, lastFenceEnd))"
  by pat_completeness auto
termination
  by (relation "measure (\<lambda>(content, maxLen, opened, lastFenceEnd, i). length content - i)") (auto simp: line_end_def)

declare code_scan.simps [simp del]

definition findCodeBlockSafeCut :: "string \<Rightarrow> nat \<Rightarrow> nat" where
  "findCodeBlockSafeCut content maxLen =
     (let (opened, lastFenceEnd) = code_scan content maxLen False 0 0
      in if opened \<and> lastFenceEnd > 0 then lastFenceEnd else 0)"

definition cut_after :: "string \<Rightarrow> string \<Rightarrow> nat option" where
  "cut_after s sep = (case LastIndex s sep of Some idx \<Rightarrow> if idx > 0 then Some (idx + length sep) else None | None \<Rightarrow> None)"

definition findCutPoint :: "string \<Rightarrow> nat \<Rightarrow> nat" where
  "findCutPoint content maxLen =
     (let codeBlockCut = findCodeBlockSafeCut content maxLen;
          effective = (if codeBlockCut > 0 then codeBlockCut else maxLen);
          window = take effective content
      in case cut_after window (nl @ nl) of Some k \<Rightarrow> k
         | None \<Rightarrow> (case cut_after window nl of Some k \<Rightarrow> k
         | None \<Rightarrow> (case cut_after window '' '' of Some k \<Rightarrow> k
         | None \<Rightarrow> runeAlignedCut content effective)))"

lemma code_scan_le: "lastFenceEnd \<le> maxLen \<Longrightarrow> snd (code_scan content maxLen opened lastFenceEnd i) \<le> maxLen"
proof (induction content maxLen opened lastFenceEnd i rule: code_scan.induct)
  case (1 content maxLen opened lastFenceEnd i)
  then show ?case by (subst code_scan.simps) (auto simp: Let_def)
qed

lemma findCodeBlockSafeCut_le: "findCodeBlockSafeCut content maxLen \<le> maxLen"
  using code_scan_le [of 0 maxLen content False 0] by (simp add: findCodeBlockSafeCut_def split_beta Let_def)

lemma cut_after_bounds:
  "cut_after s sep = Some k \<Longrightarrow> 0 < k \<and> length sep \<le> k \<and> k \<le> length s \<and> take (length sep) (drop (k - length sep) s) = sep"
  using LastIndex_Some [of s sep] by (auto simp: cut_after_def split: option.splits if_splits)

lemma runeAlignedCut_bounds:
  assumes "content \<noteq> []"
  shows "0 < runeAlignedCut content n \<and> runeAlignedCut content n \<le> length content \<and> runeAlignedCut content n \<le> max n 4
    \<or> n \<ge> length content \<and> runeAlignedCut content n = length content"
proof (cases "n \<ge> length content")
  case False
  let ?d = "dropWhile (\<lambda>c. \<not> RuneStart c) (rev (take (Suc n) content))"
  have "length ?d \<le> length (rev (take (Suc n) content))" by (rule length_dropWhile_le)
  with False have "length ?d \<le> Suc n" by simp
  with False assms decode_size_bounds [of content] show ?thesis by (auto simp: runeAlignedCut_def Let_def)
qed (simp add: runeAlignedCut_def)

text \<open>The length of the window the cut is looked for in.\<close>

definition cut_window :: "string \<Rightarrow> nat \<Rightarrow> nat" where
  "cut_window content maxLen =
     (if findCodeBlockSafeCut content maxLen > 0 then findCodeBlockSafeCut content maxLen else maxLen)"

lemma findCutPoint_cases:
  obtains (sep) sep where "cut_after (take (cut_window content maxLen) content) sep = Some (findCutPoint content maxLen)"
      "sep \<in> {nl @ nl, nl, '' ''}"
  | (rune) "findCutPoint content maxLen = runeAlignedCut content (cut_window content maxLen)"
proof -
  let ?w = "take (cut_window content maxLen) content"
  have fc: "findCutPoint content maxLen =
      (case cut_after ?w (nl @ nl) of Some k \<Rightarrow> k
       | None \<Rightarrow> (case cut_after ?w nl of Some k \<Rightarrow> k
       | None \<Rightarrow> (case cut_after ?w '' '' of Some k \<Rightarrow> k | None \<Rightarrow> runeAlignedCut content (cut_window content maxLen))))"
    unfolding findCutPoint_def Let_def cut_window_def ..
  consider k where "cut_after ?w (nl @ nl) = Some k" | k where "cut_after ?w (nl @ nl) = None" "cut_after ?w nl = Some k"
    | k where "cut_after ?w (nl @ nl) = None" "cut_after ?w nl = None" "cut_after ?w '' '' = Some k"
    | "cut_after ?w (nl @ nl) = None" "cut_after ?w nl = None" "cut_after ?w '' '' = None"
    by (meson option.exhaust)
  then show thesis
  proof cases
    case 1
    then show thesis by (intro sep [of "nl @ nl"]) (simp_all add: fc)
  next
    case 2
    then show thesis by (intro sep [of nl]) (simp_all add: fc)
  next
    case 3
    then show thesis by (intro sep [of "'' ''"]) (simp_all add: fc)
  next
    case 4
    then show thesis by (intro rune) (simp add: fc)
  qed
qed

lemma cut_window_le: "cut_window content maxLen \<le> maxLen"
  using findCodeBlockSafeCut_le by (simp add: cut_window_def)

lemma findCutPoint_bounds:
  assumes "maxLen < length content"
  shows "0 < findCutPoint content maxLen" "findCutPoint content maxLen \<le> length content" "findCutPoint content maxLen \<le> max maxLen 4"
proof -
  have ne: "content \<noteq> []" using assms by auto
  have "0 < findCutPoint content maxLen \<and> findCutPoint content maxLen \<le> length content \<and> findCutPoint content maxLen \<le> max maxLen 4"
  proof (cases rule: findCutPoint_cases [of content maxLen])
    case (sep sep)
    then show ?thesis using cut_after_bounds [OF sep(1)] cut_window_le [of content maxLen] by auto
  next
    case rune
    then show ?thesis
      using runeAlignedCut_bounds [OF ne, of "cut_window content maxLen"] cut_window_le [of content maxLen] assms by force
  qed
  then show "0 < findCutPoint content maxLen" "findCutPoint content maxLen \<le> length content" "findCutPoint content maxLen \<le> max maxLen 4"
    by simp_all
qed

subsection \<open>Splitting\<close>

function split_loop :: "string \<Rightarrow> nat \<Rightarrow> string list" where
  "split_loop content maxLen =
     (if content = [] then []
      else if length content \<le> maxLen then [content]
      else (let cut = findCutPoint content maxLen in take cut content # split_loop (drop cut content) maxLen))"
  by pat_completeness auto
termination
proof (relation "measure (\<lambda>(content, maxLen). length content)", goal_cases)
  case (2 content maxLen cut)
  then show ?case using findCutPoint_bounds(1) [of maxLen content] by simp
qed simp

declare split_loop.simps [simp del]

definition SplitMessage :: "string \<Rightarrow> int \<Rightarrow> string list" where
  "SplitMessage content maxLen =
     (if maxLen \<le> 0 \<or> int (length content) \<le> maxLen then [content] else split_loop content (nat maxLen))"

lemma split_loop_concat: "concat (split_loop content maxLen) = content"
proof (induction content maxLen rule: split_loop.induct)
  case (1 content maxLen)
  then show ?case by (subst split_loop.simps) (simp add: Let_def)
qed

lemma split_loop_chunks: "c \<in> set (split_loop content maxLen) \<Longrightarrow> c \<noteq> [] \<and> length c \<le> max maxLen 4"
proof (induction content maxLen rule: split_loop.induct)
  case (1 content maxLen)
  show ?case
  proof (cases "content = [] \<or> length content \<le> maxLen")
    case True
    with "1.prems" show ?thesis by (subst (asm) split_loop.simps) (auto split: if_splits)
  next
    case False
    with "1.prems" have "c = take (findCutPoint content maxLen) content \<or> c \<in> set (split_loop (drop (findCutPoint content maxLen) content) maxLen)"
      by (subst (asm) split_loop.simps) (auto simp: Let_def)
    then show ?thesis
      using False findCutPoint_bounds [of maxLen content] "1.IH" [OF _ _ refl] by (auto simp: min_def)
  qed
qed


subsection \<open>Runes stay whole\<close>

lemma rune_len_append: "0 < rune_len a \<Longrightarrow> rune_len (a @ b) = rune_len a"
  by (auto simp: rune_len_def trails_append split: list.splits option.splits if_splits)

lemma rune_len_take: "0 < rune_len s \<Longrightarrow> rune_len s \<le> k \<Longrightarrow> rune_len (take k s) = rune_len s"
  by (cases s; cases k) (auto simp: rune_len_def trails_take split: option.splits if_splits)

lemma rune_cont: "0 < j \<Longrightarrow> j < rune_len s \<Longrightarrow> \<not> RuneStart (s ! j)"
proof (cases s)
  case (Cons c t)
  assume j: "0 < j" "j < rune_len s"
  then obtain i where i: "j = Suc i" by (cases j) auto
  from j Cons obtain rs where rs: "trail_ranges (byte c) = Some rs" "trails rs t" "i < length rs"
    by (auto simp: rune_len_def i split: option.splits if_splits)
  from trail_ranges_cont [OF rs(1)] rs(3) have "128 \<le> fst (rs ! i) \<and> snd (rs ! i) < 192" by (auto simp: list_all_length)
  with trails_nth [OF rs(2,3)] show ?thesis by (simp add: Cons i RuneStart_def cont_def)
qed (simp add: rune_len_def)

lemma valid_cons: "s \<noteq> [] \<Longrightarrow> valid_utf8 s \<longleftrightarrow> 0 < rune_len s \<and> valid_utf8 (drop (rune_len s) s)"
  by (subst valid_utf8.simps) auto

lemma valid_Nil [simp]: "valid_utf8 []"
  by (subst valid_utf8.simps) simp

lemma valid_append: "valid_utf8 a \<Longrightarrow> valid_utf8 b \<Longrightarrow> valid_utf8 (a @ b)"
proof (induction a rule: valid_utf8.induct)
  case (1 a)
  show ?case
  proof (cases "a = []")
    case False
    with 1 have r: "0 < rune_len a" "valid_utf8 (drop (rune_len a) a)" by (simp_all add: valid_cons)
    with 1 False have "valid_utf8 (drop (rune_len a) a @ b)" by simp
    with r False rune_len_bounds(2) [of a] show ?thesis by (simp add: valid_cons rune_len_append)
  qed (use 1 in simp)
qed

lemma valid_split:
  "valid_utf8 s \<Longrightarrow> k < length s \<Longrightarrow> RuneStart (s ! k) \<Longrightarrow> valid_utf8 (take k s) \<and> valid_utf8 (drop k s)"
proof (induction s arbitrary: k rule: valid_utf8.induct)
  case (1 s)
  then have ne: "s \<noteq> []" by auto
  with "1.prems" have r: "0 < rune_len s" "valid_utf8 (drop (rune_len s) s)" by (simp_all add: valid_cons)
  show ?case
  proof (cases "k = 0")
    case False
    have ge: "rune_len s \<le> k" using rune_cont [of k s] False "1.prems"(3) by (meson not_le_imp_less gr0I)
    have le: "rune_len s \<le> length s" by (rule rune_len_bounds)
    have "valid_utf8 (take (k - rune_len s) (drop (rune_len s) s)) \<and> valid_utf8 (drop (k - rune_len s) (drop (rune_len s) s))"
      by (rule "1.IH" [OF ne _ r(2)]) (use r ge le "1.prems" in simp_all)
    then have v: "valid_utf8 (drop (rune_len s) (take k s))" "valid_utf8 (drop k s)"
      using ge by (simp_all add: drop_take)
    have "take k s \<noteq> []" using False ne by simp
    from valid_cons [OF this] rune_len_take [OF r(1) ge] r(1) v(1) have "valid_utf8 (take k s)" by simp
    with v(2) show ?thesis by simp
  qed (use "1.prems" in simp)
qed

lemma valid_after_ascii:
  assumes "valid_utf8 s" "j < length s" "byte (s ! j) < 128"
  shows "valid_utf8 (take (Suc j) s) \<and> valid_utf8 (drop (Suc j) s)"
proof -
  have st: "RuneStart (s ! j)" using assms(3) by (simp add: RuneStart_def)
  from valid_split [OF assms(1,2) st] have v: "valid_utf8 (take j s)" "valid_utf8 (drop j s)" by auto
  have one: "rune_len (s ! j # t) = 1" for t using assms(3) by (simp add: rune_len_def trail_ranges_def)
  have d: "drop j s = s ! j # drop (Suc j) s" using assms(2) by (simp add: Cons_nth_drop_Suc)
  from v(2) have "valid_utf8 (drop (Suc j) s)" unfolding d by (simp add: valid_cons one)
  moreover have "valid_utf8 [s ! j]" by (simp add: valid_cons one)
  with v(1) have "valid_utf8 (take j s @ [s ! j])" by (rule valid_append)
  ultimately show ?thesis using assms(2) by (simp add: take_Suc_conv_app_nth)
qed

lemma dropWhile_rev_hd:
  assumes "dropWhile P (rev xs) \<noteq> []"
  shows "\<not> P (xs ! (length (dropWhile P (rev xs)) - 1)) \<and> length (dropWhile P (rev xs)) \<le> length xs"
proof -
  let ?d = "dropWhile P (rev xs)"
  obtain ys where "rev xs = ys @ ?d" by (metis takeWhile_dropWhile_id)
  then have xs: "xs = rev ?d @ rev ys" by (metis rev_append rev_rev_ident)
  have "xs ! (length ?d - 1) = rev ?d ! (length ?d - 1)"
    using assms by (subst xs) (simp add: nth_append)
  also have "\<dots> = hd ?d" using assms by (simp add: rev_nth hd_conv_nth)
  finally show ?thesis using hd_dropWhile [OF assms] length_dropWhile_le [of P "rev xs"] by auto
qed

lemma runeAlignedCut_valid:
  assumes "valid_utf8 s" "n < length s"
  shows "valid_utf8 (take (runeAlignedCut s n) s) \<and> valid_utf8 (drop (runeAlignedCut s n) s)"
proof -
  let ?d = "dropWhile (\<lambda>c. \<not> RuneStart c) (rev (take (Suc n) s))"
  show ?thesis
  proof (cases "length ?d - 1 = 0")
    case True
    from assms have ne: "s \<noteq> []" by auto
    with assms(1) have r: "0 < rune_len s" "valid_utf8 (drop (rune_len s) s)" by (simp_all add: valid_cons)
    have t: "rune_len (take (rune_len s) s) = rune_len s" using r(1) by (rule rune_len_take) simp
    have "valid_utf8 (take (rune_len s) s)"
      using r(1) ne by (subst valid_cons) (simp_all add: t)
    with True r assms(2) show ?thesis by (simp add: runeAlignedCut_def decode_size_def Let_def)
  next
    case False
    then have "?d \<noteq> []" by (metis diff_0_eq_0 list.size(3))
    from dropWhile_rev_hd [OF this] assms(2) False
    have "RuneStart (s ! (length ?d - 1))" "length ?d - 1 < length s" by auto
    with valid_split assms False show ?thesis by (simp add: runeAlignedCut_def Let_def)
  qed
qed

lemma findCutPoint_valid:
  assumes "valid_utf8 s" "maxLen < length s"
  shows "valid_utf8 (take (findCutPoint s maxLen) s) \<and> valid_utf8 (drop (findCutPoint s maxLen) s)"
proof (cases rule: findCutPoint_cases [of s maxLen])
  case (sep sep)
  let ?k = "findCutPoint s maxLen" and ?w = "take (cut_window s maxLen) s"
  note b = cut_after_bounds [OF sep(1)]
  have ascii: "sep \<noteq> []" "byte (last sep) < 128"
    using sep(2) by (auto simp: nl_def newline_def byte_def)
  have lt: "?k - 1 < length s" "?k - 1 < length ?w" using b by auto
  have i: "length sep - 1 < length sep" "?k - length sep + (length sep - 1) = ?k - 1"
    using b ascii(1) by (auto simp: Suc_le_eq)
  have "take (length sep) (drop (?k - length sep) ?w) ! (length sep - 1) = ?w ! (?k - 1)"
    unfolding nth_take [OF i(1)] using b i(2) by (subst nth_drop) auto
  with b have "sep ! (length sep - 1) = ?w ! (?k - 1)" by metis
  then have "byte (s ! (?k - 1)) < 128" using ascii lt by (simp add: last_conv_nth)
  with valid_after_ascii [OF assms(1) lt(1)] b show ?thesis by simp
next
  case rune
  have "cut_window s maxLen < length s" using cut_window_le [of s maxLen] assms(2) by linarith
  with rune runeAlignedCut_valid [OF assms(1)] show ?thesis by simp
qed

lemma split_loop_valid: "valid_utf8 s \<Longrightarrow> list_all valid_utf8 (split_loop s maxLen)"
proof (induction s maxLen rule: split_loop.induct)
  case (1 s maxLen)
  show ?case
  proof (cases "s = [] \<or> length s \<le> maxLen")
    case True
    with "1.prems" show ?thesis by (subst split_loop.simps) auto
  next
    case False
    with 1 findCutPoint_valid [of s maxLen] show ?thesis
      by (subst split_loop.simps) (simp add: Let_def)
  qed
qed

subsection \<open>Properties\<close>

text \<open>
  C16: Splitting a message loses nothing: the chunks concatenate to the message, none is longer than
  the channel's limit (a limit below 4 bytes can be exceeded by a single rune), none is empty
  unless the message is, and when the message is valid UTF-8 every chunk is: no
  character is cut apart, whatever mixture of code blocks, lines and runes it holds.
\<close>
theorem SplitMessage_faithful:
  assumes "valid_utf8 content" and "0 < maxLen"
  shows "concat (SplitMessage content maxLen) = content
    \<and> list_all (\<lambda>c. int (length c) \<le> max maxLen 4 \<and> valid_utf8 c \<and> (content \<noteq> [] \<longrightarrow> c \<noteq> [])) (SplitMessage content maxLen)"
proof (cases "int (length content) \<le> maxLen")
  case True
  with assms show ?thesis by (simp add: SplitMessage_def)
next
  case False
  have "int (length c) \<le> max maxLen 4 \<and> c \<noteq> []" if "c \<in> set (split_loop content (nat maxLen))" for c
    using split_loop_chunks [OF that] assms(2) by auto
  with False assms split_loop_valid [OF assms(1), of "nat maxLen"] split_loop_concat [of content "nat maxLen"]
  show ?thesis by (simp add: SplitMessage_def list_all_iff)
qed

theorem SplitMessage_faithful_witness:
  "concat (SplitMessage (''ab '' @ [CHR 0xC3, CHR 0xA9] @ ''cdef'') 4) = ''ab '' @ [CHR 0xC3, CHR 0xA9] @ ''cdef''
   \<and> list_all valid_utf8 (SplitMessage (''ab '' @ [CHR 0xC3, CHR 0xA9] @ ''cdef'') 4)"
proof -
  have "valid_utf8 (''ab '' @ [CHR 0xC3, CHR 0xA9] @ ''cdef'')" by code_simp
  from SplitMessage_faithful [OF this, of 4] show ?thesis by (auto simp: list_all_iff)
qed

end
