(* ===== verification/Session_Map.thy ===== *)
theory Session_Map
  imports Prelude
begin

section \<open>Session ids of channels (\<^verbatim>\<open>pkg/channels/sessionmap.go\<close>)\<close>

text \<open>
  Every chat adapter names the sessions of its channels with a \<^verbatim>\<open>SessionMap\<close>: the id of a
  channel is the adapter's prefix and a printed key, kept with its inverse so that a reply to
  the session finds the channel. \<^verbatim>\<open>GetOrCreate\<close> reads under the shared lock and, on a miss, runs
  a second section under the exclusive lock; other callers may run between the two, so calls are
  steps of a trace. The locale \<open>session_naming\<close> states what the adapters owe: an injective key.
\<close>

record 'k session_map =
  sm_forward :: "'k \<rightharpoonup> string"
  sm_reverse :: "string \<rightharpoonup> 'k"
  sm_prefix :: string
  sm_toKey :: "'k \<Rightarrow> string"

definition NewSessionMap :: "string \<Rightarrow> ('k \<Rightarrow> string) \<Rightarrow> 'k session_map" where
  "NewSessionMap pre toKey = \<lparr>sm_forward = Map.empty, sm_reverse = Map.empty, sm_prefix = pre, sm_toKey = toKey\<rparr>"

definition session_id :: "'k session_map \<Rightarrow> 'k \<Rightarrow> string" where
  "session_id sm k = sm_prefix sm @ ''-'' @ sm_toKey sm k"

text \<open>The section under the exclusive lock, which looks again before it creates.\<close>

definition create_locked :: "'k session_map \<Rightarrow> 'k \<Rightarrow> string \<times> 'k session_map" where
  "create_locked sm k =
     (case sm_forward sm k of
        Some sid \<Rightarrow> (sid, sm)
      | None \<Rightarrow> (let sid = session_id sm k in
          (sid, sm\<lparr>sm_forward := (sm_forward sm)(k \<mapsto> sid), sm_reverse := (sm_reverse sm)(sid \<mapsto> k)\<rparr>)))"

definition GetOrCreate :: "'k session_map \<Rightarrow> 'k \<Rightarrow> string \<times> 'k session_map" where
  "GetOrCreate sm k = (case sm_forward sm k of Some sid \<Rightarrow> (sid, sm) | None \<Rightarrow> create_locked sm k)"

definition Lookup :: "'k session_map \<Rightarrow> 'k \<Rightarrow> string option" where
  "Lookup sm k = sm_forward sm k"

definition Reverse :: "'k session_map \<Rightarrow> string \<Rightarrow> 'k option" where
  "Reverse sm sid = sm_reverse sm sid"

text \<open>
  The calls that have returned, in order: from the read, or from the exclusive section entered
  after a read that missed.
\<close>

inductive smap_run :: "'k session_map \<Rightarrow> ('k \<times> string) list \<Rightarrow> 'k session_map \<Rightarrow> bool" for sm0 where
  start: "smap_run sm0 [] sm0"
| hit: "smap_run sm0 tr sm \<Longrightarrow> sm_forward sm k = Some sid \<Longrightarrow> smap_run sm0 (tr @ [(k, sid)]) sm"
| miss: "smap_run sm0 tr sm \<Longrightarrow> create_locked sm k = (sid, sm') \<Longrightarrow> smap_run sm0 (tr @ [(k, sid)]) sm'"

inductive_cases smap_run_snocE: "smap_run sm0 (tr @ [x]) sm"

lemma GetOrCreate_run: "smap_run sm0 tr sm \<Longrightarrow> GetOrCreate sm k = (sid, sm') \<Longrightarrow> smap_run sm0 (tr @ [(k, sid)]) sm'"
  by (auto simp: GetOrCreate_def intro: smap_run.intros split: option.splits)

subsection \<open>What holds for every key\<close>

text \<open>Ids are the printed keys, every returned id stays in the map, and the inverse only names created keys.\<close>

definition naming_inv :: "string \<Rightarrow> ('k \<Rightarrow> string) \<Rightarrow> ('k \<times> string) list \<Rightarrow> 'k session_map \<Rightarrow> bool" where
  "naming_inv pre toKey tr sm \<longleftrightarrow>
     sm_prefix sm = pre \<and> sm_toKey sm = toKey
     \<and> (\<forall>k sid. sm_forward sm k = Some sid \<longrightarrow> sid = pre @ ''-'' @ toKey k \<and> sm_reverse sm sid \<noteq> None)
     \<and> (\<forall>sid k. sm_reverse sm sid = Some k \<longrightarrow> sm_forward sm k = Some sid)
     \<and> (\<forall>(k, sid) \<in> set tr. sm_forward sm k = Some sid)"

lemma naming_inv_create:
  assumes "naming_inv pre toKey tr sm" "create_locked sm k = (sid, sm')"
  shows "naming_inv pre toKey (tr @ [(k, sid)]) sm'"
proof (cases "sm_forward sm k")
  case None
  then have sid: "sid = pre @ ''-'' @ toKey k" and sm': "sm_forward sm' = (sm_forward sm)(k \<mapsto> sid)"
      "sm_reverse sm' = (sm_reverse sm)(sid \<mapsto> k)" "sm_prefix sm' = pre" "sm_toKey sm' = toKey"
    using assms by (auto simp: create_locked_def session_id_def naming_inv_def Let_def)
  have tr: "\<forall>(k', s') \<in> set tr. k' \<noteq> k" using assms(1) None by (auto simp: naming_inv_def)
  show ?thesis using assms(1) None tr unfolding naming_inv_def sm' by (auto simp: sid)
qed (use assms in \<open>auto simp: create_locked_def naming_inv_def\<close>)

lemma smap_run_inv: "smap_run (NewSessionMap pre toKey) tr sm \<Longrightarrow> naming_inv pre toKey tr sm"
proof (induction rule: smap_run.induct)
  case start
  show ?case by (simp add: naming_inv_def NewSessionMap_def)
next
  case (hit tr sm k sid)
  then show ?case by (auto simp: naming_inv_def)
next
  case (miss tr sm k sid sm')
  show ?case by (rule naming_inv_create [OF miss.IH miss.hyps(2)])
qed

subsection \<open>Injective keys\<close>

locale session_naming =
  fixes toKey :: "'k \<Rightarrow> string"
  assumes inj_key: "inj toKey"
begin

lemma reverse_ok:
  assumes "smap_run (NewSessionMap pre toKey) tr sm" "(k, sid) \<in> set tr"
  shows "sid = pre @ ''-'' @ toKey k \<and> Lookup sm k = Some sid \<and> Reverse sm sid = Some k"
proof -
  from smap_run_inv [OF assms(1)] assms(2)
  have f: "sm_forward sm k = Some sid" "sid = pre @ ''-'' @ toKey k" "sm_reverse sm sid \<noteq> None"
    and inv: "\<And>k'. sm_reverse sm sid = Some k' \<Longrightarrow> sid = pre @ ''-'' @ toKey k'"
    unfolding naming_inv_def by fastforce+
  then show ?thesis using inj_key by (auto simp: Lookup_def Reverse_def dest: injD)
qed

end

text \<open>
  The keys of the adapters: Telegram prints its 64-bit chat id in decimal; Discord, Slack and
  Matrix use the id of the channel itself.
\<close>

definition telegram_key :: "64 word \<Rightarrow> string" where
  "telegram_key k = int_to_dec (sint k)"

definition string_key :: "string \<Rightarrow> string" where
  "string_key k = k"

interpretation telegram: session_naming telegram_key
  by unfold_locales (auto intro!: injI signed_word_eqI simp: telegram_key_def dest: injD [OF inj_int_to_dec])

interpretation string_channel: session_naming string_key
  by unfold_locales (simp add: string_key_def inj_def)

subsection \<open>Properties\<close>

text \<open>
  a session map finds the channel of every session it has named, under any interleaving of
  callers, exactly when the key function is injective. Then every caller of a channel gets the
  same id, which maps back to the channel. With a key that two channels share (as the WhatsApp
  adapter's, which prints only the user part of the address) the two channels get one session, and
  its replies go to the one that came last.
\<close>

theorem SessionMap_roundtrip:
  "(\<forall>tr sm. smap_run (NewSessionMap pre toKey) tr sm \<longrightarrow> list_all (\<lambda>(k, sid). Lookup sm k = Some sid \<and> Reverse sm sid = Some k) tr)
   \<longleftrightarrow> inj toKey"
proof
  assume "inj toKey"
  then have naming: "session_naming toKey" by unfold_locales
  show "\<forall>tr sm. smap_run (NewSessionMap pre toKey) tr sm \<longrightarrow> list_all (\<lambda>(k, sid). Lookup sm k = Some sid \<and> Reverse sm sid = Some k) tr"
    using session_naming.reverse_ok [OF naming] by (fastforce simp: list_all_iff)
next
  assume ok: "\<forall>tr sm. smap_run (NewSessionMap pre toKey) tr sm \<longrightarrow> list_all (\<lambda>(k, sid). Lookup sm k = Some sid \<and> Reverse sm sid = Some k) tr"
  show "inj toKey"
  proof (rule injI)
    fix a b assume eq: "toKey a = toKey b"
    obtain s1 sm1 where 1: "GetOrCreate (NewSessionMap pre toKey) a = (s1, sm1)" by force
    obtain s2 sm2 where 2: "GetOrCreate sm1 b = (s2, sm2)" by force
    have "smap_run (NewSessionMap pre toKey) ([] @ [(a, s1)]) sm1" using 1 by (rule GetOrCreate_run [OF start])
    from GetOrCreate_run [OF this 2] ok have "Reverse sm2 s1 = Some a" "Reverse sm2 s2 = Some b" by (fastforce simp: list_all_iff)+
    moreover have "s1 = s2"
      using 1 2 eq by (auto simp: GetOrCreate_def create_locked_def NewSessionMap_def session_id_def Let_def split: if_splits)
    ultimately show "a = b" by simp
  qed
qed

theorem SessionMap_roundtrip_witness:
  "Reverse (snd (GetOrCreate (NewSessionMap ''tg'' telegram_key) (-5))) ''tg--5'' = Some (-5)"
proof -
  let ?sm = "NewSessionMap ''tg'' telegram_key"
  have dec: "int_to_dec (- 5) = ''-5''"
    by code_simp
  have g: "GetOrCreate ?sm (-5) = (''tg--5'', snd (GetOrCreate ?sm (-5)))"
    by (simp add: GetOrCreate_def create_locked_def NewSessionMap_def session_id_def telegram_key_def dec Let_def)
  from GetOrCreate_run [OF start g] have "smap_run ?sm [(-5, ''tg--5'')] (snd (GetOrCreate ?sm (-5)))" by simp
  with SessionMap_roundtrip [of "''tg''" telegram_key] telegram.inj_key show ?thesis by fastforce
qed

end
