(* ===== verification/Channel_Router.thy ===== *)
theory Channel_Router
  imports Agent_Subturn
begin

section \<open>The channel router (\<^verbatim>\<open>pkg/gateway/router.go\<close>)\<close>

text \<open>
  The router connects the chat adapters with the agent: inbound messages answer approvals or
  start turns, events of a turn become deliveries, and results of scheduled and background work
  are sent to the session's channel. An adapter is what the router asks of it: its name and which
  optional interfaces it implements. \<open>cr_out\<close> records every call of an adapter with its outcome,
  which the environment decides. Background tasks run in goroutines of their own, so the table of
  their results is a step relation of its own. Repeated typing indicators, metrics and log lines
  are left out.
\<close>

definition EventNotifyDeliver :: string where "EventNotifyDeliver = ''notify_deliver''"
definition EventNotifySend :: string where "EventNotifySend = ''notify_send''"
definition EventSpawnStart :: string where "EventSpawnStart = ''spawn_start''"
definition EventSpawnDeliver :: string where "EventSpawnDeliver = ''spawn_deliver''"
definition EventSpawnError :: string where "EventSpawnError = ''spawn_error''"

subsection \<open>Messages and adapters\<close>

record inbound_approval =
  ia_request :: string
  ia_approved :: bool

record inbound_message =
  im_channel :: string
  im_session :: string
  im_peer :: string
  im_content :: string
  im_approval :: "inbound_approval option"

datatype ToolPhase = PhaseRunning | PhaseRetrying | PhaseCompleted | PhaseFailed

record adapter =
  ad_name :: string
  ad_approval_sender :: bool
  ad_typing :: bool
  ad_progress :: bool

text \<open>The calls of an adapter's methods.\<close>

datatype delivery =
    Send string string
  | SendApprovalRequest string string string string
  | SendTyping string
  | SendProgress string string ToolPhase string

record spawn_result =
  sr_done :: bool
  sr_result :: string
  sr_error :: string
  sr_doneAt :: timestamp

record router =
  cr_adapters :: "adapter list"
  cr_has_store :: bool
  cr_logger :: tool_logger
  cr_approver :: approver
  cr_spawns :: "(string, spawn_result) gomap"
  cr_world :: world
  cr_out :: "(string \<times> delivery \<times> go_error option) list"

record router_env =
  re_agent :: agent_env
  re_call :: "nat \<Rightarrow> go_error option"

definition NewChannelRouter :: "adapter list \<Rightarrow> approver \<Rightarrow> bool \<Rightarrow> bool \<Rightarrow> world \<Rightarrow> router" where
  "NewChannelRouter adapters approver has_db has_audit w =
     \<lparr>cr_adapters = adapters, cr_has_store = has_db, cr_logger = NewToolLogger has_audit ''router'',
      cr_approver = approver, cr_spawns = [], cr_world = w, cr_out = []\<rparr>"

definition adapter_call :: "router_env \<Rightarrow> adapter \<Rightarrow> delivery \<Rightarrow> router \<Rightarrow> go_error option \<times> router" where
  "adapter_call re ad d cr =
     (let e = re_call re (length (cr_out cr)) in (e, cr\<lparr>cr_out := cr_out cr @ [(ad_name ad, d, e)]\<rparr>))"

definition router_log :: "router_env \<Rightarrow> string \<Rightarrow> string \<Rightarrow> string \<Rightarrow> router \<Rightarrow> router" where
  "router_log re eventType sessionID detail cr =
     (let w = cr_world cr; env = re_agent re; n = w_tick w;
          s = ToolLogger_Log (cr_logger cr) (env_audit_fault env n) (env_newid env n) (env_now env n)
                eventType sessionID detail \<lparr>sink_calls = [], sink_table = w_audit w\<rparr>
      in cr\<lparr>cr_world := next_tick (w\<lparr>w_audit := sink_table s\<rparr>)\<rparr>)"

subsection \<open>Approvals\<close>

definition approval_text :: "approval_request \<Rightarrow> string" where
  "approval_text req =
     ''Tool approval needed: '' @ apr_tool req @ nl @ ''Input: '' @ apr_input req @ nl @ nl @
     ''Reply with:'' @ nl @ ''  approve '' @ apr_id req @ nl @ ''  deny '' @ apr_id req"

definition approval_delivery :: "adapter \<Rightarrow> string \<Rightarrow> approval_request \<Rightarrow> delivery" where
  "approval_delivery ad sessionID req =
     (if ad_approval_sender ad then SendApprovalRequest (apr_id req) sessionID (apr_tool req) (apr_input req)
      else Send sessionID (approval_text req))"

definition sendApprovalRequest :: "router_env \<Rightarrow> adapter \<Rightarrow> string \<Rightarrow> approval_request \<Rightarrow> router \<Rightarrow> router" where
  "sendApprovalRequest re ad sessionID req cr = snd (adapter_call re ad (approval_delivery ad sessionID req) cr)"

definition text_reply :: "string \<Rightarrow> bool \<Rightarrow> inbound_approval option" where
  "text_reply rest approved =
     (let i = TrimSpace rest in if i = [] then None else Some \<lparr>ia_request = i, ia_approved = approved\<rparr>)"

definition parseTextApproval :: "string \<Rightarrow> inbound_approval option" where
  "parseTextApproval text0 =
     (let text = TrimSpace text0; lower = ToLower text in
      if HasPrefix lower ''approve '' then text_reply (drop (length ''approve '') text) True
      else if HasPrefix lower ''deny '' then text_reply (drop (length ''deny '') text) False
      else None)"

text \<open>
  One message of \<^verbatim>\<open>listenAdapter\<close>: an answer for the approver, or a message that gets a goroutine
  of its own; \<open>listenAdapter\<close> gives the approver after a sequence of messages and the messages
  handed on, in order.
\<close>

definition inbound_answer :: "inbound_message \<Rightarrow> inbound_approval option" where
  "inbound_answer msg = (case im_approval msg of Some r \<Rightarrow> Some r | None \<Rightarrow> parseTextApproval (im_content msg))"

fun listenAdapter :: "inbound_message list \<Rightarrow> approver \<Rightarrow> approver \<times> inbound_message list" where
  "listenAdapter [] a = (a, [])"
| "listenAdapter (msg # msgs) a =
     (case inbound_answer msg of
        Some r \<Rightarrow> listenAdapter msgs (Respond a (ia_request r) (ia_approved r))
      | None \<Rightarrow> (let (a', handed) = listenAdapter msgs a in (a', msg # handed)))"

subsection \<open>Turns\<close>

text \<open>What one event of a turn makes the router deliver.\<close>

definition event_deliveries :: "adapter \<Rightarrow> string \<Rightarrow> turn_event \<Rightarrow> delivery list" where
  "event_deliveries ad sessionID ev =
     (case ev of
        TurnApprovalNeeded req \<Rightarrow> [approval_delivery ad sessionID req]
      | TurnToolStart tc m \<Rightarrow> if ad_progress ad then [SendProgress sessionID (tc_name tc) PhaseRunning m] else []
      | _ \<Rightarrow> [])"

fun consumeTurnEvents :: "router_env \<Rightarrow> adapter \<Rightarrow> string \<Rightarrow> turn_event list \<Rightarrow> string \<Rightarrow> router \<Rightarrow> string \<times> router" where
  "consumeTurnEvents re ad sessionID [] fullResponse cr = (fullResponse, cr)"
| "consumeTurnEvents re ad sessionID (ev # events) fullResponse cr =
     (case ev of
        TurnApprovalNeeded req \<Rightarrow>
          consumeTurnEvents re ad sessionID events fullResponse (sendApprovalRequest re ad sessionID req cr)
      | TurnToolStart tc m \<Rightarrow>
          consumeTurnEvents re ad sessionID events fullResponse
            (if ad_progress ad then snd (adapter_call re ad (SendProgress sessionID (tc_name tc) PhaseRunning m) cr) else cr)
      | TurnDone m u \<Rightarrow> consumeTurnEvents re ad sessionID events m cr
      | _ \<Rightarrow> consumeTurnEvents re ad sessionID events fullResponse cr)"

definition ensureSession :: "router_env \<Rightarrow> inbound_message \<Rightarrow> router \<Rightarrow> router" where
  "ensureSession re msg cr =
     (let w = cr_world cr;
          (r, d) = GetOrCreateSession (env_now (re_agent re) (w_tick w)) (im_session msg) (im_channel msg) (im_peer msg) (w_db w)
      in cr\<lparr>cr_world := next_tick (w\<lparr>w_db := d\<rparr>)\<rparr>)"

definition startTypingLoop :: "router_env \<Rightarrow> adapter \<Rightarrow> string \<Rightarrow> router \<Rightarrow> router" where
  "startTypingLoop re ad sessionID cr =
     (if ad_typing ad then snd (adapter_call re ad (SendTyping sessionID) cr) else cr)"

text \<open>What the turn sent on its event channel.\<close>

definition turn_events :: "world \<Rightarrow> world \<Rightarrow> turn_event list" where
  "turn_events w w' = drop (length (w_out w)) (w_out w')"

text \<open>The common part of \<^verbatim>\<open>handleMessage\<close> and \<^verbatim>\<open>RunAndDeliver\<close>: run the turn, deliver its reply.\<close>

definition run_and_reply :: "runtime \<Rightarrow> router_env \<Rightarrow> go_ctx \<Rightarrow> adapter \<Rightarrow> string \<Rightarrow> string \<Rightarrow> router \<Rightarrow> router" where
  "run_and_reply rt re ctx ad sessionID content cr0 =
     (let cr = startTypingLoop re ad sessionID cr0 in
      case RunTurn rt (re_agent re) ctx sessionID content (cr_world cr) of
        (Inl err, w) \<Rightarrow> cr\<lparr>cr_world := w\<rparr>
      | (Inr _, w) \<Rightarrow>
          (let (fullResponse, cr1) = consumeTurnEvents re ad sessionID (turn_events (cr_world cr) w) [] (cr\<lparr>cr_world := w\<rparr>)
           in if fullResponse = [] then cr1
              else snd (adapter_call re ad (Send sessionID fullResponse) cr1)))"

definition handleMessage :: "runtime \<Rightarrow> router_env \<Rightarrow> go_ctx \<Rightarrow> adapter \<Rightarrow> inbound_message \<Rightarrow> router \<Rightarrow> router" where
  "handleMessage rt re ctx ad msg cr =
     run_and_reply rt re ctx ad (im_session msg) (im_content msg)
       (if cr_has_store cr then ensureSession re msg cr else cr)"

subsection \<open>Deliveries to a session\<close>

definition adapterForSession :: "string \<Rightarrow> router \<Rightarrow> (go_error + adapter) \<times> router" where
  "adapterForSession sessionID cr =
     (if \<not> cr_has_store cr then (Inl (ErrText ''no store configured''), cr)
      else (case GetSession sessionID (w_db (cr_world cr)) of
        (Inl err, d) \<Rightarrow> (Inl (ErrWrap ''looking up session: '' err), cr\<lparr>cr_world := (cr_world cr)\<lparr>w_db := d\<rparr>\<rparr>)
      | (Inr sess, d) \<Rightarrow>
          ((case find (\<lambda>a. ad_name a = sess_channel sess) (cr_adapters cr) of
              Some a \<Rightarrow> Inr a
            | None \<Rightarrow> Inl (ErrText (''no adapter found for channel '' @ go_quote (sess_channel sess)))),
           cr\<lparr>cr_world := (cr_world cr)\<lparr>w_db := d\<rparr>\<rparr>)))"

definition SendToSession :: "router_env \<Rightarrow> string \<Rightarrow> string \<Rightarrow> router \<Rightarrow> go_error option \<times> router" where
  "SendToSession re sessionID content cr =
     (case adapterForSession sessionID cr of
        (Inl err, cr1) \<Rightarrow> (Some (ErrWrap ''resolving adapter: '' err), cr1)
      | (Inr ad, cr1) \<Rightarrow>
          (let w = cr_world cr1; env = re_agent re;
               msg = \<lparr>msg_id = env_newid env (w_tick w), msg_session = sessionID, msg_role = ''assistant'',
                      msg_type = ContentTypeText, msg_content = content, msg_tokens = 0, msg_created = env_now env (w_tick w)\<rparr>;
               cr2 = (if cr_has_store cr1
                      then cr1\<lparr>cr_world := next_tick (w\<lparr>w_db := snd (AppendMessage msg (w_db w))\<rparr>)\<rparr> else cr1);
               cr3 = router_log re EventNotifySend sessionID (''len='' @ nat_to_dec (length content)) cr2
           in adapter_call re ad (Send sessionID content) cr3))"

definition RunAndDeliver :: "runtime \<Rightarrow> router_env \<Rightarrow> go_ctx \<Rightarrow> string \<Rightarrow> string \<Rightarrow> string \<Rightarrow> router \<Rightarrow> router" where
  "RunAndDeliver rt re ctx0 turnID sessionID prompt cr =
     (let ctx = WithAutoApprove ctx0 in
      case adapterForSession sessionID cr of
        (Inl err, cr1) \<Rightarrow> cr1
      | (Inr ad, cr1) \<Rightarrow>
          run_and_reply rt re ctx ad sessionID prompt
            (router_log re EventNotifyDeliver sessionID (''turn_id='' @ turnID @ '' prompt='' @ prompt) cr1))"

subsection \<open>Background tasks\<close>

definition spawnResultTTL :: int where "spawnResultTTL = 30 * 60 * 1000000000"

type_synonym spawn_table = "(string, spawn_result) gomap"

definition spawn_begin :: "string \<Rightarrow> spawn_table \<Rightarrow> spawn_table" where
  "spawn_begin spawnID t = gomap_put spawnID \<lparr>sr_done = False, sr_result = [], sr_error = [], sr_doneAt = 0\<rparr> t"

definition spawn_outcome :: "timestamp \<Rightarrow> go_error + string \<Rightarrow> spawn_result" where
  "spawn_outcome now r =
     (case r of
        Inl err \<Rightarrow> \<lparr>sr_done = True, sr_result = [], sr_error = err_msg err, sr_doneAt = now\<rparr>
      | Inr result \<Rightarrow> \<lparr>sr_done = True, sr_result = result, sr_error = [], sr_doneAt = now\<rparr>)"

definition spawn_finish :: "string \<Rightarrow> timestamp \<Rightarrow> go_error + string \<Rightarrow> spawn_table \<Rightarrow> spawn_table" where
  "spawn_finish spawnID now r t = gomap_put spawnID (spawn_outcome now r) t"

text \<open>
  \<^verbatim>\<open>CheckSpawn\<close>: an error, \<^term>\<open>Inr None\<close> while the task runs, or the result, which is taken out
  of the table.
\<close>

definition CheckSpawn :: "string \<Rightarrow> spawn_table \<Rightarrow> (go_error + string option) \<times> spawn_table" where
  "CheckSpawn spawnID t =
     (case map_of t spawnID of
        None \<Rightarrow> (Inl (ErrText (''unknown spawn ID: '' @ spawnID)), t)
      | Some sr \<Rightarrow>
          if \<not> sr_done sr then (Inr None, t)
          else (Inr (Some (if sr_error sr \<noteq> [] then ''error: '' @ sr_error sr else sr_result sr)), gomap_delete spawnID t))"

definition cleanupSpawnResults :: "timestamp \<Rightarrow> spawn_table \<Rightarrow> spawn_table" where
  "cleanupSpawnResults now t = filter (\<lambda>(i, sr). \<not> (sr_done sr \<and> now - sr_doneAt sr > spawnResultTTL)) t"

text \<open>
  \<^verbatim>\<open>RunSpawnAgent\<close>: the part the caller waits for, and the goroutine, which may find that the
  runtime has no registry and panics (\<^term>\<open>None\<close>).
\<close>

definition RunSpawnAgent :: "router_env \<Rightarrow> string \<Rightarrow> string \<Rightarrow> string \<Rightarrow> router \<Rightarrow> string \<times> router" where
  "RunSpawnAgent re spawnID sessionID prompt cr =
     (spawnID, router_log re EventSpawnStart sessionID (''spawn_id='' @ spawnID @ '' task='' @ prompt)
        (cr\<lparr>cr_spawns := spawn_begin spawnID (cr_spawns cr)\<rparr>))"

definition background_ctx :: go_ctx where
  "background_ctx = \<lparr>ctx_session_val = None, ctx_agent_val = None, ctx_depth_val = None, ctx_auto_approve = False\<rparr>"

definition spawn_ctx :: "go_ctx \<Rightarrow> string \<Rightarrow> go_ctx" where
  "spawn_ctx ctx sessionID =
     (let c = WithAutoApprove background_ctx;
          c1 = (if SessionIDFromContext ctx \<noteq> [] then WithSessionInfo c (SessionIDFromContext ctx) (AgentIDFromContext ctx)
                else WithSessionInfo c sessionID ''default'')
      in WithSubagentDepth c1 (SubagentDepthFromContext ctx))"

definition spawn_task :: "runtime \<Rightarrow> router_env \<Rightarrow> go_ctx \<Rightarrow> timestamp \<Rightarrow> string \<Rightarrow> string \<Rightarrow> string \<Rightarrow> string list \<Rightarrow> router \<Rightarrow> router option" where
  "spawn_task rt re ctx now spawnID sessionID prompt allowedTools cr =
     (case RunSubturn rt (re_agent re) (spawn_ctx ctx sessionID) prompt allowedTools (cr_world cr) of
        (None, w) \<Rightarrow> None
      | (Some r, w) \<Rightarrow>
          (let cr1 = cr\<lparr>cr_world := w, cr_spawns := spawn_finish spawnID now r (cr_spawns cr)\<rparr> in
           case r of
             Inl err \<Rightarrow> Some (router_log re EventSpawnError sessionID (''spawn_id='' @ spawnID @ '' error='' @ err_msg err) cr1)
           | Inr result \<Rightarrow>
               Some (snd (SendToSession re sessionID (''[Background Task Result]'' @ nl @ result)
                 (router_log re EventSpawnDeliver sessionID
                    (''spawn_id='' @ spawnID @ '' result_len='' @ nat_to_dec (length result)) cr1)))))"

end
