(* ===== verification/Channel_Delivery.thy ===== *)
theory Channel_Delivery
  imports Channel_Router
begin

section \<open>Properties of the channel router\<close>

text \<open>
  Approvals answered by text, the results of background tasks, what a turn delivers to its channel,
  and where later deliveries to the session go.
\<close>

subsection \<open>Approvals answered by text\<close>

definition graphic :: "char \<Rightarrow> bool" where
  "graphic c \<longleftrightarrow> 0x21 \<le> (of_char c :: nat) \<and> (of_char c :: nat) \<le> 0x7E"

lemma first_match_other:
  "list_all (\<lambda>r. r = [] \<or> hd r \<noteq> c) rs \<Longrightarrow> first_match rs (c # s) = 0"
proof (induction rs)
  case (Cons r rs)
  then show ?case by (cases r) auto
qed simp

lemma space_runes_graphic:
  "list_all (\<lambda>r. \<not> graphic (hd r)) space_runes" "list_all (\<lambda>r. \<not> graphic (hd r)) (map rev space_runes)"
  by code_simp+

lemma first_match_graphic: "graphic c \<Longrightarrow> first_match space_runes (c # s) = 0"
  using space_runes_graphic(1) by (intro first_match_other) (auto simp: list_all_iff)

lemma first_match_graphic_rev: "graphic c \<Longrightarrow> first_match (map rev space_runes) (c # s) = 0"
  using space_runes_graphic(2) by (intro first_match_other) (fastforce simp: list_all_iff)

lemma TrimSpace_graphic:
  assumes "s \<noteq> []" "graphic (hd s)" "graphic (List.last s)"
  shows "TrimSpace s = s"
proof -
  obtain c u where s: "s = c # u" using assms(1) by (cases s) auto
  obtain d v where r: "rev s = d # v" using assms(1) by (cases "rev s") auto
  have d: "graphic d" using assms(3) r by (metis hd_rev list.sel(1))
  have "strip_front space_runes s = s"
    using assms(2) by (simp add: s strip_front.simps first_match_graphic)
  moreover have "strip_front (map rev space_runes) (rev s) = rev s"
    unfolding r using d by (simp add: strip_front.simps first_match_graphic_rev)
  ultimately show ?thesis by (simp add: TrimSpace_def)
qed

lemma ToLower_ascii: "list_all (\<lambda>c. (of_char c :: nat) < 0x80) s \<Longrightarrow> ToLower s = map lower_char s"
  by (induction s rule: ToLower.induct) auto

definition verb :: "bool \<Rightarrow> string" where
  "verb b = (if b then ''approve'' else ''deny'')"

lemma lower_letter: "graphic (lower_char c) \<Longrightarrow> graphic c"
  by (auto simp: graphic_def lower_char_def Let_def split: if_splits)

lemma verb_graphic:
  assumes "map lower_char v = verb b"
  shows "list_all graphic v" "v \<noteq> []"
proof -
  have "list_all graphic (verb b)" by (simp add: verb_def graphic_def)
  then show "list_all graphic v" unfolding assms [symmetric] by (auto simp: list.pred_map list_all_iff intro: lower_letter)
  show "v \<noteq> []" using assms by (auto simp: verb_def split: if_splits)
qed

lemma parseTextApproval_verb:
  assumes v: "map lower_char v = verb b" and i: "i \<noteq> []" "list_all graphic i"
  shows "parseTextApproval (v @ '' '' @ i) = Some \<lparr>ia_request = i, ia_approved = b\<rparr>"
proof -
  note g = verb_graphic [OF v]
  have ends: "graphic (hd v)" "graphic (hd i)" "graphic (List.last i)" using g i by (auto simp: list_all_iff)
  have t: "TrimSpace (v @ '' '' @ i) = v @ '' '' @ i" using TrimSpace_graphic g i ends by auto
  have ti: "TrimSpace i = i" using TrimSpace_graphic i ends by auto
  have low: "ToLower (v @ '' '' @ i) = verb b @ '' '' @ map lower_char i"
    using g i v by (subst ToLower_ascii) (auto simp: list_all_iff graphic_def lower_char_def)
  have len: "length v = length (verb b)" using v by (metis length_map)
  then have rest: "drop (Suc (length (verb b))) (v @ '' '' @ i) = i" by simp
  have "parseTextApproval (v @ '' '' @ i) = text_reply i b"
    unfolding parseTextApproval_def Let_def t low using rest by (cases b) (simp_all add: verb_def)
  then show ?thesis by (simp add: text_reply_def ti i)
qed

lemma approval_text_split:
  "\<exists>u v. approval_text req = u @ (verb b @ '' '' @ apr_id req) @ v"
proof -
  define u where "u = ''Tool approval needed: '' @ apr_tool req @ nl @ ''Input: '' @ apr_input req @ nl @ nl @ ''Reply with:'' @ nl @ ''  ''"
  have t: "approval_text req = u @ ''approve '' @ apr_id req @ nl @ ''  deny '' @ apr_id req"
    by (simp add: approval_text_def u_def)
  show ?thesis
  proof (cases b)
    case True
    then have "approval_text req = u @ (verb b @ '' '' @ apr_id req) @ (nl @ ''  deny '' @ apr_id req)" by (simp add: t verb_def)
    then show ?thesis by blast
  next
    case False
    then have "approval_text req = (u @ ''approve '' @ apr_id req @ nl @ ''  '') @ (verb b @ '' '' @ apr_id req) @ []"
      by (simp add: t verb_def)
    then show ?thesis by blast
  qed
qed

text \<open>
  a user can answer an approval request by text. The prompt sent to an adapter without approval
  buttons contains the words \<open>approve\<close> and \<open>deny\<close> with the request's id; a message that repeats one
  of them, in upper or lower case, starts no turn, and fills the pending request with exactly that
  answer, so the waiting call returns it.
\<close>

theorem text_approval_answers:
  assumes v: "map lower_char v = verb b" and i: "apr_id req \<noteq> []" "list_all graphic (apr_id req)"
    and pending: "ap_pending a (apr_id req) = Some None"
    and msg: "im_approval msg = None" "im_content msg = v @ '' '' @ apr_id req"
  shows "Contains (approval_text req) (verb b @ '' '' @ apr_id req)
    \<and> (let (a', handed) = listenAdapter [msg] a in handed = [] \<and> request_receive a' (apr_id req) = Some (Inr b))"
proof -
  have "Contains (approval_text req) (verb b @ '' '' @ apr_id req)"
    using approval_text_split [of req] unfolding Contains_iff by blast
  moreover have "inbound_answer msg = Some \<lparr>ia_request = apr_id req, ia_approved = b\<rparr>"
    using parseTextApproval_verb [OF v i] msg by (simp add: inbound_answer_def)
  ultimately show ?thesis using pending by (simp add: Respond_def request_receive_def)
qed

theorem text_approval_answers_witness:
  "let (a', handed) = listenAdapter [\<lparr>im_channel = ''wa'', im_session = ''wa-1'', im_peer = ''p'', im_content = ''Deny 7f'', im_approval = None\<rparr>]
       (fst (request_start (NewApprover ''ask'') ''7f''))
   in handed = [] \<and> request_receive a' ''7f'' = Some (Inr False)"
proof -
  let ?req = "\<lparr>apr_id = ''7f'', apr_session = ''wa-1'', apr_tool = ''shell'', apr_input = ''{}''\<rparr>"
  let ?a = "fst (request_start (NewApprover ''ask'') ''7f'')"
  have "map lower_char ''Deny'' = verb False" by code_simp
  moreover have "ap_pending ?a ''7f'' = Some None" by (simp add: request_start_def NewApprover_def parse_mode_def)
  ultimately show ?thesis
    using text_approval_answers [of "''Deny''" False ?req ?a
        "\<lparr>im_channel = ''wa'', im_session = ''wa-1'', im_peer = ''p'', im_content = ''Deny 7f'', im_approval = None\<rparr>"]
    by (simp add: graphic_def)
qed

subsection \<open>Background tasks\<close>

text \<open>The operations on the table of results, in any order goroutines perform them; task ids are new UUIDs.\<close>

datatype spawn_event =
    SpawnStarted string
  | SpawnFinished string timestamp "go_error + string"
  | SpawnChecked string "go_error + string option"
  | SpawnCleaned timestamp

fun finished :: "string \<Rightarrow> spawn_event list \<Rightarrow> (timestamp \<times> (go_error + string)) list" where
  "finished i [] = []"
| "finished i (SpawnFinished j n r # tr) = (if j = i then (n, r) # finished i tr else finished i tr)"
| "finished i (_ # tr) = finished i tr"

fun taken :: "string \<Rightarrow> spawn_event list \<Rightarrow> string list" where
  "taken i [] = []"
| "taken i (SpawnChecked j (Inr (Some s)) # tr) = (if j = i then s # taken i tr else taken i tr)"
| "taken i (_ # tr) = taken i tr"

lemma finished_append [simp]: "finished i (xs @ ys) = finished i xs @ finished i ys"
  by (induction i xs rule: finished.induct) auto

lemma taken_append [simp]: "taken i (xs @ ys) = taken i xs @ taken i ys"
  by (induction i xs rule: taken.induct) auto

inductive spawn_trace :: "spawn_event list \<Rightarrow> spawn_table \<Rightarrow> bool" where
  none: "spawn_trace [] []"
| began: "spawn_trace tr t \<Longrightarrow> SpawnStarted i \<notin> set tr \<Longrightarrow> spawn_trace (tr @ [SpawnStarted i]) (spawn_begin i t)"
| finish: "spawn_trace tr t \<Longrightarrow> SpawnStarted i \<in> set tr \<Longrightarrow> finished i tr = [] \<Longrightarrow>
     spawn_trace (tr @ [SpawnFinished i now r]) (spawn_finish i now r t)"
| check: "spawn_trace tr t \<Longrightarrow> CheckSpawn i t = (r, t') \<Longrightarrow> spawn_trace (tr @ [SpawnChecked i r]) t'"
| clean: "spawn_trace tr t \<Longrightarrow> spawn_trace (tr @ [SpawnCleaned now]) (cleanupSpawnResults now t)"

definition outcome_text :: "go_error + string \<Rightarrow> string" where
  "outcome_text r = (case r of Inl err \<Rightarrow> if err_msg err \<noteq> [] then ''error: '' @ err_msg err else [] | Inr s \<Rightarrow> s)"

definition expired :: "spawn_event list \<Rightarrow> timestamp \<Rightarrow> bool" where
  "expired tr n \<longleftrightarrow> list_ex (\<lambda>e. case e of SpawnCleaned now \<Rightarrow> now - n > spawnResultTTL | _ \<Rightarrow> False) tr"

text \<open>What the table says of a task, given what has happened to it.\<close>

definition spawn_view :: "spawn_event list \<Rightarrow> string \<Rightarrow> spawn_result option \<Rightarrow> bool" where
  "spawn_view tr i v \<longleftrightarrow>
     (case v of
        Some sr \<Rightarrow> SpawnStarted i \<in> set tr \<and> taken i tr = []
          \<and> (if sr_done sr then \<exists>n r. sr = spawn_outcome n r \<and> finished i tr = [(n, r)] else finished i tr = [])
      | None \<Rightarrow> if SpawnStarted i \<in> set tr
          then \<exists>n r. finished i tr = [(n, r)] \<and> (taken i tr = [outcome_text r] \<or> (taken i tr = [] \<and> expired tr n))
          else finished i tr = [] \<and> taken i tr = [])"

lemma spawn_outcome_simps [simp]: "sr_done (spawn_outcome n r)" "sr_doneAt (spawn_outcome n r) = n"
  by (auto simp: spawn_outcome_def split: sum.splits)

lemma CheckSpawn_done: "map_of t i = Some (spawn_outcome n r) \<Longrightarrow> CheckSpawn i t = (Inr (Some (outcome_text r)), gomap_delete i t)"
  by (cases r) (simp_all add: CheckSpawn_def spawn_outcome_def outcome_text_def)

lemma spawn_trace_ok: "spawn_trace tr t \<Longrightarrow> gomap_ok t"
proof (induction rule: spawn_trace.induct)
  case (check tr t i r t')
  then show ?case by (auto simp: CheckSpawn_def split: option.splits if_splits)
qed (auto simp: spawn_begin_def spawn_finish_def cleanupSpawnResults_def gomap_ok_filter)

lemma spawn_view_other:
  assumes "spawn_view tr i v" "SpawnStarted i \<noteq> e" "finished i [e] = []" "taken i [e] = []"
  shows "spawn_view (tr @ [e]) i v"
  using assms by (auto simp: spawn_view_def expired_def split: option.splits if_splits)

lemma CheckSpawn_view:
  assumes "spawn_view tr i (map_of t i)" "CheckSpawn i t = (r, t')"
  shows "spawn_view (tr @ [SpawnChecked i r]) i (map_of t' i)"
proof (cases "map_of t i")
  case None
  with assms show ?thesis by (auto simp: CheckSpawn_def intro: spawn_view_other)
next
  case (Some sr)
  show ?thesis
  proof (cases "sr_done sr")
    case True
    with assms Some obtain n o' where o': "sr = spawn_outcome n o'" "finished i tr = [(n, o')]" "SpawnStarted i \<in> set tr" "taken i tr = []"
      by (auto simp: spawn_view_def)
    with assms(2) Some True have "r = Inr (Some (outcome_text o'))" "map_of t' i = None"
      by (auto simp: CheckSpawn_done)
    with o' show ?thesis by (simp add: spawn_view_def)
  qed (use assms Some in \<open>auto simp: CheckSpawn_def intro: spawn_view_other\<close>)
qed

lemma cleanup_view:
  assumes "gomap_ok t" "spawn_view tr i (map_of t i)"
  shows "spawn_view (tr @ [SpawnCleaned now]) i (map_of (cleanupSpawnResults now t) i)"
proof -
  have keep: "spawn_view (tr @ [SpawnCleaned now]) i (map_of t i)" using assms(2) by (rule spawn_view_other) simp_all
  show ?thesis
  proof (cases "\<exists>sr. map_of t i = Some sr \<and> sr_done sr \<and> now - sr_doneAt sr > spawnResultTTL")
    case False
    then have "map_of (cleanupSpawnResults now t) i = map_of t i"
      using assms(1) by (auto simp: cleanupSpawnResults_def gomap_filter_lookup split: option.splits)
    with keep show ?thesis by simp
  next
    case True
    then have "map_of (cleanupSpawnResults now t) i = None"
      using assms(1) by (auto simp: cleanupSpawnResults_def gomap_filter_lookup)
    with True keep show ?thesis by (auto simp: spawn_view_def expired_def)
  qed
qed

lemma spawn_trace_view: "spawn_trace tr t \<Longrightarrow> spawn_view tr i (map_of t i)"
proof (induction rule: spawn_trace.induct)
  case none
  show ?case by (simp add: spawn_view_def)
next
  case (began tr t j)
  show ?case
  proof (cases "j = i")
    case True
    with began show ?thesis by (auto simp: spawn_view_def spawn_begin_def split: option.splits)
  qed (use began in \<open>auto simp: spawn_begin_def intro: spawn_view_other\<close>)
next
  case (finish tr t j now r)
  show ?case
  proof (cases "j = i")
    case True
    with finish show ?thesis by (auto simp: spawn_view_def spawn_finish_def split: option.splits if_splits)
  qed (use finish in \<open>auto simp: spawn_finish_def intro: spawn_view_other\<close>)
next
  case (check tr t j r t')
  show ?case
  proof (cases "j = i")
    case False
    with check have "map_of t' i = map_of t i" by (auto simp: CheckSpawn_def split: option.splits if_splits)
    moreover have "taken i [SpawnChecked j r] = []" using False by (cases r; cases "projr r") auto
    ultimately show ?thesis using check.IH by (auto intro: spawn_view_other)
  qed (use check CheckSpawn_view in blast)
next
  case (clean tr t now)
  then show ?case using cleanup_view spawn_trace_ok by blast
qed

text \<open>
  C18: the result of a background task is handed out at most once and is the task's outcome. However
  starts, finishes, checks and clean-ups interleave: at most one check returns a result, and it is
  the outcome of the task's only finish; a check of a task that has started but not finished says
  that it is running; and a finished result that nobody has taken is returned by the next check
  unless a clean-up ran more than thirty minutes after it finished.
\<close>

theorem spawn_result_once:
  assumes "spawn_trace tr t"
  shows "(taken i tr = [] \<or> (\<exists>n r. finished i tr = [(n, r)] \<and> taken i tr = [outcome_text r]))
    \<and> (SpawnStarted i \<in> set tr \<and> finished i tr = [] \<longrightarrow> fst (CheckSpawn i t) = Inr None)
    \<and> (\<forall>n r. finished i tr = [(n, r)] \<and> taken i tr = [] \<and> \<not> expired tr n \<longrightarrow> fst (CheckSpawn i t) = Inr (Some (outcome_text r)))"
proof -
  note view = spawn_trace_view [OF assms, of i]
  show ?thesis
  proof (cases "map_of t i")
    case None
    with view show ?thesis by (auto simp: spawn_view_def split: if_splits)
  next
    case (Some sr)
    show ?thesis
    proof (cases "sr_done sr")
      case True
      with view Some obtain n r where "sr = spawn_outcome n r" "finished i tr = [(n, r)]" "taken i tr = []"
        by (auto simp: spawn_view_def)
      moreover from this Some have "fst (CheckSpawn i t) = Inr (Some (outcome_text r))" by (simp add: CheckSpawn_done)
      ultimately show ?thesis by auto
    qed (use view Some in \<open>auto simp: spawn_view_def CheckSpawn_def\<close>)
  qed
qed

theorem spawn_result_once_witness:
  "fst (CheckSpawn ''a'' (spawn_finish ''a'' 5 (Inr ''ok'') (spawn_begin ''b'' (spawn_begin ''a'' [])))) = Inr (Some ''ok'')"
proof -
  have "spawn_trace ((([] @ [SpawnStarted ''a'']) @ [SpawnStarted ''b'']) @ [SpawnFinished ''a'' 5 (Inr ''ok'')])
      (spawn_finish ''a'' 5 (Inr ''ok'') (spawn_begin ''b'' (spawn_begin ''a'' [])))"
    by (intro spawn_trace.intros) simp_all
  from spawn_result_once [OF this, of "''a''"] show ?thesis by (simp add: expired_def outcome_text_def)
qed

subsection \<open>What a turn delivers\<close>

definition calls :: "router \<Rightarrow> (string \<times> delivery) list" where
  "calls cr = map (\<lambda>(n, d, e). (n, d)) (cr_out cr)"

lemma adapter_call_frame [simp]:
  "calls (snd (adapter_call re ad d cr)) = calls cr @ [(ad_name ad, d)]"
  "cr_world (snd (adapter_call re ad d cr)) = cr_world cr" "cr_adapters (snd (adapter_call re ad d cr)) = cr_adapters cr"
  "cr_has_store (snd (adapter_call re ad d cr)) = cr_has_store cr"
  by (simp_all add: adapter_call_def calls_def Let_def)

lemma sendApprovalRequest_frame [simp]:
  "calls (sendApprovalRequest re ad sid req cr) = calls cr @ [(ad_name ad, approval_delivery ad sid req)]"
  "cr_world (sendApprovalRequest re ad sid req cr) = cr_world cr" "cr_adapters (sendApprovalRequest re ad sid req cr) = cr_adapters cr"
  "cr_has_store (sendApprovalRequest re ad sid req cr) = cr_has_store cr"
  by (simp_all add: sendApprovalRequest_def)

lemma calls_world [simp]: "calls (cr\<lparr>cr_world := w\<rparr>) = calls cr"
  by (simp add: calls_def)

definition typing :: "adapter \<Rightarrow> string \<Rightarrow> delivery list" where
  "typing ad sid = (if ad_typing ad then [SendTyping sid] else [])"

lemma startTypingLoop_frame [simp]:
  "calls (startTypingLoop re ad sid cr) = calls cr @ map (Pair (ad_name ad)) (typing ad sid)"
  "cr_world (startTypingLoop re ad sid cr) = cr_world cr" "cr_adapters (startTypingLoop re ad sid cr) = cr_adapters cr"
  "cr_has_store (startTypingLoop re ad sid cr) = cr_has_store cr"
  by (simp_all add: startTypingLoop_def typing_def)

lemma consumeTurnEvents_frame [simp]:
  "calls (snd (consumeTurnEvents re ad sid evs full cr)) = calls cr @ map (Pair (ad_name ad)) (concat (map (event_deliveries ad sid) evs))"
  "cr_world (snd (consumeTurnEvents re ad sid evs full cr)) = cr_world cr"
  "cr_adapters (snd (consumeTurnEvents re ad sid evs full cr)) = cr_adapters cr"
  "cr_has_store (snd (consumeTurnEvents re ad sid evs full cr)) = cr_has_store cr"
  by (induction re ad sid evs full cr rule: consumeTurnEvents.induct)
    (auto simp: event_deliveries_def split: turn_event.splits)

text \<open>The reply of a turn is the text of its closing event.\<close>

definition closing_text :: "turn_event \<Rightarrow> string" where
  "closing_text e = (case e of TurnDone m u \<Rightarrow> m | _ \<Rightarrow> [])"

lemma consumeTurnEvents_reply:
  "list_all (\<lambda>e. \<not> terminal e) mid \<Longrightarrow> terminal e \<Longrightarrow>
     fst (consumeTurnEvents re ad sid (mid @ [e]) [] cr) = closing_text e"
proof (induction mid arbitrary: cr)
  case Nil
  then show ?case by (cases e) (simp_all add: closing_text_def)
next
  case (Cons x mid)
  then show ?case by (cases x) simp_all
qed

definition reply_delivery :: "string \<Rightarrow> turn_event \<Rightarrow> delivery list" where
  "reply_delivery sid e = (if closing_text e = [] then [] else [Send sid (closing_text e)])"

lemma getOrCreateSession_out: "getOrCreateSession rt env ctx sid w = (r, w1) \<Longrightarrow> w_out w1 = w_out w"
  by (auto simp: getOrCreateSession_def Let_def split: prod.splits sum.splits if_splits)

lemma RunTurn_out:
  assumes "RunTurn rt env ctx sid content w = (Inr u, w')" "\<not> interrupted rt env"
  shows "\<exists>mid e. w_out w' = w_out w @ mid @ [e] \<and> list_all (\<lambda>x. \<not> terminal x) mid \<and> terminal e"
proof -
  from assms(1) obtain sess w1 w2 v where g: "getOrCreateSession rt env ctx sid w = (Inr sess, w1)"
    and p: "persistMessage env (sess_id sess) RoleUser [] content None w1 = (Inr v, w2)"
    and l: "w' = runAgenticLoop rt env ctx (sess_id sess) w2"
    by (auto simp: RunTurn_def split: prod.splits sum.splits)
  from p have "w_out w2 = w_out w1" by (auto simp: persistMessage_def Let_def split: prod.splits)
  moreover from runAgenticLoop_outcome [of rt ctx w2 env "sess_id sess"] assms(2)
  have "turn_ends (permitted (rt_tools rt) ctx) (good_request rt (offered_tools rt)) w2 w'" by (simp add: l)
  then have "\<exists>mid e. w_out w' = w_out w2 @ mid @ [e] \<and> list_all (\<lambda>x. \<not> terminal x) mid \<and> terminal e"
    by (fastforce simp: turn_ends_def quiet_def list_all_iff)
  ultimately show ?thesis using getOrCreateSession_out [OF g] by simp
qed

lemma run_and_reply_calls:
  assumes run: "RunTurn rt (re_agent re) ctx sid content (cr_world cr) = (Inr u, w')" and ni: "\<not> interrupted rt (re_agent re)"
  shows "\<exists>mid e. w_out w' = w_out (cr_world cr) @ mid @ [e] \<and> list_all (\<lambda>x. \<not> terminal x) mid \<and> terminal e
    \<and> calls (run_and_reply rt re ctx ad sid content cr) = calls cr @ map (Pair (ad_name ad))
        (typing ad sid @ concat (map (event_deliveries ad sid) mid) @ reply_delivery sid e)"
proof -
  from RunTurn_out [OF run ni] obtain mid e where out: "w_out w' = w_out (cr_world cr) @ mid @ [e]"
    and mid: "list_all (\<lambda>x. \<not> terminal x) mid" and e: "terminal e" by blast
  have ev: "turn_events (cr_world cr) w' = mid @ [e]" by (simp add: turn_events_def out)
  have none: "event_deliveries ad sid e = []" using e by (cases e) (simp_all add: event_deliveries_def)
  let ?c = "consumeTurnEvents re ad sid (mid @ [e]) [] (startTypingLoop re ad sid cr\<lparr>cr_world := w'\<rparr>)"
  have "run_and_reply rt re ctx ad sid content cr =
      (if closing_text e = [] then snd ?c else snd (adapter_call re ad (Send sid (closing_text e)) (snd ?c)))"
    using run consumeTurnEvents_reply [OF mid e] by (simp add: run_and_reply_def Let_def split_beta ev)
  then have "calls (run_and_reply rt re ctx ad sid content cr) = calls cr @ map (Pair (ad_name ad))
      (typing ad sid @ concat (map (event_deliveries ad sid) mid) @ reply_delivery sid e)"
    by (simp add: reply_delivery_def none)
  with out mid e show ?thesis by blast
qed

lemma ensureSession_calls [simp]: "calls (ensureSession re msg cr) = calls cr"
  by (simp add: ensureSession_def Let_def split_beta)

text \<open>
  C17: what a channel sees of a message. If the turn cannot start, only the typing indicator is
  shown. Otherwise (and when the turn is not cut off in a cool-down) the turn's events are some that
  do not close it and one that does; the adapter gets, in this order, the typing indicator, an
  approval request or progress note for each event that calls for one, and exactly one reply with
  the text of a done event if that is not empty. A turn that ends with an error, or with an
  empty text, is silence for the user.
\<close>

theorem handleMessage_delivers:
  fixes rt re ctx ad msg cr
  defines "cr1 \<equiv> (if cr_has_store cr then ensureSession re msg cr else cr)" and "sid \<equiv> im_session msg"
  assumes ni: "\<not> interrupted rt (re_agent re)"
  shows "case RunTurn rt (re_agent re) ctx sid (im_content msg) (cr_world cr1) of
      (Inl err, w') \<Rightarrow> calls (handleMessage rt re ctx ad msg cr) = calls cr @ map (Pair (ad_name ad)) (typing ad sid)
    | (Inr _, w') \<Rightarrow> \<exists>mid e. w_out w' = w_out (cr_world cr1) @ mid @ [e] \<and> list_all (\<lambda>x. \<not> terminal x) mid \<and> terminal e
        \<and> calls (handleMessage rt re ctx ad msg cr) = calls cr @ map (Pair (ad_name ad))
            (typing ad sid @ concat (map (event_deliveries ad sid) mid) @ reply_delivery sid e)"
proof -
  have h: "handleMessage rt re ctx ad msg cr = run_and_reply rt re ctx ad sid (im_content msg) cr1"
    by (simp add: handleMessage_def cr1_def sid_def)
  have c1: "calls cr1 = calls cr" by (simp add: cr1_def)
  show ?thesis
  proof (cases "RunTurn rt (re_agent re) ctx sid (im_content msg) (cr_world cr1)")
    case (Pair r w')
    show ?thesis
    proof (cases r)
      case (Inl err)
      with Pair c1 show ?thesis unfolding h by (simp add: run_and_reply_def)
    next
      case (Inr u)
      from run_and_reply_calls [OF Pair [unfolded Inr] ni, of ad] show ?thesis
        unfolding h c1 Pair Inr by simp
    qed
  qed
qed

definition demo_adapter :: adapter where
  "demo_adapter = \<lparr>ad_name = ''whatsapp'', ad_approval_sender = False, ad_typing = True, ad_progress = False\<rparr>"

definition demo_router :: router where
  "demo_router = NewChannelRouter [demo_adapter] (NewApprover ''ask'') True True demo_world"

definition demo_router_env :: router_env where
  "demo_router_env = \<lparr>re_agent = demo_env, re_call = (\<lambda>n. None)\<rparr>"

definition demo_inbound :: inbound_message where
  "demo_inbound = \<lparr>im_channel = ''whatsapp'', im_session = ''wa-1'', im_peer = ''p'', im_content = ''hello'', im_approval = None\<rparr>"

theorem handleMessage_delivers_witness:
  "\<exists>w' mid e. RunTurn demo_rt demo_env demo_ctx ''wa-1'' ''hello'' (cr_world (ensureSession demo_router_env demo_inbound demo_router)) = (Inr (), w')
     \<and> calls (handleMessage demo_rt demo_router_env demo_ctx demo_adapter demo_inbound demo_router)
       = map (Pair ''whatsapp'') ([SendTyping ''wa-1''] @ concat (map (event_deliveries demo_adapter ''wa-1'') mid) @ reply_delivery ''wa-1'' e)"
proof -
  let ?r = "RunTurn demo_rt demo_env demo_ctx ''wa-1'' ''hello'' (cr_world (ensureSession demo_router_env demo_inbound demo_router))"
  have ni: "\<not> interrupted demo_rt (re_agent demo_router_env)" by (simp add: interrupted_def demo_rt_def)
  have "isl (fst ?r) = False" by code_simp
  then obtain w' where r: "?r = (Inr (), w')" by (cases ?r; cases "fst ?r") auto
  have c: "cr_has_store demo_router" "calls demo_router = []" "re_agent demo_router_env = demo_env" "im_session demo_inbound = ''wa-1''"
    "im_content demo_inbound = ''hello''" "ad_name demo_adapter = ''whatsapp''" "typing demo_adapter ''wa-1'' = [SendTyping ''wa-1'']"
    by (simp_all add: demo_router_def NewChannelRouter_def calls_def demo_router_env_def demo_inbound_def demo_adapter_def typing_def)
  from handleMessage_delivers [OF ni, where ctx = demo_ctx and msg = demo_inbound and cr = demo_router and ad = demo_adapter]
  show ?thesis by (simp add: c r) blast
qed

subsection \<open>Where later deliveries go\<close>

lemma find_map_fst: "find (\<lambda>x. fst x = i) (map f xs) = map_option f (find (\<lambda>s. fst (f s) = i) xs)"
  by (induction xs) auto

definition route_of :: "db \<Rightarrow> string \<Rightarrow> (string \<times> string) option" where
  "route_of d sid = map_option snd (find (\<lambda>x. fst x = sid) (routes d))"

lemma route_of_find: "route_of d sid = map_option (\<lambda>s. (sess_channel s, sess_peer s)) (find (\<lambda>s. sess_id s = sid) (sessions d))"
  by (simp add: route_of_def routes_def find_map_fst option.map_comp comp_def)

lemma same_routes_route: "same_routes d d' \<Longrightarrow> route_of d' sid = route_of d sid"
  by (simp add: same_routes_def route_of_def)

lemma GetSession_route:
  assumes "\<forall>n. db_fault d n = None" "route_of d sid = Some (c, p)"
  shows "\<exists>s d'. GetSession sid d = (Inr s, d') \<and> sess_channel s = c"
  using assms by (auto simp: route_of_find GetSession_def db_stmt_def Let_def)

lemma find_update_sessions:
  assumes "\<And>s. sess_id (f s) = sess_id s"
  shows "find (\<lambda>s. sess_id s = i) (map (\<lambda>s. if sess_id s = i then f s else s) ss) = map_option f (find (\<lambda>s. sess_id s = i) ss)"
  using assms by (induction ss) auto

lemma find_append_none: "find P xs = None \<Longrightarrow> find P (xs @ [x]) = (if P x then Some x else None)"
  by (induction xs) (auto split: if_splits)

lemma GetOrCreateSession_route:
  assumes nf: "\<forall>n. db_fault d n = None" and g: "GetOrCreateSession now sid c p d = (r, d')"
  shows "route_of d' sid = Some (c, p) \<and> (\<forall>n. db_fault d' n = None) \<and> (\<exists>x. r = Inr x)"
proof -
  let ?d1 = "d\<lparr>db_ops := Suc (db_ops d)\<rparr>"
  have nf': "\<forall>n. db_fault d' n = None" using GetOrCreateSession.fault_result [OF g] nf by simp
  show ?thesis
  proof (cases "find (\<lambda>s. sess_id s = sid) (sessions d)")
    case None
    then have "\<not> list_ex (\<lambda>s. sess_id s = sid) (sessions d)" by (auto simp: find_None_iff list_ex_iff)
    with None nf g show ?thesis
      by (auto simp: GetOrCreateSession_def GetSession_def CreateSession_def db_stmt_def Let_def route_of_find find_append_none)
  next
    case (Some s)
    with nf g nf' show ?thesis
      by (auto simp: GetOrCreateSession_def GetSession_def UpdateSessionChannel_def db_stmt_def Let_def route_of_find
          update_sessions_def find_update_sessions split: if_splits)
  qed
qed

lemma getOrCreateSession_route:
  assumes "\<forall>n. db_fault (w_db w) n = None" "getOrCreateSession rt env ctx sid w = (r, w1)"
  shows "route_of (w_db w1) sid = Some (''webchat'', ''anonymous'') \<and> (\<forall>n. db_fault (w_db w1) n = None)"
proof -
  obtain x d where g: "GetOrCreateSession (env_now env (w_tick w)) sid ''webchat'' ''anonymous'' (w_db w) = (x, d)" by force
  have "w_db w1 = d" using assms(2) by (auto simp: getOrCreateSession_def g Let_def split: sum.splits)
  with GetOrCreateSession_route [OF assms(1) g] show ?thesis by simp
qed

lemma runAgenticLoop_routes: "same_routes (w_db w) (w_db (runAgenticLoop rt env ctx sid w))"
  using runAgenticLoop_outcome [of rt ctx w env sid] by (auto simp: turn_ends_def quiet_def)

lemma RunTurn_route:
  assumes nf: "\<forall>n. db_fault (w_db w) n = None" and run: "RunTurn rt env ctx sid content w = (r, w')"
  shows "route_of (w_db w') sid = Some (''webchat'', ''anonymous'') \<and> (\<forall>n. db_fault (w_db w') n = None)"
proof -
  obtain s w1 where g: "getOrCreateSession rt env ctx sid w = (s, w1)" by force
  note r1 = getOrCreateSession_route [OF nf g]
  have "same_routes (w_db w1) (w_db w')"
  proof (cases s)
    case (Inr sess)
    obtain q w2 where p: "persistMessage env (sess_id sess) RoleUser [] content None w1 = (q, w2)" by force
    have "same_routes (w_db w1) (w_db w2)" using persistMessage.quiet_result [OF p] by (simp add: quiet_def)
    moreover have "w' = w2 \<or> w' = runAgenticLoop rt env ctx (sess_id sess) w2"
      using run by (auto simp: RunTurn_def g Inr p split: sum.splits)
    ultimately show ?thesis using runAgenticLoop_routes same_routes_trans by blast
  qed (use run in \<open>auto simp: RunTurn_def g\<close>)
  with r1 show ?thesis using same_routes_route by (simp add: same_routes_def route_of_def)
qed

lemma run_and_reply_frame:
  "cr_world (run_and_reply rt re ctx ad sid content cr) = snd (RunTurn rt (re_agent re) ctx sid content (cr_world cr))"
  "cr_adapters (run_and_reply rt re ctx ad sid content cr) = cr_adapters cr"
  "cr_has_store (run_and_reply rt re ctx ad sid content cr) = cr_has_store cr"
  by (simp_all add: run_and_reply_def Let_def split_beta split: sum.splits prod.splits)

lemma SendToSession_unrouted:
  assumes "cr_has_store cr" "\<forall>n. db_fault (w_db (cr_world cr)) n = None" "route_of (w_db (cr_world cr)) sid = Some (c, p)"
    and "\<forall>a \<in> set (cr_adapters cr). ad_name a \<noteq> c"
  shows "fst (SendToSession re sid content cr) = Some (ErrWrap ''resolving adapter: '' (ErrText (''no adapter found for channel '' @ go_quote c)))"
proof -
  from GetSession_route [OF assms(2,3)] obtain s d' where "GetSession sid (w_db (cr_world cr)) = (Inr s, d')" "sess_channel s = c" by blast
  moreover have "find (\<lambda>a. ad_name a = c) (cr_adapters cr) = None" using assms(4) by (auto simp: find_None_iff)
  ultimately show ?thesis using assms(1) by (simp add: SendToSession_def adapterForSession_def)
qed

text \<open>
  once a channel's message has been handled, nothing can be sent to its session. Whatever the
  model and tools did, and with a database that never fails, the turn has overwritten the channel
  that \<^verbatim>\<open>ensureSession\<close> stored with \<open>webchat\<close>; the router has no adapter of that name (the
  web chat is served by the gateway), so a notification, a scheduled turn's lookup or the result of
  a background task for the session fails to resolve an adapter.
\<close>

theorem handled_session_unreachable:
  assumes store: "cr_has_store cr" and nf: "\<forall>n. db_fault (w_db (cr_world cr)) n = None"
    and no_web: "\<forall>a \<in> set (cr_adapters cr). ad_name a \<noteq> ''webchat''"
  shows "fst (SendToSession re' (im_session msg) content (handleMessage rt re ctx ad msg cr)) =
    Some (ErrWrap ''resolving adapter: '' (ErrText (''no adapter found for channel '' @ go_quote ''webchat'')))"
proof -
  let ?cr1 = "ensureSession re msg cr"
  have h: "handleMessage rt re ctx ad msg cr = run_and_reply rt re ctx ad (im_session msg) (im_content msg) ?cr1"
    using store by (simp add: handleMessage_def)
  obtain x d where g: "GetOrCreateSession (env_now (re_agent re) (w_tick (cr_world cr))) (im_session msg) (im_channel msg) (im_peer msg) (w_db (cr_world cr)) = (x, d)"
    by force
  have cr1: "w_db (cr_world ?cr1) = d" "cr_adapters ?cr1 = cr_adapters cr" "cr_has_store ?cr1" using store by (simp_all add: ensureSession_def g)
  have "\<forall>n. db_fault (w_db (cr_world ?cr1)) n = None" using GetOrCreateSession_route [OF nf g] cr1 by simp
  from RunTurn_route [OF this, of rt "re_agent re" ctx "im_session msg" "im_content msg"]
  have "route_of (w_db (cr_world (handleMessage rt re ctx ad msg cr))) (im_session msg) = Some (''webchat'', ''anonymous'')
      \<and> (\<forall>n. db_fault (w_db (cr_world (handleMessage rt re ctx ad msg cr))) n = None)"
    unfolding h run_and_reply_frame by (metis surjective_pairing)
  then show ?thesis
    using SendToSession_unrouted [of "handleMessage rt re ctx ad msg cr"] no_web cr1 by (simp add: h run_and_reply_frame)
qed

theorem handled_session_unreachable_witness:
  "fst (SendToSession demo_router_env ''wa-1'' ''ping'' (handleMessage demo_rt demo_router_env demo_ctx demo_adapter demo_inbound demo_router)) =
    Some (ErrWrap ''resolving adapter: '' (ErrText (''no adapter found for channel '' @ go_quote ''webchat'')))"
  using handled_session_unreachable [of demo_router demo_router_env demo_inbound "''ping''" demo_rt demo_router_env demo_ctx demo_adapter]
  by (simp add: demo_router_def NewChannelRouter_def demo_world_def demo_db_def demo_adapter_def demo_inbound_def)

end
