(* ===== verification/A2A_Tasks.thy ===== *)
theory A2A_Tasks
  imports Channel_Delivery
begin

section \<open>The agent-to-agent interface (\<^verbatim>\<open>pkg/a2a\<close>)\<close>

text \<open>
  Other agents send tasks over HTTP, as JSON-RPC or REST. Tasks are shared objects: the task store
  maps ids to pointers, handlers keep the pointer across a turn, and a second creation under the
  same id replaces the pointer. The store is therefore an explicit heap with a table of addresses.
  While a turn runs other requests are served; \<open>others\<close> is what they do to the task store in that
  time, and every statement holds for all of them. Decoding of bodies is an argument of the handlers
  (\<^term>\<open>None\<close> when it fails); a response is the status and the value that is encoded.
\<close>

subsection \<open>Data (\<^verbatim>\<open>types.go\<close>, \<^verbatim>\<open>jsonrpc.go\<close>)\<close>

datatype TaskState = TaskStateSubmitted | TaskStateWorking | TaskStateCompleted | TaskStateFailed | TaskStateCanceled

record a2a_part =
  part_type :: string
  part_text :: string

record a2a_message =
  am_role :: string
  am_parts :: "a2a_part list"

record a2a_task =
  at_id :: string
  at_state :: TaskState
  at_messages :: "a2a_message list"

definition ErrCodeParse :: int where "ErrCodeParse = -32700"
definition ErrCodeInvalidReq :: int where "ErrCodeInvalidReq = -32600"
definition ErrCodeNotFound :: int where "ErrCodeNotFound = -32601"
definition ErrCodeInternal :: int where "ErrCodeInternal = -32603"
definition ErrCodeTaskNotFound :: int where "ErrCodeTaskNotFound = -32001"

text \<open>The values that are sent back.\<close>

datatype a2a_value =
    VError string
  | VTask a2a_task
  | VNull
  | VTasks "a2a_task list"
  | RPCResult string a2a_task
  | RPCError "string option" int string

record a2a_response =
  resp_status :: nat
  resp_body :: a2a_value

definition NewJSONRPCResponse :: "string \<Rightarrow> a2a_task \<Rightarrow> a2a_value" where
  "NewJSONRPCResponse reqID result = RPCResult reqID result"

definition NewJSONRPCError :: "string option \<Rightarrow> int \<Rightarrow> string \<Rightarrow> a2a_value" where
  "NewJSONRPCError reqID code msg = RPCError reqID code msg"

subsection \<open>The task store (\<^verbatim>\<open>taskstore.go\<close>)\<close>

record task_store =
  ts_heap :: "a2a_task list"
  ts_tasks :: "(string, nat) gomap"

definition NewTaskStore :: task_store where
  "NewTaskStore = \<lparr>ts_heap = [], ts_tasks = []\<rparr>"

text \<open>Allocation of the task and \<^verbatim>\<open>Create\<close>; the result is the pointer.\<close>

definition task_Create :: "a2a_task \<Rightarrow> task_store \<Rightarrow> nat \<times> task_store" where
  "task_Create t s = (let p = length (ts_heap s) in
     (p, s\<lparr>ts_heap := ts_heap s @ [t], ts_tasks := gomap_put (at_id t) p (ts_tasks s)\<rparr>))"

definition task_not_found :: "string \<Rightarrow> go_error" where
  "task_not_found i = ErrText (''task '' @ go_quote i @ '' not found'')"

definition task_Get :: "string \<Rightarrow> task_store \<Rightarrow> go_error + nat" where
  "task_Get i s = (case map_of (ts_tasks s) i of None \<Rightarrow> Inl (task_not_found i) | Some p \<Rightarrow> Inr p)"

definition task_modify :: "string \<Rightarrow> (a2a_task \<Rightarrow> a2a_task) \<Rightarrow> task_store \<Rightarrow> (go_error + unit) \<times> task_store" where
  "task_modify i f s =
     (case map_of (ts_tasks s) i of
        None \<Rightarrow> (Inl (task_not_found i), s)
      | Some p \<Rightarrow> (Inr (), s\<lparr>ts_heap := (ts_heap s)[p := f (ts_heap s ! p)]\<rparr>))"

definition task_Update :: "string \<Rightarrow> TaskState \<Rightarrow> task_store \<Rightarrow> (go_error + unit) \<times> task_store" where
  "task_Update i state = task_modify i (\<lambda>t. t\<lparr>at_state := state\<rparr>)"

definition task_AppendMessage :: "string \<Rightarrow> a2a_message \<Rightarrow> task_store \<Rightarrow> (go_error + unit) \<times> task_store" where
  "task_AppendMessage i msg = task_modify i (\<lambda>t. t\<lparr>at_messages := at_messages t @ [msg]\<rparr>)"

definition task_List :: "task_store \<Rightarrow> a2a_task list" where
  "task_List s = map (\<lambda>(i, p). ts_heap s ! p) (ts_tasks s)"

text \<open>The task behind a pointer, and an assignment through it.\<close>

definition deref :: "nat \<Rightarrow> task_store \<Rightarrow> a2a_task" where
  "deref p s = ts_heap s ! p"

definition assign_state :: "nat \<Rightarrow> TaskState \<Rightarrow> task_store \<Rightarrow> task_store" where
  "assign_state p st s = s\<lparr>ts_heap := (ts_heap s)[p := (ts_heap s ! p)\<lparr>at_state := st\<rparr>]\<rparr>"

subsection \<open>The handler (\<^verbatim>\<open>handler.go\<close>)\<close>

record a2a =
  a2a_store :: task_store
  a2a_world :: world
  a2a_has_audit :: bool
  a2a_token :: string

definition auditLogEvent :: "agent_env \<Rightarrow> string \<Rightarrow> string \<Rightarrow> a2a \<Rightarrow> a2a" where
  "auditLogEvent env eventType taskID h =
     (if \<not> a2a_has_audit h then h
      else (let w = a2a_world h; n = w_tick w in
        h\<lparr>a2a_world := next_tick (w\<lparr>w_audit := snd (audit_Log (env_audit_fault env n) (env_newid env n) (env_now env n)
             eventType taskID [] ''a2a'' (DetailString (''task_id='' @ taskID)) (w_audit w))\<rparr>)\<rparr>))"

definition extractText :: "a2a_message \<Rightarrow> string" where
  "extractText msg = Join (map part_text (filter (\<lambda>p. part_type p = ''text'' \<and> part_text p \<noteq> []) (am_parts msg))) nl"

definition new_task :: "string \<Rightarrow> a2a_message \<Rightarrow> a2a_task" where
  "new_task i msg = \<lparr>at_id = i, at_state = TaskStateSubmitted, at_messages = [msg]\<rparr>"

definition getOrCreateTask :: "agent_env \<Rightarrow> string \<Rightarrow> string \<Rightarrow> a2a_message \<Rightarrow> a2a \<Rightarrow> nat \<times> a2a" where
  "getOrCreateTask env newID taskID msg h =
     (case (if taskID \<noteq> [] then task_Get taskID (a2a_store h) else Inl (task_not_found taskID)) of
        Inr p \<Rightarrow> (p, h\<lparr>a2a_store := snd (task_AppendMessage taskID msg (a2a_store h))\<rparr>)
      | Inl _ \<Rightarrow>
          (let i = (if taskID = [] then newID else taskID);
               (p, s) = task_Create (new_task i msg) (a2a_store h)
           in (p, auditLogEvent env EventA2ATaskNew i (h\<lparr>a2a_store := s\<rparr>))))"

text \<open>The loop over the events of the turn: the last text of a done event, or the first error.\<close>

fun turn_answer :: "string \<Rightarrow> turn_event list \<Rightarrow> go_error + string" where
  "turn_answer fullResponse [] = Inr fullResponse"
| "turn_answer fullResponse (ev # events) =
     (case ev of
        TurnDone m u \<Rightarrow> turn_answer m events
      | TurnError e \<Rightarrow> Inl e
      | _ \<Rightarrow> turn_answer fullResponse events)"

definition set_state :: "string \<Rightarrow> TaskState \<Rightarrow> a2a \<Rightarrow> a2a" where
  "set_state i st h = h\<lparr>a2a_store := snd (task_Update i st (a2a_store h))\<rparr>"

text \<open>The task is found or created and marked as working.\<close>

definition begin_task :: "agent_env \<Rightarrow> string \<Rightarrow> string \<Rightarrow> a2a_message \<Rightarrow> a2a \<Rightarrow> nat \<times> a2a" where
  "begin_task env newID taskID msg h =
     (let (p, h1) = getOrCreateTask env newID taskID msg h
      in (p, set_state (at_id (deref p (a2a_store h1))) TaskStateWorking h1))"

text \<open>The turn, during which other requests act on the store.\<close>

definition run_task :: "runtime \<Rightarrow> agent_env \<Rightarrow> go_ctx \<Rightarrow> (task_store \<Rightarrow> task_store) \<Rightarrow> string \<Rightarrow> string \<Rightarrow> a2a \<Rightarrow>
    (go_error + turn_event list) \<times> a2a" where
  "run_task rt env ctx others taskID text h =
     (case RunTurn rt env ctx taskID text (a2a_world h) of
        (Inl e, w) \<Rightarrow> (Inl e, h\<lparr>a2a_world := w, a2a_store := others (a2a_store h)\<rparr>)
      | (Inr _, w) \<Rightarrow> (Inr (turn_events (a2a_world h) w), h\<lparr>a2a_world := w, a2a_store := others (a2a_store h)\<rparr>))"

definition fail_task :: "agent_env \<Rightarrow> string \<Rightarrow> a2a \<Rightarrow> a2a" where
  "fail_task env i h = auditLogEvent env EventA2ATaskFail i (set_state i TaskStateFailed h)"

definition processMessage :: "runtime \<Rightarrow> agent_env \<Rightarrow> go_ctx \<Rightarrow> (task_store \<Rightarrow> task_store) \<Rightarrow> string \<Rightarrow> string \<Rightarrow> a2a_message \<Rightarrow> a2a \<Rightarrow>
    (go_error + nat \<times> string) \<times> a2a" where
  "processMessage rt env ctx others newID taskID msg h =
     (let text = extractText msg in
      if text = [] then (Inl (ErrText ''empty message''), h)
      else
        (let (p, h1) = begin_task env newID taskID msg h;
             i = at_id (deref p (a2a_store h1)) in
         case run_task rt env ctx others i text h1 of
           (Inl e, h2) \<Rightarrow> (Inl (ErrWrap ''agent turn: '' e), fail_task env i h2)
         | (Inr events, h2) \<Rightarrow>
             (case turn_answer [] events of
                Inl e \<Rightarrow> (Inl (ErrWrap ''agent error: '' e), fail_task env i h2)
              | Inr fullResponse \<Rightarrow>
                  (Inr (p, fullResponse), auditLogEvent env EventA2ATaskDone i (set_state i TaskStateCompleted h2)))))"

definition assistant_message :: "string \<Rightarrow> a2a_message" where
  "assistant_message response = \<lparr>am_role = ''assistant'', am_parts = [\<lparr>part_type = ''text'', part_text = response\<rparr>]\<rparr>"

definition handleSendMessage :: "runtime \<Rightarrow> agent_env \<Rightarrow> go_ctx \<Rightarrow> (task_store \<Rightarrow> task_store) \<Rightarrow> string \<Rightarrow> string \<Rightarrow> a2a_message option \<Rightarrow> a2a \<Rightarrow>
    a2a_response \<times> a2a" where
  "handleSendMessage rt env ctx others newID taskID body h =
     (case body of
        None \<Rightarrow> (\<lparr>resp_status = 400, resp_body = VError ''invalid request body''\<rparr>, h)
      | Some msg \<Rightarrow>
          (case processMessage rt env ctx others newID taskID msg h of
             (Inl e, h1) \<Rightarrow> (\<lparr>resp_status = 500, resp_body = VError (err_msg e)\<rparr>, h1)
           | (Inr (p, response), h1) \<Rightarrow>
               (let i = at_id (deref p (a2a_store h1));
                    h2 = h1\<lparr>a2a_store := snd (task_AppendMessage i (assistant_message response) (a2a_store h1))\<rparr>
                in (\<lparr>resp_status = 200, resp_body = (case task_Get i (a2a_store h2) of Inr q \<Rightarrow> VTask (deref q (a2a_store h2)) | Inl _ \<Rightarrow> VNull)\<rparr>, h2))))"

subsection \<open>JSON-RPC\<close>

text \<open>\<open>rq_params\<close> is the decoding of the parameters as the method's parameter type.\<close>

datatype rpc_params = SendParams string a2a_message | IdParams string | BadParams

record rpc_request =
  rpc_version :: string
  rpc_id :: string
  rpc_method :: string
  rpc_params :: rpc_params

definition ok_response :: "a2a_value \<Rightarrow> a2a_response" where
  "ok_response v = \<lparr>resp_status = 200, resp_body = v\<rparr>"

definition rpcSendMessage :: "runtime \<Rightarrow> agent_env \<Rightarrow> go_ctx \<Rightarrow> (task_store \<Rightarrow> task_store) \<Rightarrow> string \<Rightarrow> rpc_request \<Rightarrow> a2a \<Rightarrow> a2a_response \<times> a2a" where
  "rpcSendMessage rt env ctx others newID req h =
     (case rpc_params req of
        SendParams taskID msg \<Rightarrow>
          (case processMessage rt env ctx others newID taskID msg h of
             (Inl e, h1) \<Rightarrow> (ok_response (NewJSONRPCError (Some (rpc_id req)) ErrCodeInternal (err_msg e)), h1)
           | (Inr (p, response), h1) \<Rightarrow> (ok_response (NewJSONRPCResponse (rpc_id req) (deref p (a2a_store h1))), h1))
      | _ \<Rightarrow> (ok_response (NewJSONRPCError (Some (rpc_id req)) ErrCodeParse ''invalid params''), h))"

definition rpcGetTask :: "rpc_request \<Rightarrow> a2a \<Rightarrow> a2a_response" where
  "rpcGetTask req h =
     (case rpc_params req of
        IdParams i \<Rightarrow>
          (case task_Get i (a2a_store h) of
             Inl e \<Rightarrow> ok_response (NewJSONRPCError (Some (rpc_id req)) ErrCodeTaskNotFound (err_msg e))
           | Inr p \<Rightarrow> ok_response (NewJSONRPCResponse (rpc_id req) (deref p (a2a_store h))))
      | _ \<Rightarrow> ok_response (NewJSONRPCError (Some (rpc_id req)) ErrCodeParse ''invalid params''))"

definition cancel_task :: "agent_env \<Rightarrow> string \<Rightarrow> a2a \<Rightarrow> (go_error + nat) \<times> a2a" where
  "cancel_task env i h =
     (case task_Get i (a2a_store h) of
        Inl e \<Rightarrow> (Inl e, h)
      | Inr p \<Rightarrow>
          (let h1 = auditLogEvent env EventA2ATaskCancel (at_id (deref p (a2a_store h))) (set_state i TaskStateCanceled h)
           in (Inr p, h1\<lparr>a2a_store := assign_state p TaskStateCanceled (a2a_store h1)\<rparr>)))"

definition rpcCancelTask :: "agent_env \<Rightarrow> rpc_request \<Rightarrow> a2a \<Rightarrow> a2a_response \<times> a2a" where
  "rpcCancelTask env req h =
     (case rpc_params req of
        IdParams i \<Rightarrow>
          (case cancel_task env i h of
             (Inl e, h1) \<Rightarrow> (ok_response (NewJSONRPCError (Some (rpc_id req)) ErrCodeTaskNotFound (err_msg e)), h1)
           | (Inr p, h1) \<Rightarrow> (ok_response (NewJSONRPCResponse (rpc_id req) (deref p (a2a_store h1))), h1))
      | _ \<Rightarrow> (ok_response (NewJSONRPCError (Some (rpc_id req)) ErrCodeParse ''invalid params''), h))"

definition handleJSONRPC :: "runtime \<Rightarrow> agent_env \<Rightarrow> go_ctx \<Rightarrow> (task_store \<Rightarrow> task_store) \<Rightarrow> string \<Rightarrow> rpc_request option \<Rightarrow> a2a \<Rightarrow> a2a_response \<times> a2a" where
  "handleJSONRPC rt env ctx others newID body h =
     (case body of
        None \<Rightarrow> (ok_response (NewJSONRPCError None ErrCodeParse ''parse error''), h)
      | Some req \<Rightarrow>
          if rpc_version req \<noteq> ''2.0''
          then (ok_response (NewJSONRPCError (Some (rpc_id req)) ErrCodeInvalidReq ''invalid jsonrpc version''), h)
          else if rpc_method req = ''tasks/send'' then rpcSendMessage rt env ctx others newID req h
          else if rpc_method req = ''tasks/get'' then (rpcGetTask req h, h)
          else if rpc_method req = ''tasks/cancel'' then rpcCancelTask env req h
          else (ok_response (NewJSONRPCError (Some (rpc_id req)) ErrCodeNotFound (''method '' @ go_quote (rpc_method req) @ '' not found'')), h))"

end
