(* ===== verification/A2A_Server.thy ===== *)
theory A2A_Server
  imports A2A_Tasks
begin

section \<open>The agent-to-agent server: REST routes, authorization and properties\<close>

text \<open>
  The REST handlers of \<^verbatim>\<open>handler.go\<close>, the routes with their authorization, and what the interface
  guarantees: the store stays well formed under all requests, only authorized requests reach it,
  how a task ends, and what its sender is told.
\<close>

subsection \<open>REST handlers\<close>

datatype sse_message = SSEStatus string TaskState | SSEToken string

fun stream_events :: "string \<Rightarrow> turn_event list \<Rightarrow> sse_message list \<times> (go_error + string)" where
  "stream_events fullResponse [] = ([], Inr fullResponse)"
| "stream_events fullResponse (ev # events) =
     (case ev of
        TurnToken t \<Rightarrow> (let (out, r) = stream_events fullResponse events in (SSEToken t # out, r))
      | TurnDone m u \<Rightarrow> stream_events m events
      | TurnError e \<Rightarrow> ([], Inl e)
      | _ \<Rightarrow> stream_events fullResponse events)"

datatype stream_reply = StreamError a2a_response | Stream "sse_message list"

definition handleSendMessageStream :: "runtime \<Rightarrow> agent_env \<Rightarrow> go_ctx \<Rightarrow> (task_store \<Rightarrow> task_store) \<Rightarrow> string \<Rightarrow> string \<Rightarrow>
    a2a_message option \<Rightarrow> a2a \<Rightarrow> stream_reply \<times> a2a" where
  "handleSendMessageStream rt env ctx others newID taskID body h =
     (case body of
        None \<Rightarrow> (StreamError \<lparr>resp_status = 400, resp_body = VError ''invalid request body''\<rparr>, h)
      | Some msg \<Rightarrow>
          (let text = extractText msg in
           if text = [] then (StreamError \<lparr>resp_status = 400, resp_body = VError ''empty message''\<rparr>, h)
           else
             (let (p, h1) = begin_task env newID taskID msg h;
                  i = at_id (deref p (a2a_store h1)) in
              case run_task rt env ctx others i text h1 of
                (Inl e, h2) \<Rightarrow> (StreamError \<lparr>resp_status = 500, resp_body = VError (err_msg e)\<rparr>, fail_task env i h2)
              | (Inr events, h2) \<Rightarrow>
                  (let (out, r) = stream_events [] events; start = SSEStatus i TaskStateWorking in
                   case r of
                     Inl e \<Rightarrow> (Stream (start # out @ [SSEStatus i TaskStateFailed]), fail_task env i h2)
                   | Inr fullResponse \<Rightarrow>
                       (let h3 = set_state i TaskStateCompleted h2;
                            h4 = h3\<lparr>a2a_store := snd (task_AppendMessage i (assistant_message fullResponse) (a2a_store h3))\<rparr>
                        in (Stream (start # out @ [SSEStatus i TaskStateCompleted]), auditLogEvent env EventA2ATaskDone i h4))))))"

definition handleGetTask :: "string \<Rightarrow> a2a \<Rightarrow> a2a_response" where
  "handleGetTask i h =
     (case task_Get i (a2a_store h) of
        Inl e \<Rightarrow> \<lparr>resp_status = 404, resp_body = VError (err_msg e)\<rparr>
      | Inr p \<Rightarrow> ok_response (VTask (deref p (a2a_store h))))"

definition handleListTasks :: "a2a \<Rightarrow> a2a_response" where
  "handleListTasks h = ok_response (VTasks (task_List (a2a_store h)))"

definition handleCancelTask :: "agent_env \<Rightarrow> string \<Rightarrow> a2a \<Rightarrow> a2a_response \<times> a2a" where
  "handleCancelTask env i h =
     (case cancel_task env i h of
        (Inl e, h1) \<Rightarrow> (\<lparr>resp_status = 404, resp_body = VError (err_msg e)\<rparr>, h1)
      | (Inr p, h1) \<Rightarrow> (ok_response (VTask (deref p (a2a_store h1))), h1))"

subsection \<open>Routes\<close>

text \<open>A matched route with its decoded parts.\<close>

datatype a2a_route =
    RouteAgentCard
  | RouteJSONRPC "rpc_request option"
  | RouteSendMessage string "a2a_message option"
  | RouteSendMessageStream string "a2a_message option"
  | RouteGetTask string
  | RouteListTasks
  | RouteCancelTask string

datatype a2a_reply = AgentCardReply | Reply a2a_response | StreamReply stream_reply

definition bearer_ok :: "string \<Rightarrow> string \<Rightarrow> bool" where
  "bearer_ok authToken header =
     (let token = TrimPrefix header ''Bearer '' in \<not> (token = [] \<or> token = header \<or> token \<noteq> authToken))"

definition serve_route :: "runtime \<Rightarrow> agent_env \<Rightarrow> go_ctx \<Rightarrow> (task_store \<Rightarrow> task_store) \<Rightarrow> string \<Rightarrow> a2a_route \<Rightarrow> a2a \<Rightarrow> a2a_reply \<times> a2a" where
  "serve_route rt env ctx others newID route h =
     (case route of
        RouteAgentCard \<Rightarrow> (AgentCardReply, h)
      | RouteJSONRPC body \<Rightarrow> apfst Reply (handleJSONRPC rt env ctx others newID body h)
      | RouteSendMessage taskID body \<Rightarrow> apfst Reply (handleSendMessage rt env ctx others newID taskID body h)
      | RouteSendMessageStream taskID body \<Rightarrow> apfst StreamReply (handleSendMessageStream rt env ctx others newID taskID body h)
      | RouteGetTask i \<Rightarrow> (Reply (handleGetTask i h), h)
      | RouteListTasks \<Rightarrow> (Reply (handleListTasks h), h)
      | RouteCancelTask i \<Rightarrow> apfst Reply (handleCancelTask env i h))"

definition unauthorized :: a2a_reply where
  "unauthorized = Reply \<lparr>resp_status = 401, resp_body = VError ''unauthorized''\<rparr>"

definition ServeHTTP :: "runtime \<Rightarrow> agent_env \<Rightarrow> go_ctx \<Rightarrow> (task_store \<Rightarrow> task_store) \<Rightarrow> string \<Rightarrow> string \<Rightarrow> a2a_route \<Rightarrow> a2a \<Rightarrow> a2a_reply \<times> a2a" where
  "ServeHTTP rt env ctx others newID header route h =
     (if route = RouteAgentCard then serve_route rt env ctx others newID route h
      else if a2a_token h \<noteq> [] \<and> \<not> bearer_ok (a2a_token h) header then (unauthorized, h)
      else serve_route rt env ctx others newID route h)"

subsection \<open>Well-formed stores\<close>

definition store_wf :: "task_store \<Rightarrow> bool" where
  "store_wf s \<longleftrightarrow> gomap_ok (ts_tasks s)
     \<and> (\<forall>i p. map_of (ts_tasks s) i = Some p \<longrightarrow> p < length (ts_heap s) \<and> at_id (ts_heap s ! p) = i)"

text \<open>
  What the requests of the interface may do to the store: well-formedness, pointers and ids are
  kept, and no task disappears. The contract of the store's operations.
\<close>

definition store_evolves :: "task_store \<Rightarrow> task_store \<Rightarrow> bool" where
  "store_evolves s s' \<longleftrightarrow> (store_wf s \<longrightarrow> store_wf s') \<and> dom (map_of (ts_tasks s)) \<subseteq> dom (map_of (ts_tasks s'))
     \<and> length (ts_heap s) \<le> length (ts_heap s') \<and> (\<forall>p < length (ts_heap s). at_id (ts_heap s' ! p) = at_id (ts_heap s ! p))"

lemma store_evolves_refl [simp, intro]: "store_evolves s s"
  by (simp add: store_evolves_def)

lemma store_evolves_trans: "store_evolves a b \<Longrightarrow> store_evolves b c \<Longrightarrow> store_evolves a c"
  unfolding store_evolves_def by (auto dest: order_trans subset_trans)

locale task_operation =
  fixes run :: "task_store \<Rightarrow> 'a \<times> task_store"
  assumes evolves: "store_evolves s (snd (run s))"
begin

lemma evolves_result: "run s = (r, s') \<Longrightarrow> store_evolves s s'"
  using evolves [of s] by simp

lemma evolves_after: "store_evolves s0 s \<Longrightarrow> store_evolves s0 (snd (run s))"
  using store_evolves_trans evolves by blast

end

lemma at_id_update:
  assumes "\<And>t. at_id (f t) = at_id t"
  shows "at_id (xs[p := f (xs ! p)] ! q) = at_id (xs ! q)"
  using assms by (cases "p < length xs"; cases "p = q") (simp_all add: list_update_beyond)

lemma task_modify_evolves:
  assumes "\<And>t. at_id (f t) = at_id t"
  shows "store_evolves s (snd (task_modify i f s))"
  using assms by (auto simp: store_evolves_def store_wf_def task_modify_def at_id_update split: option.splits)

interpretation task_Update: task_operation "task_Update i st" for i st
  by unfold_locales (simp add: task_Update_def task_modify_evolves)

interpretation task_AppendMessage: task_operation "task_AppendMessage i m" for i m
  by unfold_locales (simp add: task_AppendMessage_def task_modify_evolves)

interpretation task_Create: task_operation "task_Create t" for t
  by unfold_locales (auto simp: task_Create_def Let_def store_evolves_def store_wf_def nth_append less_Suc_eq)

interpretation assign_state: task_operation "\<lambda>s. ((), assign_state p st s)" for p st
  by unfold_locales (auto simp: assign_state_def store_evolves_def store_wf_def at_id_update [where f = "at_state_update (\<lambda>_. st)"])

lemma auditLogEvent_frame [simp]: "a2a_store (auditLogEvent env et i h) = a2a_store h" "a2a_token (auditLogEvent env et i h) = a2a_token h"
  by (simp_all add: auditLogEvent_def Let_def)

lemma set_state_evolves: "store_evolves (a2a_store h) (a2a_store (set_state i st h))"
  by (simp add: set_state_def task_Update.evolves)

lemma fail_task_evolves: "store_evolves (a2a_store h) (a2a_store (fail_task env i h))"
  by (simp add: fail_task_def set_state_evolves)

lemma getOrCreateTask_evolves: "store_evolves (a2a_store h) (a2a_store (snd (getOrCreateTask env newID taskID msg h)))"
  by (auto simp: getOrCreateTask_def Let_def split_beta task_AppendMessage.evolves task_Create.evolves split: sum.splits)

lemma begin_task_evolves: "begin_task env newID taskID msg h = (p, h1) \<Longrightarrow> store_evolves (a2a_store h) (a2a_store h1)"
  using getOrCreateTask_evolves set_state_evolves store_evolves_trans
  by (auto simp: begin_task_def Let_def split_beta) blast

lemma run_task_evolves:
  assumes "\<And>s. store_evolves s (others s)" "run_task rt env ctx others i text h = (r, h1)"
  shows "store_evolves (a2a_store h) (a2a_store h1)"
  using assms by (auto simp: run_task_def split: prod.splits sum.splits)

lemma cancel_task_evolves: "store_evolves (a2a_store h) (a2a_store (snd (cancel_task env i h)))"
  using assign_state.evolves_after [OF set_state_evolves]
  by (auto simp: cancel_task_def Let_def split: sum.splits)

lemma processMessage_evolves:
  assumes others: "\<And>s. store_evolves s (others s)"
  shows "store_evolves (a2a_store h) (a2a_store (snd (processMessage rt env ctx others newID taskID msg h)))"
proof (cases "extractText msg = []")
  case False
  obtain p h1 where b: "begin_task env newID taskID msg h = (p, h1)" by force
  let ?i = "at_id (deref p (a2a_store h1))"
  obtain r h2 where run: "run_task rt env ctx others ?i (extractText msg) h1 = (r, h2)" by force
  have e2: "store_evolves (a2a_store h) (a2a_store h2)"
    using begin_task_evolves [OF b] run_task_evolves [OF others run] store_evolves_trans by blast
  have "a2a_store (snd (processMessage rt env ctx others newID taskID msg h)) \<in>
      {a2a_store (fail_task env ?i h2), a2a_store (set_state ?i TaskStateCompleted h2)}"
    using False by (simp add: processMessage_def b run Let_def split: sum.splits)
  then show ?thesis using e2 fail_task_evolves set_state_evolves store_evolves_trans by (metis empty_iff insert_iff)
qed (simp add: processMessage_def)

lemma handleSendMessage_evolves:
  assumes others: "\<And>s. store_evolves s (others s)"
  shows "store_evolves (a2a_store h) (a2a_store (snd (handleSendMessage rt env ctx others newID taskID body h)))"
proof (cases body)
  case (Some msg)
  show ?thesis
    using processMessage_evolves [where msg = msg, OF others] task_AppendMessage.evolves_after
    by (auto simp: handleSendMessage_def Some Let_def split: prod.splits sum.splits) (metis snd_conv)+
qed (simp add: handleSendMessage_def)

lemma handleJSONRPC_evolves:
  assumes others: "\<And>s. store_evolves s (others s)"
  shows "store_evolves (a2a_store h) (a2a_store (snd (handleJSONRPC rt env ctx others newID body h)))"
proof -
  have "store_evolves (a2a_store h) (a2a_store (snd (rpcSendMessage rt env ctx others newID req h)))" for req
    using processMessage_evolves [OF others]
    by (auto simp: rpcSendMessage_def split: prod.splits sum.splits rpc_params.splits) (metis snd_conv)+
  moreover have "store_evolves (a2a_store h) (a2a_store (snd (rpcCancelTask env req h)))" for req
    using cancel_task_evolves by (auto simp: rpcCancelTask_def split: prod.splits sum.splits rpc_params.splits) (metis snd_conv)+
  ultimately show ?thesis by (simp add: handleJSONRPC_def split: option.splits)
qed

lemma handleSendMessageStream_evolves:
  assumes others: "\<And>s. store_evolves s (others s)"
  shows "store_evolves (a2a_store h) (a2a_store (snd (handleSendMessageStream rt env ctx others newID taskID body h)))"
proof (cases "\<exists>msg. body = Some msg \<and> extractText msg \<noteq> []")
  case True
  then obtain msg where msg: "body = Some msg" "extractText msg \<noteq> []" by blast
  obtain p h1 where b: "begin_task env newID taskID msg h = (p, h1)" by force
  let ?i = "at_id (deref p (a2a_store h1))"
  obtain r h2 where run: "run_task rt env ctx others ?i (extractText msg) h1 = (r, h2)" by force
  have e2: "store_evolves (a2a_store h) (a2a_store h2)"
    using begin_task_evolves [OF b] run_task_evolves [OF others run] store_evolves_trans by blast
  have "\<exists>full. a2a_store (snd (handleSendMessageStream rt env ctx others newID taskID body h)) \<in>
      {a2a_store (fail_task env ?i h2), snd (task_AppendMessage ?i (assistant_message full) (a2a_store (set_state ?i TaskStateCompleted h2)))}"
    using msg by (auto simp: handleSendMessageStream_def b run Let_def split_beta split: sum.splits)
  moreover have "store_evolves (a2a_store h) (a2a_store (fail_task env ?i h2))"
    using e2 fail_task_evolves store_evolves_trans by blast
  moreover have "store_evolves (a2a_store h) (snd (task_AppendMessage ?i m (a2a_store (set_state ?i TaskStateCompleted h2))))" for m
    using task_AppendMessage.evolves_after store_evolves_trans [OF e2 set_state_evolves] by blast
  ultimately show ?thesis by auto
qed (auto simp: handleSendMessageStream_def Let_def split: option.splits)

lemma serve_route_evolves:
  assumes others: "\<And>s. store_evolves s (others s)"
  shows "store_evolves (a2a_store h) (a2a_store (snd (serve_route rt env ctx others newID route h)))"
  using handleJSONRPC_evolves [OF others] handleSendMessage_evolves [OF others] handleSendMessageStream_evolves [OF others] cancel_task_evolves
  by (auto simp: serve_route_def handleCancelTask_def split: a2a_route.splits prod.splits sum.splits) (metis snd_conv)+

subsection \<open>How a task ends\<close>

definition task_key :: "string \<Rightarrow> string \<Rightarrow> string" where
  "task_key newID taskID = (if taskID = [] then newID else taskID)"

lemma begin_task_key:
  assumes ok: "store_wf (a2a_store h)" and b: "begin_task env newID taskID msg h = (p, h1)"
  shows "at_id (deref p (a2a_store h1)) = task_key newID taskID" "task_key newID taskID \<in> dom (map_of (ts_tasks (a2a_store h1)))"
    "store_wf (a2a_store h1)"
proof -
  obtain q h0 where g: "getOrCreateTask env newID taskID msg h = (q, h0)" by force
  have q: "q < length (ts_heap (a2a_store h0)) \<and> at_id (deref q (a2a_store h0)) = task_key newID taskID
      \<and> task_key newID taskID \<in> dom (map_of (ts_tasks (a2a_store h0)))"
    using g ok by (auto simp: getOrCreateTask_def task_Get_def task_AppendMessage_def task_modify_def task_Create_def Let_def
        deref_def new_task_def task_key_def store_wf_def split: sum.splits option.splits if_splits)
  have h1: "p = q" "h1 = set_state (at_id (deref q (a2a_store h0))) TaskStateWorking h0"
    using b by (auto simp: begin_task_def g Let_def)
  have ev: "store_evolves (a2a_store h0) (a2a_store h1)" unfolding h1(2) by (rule set_state_evolves)
  with q show "at_id (deref p (a2a_store h1)) = task_key newID taskID" "task_key newID taskID \<in> dom (map_of (ts_tasks (a2a_store h1)))"
    unfolding h1(1) by (auto simp: store_evolves_def deref_def)
  show "store_wf (a2a_store h1)" using begin_task_evolves [OF b] ok by (simp add: store_evolves_def)
qed

lemma set_state_Get:
  assumes "store_wf (a2a_store h)" "i \<in> dom (map_of (ts_tasks (a2a_store h)))"
  shows "\<exists>t. handleGetTask i (set_state i st h) = ok_response (VTask t) \<and> at_id t = i \<and> at_state t = st"
  using assms by (auto simp: handleGetTask_def set_state_def task_Update_def task_modify_def task_Get_def store_wf_def deref_def)

lemma handleGetTask_audit [simp]: "handleGetTask i (auditLogEvent env et j h) = handleGetTask i h"
  by (simp add: handleGetTask_def split: sum.splits)

text \<open>
  a task always ends in the state of its turn. Whatever other requests do to the store while
  the turn runs, when \<^verbatim>\<open>processMessage\<close> returns for a non-empty message, the task can be read under
  its id (the given one, or the new one), and its state is completed if a response is returned
  and failed if an error is returned. A cancellation that was granted in the meantime is lost: it
  neither stops the turn nor stays in the task.
\<close>

theorem task_state_final:
  assumes wf: "store_wf (a2a_store h)" and others: "\<And>s. store_evolves s (others s)" and nonempty: "extractText msg \<noteq> []"
    and run: "processMessage rt env ctx others newID taskID msg h = (r, h')"
  shows "\<exists>t. handleGetTask (task_key newID taskID) h' = ok_response (VTask t) \<and> at_id t = task_key newID taskID
    \<and> at_state t = (case r of Inr _ \<Rightarrow> TaskStateCompleted | Inl _ \<Rightarrow> TaskStateFailed)"
proof -
  obtain p h1 where b: "begin_task env newID taskID msg h = (p, h1)" by force
  note k = begin_task_key [OF wf b]
  obtain q h2 where rt: "run_task rt env ctx others (task_key newID taskID) (extractText msg) h1 = (q, h2)" by force
  have ev: "store_evolves (a2a_store h1) (a2a_store h2)" using run_task_evolves [OF others rt] .
  with k have h2: "store_wf (a2a_store h2)" "task_key newID taskID \<in> dom (map_of (ts_tasks (a2a_store h2)))"
    by (auto simp: store_evolves_def)
  note final = set_state_Get [OF h2]
  show ?thesis
    using run nonempty final [of TaskStateFailed] final [of TaskStateCompleted]
    by (auto simp: processMessage_def b rt k fail_task_def Let_def split: sum.splits)
qed

definition demo_part :: a2a_message where
  "demo_part = \<lparr>am_role = ''user'', am_parts = [\<lparr>part_type = ''text'', part_text = ''hi''\<rparr>]\<rparr>"

definition demo_a2a :: a2a where
  "demo_a2a = \<lparr>a2a_store = NewTaskStore, a2a_world = demo_world, a2a_has_audit = True, a2a_token = ''k''\<rparr>"

text \<open>In the instance another request cancels the task while its turn runs.\<close>

theorem task_state_final_witness:
  "\<exists>r h' t. processMessage demo_rt demo_env demo_ctx (\<lambda>s. snd (task_Update ''t1'' TaskStateCanceled s)) ''u'' ''t1'' demo_part demo_a2a = (Inr r, h')
     \<and> handleGetTask ''t1'' h' = ok_response (VTask t) \<and> at_state t = TaskStateCompleted"
proof -
  let ?others = "\<lambda>s. snd (task_Update ''t1'' TaskStateCanceled s)"
  let ?r = "processMessage demo_rt demo_env demo_ctx ?others ''u'' ''t1'' demo_part demo_a2a"
  have "\<not> isl (fst ?r)" by code_simp
  then obtain x h' where r: "?r = (Inr x, h')" by (cases ?r; cases "fst ?r") auto
  have wf: "store_wf (a2a_store demo_a2a)" by (simp add: demo_a2a_def NewTaskStore_def store_wf_def)
  have "extractText demo_part \<noteq> []" by (simp add: extractText_def demo_part_def)
  from task_state_final [where others = ?others, OF wf task_Update.evolves this r] r
  show ?thesis by (auto simp: task_key_def)
qed

lemma bearer_ok_iff: "bearer_ok tok header \<longleftrightarrow> tok \<noteq> [] \<and> header = ''Bearer '' @ tok"
proof (cases "HasPrefix header ''Bearer ''")
  case True
  then obtain t where t: "header = ''Bearer '' @ t" by (auto simp: HasPrefix_prefix prefix_def)
  have "t \<noteq> ''Bearer '' @ t" by (metis append_self_conv2 list.distinct(1))
  then have "bearer_ok tok header \<longleftrightarrow> t \<noteq> [] \<and> t = tok"
    unfolding bearer_ok_def Let_def t TrimPrefix_append by blast
  then show ?thesis unfolding t by blast
next
  case False
  then have "header \<noteq> ''Bearer '' @ tok" by (metis HasPrefix_append)
  with False show ?thesis by (simp add: bearer_ok_def TrimPrefix_def)
qed

text \<open>
  C19: the server admits exactly the bearer of its token. With a configured token every route but
  the agent card answers 401 and leaves the state alone unless the header is \<open>Bearer\<close> and the
  token; with that header the request is served; and no request, served or not, breaks the
  store or loses a task.
\<close>

theorem a2a_requests_guarded:
  assumes others: "\<And>s. store_evolves s (others s)"
  shows "(route \<noteq> RouteAgentCard \<and> a2a_token h \<noteq> [] \<and> header \<noteq> ''Bearer '' @ a2a_token h \<longrightarrow>
      ServeHTTP rt env ctx others newID header route h = (unauthorized, h))
    \<and> (header = ''Bearer '' @ a2a_token h \<longrightarrow>
      ServeHTTP rt env ctx others newID header route h = serve_route rt env ctx others newID route h)
    \<and> store_evolves (a2a_store h) (a2a_store (snd (ServeHTTP rt env ctx others newID header route h)))"
  using serve_route_evolves [OF others] by (auto simp: ServeHTTP_def bearer_ok_iff)

theorem a2a_requests_guarded_witness:
  "ServeHTTP demo_rt demo_env demo_ctx (\<lambda>s. s) ''u'' ''Bearer x'' RouteListTasks demo_a2a = (unauthorized, demo_a2a)"
  using a2a_requests_guarded [of "\<lambda>s. s" RouteListTasks demo_a2a "''Bearer x''" demo_rt demo_env demo_ctx "''u''"]
  by (simp add: demo_a2a_def)

text \<open>
  The sender chooses the session: a task id in the request, known or not, is the id of the session its turn runs
  in, whoever that session belongs to.
\<close>

lemma auditLogEvent_db [simp]: "w_db (a2a_world (auditLogEvent env et i h)) = w_db (a2a_world h)"
  by (simp add: auditLogEvent_def Let_def)

lemma a2a_sender_chooses_session:
  assumes "store_wf (a2a_store h)" "taskID \<noteq> []" "extractText msg \<noteq> []"
  shows "\<exists>h1. snd (begin_task env newID taskID msg h) = h1
    \<and> w_db (a2a_world (snd (processMessage rt env ctx others newID taskID msg h))) = w_db (snd (RunTurn rt env ctx taskID (extractText msg) (a2a_world h1)))"
proof -
  obtain p h1 where b: "begin_task env newID taskID msg h = (p, h1)" by force
  have i: "at_id (deref p (a2a_store h1)) = taskID" using begin_task_key(1) [OF assms(1) b] assms(2) by (simp add: task_key_def)
  obtain r w where run: "RunTurn rt env ctx taskID (extractText msg) (a2a_world h1) = (r, w)" by force
  have "w_db (a2a_world (snd (processMessage rt env ctx others newID taskID msg h))) = w_db w"
    using assms(3) by (auto simp: processMessage_def b i run_task_def run fail_task_def set_state_def Let_def split: sum.splits)
  with b run show ?thesis by simp
qed

subsection \<open>What the sender is told\<close>

lemma processMessage_fresh:
  assumes fresh: "map_of (ts_tasks (a2a_store h)) newID = None"
    and run: "processMessage rt env ctx (\<lambda>s. s) newID [] msg h = (Inr (p, response), h')"
  shows "deref p (a2a_store h') = \<lparr>at_id = newID, at_state = TaskStateCompleted, at_messages = [msg]\<rparr>"
    "map_of (ts_tasks (a2a_store h')) newID = Some p" "p < length (ts_heap (a2a_store h'))"
proof -
  let ?s = "\<lparr>ts_heap = ts_heap (a2a_store h) @ [(new_task newID msg)\<lparr>at_state := TaskStateWorking\<rparr>],
      ts_tasks = gomap_put newID (length (ts_heap (a2a_store h))) (ts_tasks (a2a_store h))\<rparr>"
  obtain q h1 where b: "begin_task env newID [] msg h = (q, h1)" by force
  then have h1: "q = length (ts_heap (a2a_store h))" "a2a_store h1 = ?s"
    by (auto simp: begin_task_def getOrCreateTask_def task_Create_def set_state_def task_Update_def task_modify_def
        deref_def new_task_def Let_def)
  have i: "at_id (deref q (a2a_store h1)) = newID" by (simp add: h1 deref_def new_task_def)
  obtain z h2 where rt: "run_task rt env ctx (\<lambda>s. s) newID (extractText msg) h1 = (z, h2)" by force
  then have s2: "a2a_store h2 = ?s" by (auto simp: run_task_def h1 split: prod.splits sum.splits)
  from run have "p = q" "a2a_store h' = snd (task_Update newID TaskStateCompleted ?s)"
    by (auto simp: processMessage_def b i rt Let_def set_state_def s2 split: if_splits sum.splits)
  then show "deref p (a2a_store h') = \<lparr>at_id = newID, at_state = TaskStateCompleted, at_messages = [msg]\<rparr>"
    "map_of (ts_tasks (a2a_store h')) newID = Some p" "p < length (ts_heap (a2a_store h'))"
    by (simp_all add: h1 task_Update_def task_modify_def deref_def new_task_def)
qed

text \<open>
  the two ways to send a message do not tell the sender the same. For a new task whose turn
  answers with \<open>response\<close>, the REST reply is the completed task with the message and the
  assistant's answer; the reply to JSON-RPC \<open>tasks/send\<close> is the completed task with the message
  alone, and since it is not stored either, a later \<open>tasks/get\<close> does not return the answer.
\<close>

theorem rpc_reply_lacks_answer:
  assumes fresh: "map_of (ts_tasks (a2a_store h)) newID = None"
    and run: "processMessage rt env ctx (\<lambda>s. s) newID [] msg h = (Inr (p, response), h')"
    and req: "rpc_params req = SendParams [] msg" and get: "rpc_params req' = IdParams newID"
  shows "fst (handleSendMessage rt env ctx (\<lambda>s. s) newID [] (Some msg) h) = ok_response (VTask
      \<lparr>at_id = newID, at_state = TaskStateCompleted, at_messages = [msg, assistant_message response]\<rparr>)
    \<and> rpcSendMessage rt env ctx (\<lambda>s. s) newID req h = (ok_response (RPCResult (rpc_id req)
      \<lparr>at_id = newID, at_state = TaskStateCompleted, at_messages = [msg]\<rparr>), h')
    \<and> rpcGetTask req' h' = ok_response (RPCResult (rpc_id req') \<lparr>at_id = newID, at_state = TaskStateCompleted, at_messages = [msg]\<rparr>)"
  using processMessage_fresh [OF fresh run] req get
  by (simp add: handleSendMessage_def rpcSendMessage_def rpcGetTask_def run Let_def task_AppendMessage_def task_modify_def task_Get_def
      deref_def ok_response_def NewJSONRPCResponse_def)

theorem rpc_reply_lacks_answer_witness:
  "\<exists>h'. rpcSendMessage demo_rt demo_env demo_ctx (\<lambda>s. s) ''u'' \<lparr>rpc_version = ''2.0'', rpc_id = ''1'', rpc_method = ''tasks/send'', rpc_params = SendParams [] demo_part\<rparr> demo_a2a
     = (ok_response (RPCResult ''1'' \<lparr>at_id = ''u'', at_state = TaskStateCompleted, at_messages = [demo_part]\<rparr>), h')"
proof -
  let ?r = "processMessage demo_rt demo_env demo_ctx (\<lambda>s. s) ''u'' [] demo_part demo_a2a"
  have "\<not> isl (fst ?r)" by code_simp
  then obtain p resp h' where r: "?r = (Inr (p, resp), h')" by (cases ?r; cases "fst ?r") auto
  from rpc_reply_lacks_answer [OF _ r, of "\<lparr>rpc_version = ''2.0'', rpc_id = ''1'', rpc_method = ''tasks/send'', rpc_params = SendParams [] demo_part\<rparr>"
      "\<lparr>rpc_version = ''2.0'', rpc_id = ''2'', rpc_method = ''tasks/get'', rpc_params = IdParams ''u''\<rparr>"]
  show ?thesis by (simp add: demo_a2a_def NewTaskStore_def)
qed

end
