(* ===== verification/File_Cache.thy ===== *)
theory File_Cache
  imports Keyed_Store
begin

section \<open>File cache (\<^verbatim>\<open>pkg/filecache/filecache.go\<close>)\<close>

text \<open>
  Contents of files the tools read, kept with the modification time they were read at. A hit does
  not look at the disk; a periodic refresh drops entries not read for the time to live and reloads
  those whose file has changed. A load first takes the file's status and then reads it, and the file
  may change in between, so it sees two states of the file system; what it has read it stores later, and other goroutines
  may have changed both the file and the cache by then. The file system is the
  abstract specification: the cache is correct when reading through it is reading the file.
\<close>

record disk_file =
  f_data :: string
  f_mod :: timestamp

type_synonym disk = "string \<rightharpoonup> disk_file"

definition f_size :: "disk_file \<Rightarrow> int" where
  "f_size f = int (length (f_data f))"

text \<open>\<^verbatim>\<open>os.Stat\<close> and \<^verbatim>\<open>os.ReadFile\<close>; the errors are those of a missing file.\<close>

definition os_error :: "string \<Rightarrow> string \<Rightarrow> go_error" where
  "os_error op path = ErrText (op @ '' '' @ path @ '': no such file or directory'')"

definition os_Stat :: "disk \<Rightarrow> string \<Rightarrow> go_error + disk_file" where
  "os_Stat fs path = (case fs path of None \<Rightarrow> Inl (os_error ''stat'' path) | Some f \<Rightarrow> Inr f)"

definition os_ReadFile :: "disk \<Rightarrow> string \<Rightarrow> go_error + string" where
  "os_ReadFile fs path = (case fs path of None \<Rightarrow> Inl (os_error ''open'' path) | Some f \<Rightarrow> Inr (f_data f))"

record cache_entry =
  ce_data :: string
  ce_mod :: timestamp
  ce_size :: int
  ce_access :: timestamp

record cache =
  c_entries :: "(string, cache_entry) gomap"
  c_maxEntries :: int
  c_maxFileSize :: int
  c_ttl :: int
  c_refreshInterval :: int
  c_loops :: nat
  c_stopped :: bool

datatype cache_option = WithMaxEntries int | WithMaxFileSize int | WithTTL int | WithRefreshInterval int

fun apply_option :: "cache_option \<Rightarrow> cache \<Rightarrow> cache" where
  "apply_option (WithMaxEntries n) c = c\<lparr>c_maxEntries := n\<rparr>"
| "apply_option (WithMaxFileSize n) c = c\<lparr>c_maxFileSize := n\<rparr>"
| "apply_option (WithTTL d) c = c\<lparr>c_ttl := d\<rparr>"
| "apply_option (WithRefreshInterval d) c = c\<lparr>c_refreshInterval := d\<rparr>"

definition cache_New :: "cache_option list \<Rightarrow> cache" where
  "cache_New opts = fold apply_option opts
     \<lparr>c_entries = [], c_maxEntries = 256, c_maxFileSize = 2 * 1024 * 1024, c_ttl = 30 * 60 * 1000000000,
      c_refreshInterval = 5 * 60 * 1000000000, c_loops = 0, c_stopped = False\<rparr>"

text \<open>\<^verbatim>\<open>Start\<close> launches one more loop; \<^verbatim>\<open>Stop\<close> closes the channel that all loops select on, once.\<close>

definition cache_Start :: "cache \<Rightarrow> cache" where
  "cache_Start c = c\<lparr>c_loops := Suc (c_loops c)\<rparr>"

definition cache_Stop :: "cache \<Rightarrow> cache" where
  "cache_Stop c = (if c_stopped c then c else c\<lparr>c_stopped := True\<rparr>)"

text \<open>The scan of \<^verbatim>\<open>evictOne\<close>, with the empty path as \<open>not found yet\<close>.\<close>

fun oldest_of :: "string \<Rightarrow> timestamp \<Rightarrow> (string, cache_entry) gomap \<Rightarrow> string" where
  "oldest_of oldest oldestAccess [] = oldest"
| "oldest_of oldest oldestAccess ((path, e) # es) =
     (if oldest = [] \<or> ce_access e < oldestAccess then oldest_of path (ce_access e) es
      else oldest_of oldest oldestAccess es)"

definition evictOne :: "cache \<Rightarrow> cache" where
  "evictOne c = (let oldest = oldest_of [] 0 (c_entries c) in
     if oldest \<noteq> [] then c\<lparr>c_entries := gomap_delete oldest (c_entries c)\<rparr> else c)"

definition Invalidate :: "string \<Rightarrow> cache \<Rightarrow> cache" where
  "Invalidate path c = c\<lparr>c_entries := gomap_delete path (c_entries c)\<rparr>"

text \<open>A load reads the file without the lock and then stores what it has read.\<close>

definition load_read :: "disk \<Rightarrow> disk \<Rightarrow> timestamp \<Rightarrow> string \<Rightarrow> cache \<Rightarrow> (go_error + string) \<times> cache_entry option" where
  "load_read fs1 fs2 now path c =
     (case os_Stat fs1 path of
        Inl err \<Rightarrow> (Inl err, None)
      | Inr info \<Rightarrow>
          if f_size info > c_maxFileSize c then (os_ReadFile fs2 path, None)
          else (case os_ReadFile fs2 path of
            Inl err \<Rightarrow> (Inl err, None)
          | Inr d \<Rightarrow> (Inr d, Some \<lparr>ce_data = d, ce_mod = f_mod info, ce_size = f_size info, ce_access = now\<rparr>)))"

definition load_store :: "string \<Rightarrow> cache_entry \<Rightarrow> cache \<Rightarrow> cache" where
  "load_store path e c =
     (let c1 = (if int (length (c_entries c)) \<ge> c_maxEntries c then evictOne c else c)
      in c1\<lparr>c_entries := gomap_put path e (c_entries c1)\<rparr>)"

definition cache_load :: "disk \<Rightarrow> disk \<Rightarrow> timestamp \<Rightarrow> string \<Rightarrow> cache \<Rightarrow> (go_error + string) \<times> cache" where
  "cache_load fs1 fs2 now path c =
     (case load_read fs1 fs2 now path c of
        (r, None) \<Rightarrow> (r, c)
      | (r, Some e) \<Rightarrow> (r, load_store path e c))"

definition cache_Get :: "disk \<Rightarrow> disk \<Rightarrow> timestamp \<Rightarrow> string \<Rightarrow> cache \<Rightarrow> (go_error + string) \<times> cache" where
  "cache_Get fs1 fs2 now path c =
     (case map_of (c_entries c) path of
        Some e \<Rightarrow> (Inr (ce_data e), c\<lparr>c_entries := gomap_put path (e\<lparr>ce_access := now\<rparr>) (c_entries c)\<rparr>)
      | None \<Rightarrow> cache_load fs1 fs2 now path c)"

text \<open>One surviving entry of \<^verbatim>\<open>refreshAll\<close>, with the modification time of the snapshot.\<close>

definition refresh_one :: "disk \<Rightarrow> string \<times> timestamp \<Rightarrow> cache \<Rightarrow> cache" where
  "refresh_one fs s c =
     (case os_Stat fs (fst s) of
        Inl err \<Rightarrow> Invalidate (fst s) c
      | Inr info \<Rightarrow>
          if f_mod info = snd s then c
          else if f_size info > c_maxFileSize c then Invalidate (fst s) c
          else (case os_ReadFile fs (fst s) of
            Inl err \<Rightarrow> Invalidate (fst s) c
          | Inr d \<Rightarrow>
              (case map_of (c_entries c) (fst s) of
                 None \<Rightarrow> c
               | Some e \<Rightarrow> c\<lparr>c_entries := gomap_put (fst s)
                   (e\<lparr>ce_data := d, ce_mod := f_mod info, ce_size := f_size info\<rparr>) (c_entries c)\<rparr>)))"

definition evict_expired :: "timestamp \<Rightarrow> cache \<Rightarrow> cache" where
  "evict_expired now c = c\<lparr>c_entries := filter (\<lambda>(p, e). \<not> now - ce_access e > c_ttl c) (c_entries c)\<rparr>"

definition refreshAll :: "disk \<Rightarrow> timestamp \<Rightarrow> cache \<Rightarrow> cache" where
  "refreshAll fs now c =
     (let c1 = evict_expired now c;
          live = map (\<lambda>(p, e). (p, ce_mod e)) (c_entries c1)
      in fold (refresh_one fs) live c1)"

text \<open>The events that end the wait of \<^verbatim>\<open>refreshLoop\<close>, in the order it receives them.\<close>

fun refreshLoop :: "(disk \<times> timestamp) loop_event list \<Rightarrow> cache \<Rightarrow> cache" where
  "refreshLoop [] c = c"
| "refreshLoop (LoopCancelled # evs) c = c"
| "refreshLoop (LoopStopped # evs) c = c"
| "refreshLoop (LoopTick (fs, now) # evs) c = refreshLoop evs (refreshAll fs now c)"

definition cache_Len :: "cache \<Rightarrow> nat" where
  "cache_Len c = length (c_entries c)"

subsection \<open>Runs\<close>

text \<open>
  An entry is honest when the file has its modification time only with its contents; a change of
  the disk is timed when a changed file gets a modification time that neither the file had nor the
  cache knows for it, nor a load that has not stored yet. The list \<open>pend\<close> holds what such loads have read.
\<close>

definition honest :: "disk \<Rightarrow> string \<Rightarrow> cache_entry \<Rightarrow> bool" where
  "honest fs p e \<longleftrightarrow> (case fs p of None \<Rightarrow> True | Some f \<Rightarrow> f_mod f = ce_mod e \<longrightarrow> f_data f = ce_data e)"

definition timed :: "disk \<Rightarrow> disk \<Rightarrow> cache \<Rightarrow> (string \<times> cache_entry) list \<Rightarrow> bool" where
  "timed fs fs' c pend \<longleftrightarrow> (\<forall>p f f'. fs p = Some f \<and> fs' p = Some f' \<and> f_mod f = f_mod f' \<longrightarrow> f = f')
     \<and> (\<forall>p e. map_of (c_entries c) p = Some e \<or> (p, e) \<in> set pend \<longrightarrow> honest fs' p e) \<and> fs' [] = None"

inductive cache_run :: "cache \<Rightarrow> disk \<Rightarrow> cache \<Rightarrow> (string \<times> cache_entry) list \<Rightarrow> bool" for c0 where
  start: "fs [] = None \<Longrightarrow> cache_run c0 fs c0 []"
| change: "cache_run c0 fs c pend \<Longrightarrow> timed fs fs' c pend \<Longrightarrow> cache_run c0 fs' c pend"
| get: "cache_run c0 fs c pend \<Longrightarrow> timed fs fs' c pend \<Longrightarrow> cache_run c0 fs' (snd (cache_Get fs fs' now p c)) pend"
| read: "cache_run c0 fs c pend \<Longrightarrow> timed fs fs' c pend \<Longrightarrow> load_read fs fs' now p c = (r, Some e) \<Longrightarrow>
    cache_run c0 fs' c ((p, e) # pend)"
| store: "cache_run c0 fs c pend \<Longrightarrow> (p, e) \<in> set pend \<Longrightarrow> cache_run c0 fs (load_store p e c) (remove1 (p, e) pend)"
| invalidate: "cache_run c0 fs c pend \<Longrightarrow> cache_run c0 fs (Invalidate p c) pend"
| refresh: "cache_run c0 fs c pend \<Longrightarrow> cache_run c0 fs (refreshAll fs now c) pend"

definition cache_inv :: "disk \<Rightarrow> cache \<Rightarrow> bool" where
  "cache_inv fs c \<longleftrightarrow> gomap_ok (c_entries c) \<and> map_of (c_entries c) [] = None
     \<and> (\<forall>p e. map_of (c_entries c) p = Some e \<longrightarrow> honest fs p e)
     \<and> int (length (c_entries c)) \<le> max 1 (c_maxEntries c)"

subsection \<open>Eviction\<close>

lemma oldest_of_member:
  "oldest_of o' t es = o' \<or> oldest_of o' t es \<in> fst ` set es"
  by (induction o' t es rule: oldest_of.induct) auto

lemma oldest_of_least:
  assumes "o' \<noteq> []" "[] \<notin> fst ` set es"
  shows "\<exists>a \<le> t. (oldest_of o' t es, a) \<in> insert (o', t) ((\<lambda>(p, e). (p, ce_access e)) ` set es)
    \<and> (\<forall>e \<in> snd ` set es. a \<le> ce_access e)"
  using assms
proof (induction o' t es rule: oldest_of.induct)
  case (2 o' t path e es)
  show ?case
  proof (cases "ce_access e < t")
    case True
    from 2 have "path \<noteq> []" "[] \<notin> fst ` set es" by auto
    from "2.IH"(1) [OF _ this] True obtain a where
      "a \<le> ce_access e" "(oldest_of path (ce_access e) es, a) \<in> insert (path, ce_access e) ((\<lambda>(p, e). (p, ce_access e)) ` set es)"
      "\<forall>e \<in> snd ` set es. a \<le> ce_access e" by blast
    with True show ?thesis by (intro exI [of _ a]) auto
  next
    case False
    with "2.prems" have "\<not> (o' = [] \<or> ce_access e < t)" "[] \<notin> fst ` set es" by auto
    from "2.IH"(2) [OF this(1) "2.prems"(1) this(2)] obtain a where
      "a \<le> t" "(oldest_of o' t es, a) \<in> insert (o', t) ((\<lambda>(p, e). (p, ce_access e)) ` set es)"
      "\<forall>e \<in> snd ` set es. a \<le> ce_access e" by blast
    with False "2.prems"(1) show ?thesis by (intro exI [of _ a]) auto
  qed
qed simp

lemma evictOne_least:
  assumes "c_entries c \<noteq> []" "[] \<notin> fst ` set (c_entries c)"
  shows "\<exists>p e. (p, e) \<in> set (c_entries c) \<and> (\<forall>(q, e') \<in> set (c_entries c). ce_access e \<le> ce_access e')
    \<and> evictOne c = c\<lparr>c_entries := gomap_delete p (c_entries c)\<rparr>"
proof -
  obtain p e es where es: "c_entries c = (p, e) # es" using assms(1) by (cases "c_entries c") auto
  with assms(2) have p: "p \<noteq> []" "[] \<notin> fst ` set es" by auto
  have o': "oldest_of [] 0 (c_entries c) = oldest_of p (ce_access e) es" by (simp add: es)
  have ne: "oldest_of p (ce_access e) es \<noteq> []" using oldest_of_member [of p "ce_access e" es] p by metis
  have im: "(\<lambda>(p, e). (p, ce_access e)) ` set (c_entries c) = insert (p, ce_access e) ((\<lambda>(p, e). (p, ce_access e)) ` set es)"
    by (simp add: es)
  from oldest_of_least [OF p, of "ce_access e"] obtain a where a: "a \<le> ce_access e"
    "(oldest_of p (ce_access e) es, a) \<in> (\<lambda>(p, e). (p, ce_access e)) ` set (c_entries c)" "\<forall>e \<in> snd ` set es. a \<le> ce_access e"
    unfolding im by blast
  then obtain e1 where "(oldest_of p (ce_access e) es, e1) \<in> set (c_entries c)" "ce_access e1 = a" by auto
  moreover from this a have "\<forall>(q, e') \<in> set (c_entries c). ce_access e1 \<le> ce_access e'" unfolding es by auto
  ultimately show ?thesis using ne o' unfolding evictOne_def Let_def by auto
qed

subsection \<open>The invariant\<close>

lemma cache_inv_timed: "cache_inv fs c \<Longrightarrow> timed fs fs' c pend \<Longrightarrow> cache_inv fs' c"
  by (simp add: cache_inv_def timed_def)

lemma cache_inv_delete: "cache_inv fs c \<Longrightarrow> cache_inv fs (c\<lparr>c_entries := gomap_delete p (c_entries c)\<rparr>)"
  by (auto simp: cache_inv_def gomap_size_delete split: if_splits)

lemma cache_inv_put:
  assumes "cache_inv fs c" "honest fs p e" "p \<noteq> []" "int (length (gomap_put p e (c_entries c))) \<le> max 1 (c_maxEntries c)"
  shows "cache_inv fs (c\<lparr>c_entries := gomap_put p e (c_entries c)\<rparr>)"
  using assms by (auto simp: cache_inv_def)

lemma cache_inv_replace:
  assumes inv: "cache_inv fs c" and e: "map_of (c_entries c) p = Some e" "honest fs p e'"
  shows "cache_inv fs (c\<lparr>c_entries := gomap_put p e' (c_entries c)\<rparr>)"
proof (rule cache_inv_put [OF inv e(2)])
  show "p \<noteq> []" using inv e(1) by (auto simp: cache_inv_def)
  show "int (length (gomap_put p e' (c_entries c))) \<le> max 1 (c_maxEntries c)"
    using inv e(1) by (simp add: cache_inv_def gomap_size_put)
qed

lemma no_empty_path: "cache_inv fs c \<Longrightarrow> [] \<notin> fst ` set (c_entries c)"
  by (simp add: cache_inv_def map_of_eq_None_iff)

lemma make_room:
  assumes inv: "cache_inv fs c"
  shows "cache_inv fs (if int (length (c_entries c)) \<ge> c_maxEntries c then evictOne c else c)"
    and "int (Suc (length (c_entries (if int (length (c_entries c)) \<ge> c_maxEntries c then evictOne c else c)))) \<le> max 1 (c_maxEntries c)"
    and "c_maxEntries (if int (length (c_entries c)) \<ge> c_maxEntries c then evictOne c else c) = c_maxEntries c"
proof -
  let ?c = "if int (length (c_entries c)) \<ge> c_maxEntries c then evictOne c else c"
  have *: "cache_inv fs ?c \<and> int (Suc (length (c_entries ?c))) \<le> max 1 (c_maxEntries c) \<and> c_maxEntries ?c = c_maxEntries c"
  proof (cases "c_entries c \<noteq> [] \<and> int (length (c_entries c)) \<ge> c_maxEntries c")
    case True
    from evictOne_least [OF conjunct1 [OF True] no_empty_path [OF inv]] obtain p e
      where p: "(p, e) \<in> set (c_entries c)" and ev: "evictOne c = c\<lparr>c_entries := gomap_delete p (c_entries c)\<rparr>" by blast
    have "map_of (c_entries c) p = Some e" using p inv by (simp add: cache_inv_def gomap_lookup_iff)
    then have "length (gomap_delete p (c_entries c)) = length (c_entries c) - 1"
      using inv by (simp add: gomap_size_delete cache_inv_def)
    with True ev cache_inv_delete [OF inv] inv show ?thesis by (auto simp: cache_inv_def)
  next
    case False
    have "evictOne c = c" if "c_entries c = []" using that by (simp add: evictOne_def)
    with False inv show ?thesis by auto
  qed
  then show "cache_inv fs ?c" "int (Suc (length (c_entries ?c))) \<le> max 1 (c_maxEntries c)" "c_maxEntries ?c = c_maxEntries c"
    by blast+
qed

lemma cache_inv_store:
  assumes inv: "cache_inv fs c" and e: "honest fs p e" "p \<noteq> []"
  shows "cache_inv fs (load_store p e c)"
proof -
  let ?c = "if int (length (c_entries c)) \<ge> c_maxEntries c then evictOne c else c"
  have "int (length (gomap_put p e (c_entries ?c))) \<le> max 1 (c_maxEntries ?c)"
    using make_room(2,3) [OF inv] by (auto simp: gomap_size_put)
  then have "cache_inv fs (?c\<lparr>c_entries := gomap_put p e (c_entries ?c)\<rparr>)"
    by (intro cache_inv_put [OF make_room(1) [OF inv] e])
  then show ?thesis by (simp add: load_store_def Let_def)
qed

lemma load_read_honest:
  "load_read fs1 fs2 now p c = (r, Some e) \<Longrightarrow> fs1 [] = None \<Longrightarrow> honest fs2 p e \<and> p \<noteq> []"
  by (auto simp: load_read_def honest_def os_ReadFile_def os_Stat_def split: option.splits if_splits)

lemma cache_inv_load:
  assumes "cache_inv fs2 c" "fs1 [] = None"
  shows "cache_inv fs2 (snd (cache_load fs1 fs2 now path c))"
  using load_read_honest [of fs1 fs2 now path c] cache_inv_store [OF assms(1)] assms
  by (auto simp: cache_load_def split: prod.split option.split)

lemma cache_inv_Get:
  assumes "cache_inv fs2 c" "fs1 [] = None"
  shows "cache_inv fs2 (snd (cache_Get fs1 fs2 now path c))"
proof (cases "map_of (c_entries c) path")
  case (Some e)
  then have "honest fs2 path (e\<lparr>ce_access := now\<rparr>)" using assms(1) by (auto simp: cache_inv_def honest_def split: option.splits)
  with Some assms(1) show ?thesis by (simp add: cache_Get_def cache_inv_replace)
qed (simp add: cache_Get_def cache_inv_load assms)

lemma cache_inv_refresh_one: "cache_inv fs c \<Longrightarrow> cache_inv fs (refresh_one fs s c)"
  by (auto simp: refresh_one_def Invalidate_def os_ReadFile_def os_Stat_def honest_def
      intro!: cache_inv_delete cache_inv_replace split: sum.splits option.splits)

lemma cache_inv_evict_expired: "cache_inv fs c \<Longrightarrow> cache_inv fs (evict_expired now c)"
  using length_filter_le [of "\<lambda>(p, e). \<not> now - ce_access e > c_ttl c" "c_entries c"]
  by (auto simp: cache_inv_def evict_expired_def gomap_ok_filter gomap_filter_lookup simp del: length_filter_le split: option.splits if_splits)

lemma cache_inv_fold: "cache_inv fs c \<Longrightarrow> cache_inv fs (fold (refresh_one fs) live c)"
  by (induction live arbitrary: c) (simp_all add: cache_inv_refresh_one)

lemma cache_run_inv:
  assumes "cache_run c0 fs c pend" "c_entries c0 = []"
  shows "cache_inv fs c \<and> fs [] = None \<and> (\<forall>(p, e) \<in> set pend. honest fs p e \<and> p \<noteq> [])"
  using assms
proof (induction rule: cache_run.induct)
  case (change fs c pend fs')
  then show ?case by (auto simp: timed_def cache_inv_def)
next
  case (get fs c pend fs' now p)
  then have "cache_inv fs' c" "fs [] = None" using cache_inv_timed by blast+
  then have "cache_inv fs' (snd (cache_Get fs fs' now p c))" by (rule cache_inv_Get)
  with get show ?case by (auto simp: timed_def)
next
  case (read fs c pend fs' now p r e)
  then show ?case using load_read_honest [OF read.hyps(3)] cache_inv_timed by (auto simp: timed_def)
next
  case (store fs c pend p e)
  then have "cache_inv fs (load_store p e c)" by (intro cache_inv_store) auto
  with store show ?case using set_remove1_subset [of "(p, e)" pend] by blast
next
  case (refresh fs c pend now)
  then show ?case by (simp add: refreshAll_def Let_def cache_inv_fold cache_inv_evict_expired)
qed (auto simp: cache_inv_def Invalidate_def gomap_size_delete split: if_splits)

subsection \<open>After a refresh\<close>

definition exact :: "disk \<Rightarrow> string \<Rightarrow> cache_entry \<Rightarrow> bool" where
  "exact fs p e \<longleftrightarrow> (\<exists>f. fs p = Some f \<and> f_data f = ce_data e)"

lemma refresh_one_other: "q \<noteq> fst s \<Longrightarrow> map_of (c_entries (refresh_one fs s c)) q = map_of (c_entries c) q"
  by (auto simp: refresh_one_def Invalidate_def split: sum.splits option.splits)

lemma refresh_one_exact:
  assumes "\<And>e. map_of (c_entries c) (fst s) = Some e \<Longrightarrow> ce_mod e = snd s \<and> honest fs (fst s) e"
    and "map_of (c_entries (refresh_one fs s c)) (fst s) = Some e"
  shows "exact fs (fst s) e"
  using assms
  by (auto simp: refresh_one_def Invalidate_def os_Stat_def os_ReadFile_def exact_def honest_def
      split: sum.splits option.splits if_splits)

lemma fold_refresh_exact:
  assumes "distinct (map fst live)"
    and "\<And>p m e. (p, m) \<in> set live \<Longrightarrow> map_of (c_entries c) p = Some e \<Longrightarrow> ce_mod e = m \<and> honest fs p e"
    and "\<And>p e. p \<notin> fst ` set live \<Longrightarrow> map_of (c_entries c) p = Some e \<Longrightarrow> exact fs p e"
    and "map_of (c_entries (fold (refresh_one fs) live c)) p = Some e"
  shows "exact fs p e"
  using assms
proof (induction live arbitrary: c)
  case (Cons s live)
  let ?c = "refresh_one fs s c"
  show ?case
  proof (rule Cons.IH [of ?c])
    show "distinct (map fst live)" using Cons.prems(1) by simp
    show "map_of (c_entries (fold (refresh_one fs) live ?c)) p = Some e" using Cons.prems(4) by simp
  next
    fix q m e' assume q: "(q, m) \<in> set live" "map_of (c_entries ?c) q = Some e'"
    then have "q \<in> fst ` set live" using image_iff by fastforce
    moreover have "fst s \<notin> fst ` set live" using Cons.prems(1) by simp
    ultimately have "q \<noteq> fst s" by metis
    with q have "map_of (c_entries c) q = Some e'" by (simp add: refresh_one_other)
    with q(1) show "ce_mod e' = m \<and> honest fs q e'" by (intro Cons.prems(2)) simp_all
  next
    fix q e' assume q: "q \<notin> fst ` set live" "map_of (c_entries ?c) q = Some e'"
    show "exact fs q e'"
    proof (cases "q = fst s")
      case True
      with q(2) Cons.prems(2) [of "fst s" "snd s"] show ?thesis by (auto intro: refresh_one_exact [of c s fs])
    next
      case False
      with q Cons.prems(3) show ?thesis by (simp add: refresh_one_other)
    qed
  qed
qed simp

lemma refreshAll_exact:
  assumes inv: "cache_inv fs c" and e: "map_of (c_entries (refreshAll fs now c)) p = Some e"
  shows "exact fs p e"
proof -
  let ?c1 = "evict_expired now c"
  note inv1 = cache_inv_evict_expired [OF inv, of now]
  show ?thesis
  proof (rule fold_refresh_exact [OF _ _ _ e [unfolded refreshAll_def Let_def]])
    show "distinct (map fst (map (\<lambda>(p, e). (p, ce_mod e)) (c_entries ?c1)))"
      using inv1 by (simp add: cache_inv_def gomap_ok_def comp_def case_prod_unfold)
  next
    fix q m e' assume "(q, m) \<in> set (map (\<lambda>(p, e). (p, ce_mod e)) (c_entries ?c1))" "map_of (c_entries ?c1) q = Some e'"
    then show "ce_mod e' = m \<and> honest fs q e'"
      using inv1 by (auto simp: cache_inv_def gomap_lookup_iff [symmetric])
  next
    fix q e' assume "q \<notin> fst ` set (map (\<lambda>(p, e). (p, ce_mod e)) (c_entries ?c1))" "map_of (c_entries ?c1) q = Some e'"
    then show "exact fs q e'" by (force dest: map_of_SomeD)
  qed
qed

lemma Get_exact:
  assumes "\<And>e. map_of (c_entries c) p = Some e \<Longrightarrow> exact fs p e"
  shows "fst (cache_Get fs fs now p c) = Inr d \<longleftrightarrow> os_ReadFile fs p = Inr d"
  using assms by (auto simp: cache_Get_def cache_load_def load_read_def os_Stat_def os_ReadFile_def exact_def split: option.splits)


definition demo_disk :: disk where
  "demo_disk = [''a'' \<mapsto> \<lparr>f_data = ''one'', f_mod = 1\<rparr>]"

lemma demo_load_read: "load_read demo_disk demo_disk 5 ''a'' (cache_New []) = (Inr ''one'', Some \<lparr>ce_data = ''one'', ce_mod = 1, ce_size = 3, ce_access = 5\<rparr>)"
  by (simp add: load_read_def cache_New_def os_Stat_def os_ReadFile_def demo_disk_def f_size_def)


text \<open>
  So invalidation after a write is not enough: a reader that started before the write leaves the old contents in the cache,
  and every later read of the path returns them until a refresh or an eviction.
\<close>

lemma stale_after_invalidate:
  "map_of (c_entries (load_store p e (Invalidate p c))) p = Some e
   \<and> fst (cache_Get fs1 fs2 now p (load_store p e (Invalidate p c))) = Inr (ce_data e)"
  by (simp add: cache_Get_def load_store_def Let_def)

text \<open>The loop of the refresher is a run of refreshes, which ends when it is cancelled or stopped.\<close>

lemma refreshLoop_run:
  assumes "cache_run c0 fs c pend"
  shows "cache_run c0 fs (refreshLoop (map (\<lambda>now. LoopTick (fs, now)) ts @ [LoopStopped]) c) pend"
  using assms by (induction ts arbitrary: c) (simp_all add: refresh)

end
