(* ===== verification/File_Tools.thy ===== *)
theory File_Tools
  imports File_Cache Sandbox_Policy Message_Split
begin

section \<open>Tools on files, shell and network (\<^verbatim>\<open>pkg/agent/tools/file.go\<close>, \<^verbatim>\<open>shell.go\<close>, \<^verbatim>\<open>http.go\<close>)\<close>

text \<open>
  The tools through which the model reaches the machine. Each takes its decoded input (or the
  decoder's error), the sandbox policy and the state it works on; paths name files by the sandbox's
  own resolution, so two spellings of a path are one file. Faults of the file system and the HTTP
  client are arguments.
\<close>

definition parseInput :: "go_error + 'p \<Rightarrow> string \<Rightarrow> go_error + 'p" where
  "parseInput input toolName = (case input of Inl err \<Rightarrow> Inl (ErrWrap (toolName @ '': invalid input: '') err) | Inr params \<Rightarrow> Inr params)"

subsection \<open>Files\<close>

record file_world =
  fw_disk :: disk
  fw_cache :: "cache option"

definition getwd_error :: go_error where "getwd_error = ErrText ''getwd: no such file or directory''"

text \<open>The absolute form of an input path; an absolute path is used as it is written.\<close>

definition tool_path :: "os_env \<Rightarrow> string \<Rightarrow> go_error + string" where
  "tool_path os path =
     (if rooted_path path then Inr path
      else (case path_Abs os path of None \<Rightarrow> Inl getwd_error | Some a \<Rightarrow> Inr a))"

fun align_cut :: "string \<Rightarrow> nat \<Rightarrow> nat" where
  "align_cut content 0 = 0"
| "align_cut content (Suc n) =
     (if Suc n < length content \<and> \<not> RuneStart (content ! Suc n) then align_cut content n else Suc n)"

definition output_limit :: "policy \<Rightarrow> nat" where
  "output_limit pol = nat (if MaxOutputBytes pol \<le> 0 then 1024 * 1024 else MaxOutputBytes pol)"

definition limit_content :: "policy \<Rightarrow> string \<Rightarrow> string" where
  "limit_content pol content =
     (if length content > output_limit pol
      then take (align_cut content (output_limit pol)) content @ nl @ ''... (file truncated)'' else content)"

text \<open>Reading through the cache, if there is one; \<open>now\<close> is the time of the access.\<close>

definition tool_read :: "timestamp \<Rightarrow> string \<Rightarrow> file_world \<Rightarrow> (go_error + string) \<times> file_world" where
  "tool_read now path fw =
     (case fw_cache fw of
        Some c \<Rightarrow> (let (r, c') = cache_Get (fw_disk fw) (fw_disk fw) now path c in (r, fw\<lparr>fw_cache := Some c'\<rparr>))
      | None \<Rightarrow> (os_ReadFile (fw_disk fw) path, fw))"

definition file_read_Execute :: "os_env \<Rightarrow> timestamp \<Rightarrow> policy \<Rightarrow> go_error + string \<Rightarrow> file_world \<Rightarrow> (go_error + string) \<times> file_world" where
  "file_read_Execute os now pol input fw =
     (case parseInput input ''file_read'' of
        Inl err \<Rightarrow> (Inl err, fw)
      | Inr p \<Rightarrow>
          if p = [] then (Inl (ErrText ''file_read: path is required''), fw)
          else (case tool_path os p of
            Inl err \<Rightarrow> (Inl (ErrWrap ''file_read: resolving path: '' err), fw)
          | Inr path \<Rightarrow>
              (case CheckPathAllowed os path (AllowedPaths pol) of
                 Some err \<Rightarrow> (Inl (ErrWrap ''file_read: '' err), fw)
               | None \<Rightarrow>
                   (case tool_read now path fw of
                      (Inl err, fw1) \<Rightarrow> (Inl (ErrWrap ''file_read: '' err), fw1)
                    | (Inr content, fw1) \<Rightarrow> (Inr (limit_content pol content), fw1)))))"

record file_write_input =
  fi_path :: string
  fi_content :: string
  fi_append :: bool

text \<open>
  What the file system answers: creating the directory and opening the file may fail, and so may
  writing, of which a part may have reached the disk.
\<close>

record write_faults =
  wf_mkdir :: "go_error option"
  wf_open :: "go_error option"
  wf_write :: "(string \<times> go_error) option"

text \<open>The file the write leaves behind is seen through every spelling of its path.\<close>

definition write_disk :: "os_env \<Rightarrow> timestamp \<Rightarrow> string \<Rightarrow> string \<Rightarrow> bool \<Rightarrow> disk \<Rightarrow> disk" where
  "write_disk os now path content app fs =
     (let old = (case fs path of Some f \<Rightarrow> f_data f | None \<Rightarrow> []);
          f = \<lparr>f_data = (if app then old @ content else content), f_mod = now\<rparr>
      in (\<lambda>q. if resolvePath os q = resolvePath os path then Some f else fs q))"

definition file_write_Execute :: "os_env \<Rightarrow> timestamp \<Rightarrow> write_faults \<Rightarrow> policy \<Rightarrow> go_error + file_write_input \<Rightarrow> file_world \<Rightarrow>
    (go_error + string) \<times> file_world" where
  "file_write_Execute os now faults pol input fw =
     (case parseInput input ''file_write'' of
        Inl err \<Rightarrow> (Inl err, fw)
      | Inr params \<Rightarrow>
          if fi_path params = [] then (Inl (ErrText ''file_write: path is required''), fw)
          else (case tool_path os (fi_path params) of
            Inl err \<Rightarrow> (Inl (ErrWrap ''file_write: resolving path: '' err), fw)
          | Inr path \<Rightarrow>
              (case CheckPathAllowed os path (AllowedPaths pol) of
                 Some err \<Rightarrow> (Inl (ErrWrap ''file_write: '' err), fw)
               | None \<Rightarrow>
              (case CheckPathWritable os path (ReadOnlyPaths pol) of
                 Some err \<Rightarrow> (Inl (ErrWrap ''file_write: '' err), fw)
               | None \<Rightarrow>
              (case (if Dir path \<noteq> ''.'' then wf_mkdir faults else None) of
                 Some err \<Rightarrow> (Inl (ErrWrap ''file_write: creating directory: '' err), fw)
               | None \<Rightarrow>
              (case wf_open faults of
                 Some err \<Rightarrow> (Inl (ErrWrap ''file_write: '' err), fw)
               | None \<Rightarrow>
              (case wf_write faults of
                 Some (part, err) \<Rightarrow>
                   (Inl (ErrWrap ''file_write: '' err), fw\<lparr>fw_disk := write_disk os now path part (fi_append params) (fw_disk fw)\<rparr>)
               | None \<Rightarrow>
                   (Inr (''wrote '' @ nat_to_dec (length (fi_content params)) @ '' bytes to '' @ path),
                    \<lparr>fw_disk = write_disk os now path (fi_content params) (fi_append params) (fw_disk fw),
                     fw_cache = map_option (Invalidate path) (fw_cache fw)\<rparr>))))))))"

subsection \<open>Shell\<close>

record shell_input =
  si_command :: string
  si_workdir :: string

definition shell_command :: "string \<Rightarrow> shell_input \<Rightarrow> command" where
  "shell_command GOOS params = \<lparr>cmd_Name = ''shell'', Program = (if GOOS = ''windows'' then ''cmd'' else ''/bin/sh''), Args = [''-c'', si_command params], Stdin = [], WorkDir = si_workdir params, cmd_Env = []\<rparr>"

definition shell_output :: "exec_output \<Rightarrow> string" where
  "shell_output result =
     Stdout result
     @ (if Stderr result \<noteq> [] then nl @ ''STDERR:'' @ nl @ Stderr result else [])
     @ (if ExitCode result \<noteq> 0 then nl @ ''(exit code: '' @ int_to_dec (ExitCode result) @ '')'' else [])
     @ (if out_Error result \<noteq> [] then nl @ ''Error: '' @ out_Error result else [])"

definition shell_Execute :: "string \<Rightarrow> (command \<Rightarrow> policy \<Rightarrow> go_error + exec_output) \<Rightarrow> policy \<Rightarrow> go_error + shell_input \<Rightarrow> go_error + string" where
  "shell_Execute GOOS exec pol input =
     (case parseInput input ''shell'' of
        Inl err \<Rightarrow> Inl err
      | Inr params \<Rightarrow>
          if si_command params = [] then Inl (ErrText ''shell: command is required'')
          else (case exec (shell_command GOOS params) pol of
            Inl err \<Rightarrow> Inl (ErrWrap ''shell: execution failed: '' err)
          | Inr result \<Rightarrow> Inr (shell_output result)))"

subsection \<open>HTTP\<close>

record http_input =
  hi_url :: string
  hi_method :: string
  hi_headers :: "(string \<times> string) list"
  hi_body :: string

record http_call =
  hc_method :: string
  hc_url :: string
  hc_headers :: "(string \<times> string) list"
  hc_body :: "string option"
  hc_timeout :: duration

record http_response =
  hr_code :: int
  hr_status :: string
  hr_body :: string
  hr_fault :: "go_error option"

definition http_request_of :: "policy \<Rightarrow> http_input \<Rightarrow> http_call" where
  "http_request_of pol params =
     \<lparr>hc_method = (if hi_method params = [] then ''GET'' else hi_method params), hc_url = hi_url params,
      hc_headers = hi_headers params, hc_body = (if hi_body params \<noteq> [] then Some (hi_body params) else None),
      hc_timeout = (if sint (pol_Timeout pol) \<le> 0 then 30 * second else pol_Timeout pol)\<rparr>"

text \<open>
  A response body is the bytes that arrive, then the end or a fault; a body cut off by the limit is
  not read to its fault. \<open>check\<close> is the check of method and URL by \<^verbatim>\<open>NewRequestWithContext\<close>, \<open>client\<close> the HTTP
  client; the second result is the request that was sent, if any.
\<close>

definition http_Execute :: "(http_call \<Rightarrow> go_error option) \<Rightarrow> (http_call \<Rightarrow> go_error + http_response) \<Rightarrow> policy \<Rightarrow> go_error + http_input \<Rightarrow>
    (go_error + string) \<times> http_call option" where
  "http_Execute check client pol input =
     (case parseInput input ''http_request'' of
        Inl err \<Rightarrow> (Inl err, None)
      | Inr params \<Rightarrow>
          if hi_url params = [] then (Inl (ErrText ''http_request: url is required''), None)
          else if NetworkAccess pol = NetworkDeny then (Inl (ErrText ''http_request: network access denied by sandbox policy''), None)
          else
            (let call = http_request_of pol params in
             case check call of
               Some err \<Rightarrow> (Inl (ErrWrap ''http_request: creating request: '' err), None)
             | None \<Rightarrow>
                 (case client call of
                    Inl err \<Rightarrow> (Inl (ErrWrap ''http_request: '' err), Some call)
                  | Inr resp \<Rightarrow>
                      (case (if length (hr_body resp) < output_limit pol then hr_fault resp else None) of
                         Some err \<Rightarrow> (Inl (ErrWrap ''http_request: reading response: '' err), Some call)
                       | None \<Rightarrow>
                           (Inr (''HTTP '' @ int_to_dec (hr_code resp) @ '' '' @ hr_status resp @ nl @ nl @ take (output_limit pol) (hr_body resp)), Some call)))))"

subsection \<open>Bounded output\<close>

lemma align_cut_le: "align_cut s n \<le> n"
  by (induction s n rule: align_cut.induct) auto

lemma align_cut_start: "n < length s \<Longrightarrow> align_cut s n = 0 \<or> RuneStart (s ! align_cut s n)"
  by (induction s n rule: align_cut.induct) auto

lemma valid_align_cut:
  assumes "valid_utf8 s" "n < length s"
  shows "valid_utf8 (take (align_cut s n) s)"
  using align_cut_start [OF assms(2)] align_cut_le [of s n] valid_split [OF assms(1)] assms(2)
  by (metis le_less_trans take0 valid_Nil)

lemma valid_ascii: "list_all (\<lambda>c. byte c < 128) s \<Longrightarrow> valid_utf8 s"
proof (induction s)
  case (Cons c s)
  then have "rune_len (c # s) = 1" by (simp add: rune_len_def trail_ranges_def)
  with Cons show ?case by (simp add: valid_cons)
qed simp

lemma limit_content_length: "length (limit_content pol s) \<le> output_limit pol + 21"
  using align_cut_le [of s "output_limit pol"] by (simp add: limit_content_def nl_def)

lemma limit_content_valid: "valid_utf8 s \<Longrightarrow> valid_utf8 (limit_content pol s)"
proof (cases "length s > output_limit pol")
  case True
  assume "valid_utf8 s"
  moreover have "valid_utf8 (nl @ ''... (file truncated)'')"
    by (rule valid_ascii) (simp add: nl_def newline_def byte_def)
  ultimately show ?thesis using True by (simp add: limit_content_def valid_align_cut valid_append)
qed (simp add: limit_content_def)

subsection \<open>Confinement\<close>

text \<open>A session's use of the file tools, as the sequence of its calls.\<close>

datatype file_op =
    ReadFile timestamp "go_error + string"
  | WriteFile timestamp write_faults "go_error + file_write_input"

fun file_step :: "os_env \<Rightarrow> policy \<Rightarrow> file_op \<Rightarrow> file_world \<Rightarrow> (go_error + string) \<times> file_world" where
  "file_step os pol (ReadFile now input) fw = file_read_Execute os now pol input fw"
| "file_step os pol (WriteFile now faults input) fw = file_write_Execute os now faults pol input fw"

definition file_steps :: "os_env \<Rightarrow> policy \<Rightarrow> file_op list \<Rightarrow> file_world \<Rightarrow> file_world" where
  "file_steps os pol = fold (\<lambda>oper fw. snd (file_step os pol oper fw))"

text \<open>A path is open to writing when its resolution lies in the policy's directories.\<close>

definition writable :: "os_env \<Rightarrow> policy \<Rightarrow> string \<Rightarrow> bool" where
  "writable os pol p \<longleftrightarrow> CheckPathAllowed os p (AllowedPaths pol) = None \<and> CheckPathWritable os p (ReadOnlyPaths pol) = None"

lemma checks_resolve:
  assumes "resolvePath os p = resolvePath os q"
  shows "writable os pol p = writable os pol q"
  using assms by (simp add: writable_def CheckPathAllowed_def CheckPathWritable_def split: option.splits)

lemma write_disk_other: "resolvePath os q \<noteq> resolvePath os path \<Longrightarrow> write_disk os now path content app fs q = fs q"
  by (simp add: write_disk_def Let_def)

lemma tool_read_disk: "tool_read now path fw = (r, fw1) \<Longrightarrow> fw_disk fw1 = fw_disk fw"
  by (auto simp: tool_read_def split: option.splits prod.splits)

lemma file_read_disk: "fw_disk (snd (file_read_Execute os now pol input fw)) = fw_disk fw"
  by (auto simp: file_read_Execute_def parseInput_def dest: tool_read_disk split: sum.splits option.splits prod.splits)

lemma file_write_disk:
  assumes "\<not> writable os pol q"
  shows "fw_disk (snd (file_write_Execute os now faults pol input fw)) q = fw_disk fw q"
proof -
  have "resolvePath os q \<noteq> resolvePath os p" if "writable os pol p" for p
    using that assms checks_resolve by blast
  then show ?thesis
    by (simp add: file_write_Execute_def parseInput_def write_disk_other writable_def split: sum.splits option.splits prod.splits)
qed

lemma file_step_disk: "\<not> writable os pol q \<Longrightarrow> fw_disk (snd (file_step os pol oper fw)) q = fw_disk fw q"
  by (cases oper) (simp_all add: file_read_disk file_write_disk)

lemma file_steps_disk: "\<not> writable os pol q \<Longrightarrow> fw_disk (file_steps os pol opers fw) q = fw_disk fw q"
  by (induction opers arbitrary: fw) (simp_all add: file_steps_def file_step_disk)

lemma file_read_shown:
  assumes "file_read_Execute os now pol (Inr p) fw = (Inr out, fw')"
  shows "\<exists>path content. tool_path os p = Inr path \<and> CheckPathAllowed os path (AllowedPaths pol) = None
    \<and> fst (tool_read now path fw) = Inr content \<and> out = limit_content pol content"
  using assms by (auto simp: file_read_Execute_def parseInput_def split: if_splits sum.splits option.splits prod.splits)

lemma file_written:
  assumes "file_write_Execute os now faults pol (Inr params) fw = (Inr out, fw')"
  shows "\<exists>path. fi_path params \<noteq> [] \<and> tool_path os (fi_path params) = Inr path \<and> writable os pol path
    \<and> fw' = \<lparr>fw_disk = write_disk os now path (fi_content params) (fi_append params) (fw_disk fw),
             fw_cache = map_option (Invalidate path) (fw_cache fw)\<rparr>"
  using assms by (auto simp: file_write_Execute_def parseInput_def writable_def split: if_splits sum.splits option.splits prod.splits)


text \<open>
  what was written is read back. After a \<^verbatim>\<open>file_write\<close> that reports success, with any
  cache in any state, reading the same path returns the contents written (after the previous ones
  when appending), cut to the output limit.
\<close>

theorem file_write_read:
  assumes "file_write_Execute os now faults pol (Inr params) fw = (Inr out, fw')"
  shows "\<exists>path. tool_path os (fi_path params) = Inr path
    \<and> fst (file_read_Execute os later pol (Inr (fi_path params)) fw') =
        Inr (limit_content pol ((if fi_append params then (case fw_disk fw path of Some f \<Rightarrow> f_data f | None \<Rightarrow> []) else [])
               @ fi_content params))"
proof -
  from file_written [OF assms] obtain path where ne: "fi_path params \<noteq> []" and p: "tool_path os (fi_path params) = Inr path"
    and w: "writable os pol path"
    and fw': "fw' = \<lparr>fw_disk = write_disk os now path (fi_content params) (fi_append params) (fw_disk fw),
             fw_cache = map_option (Invalidate path) (fw_cache fw)\<rparr>" by blast
  have "fst (tool_read later path fw') =
      Inr ((if fi_append params then (case fw_disk fw path of Some f \<Rightarrow> f_data f | None \<Rightarrow> []) else []) @ fi_content params)"
    unfolding fw'
    by (cases "fw_cache fw")
      (auto simp: tool_read_def Invalidate_def cache_Get_def cache_load_def load_read_def load_store_def os_Stat_def os_ReadFile_def write_disk_def Let_def
        split: prod.splits)
  with ne p w show ?thesis
    by (auto simp: file_read_Execute_def parseInput_def writable_def split: prod.splits)
qed

text \<open>A world with one file in the allowed directory and one outside it.\<close>

definition demo_world :: file_world where
  "demo_world = \<lparr>fw_disk = [''/work/b'' \<mapsto> \<lparr>f_data = ''one'', f_mod = 1\<rparr>, ''/work/./b'' \<mapsto> \<lparr>f_data = ''one'', f_mod = 1\<rparr>,
     ''/etc/passwd'' \<mapsto> \<lparr>f_data = ''root'', f_mod = 1\<rparr>], fw_cache = Some (cache_New [])\<rparr>"

definition demo_write :: "string \<Rightarrow> string \<Rightarrow> file_op" where
  "demo_write p s = WriteFile 5 \<lparr>wf_mkdir = None, wf_open = None, wf_write = None\<rparr> (Inr \<lparr>fi_path = p, fi_content = s, fi_append = False\<rparr>)"

definition demo_files_policy :: policy where
  "demo_files_policy = DefaultPolicy\<lparr>AllowedPaths := [''/work''], MaxOutputBytes := 4\<rparr>"


theorem file_write_read_witness:
  "fst (file_read_Execute demo_os 9 demo_files_policy (Inr ''/work/b'') (snd (file_step demo_os demo_files_policy (demo_write ''/work/b'' ''two'') demo_world)))
     = Inr ''two''"
proof -
  let ?in = "\<lparr>fi_path = ''/work/b'', fi_content = ''two'', fi_append = False\<rparr>"
  let ?ex = "file_write_Execute demo_os 5 \<lparr>wf_mkdir = None, wf_open = None, wf_write = None\<rparr> demo_files_policy (Inr ?in) demo_world"
  have "fst ?ex = Inr ''wrote 3 bytes to /work/b''" by code_simp
  then have "?ex = (Inr ''wrote 3 bytes to /work/b'', snd ?ex)" by (metis prod.collapse)
  from file_write_read [OF this, of 9] show ?thesis
    by (auto simp: demo_write_def limit_content_def output_limit_def demo_files_policy_def)
qed

text \<open>
  the cache is keyed by the path as written. After the file is read as \<^verbatim>\<open>/work/./b\<close> and
  overwritten as \<^verbatim>\<open>/work/b\<close>, the first spelling still reads the old contents, although both
  name the same file.
\<close>

theorem alias_reads_stale:
  "let fw1 = snd (file_read_Execute demo_os 2 demo_files_policy (Inr ''/work/./b'') demo_world);
       fw2 = snd (file_step demo_os demo_files_policy (demo_write ''/work/b'' ''two'') fw1)
   in resolvePath demo_os ''/work/./b'' = resolvePath demo_os ''/work/b''
      \<and> os_ReadFile (fw_disk fw2) ''/work/./b'' = Inr ''two''
      \<and> fst (file_read_Execute demo_os 9 demo_files_policy (Inr ''/work/./b'') fw2) = Inr ''one''"
  by code_simp

subsection \<open>Network\<close>

text \<open>What a sent request and the tool's result look like, for the model's parameters.\<close>

definition http_shown :: "policy \<Rightarrow> http_input \<Rightarrow> (http_call \<Rightarrow> go_error + http_response) \<Rightarrow> http_call \<Rightarrow> go_error + string \<Rightarrow> bool" where
  "http_shown pol params client call res \<longleftrightarrow>
     NetworkAccess pol \<noteq> NetworkDeny \<and> hi_url params \<noteq> [] \<and> hc_url call = hi_url params
     \<and> hc_method call = (if hi_method params = [] then ''GET'' else hi_method params) \<and> 0 < sint (hc_timeout call)
     \<and> (case res of
          Inl err \<Rightarrow> True
        | Inr out \<Rightarrow> \<exists>resp body. client call = Inr resp \<and> body = take (output_limit pol) (hr_body resp)
            \<and> out = ''HTTP '' @ int_to_dec (hr_code resp) @ '' '' @ hr_status resp @ nl @ nl @ body)"

text \<open>
  requests leave only when the policy lets them. \<^verbatim>\<open>http_request\<close> sends at most one request,
  none under \<^verbatim>\<open>NetworkDeny\<close>; what it sends is the model's URL, with \<^verbatim>\<open>GET\<close> as the
  default method and a positive timeout; and a successful answer carries at most the output limit of
  the body. The allow list of the policy is not consulted: it behaves as \<^verbatim>\<open>NetworkAllow\<close>.
\<close>

theorem http_Execute_guarded:
  "(case snd (http_Execute check client pol (Inr params)) of
      None \<Rightarrow> \<exists>err. fst (http_Execute check client pol (Inr params)) = Inl err
    | Some call \<Rightarrow> http_shown pol params client call (fst (http_Execute check client pol (Inr params))))
   \<and> http_Execute check client (pol\<lparr>NetworkAccess := NetworkAllowList\<rparr>) input = http_Execute check client (pol\<lparr>NetworkAccess := NetworkAllow\<rparr>) input"
proof -
  let ?call = "http_request_of pol params" and ?x = "http_Execute check client pol (Inr params)"
  have t: "0 < sint (hc_timeout ?call)" "hc_url ?call = hi_url params"
      "hc_method ?call = (if hi_method params = [] then ''GET'' else hi_method params)"
    by (simp_all add: http_request_of_def second_def)
  have "case snd ?x of None \<Rightarrow> \<exists>err. fst ?x = Inl err | Some call \<Rightarrow> http_shown pol params client call (fst ?x)"
  proof (cases "hi_url params = [] \<or> NetworkAccess pol = NetworkDeny \<or> check ?call \<noteq> None")
    case True
    then show ?thesis by (auto simp: http_Execute_def parseInput_def Let_def)
  next
    case False
    then show ?thesis
      by (cases "client ?call") (simp_all add: http_Execute_def parseInput_def Let_def http_shown_def t split: option.split)
  qed
  moreover have "http_Execute check client (pol\<lparr>NetworkAccess := NetworkAllowList\<rparr>) input = http_Execute check client (pol\<lparr>NetworkAccess := NetworkAllow\<rparr>) input"
  proof -
    have "http_request_of (pol\<lparr>NetworkAccess := a\<rparr>) = http_request_of pol" "output_limit (pol\<lparr>NetworkAccess := a\<rparr>) = output_limit pol"
      "NetworkAccess (pol\<lparr>NetworkAccess := a\<rparr>) = a" for a
      by (simp_all add: http_request_of_def [abs_def] output_limit_def)
    then show ?thesis unfolding http_Execute_def by (simp only: NetworkPolicy.distinct if_False)
  qed
  ultimately show ?thesis by simp
qed

end
