(* ===== verification/Soul.thy ===== *)
theory Soul
  imports Memory_Store
begin

section \<open>Soul (\<^verbatim>\<open>pkg/soul/soul.go\<close>)\<close>

text \<open>
  The agent's identity: its defaults, the text rendered into every system prompt, its sections, and
  the seeding of the agent's memory. Decoding of the TOML file onto the defaults is an argument.
\<close>

record soul_identity =
  id_name :: string
  id_role :: string
  id_personality :: "string list"

record soul_values =
  va_core :: "string list"
  va_priorities :: string

record soul_tone =
  to_style :: string
  to_verbosity :: string
  to_guidelines :: "string list"

record soul_boundaries =
  bo_refuse :: "string list"
  bo_disclaimers :: "string list"
  bo_notes :: "string list"

record soul =
  so_identity :: soul_identity
  so_values :: soul_values
  so_tone :: soul_tone
  so_boundaries :: soul_boundaries
  so_domains :: "string list"
  so_rules :: "string list"
  so_seeds :: "(string \<times> string) list"

definition soul_Default :: soul where
  "soul_Default =
     \<lparr>so_identity = \<lparr>id_name = ''Pincer'', id_role = ''AI assistant'', id_personality = [''helpful'', ''precise'', ''thoughtful'']\<rparr>,
      so_values = \<lparr>va_core = [''honesty'', ''helpfulness'', ''safety''], va_priorities = ''accuracy over speed, clarity over brevity''\<rparr>,
      so_tone = \<lparr>to_style = ''conversational but professional'', to_verbosity = ''concise'', to_guidelines = []\<rparr>,
      so_boundaries = \<lparr>bo_refuse = [''generating malware'', ''impersonating real people''],
        bo_disclaimers = [''medical'', ''legal'', ''financial''], bo_notes = []\<rparr>,
      so_domains = [''general knowledge''], so_rules = [], so_seeds = []\<rparr>"

text \<open>What reading the file gives; a missing file is no error.\<close>

datatype soul_file = SoulMissing | SoulUnreadable go_error | SoulData string

definition soul_Load :: "(string \<Rightarrow> soul \<Rightarrow> go_error + soul) \<Rightarrow> string \<Rightarrow> soul_file \<Rightarrow> go_error + soul" where
  "soul_Load unmarshal path f =
     (case f of
        SoulMissing \<Rightarrow> Inr soul_Default
      | SoulUnreadable err \<Rightarrow> Inl (ErrWrap (''soul: reading '' @ path @ '': '') err)
      | SoulData bytes \<Rightarrow>
          (case unmarshal bytes soul_Default of
             Inl err \<Rightarrow> Inl (ErrWrap (''soul: parsing '' @ path @ '': '') err)
           | Inr s \<Rightarrow> Inr s))"

definition operationalGuidelines :: string where
  "operationalGuidelines = Join
     [[],
      ''# Operational Guidelines'',
      [],
      ''## Task Execution'',
      ''- Complete multi-step tasks in a single turn by chaining tool calls. Do not stop to ask for confirmation between steps.'',
      ''- If a tool call fails, try an alternative approach before giving up.'',
      [],
      ''## Tool Selection'',
      ''- For web pages: prefer browser over http_request. The browser renders JavaScript, captures screenshots, and supports interaction. Use http_request only for API calls or raw content downloads.'',
      ''- For persistent information: use memory to store facts, user preferences, and project context that should survive across sessions.'',
      ''- For secrets and API keys: use credential to store and retrieve encrypted secrets. Never store secrets in memory.'',
      ''- For complex tasks: use subagent to delegate focused subtasks synchronously. Use spawn for independent background tasks when the user does not need to wait.'',
      [],
      ''## Error Recovery'',
      ''- When you see [System: ...] messages, the system encountered an error on your behalf. Reduce complexity: use fewer parallel tool calls, produce shorter responses, or break the task into smaller steps. Do not repeat the exact same approach.'',
      ''- If a tool times out, retry with a simpler approach or different parameters.'',
      [],
      ''## Context Awareness'',
      ''- Long conversations are automatically summarized. Key information may be in a [Session Summary] at the start of your history.'',
      ''- Store important facts in memory early to avoid losing them during summarization.''] nl"

definition prompt_line :: "string \<Rightarrow> string \<Rightarrow> string" where
  "prompt_line label0 s = label0 @ s @ ''.'' @ nl"

definition list_line :: "string \<Rightarrow> string list \<Rightarrow> string \<Rightarrow> string" where
  "list_line label0 xs sep = (if xs \<noteq> [] then prompt_line label0 (Join xs sep) else [])"

definition bullet_block :: "string \<Rightarrow> string list \<Rightarrow> string" where
  "bullet_block title xs =
     (if xs \<noteq> [] then nl @ ''## '' @ title @ nl @ concat (map (\<lambda>x. ''- '' @ x @ nl) xs) else [])"

definition Render :: "soul \<Rightarrow> string" where
  "Render s =
     ''You are '' @ id_name (so_identity s) @ '', a '' @ id_role (so_identity s) @ ''.'' @ nl
     @ list_line ''Personality: '' (id_personality (so_identity s)) '', ''
     @ list_line ''Core values: '' (va_core (so_values s)) '', ''
     @ (if va_priorities (so_values s) \<noteq> [] then prompt_line ''Priorities: '' (va_priorities (so_values s)) else [])
     @ (if to_style (so_tone s) \<noteq> [] then prompt_line ''Communication style: '' (to_style (so_tone s)) else [])
     @ (if to_verbosity (so_tone s) \<noteq> [] then prompt_line ''Verbosity: '' (to_verbosity (so_tone s)) else [])
     @ bullet_block ''Communication Guidelines'' (to_guidelines (so_tone s))
     @ list_line ''Areas of expertise: '' (so_domains s) '', ''
     @ list_line ''Always refuse to: '' (bo_refuse (so_boundaries s)) ''; ''
     @ list_line ''Add disclaimers when discussing: '' (bo_disclaimers (so_boundaries s)) '', ''
     @ bullet_block ''Boundary Notes'' (bo_notes (so_boundaries s))
     @ bullet_block ''Instructions'' (so_rules s)
     @ operationalGuidelines @ nl"

definition soul_Section :: "soul \<Rightarrow> string \<Rightarrow> string" where
  "soul_Section s name =
     (let n = ToLower name; idn = so_identity s; v = so_values s; t = so_tone s; b = so_boundaries s in
      if n = ''identity'' then
        Join ([''Name: '' @ id_name idn, ''Role: '' @ id_role idn]
          @ (if id_personality idn \<noteq> [] then [''Personality: '' @ Join (id_personality idn) '', ''] else [])) nl
      else if n = ''values'' then
        Join ([''Core: '' @ Join (va_core v) '', ''] @ (if va_priorities v \<noteq> [] then [''Priorities: '' @ va_priorities v] else [])) nl
      else if n = ''tone'' then
        Join ((if to_style t \<noteq> [] then [''Style: '' @ to_style t] else [])
          @ (if to_verbosity t \<noteq> [] then [''Verbosity: '' @ to_verbosity t] else [])
          @ map (\<lambda>g. ''- '' @ g) (to_guidelines t)) nl
      else if n = ''boundaries'' then
        Join ((if bo_refuse b \<noteq> [] then [''Refuse: '' @ Join (bo_refuse b) ''; ''] else [])
          @ (if bo_disclaimers b \<noteq> [] then [''Disclaimer topics: '' @ Join (bo_disclaimers b) '', ''] else [])
          @ map (\<lambda>x. ''- '' @ x) (bo_notes b)) nl
      else if n = ''expertise'' then ''Domains: '' @ Join (so_domains s) '', ''
      else if n = ''instructions'' then
        (if so_rules s = [] then ''(no instructions defined)'' else Join (map (\<lambda>r. ''- '' @ r) (so_rules s)) nl)
      else Render s)"

subsection \<open>Seeding the memory\<close>

definition mem_error_text :: "mem_error \<Rightarrow> go_error" where
  "mem_error_text e =
     (case e of
        MemNotFound key agentID \<Rightarrow> ErrText (''memory: '' @ go_quote key @ '' not found for agent '' @ go_quote agentID)
      | MemImmutableSet key \<Rightarrow> ErrText (''memory: key '' @ go_quote key @ '' is immutable and already set'')
      | MemImmutableDel key \<Rightarrow> ErrText (''memory: key '' @ go_quote key @ '' is immutable and cannot be deleted'')
      | MemDb err \<Rightarrow> err)"

text \<open>The faults, the new id and the time of the statements of one operation.\<close>

record stmt_env =
  se_get :: "go_error option"
  se_put :: "go_error option"
  se_id :: string
  se_now :: timestamp

fun SeedMemory :: "(string \<Rightarrow> string) \<Rightarrow> string set \<Rightarrow> string \<Rightarrow> (nat \<Rightarrow> stmt_env) \<Rightarrow> nat \<Rightarrow> (string \<times> string) list \<Rightarrow> mem_table \<Rightarrow>
    go_error option \<times> mem_table" where
  "SeedMemory contentHash immutableKeys agentID env n [] t = (None, t)"
| "SeedMemory contentHash immutableKeys agentID env n ((key, value) # seeds) t =
     (case memory_Set contentHash immutableKeys (se_get (env n)) (se_put (env n)) (se_id (env n)) (se_now (env n)) agentID key value t of
        (Inr _, t1) \<Rightarrow> SeedMemory contentHash immutableKeys agentID env (Suc n) seeds t1
      | (Inl err, t1) \<Rightarrow>
          if Contains (err_msg (mem_error_text err)) ''immutable''
          then SeedMemory contentHash immutableKeys agentID env (Suc n) seeds t1
          else (Some (ErrWrap (''soul: seeding memory key '' @ go_quote key @ '': '') (mem_error_text err)), t1))"

text \<open>What a sequence of seeds leaves under a key: an immutable key keeps its first value, any other takes the last.\<close>

definition seeded :: "string set \<Rightarrow> (string \<times> string) list \<Rightarrow> (string \<Rightarrow> string option) \<Rightarrow> string \<Rightarrow> string option" where
  "seeded ik seeds m k =
     (if k \<in> ik then (case m k of Some v \<Rightarrow> Some v | None \<Rightarrow> map_of seeds k)
      else (case map_of (rev seeds) k of Some v \<Rightarrow> Some v | None \<Rightarrow> m k))"

lemma seeded_Cons: "seeded ik ((key, value) # seeds) m =
    seeded ik seeds (if key \<in> ik \<and> m key \<noteq> None then m else m(key \<mapsto> value))"
  by (auto simp: seeded_def fun_eq_iff map_add_def split: option.splits)

lemma immutable_text: "Contains (err_msg (mem_error_text (MemImmutableSet key))) ''immutable''"
  unfolding Contains_iff mem_error_text_def
  by (rule exI [of _ "''memory: key '' @ go_quote key @ '' is ''"], rule exI [of _ "'' and already set''"]) simp

lemma immutable_Set:
  "memory_Set h ik None None i now a k v t =
     (if k \<in> ik \<and> mem_lookup t (a, k) \<noteq> None then (Inl (MemImmutableSet k), t) else (Inr (), mem_put h i now (a, k) v t))"
  by (auto simp: memory_Set_def memory_Get_def mem_lookup_def mem_put_def split: option.splits)

text \<open>
  seeding the memory. Without faults of the database \<^verbatim>\<open>SeedMemory\<close> succeeds, keeps the table
  keyed, and leaves for its agent exactly this: an immutable key keeps the value it had, or takes
  its first seed; every other seeded key takes its last seed, over whatever was stored since the last
  start; other keys and other agents are untouched.
\<close>

theorem SeedMemory_exact:
  assumes "mem_ok t" "\<forall>n. se_get (env n) = None \<and> se_put (env n) = None"
  shows "fst (SeedMemory h ik a env n seeds t) = None
    \<and> mem_ok (snd (SeedMemory h ik a env n seeds t))
    \<and> (\<lambda>k. mem_lookup (snd (SeedMemory h ik a env n seeds t)) (a, k)) = seeded ik seeds (\<lambda>k. mem_lookup t (a, k))
    \<and> (\<forall>b k. b \<noteq> a \<longrightarrow> mem_lookup (snd (SeedMemory h ik a env n seeds t)) (b, k) = mem_lookup t (b, k))"
  using assms(1)
proof (induction seeds arbitrary: n t)
  case (Cons s seeds)
  obtain key v where s: "s = (key, v)" by force
  let ?put = "mem_put h (se_id (env n)) (se_now (env n)) (a, key) v t"
  let ?t = "if key \<in> ik \<and> mem_lookup t (a, key) \<noteq> None then t else ?put"
  have step: "SeedMemory h ik a env n (s # seeds) t = SeedMemory h ik a env (Suc n) seeds ?t"
    by (auto simp: s assms(2) immutable_Set immutable_text)
  have ok: "mem_ok ?t" using Cons.prems memory.inv_put by simp
  have l: "mem_lookup ?put = (mem_lookup t)((a, key) \<mapsto> v)" by (rule memory.lookup_put [OF Cons.prems])
  have "(\<lambda>k. mem_lookup ?t (a, k)) =
      (if key \<in> ik \<and> mem_lookup t (a, key) \<noteq> None then (\<lambda>k. mem_lookup t (a, k)) else (\<lambda>k. mem_lookup t (a, k))(key \<mapsto> v))"
    by (auto simp: l fun_eq_iff)
  with Cons.IH [OF ok, of "Suc n"] show ?case unfolding s step [unfolded s] seeded_Cons by (auto simp: l)
qed (auto simp: seeded_def split: option.splits)

definition demo_stmt_env :: "nat \<Rightarrow> stmt_env" where
  "demo_stmt_env n = \<lparr>se_get = None, se_put = None, se_id = nat_to_dec n, se_now = int n\<rparr>"

theorem SeedMemory_exact_witness:
  "let t = snd (SeedMemory (\<lambda>s. s) {''name''} ''a'' demo_stmt_env 0 [(''name'', ''Bob''), (''city'', ''Oslo''), (''city'', ''Rome'')] demo_mem)
   in mem_lookup t (''a'', ''name'') = Some ''Ada'' \<and> mem_lookup t (''a'', ''city'') = Some ''Rome''"
proof -
  have ok: "mem_ok demo_mem" by (simp add: mem_ok_def demo_mem_def mem_key_def)
  have m: "mem_lookup demo_mem (''a'', ''name'') = Some ''Ada''" by (simp add: demo_mem_def mem_lookup_def mem_match_def)
  let ?t = "snd (SeedMemory (\<lambda>s. s) {''name''} ''a'' demo_stmt_env 0 [(''name'', ''Bob''), (''city'', ''Oslo''), (''city'', ''Rome'')] demo_mem)"
  from SeedMemory_exact [OF ok, of demo_stmt_env "\<lambda>s. s" "{''name''}" "''a''" 0 "[(''name'', ''Bob''), (''city'', ''Oslo''), (''city'', ''Rome'')]"]
  have "(\<lambda>k. mem_lookup ?t (''a'', k)) = seeded {''name''} [(''name'', ''Bob''), (''city'', ''Oslo''), (''city'', ''Rome'')] (\<lambda>k. mem_lookup demo_mem (''a'', k))"
    by (simp add: demo_stmt_env_def)
  then have "mem_lookup ?t (''a'', k) = seeded {''name''} [(''name'', ''Bob''), (''city'', ''Oslo''), (''city'', ''Rome'')] (\<lambda>k. mem_lookup demo_mem (''a'', k)) k" for k
    by (rule fun_cong)
  then show ?thesis by (simp add: seeded_def m Let_def)
qed

end
