(* ===== verification/Credentials.thy ===== *)
theory Credentials
  imports Keyed_Store "HOL-Library.List_Lexorder" "HOL-Library.Char_ord"
begin

section \<open>Stored credentials (\<^verbatim>\<open>pkg/credentials/credentials.go\<close>)\<close>

text \<open>
  Secrets in a table, each encrypted with a key derived from the master key. The authenticated
  cipher (AES-GCM), the key derivation (Argon2) and the random nonces are arguments; what the store
  relies on is that a nonce has the cipher's size and that opening undoes sealing. A database fault
  is an argument of each operation.
\<close>

record credential =
  cred_id :: string
  cred_name :: string
  cred_value :: string
  cred_created :: timestamp

record aead =
  nonce_size :: nat
  seal :: "string \<Rightarrow> string \<Rightarrow> string"
  open_sealed :: "string \<Rightarrow> string \<Rightarrow> go_error + string"

type_synonym cred_table = "credential list"

definition cred_New :: "(string \<Rightarrow> go_error + aead) \<Rightarrow> string \<Rightarrow> go_error + aead" where
  "cred_New derive_cipher masterKey =
     (if masterKey = [] then Inl (ErrText ''credentials: master key must not be empty'')
      else (case derive_cipher masterKey of Inl err \<Rightarrow> Inl (ErrWrap ''credentials: creating cipher: '' err) | Inr gcm \<Rightarrow> Inr gcm))"

text \<open>The nonce, or the error of the random source.\<close>

definition encrypt :: "aead \<Rightarrow> go_error + string \<Rightarrow> string \<Rightarrow> go_error + string" where
  "encrypt gcm rand plaintext = (case rand of Inl err \<Rightarrow> Inl err | Inr nonce \<Rightarrow> Inr (nonce @ seal gcm nonce plaintext))"

definition decrypt :: "aead \<Rightarrow> string \<Rightarrow> go_error + string" where
  "decrypt gcm ciphertext =
     (if length ciphertext < nonce_size gcm then Inl (ErrText ''ciphertext too short'')
      else open_sealed gcm (take (nonce_size gcm) ciphertext) (drop (nonce_size gcm) ciphertext))"

definition cred_upsert :: "credential \<Rightarrow> cred_table \<Rightarrow> cred_table" where
  "cred_upsert c t =
     (if list_ex (\<lambda>x. cred_name x = cred_name c) t
      then map (\<lambda>x. if cred_name x = cred_name c then x\<lparr>cred_value := cred_value c\<rparr> else x) t
      else t @ [c])"

definition cred_Set :: "aead \<Rightarrow> go_error + string \<Rightarrow> go_error option \<Rightarrow> string \<Rightarrow> timestamp \<Rightarrow> string \<Rightarrow> string \<Rightarrow> cred_table \<Rightarrow>
    go_error option \<times> cred_table" where
  "cred_Set gcm rand fault newID now name value t =
     (case encrypt gcm rand value of
        Inl err \<Rightarrow> (Some (ErrWrap ''credentials: encrypting: '' err), t)
      | Inr encrypted \<Rightarrow>
          (case fault of
             Some err \<Rightarrow> (Some err, t)
           | None \<Rightarrow> (None, cred_upsert \<lparr>cred_id = newID, cred_name = name, cred_value = encrypted, cred_created = now\<rparr> t)))"

definition cred_Get :: "aead \<Rightarrow> go_error option \<Rightarrow> string \<Rightarrow> cred_table \<Rightarrow> go_error + string" where
  "cred_Get gcm fault name t =
     (case fault of
        Some err \<Rightarrow> Inl err
      | None \<Rightarrow>
          (case find (\<lambda>x. cred_name x = name) t of
             None \<Rightarrow> Inl (ErrText (''credentials: '' @ go_quote name @ '' not found''))
           | Some c \<Rightarrow>
               (case decrypt gcm (cred_value c) of
                  Inl err \<Rightarrow> Inl (ErrWrap (''credentials: decrypting '' @ go_quote name @ '': '') err)
                | Inr plaintext \<Rightarrow> Inr plaintext)))"

definition cred_Delete :: "go_error option \<Rightarrow> string \<Rightarrow> cred_table \<Rightarrow> go_error option \<times> cred_table" where
  "cred_Delete fault name t =
     (case fault of
        Some err \<Rightarrow> (Some err, t)
      | None \<Rightarrow>
          (let t' = filter (\<lambda>x. cred_name x \<noteq> name) t in
           if length t' = length t then (Some (ErrText (''credentials: '' @ go_quote name @ '' not found'')), t') else (None, t')))"

text \<open>The names in bytewise order, as SQLite's default collation has it.\<close>

definition cred_List :: "go_error option \<Rightarrow> cred_table \<Rightarrow> go_error + string list" where
  "cred_List fault t = (case fault of Some err \<Rightarrow> Inl err | None \<Rightarrow> Inr (sort (map cred_name t)))"

subsection \<open>The table as a keyed store\<close>

definition cred_ok :: "cred_table \<Rightarrow> bool" where
  "cred_ok t \<longleftrightarrow> distinct (map cred_name t)"

definition cred_lookup :: "cred_table \<Rightarrow> string \<Rightarrow> string option" where
  "cred_lookup t name = map_option cred_value (find (\<lambda>x. cred_name x = name) t)"

definition cred_remove :: "string \<Rightarrow> cred_table \<Rightarrow> cred_table" where
  "cred_remove name t = filter (\<lambda>x. cred_name x \<noteq> name) t"

lemma cred_lookup_Cons: "cred_lookup (c # t) name = (if cred_name c = name then Some (cred_value c) else cred_lookup t name)"
  by (simp add: cred_lookup_def)

lemma cred_lookup_None: "cred_lookup t name = None \<longleftrightarrow> name \<notin> cred_name ` set t"
  by (auto simp: cred_lookup_def find_None_iff)

lemma cred_lookup_map:
  "cred_lookup (map (\<lambda>x. if cred_name x = n then x\<lparr>cred_value := v\<rparr> else x) t) name =
     (if name = n \<and> n \<in> cred_name ` set t then Some v else cred_lookup t name)"
  by (induction t) (auto simp: cred_lookup_Cons cred_lookup_def)

lemma cred_lookup_snoc: "cred_lookup (t @ [c]) name = (case cred_lookup t name of Some v \<Rightarrow> Some v | None \<Rightarrow> if cred_name c = name then Some (cred_value c) else None)"
  by (induction t) (auto simp: cred_lookup_Cons cred_lookup_def)

lemma cred_lookup_upsert: "cred_lookup (cred_upsert c t) = (cred_lookup t)(cred_name c \<mapsto> cred_value c)"
proof
  fix name
  have ex: "list_ex (\<lambda>x. cred_name x = cred_name c) t \<longleftrightarrow> cred_name c \<in> cred_name ` set t" by (auto simp: list_ex_iff image_iff eq_commute)
  show "cred_lookup (cred_upsert c t) name = ((cred_lookup t)(cred_name c \<mapsto> cred_value c)) name"
    using cred_lookup_None [of t "cred_name c"]
    by (auto simp: cred_upsert_def ex cred_lookup_map cred_lookup_snoc split: option.splits)
qed

lemma cred_lookup_remove: "cred_lookup (cred_remove name t) = (cred_lookup t)(name := None)"
proof
  fix n
  show "cred_lookup (cred_remove name t) n = ((cred_lookup t)(name := None)) n"
    by (induction t) (auto simp: cred_remove_def cred_lookup_Cons cred_lookup_def [of "[]"])
qed

lemma cred_ok_upsert: "cred_ok t \<Longrightarrow> cred_ok (cred_upsert c t)"
proof -
  have "map cred_name (map (\<lambda>x. if cred_name x = cred_name c then x\<lparr>cred_value := cred_value c\<rparr> else x) t) = map cred_name t"
    by (induction t) auto
  then show "cred_ok t \<Longrightarrow> cred_ok (cred_upsert c t)"
    by (auto simp: cred_ok_def cred_upsert_def list_ex_iff simp del: map_map)
qed

interpretation credentials: keyed_store cred_lookup "\<lambda>n v. cred_upsert \<lparr>cred_id = i, cred_name = n, cred_value = v, cred_created = now\<rparr>"
    cred_remove cred_ok for i now
  by unfold_locales (simp_all add: cred_lookup_upsert cred_lookup_remove cred_ok_upsert, simp add: cred_ok_def cred_remove_def distinct_map_filter)

definition aead_ok :: "aead \<Rightarrow> bool" where
  "aead_ok gcm \<longleftrightarrow> (\<forall>n p. length n = nonce_size gcm \<longrightarrow> open_sealed gcm n (seal gcm n p) = Inr p)"

lemma decrypt_encrypt:
  "aead_ok gcm \<Longrightarrow> length nonce = nonce_size gcm \<Longrightarrow> encrypt gcm (Inr nonce) p = Inr c \<Longrightarrow> decrypt gcm c = Inr p"
  by (auto simp: encrypt_def decrypt_def aead_ok_def)

lemma cred_Get_lookup:
  "cred_Get gcm None name t = (case cred_lookup t name of
     None \<Rightarrow> Inl (ErrText (''credentials: '' @ go_quote name @ '' not found''))
   | Some v \<Rightarrow> (case decrypt gcm v of Inl err \<Rightarrow> Inl (ErrWrap (''credentials: decrypting '' @ go_quote name @ '': '') err) | Inr p \<Rightarrow> Inr p))"
  by (simp add: cred_Get_def cred_lookup_def split: option.splits)

text \<open>
  a stored secret comes back, and only under its name. With a cipher whose opening undoes its
  sealing and a nonce of its size, after a successful \<^verbatim>\<open>Set\<close> a \<^verbatim>\<open>Get\<close> of the name
  returns the value, every other name answers as before, and after \<^verbatim>\<open>Delete\<close> the name is not
  found; the table never holds two rows for a name, and only the ciphertext with its nonce is
  stored. A failed \<^verbatim>\<open>Set\<close> stores nothing.
\<close>

theorem credential_roundtrip:
  assumes gcm: "aead_ok gcm" "length nonce = nonce_size gcm" and ok: "cred_ok t"
    and set: "cred_Set gcm (Inr nonce) fault newID now name value t = (err, t')"
  shows "(err = None \<longrightarrow> cred_Get gcm None name t' = Inr value \<and> cred_lookup t' name = Some (nonce @ seal gcm nonce value)
        \<and> cred_Get gcm None name (snd (cred_Delete None name t')) = Inl (ErrText (''credentials: '' @ go_quote name @ '' not found'')))
    \<and> (err \<noteq> None \<longrightarrow> t' = t) \<and> (other \<noteq> name \<longrightarrow> cred_Get gcm None other t' = cred_Get gcm None other t) \<and> cred_ok t'"
proof (cases fault)
  case None
  let ?c = "\<lparr>cred_id = newID, cred_name = name, cred_value = nonce @ seal gcm nonce value, cred_created = now\<rparr>"
  have t': "t' = cred_upsert ?c t" and err: "err = None"
    using set None by (auto simp: cred_Set_def encrypt_def)
  have l: "cred_lookup t' = (cred_lookup t)(name \<mapsto> nonce @ seal gcm nonce value)"
    unfolding t' using credentials.lookup_put [OF ok] by simp
  have d: "decrypt gcm (nonce @ seal gcm nonce value) = Inr value"
    using decrypt_encrypt [OF gcm] by (simp add: encrypt_def)
  have del: "snd (cred_Delete None name t') = cred_remove name t'" by (simp add: cred_Delete_def cred_remove_def Let_def)
  show ?thesis
    using ok unfolding t' [symmetric]
    by (simp add: err cred_Get_lookup l d del cred_lookup_remove) (simp add: t' cred_ok_upsert)
next
  case (Some e)
  with set ok show ?thesis by (auto simp: cred_Set_def encrypt_def)
qed

definition demo_aead :: aead where
  "demo_aead = \<lparr>nonce_size = 2, seal = (\<lambda>n p. rev p @ n), open_sealed = (\<lambda>n c. Inr (rev (take (length c - 2) c)))\<rparr>"

theorem credential_roundtrip_witness:
  "cred_Get demo_aead None ''k'' (snd (cred_Set demo_aead (Inr ''ab'') None ''i'' 1 ''k'' ''secret'' [])) = Inr ''secret''"
proof -
  have "aead_ok demo_aead" by (simp add: aead_ok_def demo_aead_def)
  moreover have "cred_Set demo_aead (Inr ''ab'') None ''i'' 1 ''k'' ''secret'' [] = (None, snd (cred_Set demo_aead (Inr ''ab'') None ''i'' 1 ''k'' ''secret'' []))"
    by (simp add: cred_Set_def encrypt_def)
  ultimately show ?thesis
    using credential_roundtrip [of demo_aead "''ab''" "[]"] by (fastforce simp: demo_aead_def cred_ok_def)
qed

end
