(* ===== verification/Store_Tools.thy ===== *)
theory Store_Tools
  imports Soul Credentials File_Tools Agent_Tools
begin

section \<open>Tools on stored data (\<^verbatim>\<open>pkg/agent/tools/memory.go\<close>, \<^verbatim>\<open>credential.go\<close>, \<^verbatim>\<open>soul.go\<close>)\<close>

text \<open>
  The tools \<^verbatim>\<open>memory\<close>, \<^verbatim>\<open>credential\<close> and \<^verbatim>\<open>soul\<close>: whole \<^verbatim>\<open>Execute\<close> methods over the
  tables they work on, with the decoded input, the faults of the database, new ids, nonces and the
  time as arguments.
\<close>

subsection \<open>Memory\<close>

record memory_input =
  mi_action :: string
  mi_key :: string
  mi_value :: string
  mi_query :: string

definition entry_lines :: "mem_entry list \<Rightarrow> string" where
  "entry_lines es = concat (map (\<lambda>e. ''['' @ me_key e @ '']: '' @ me_value e @ nl) es)"

definition memory_Execute :: "(string \<Rightarrow> string) \<Rightarrow> string set \<Rightarrow> stmt_env \<Rightarrow> go_ctx \<Rightarrow> go_error + memory_input \<Rightarrow> mem_table \<Rightarrow>
    (go_error + string) \<times> mem_table" where
  "memory_Execute contentHash immutableKeys env ctx input t =
     (case parseInput input ''memory'' of
        Inl err \<Rightarrow> (Inl err, t)
      | Inr params \<Rightarrow>
          (let agentID = AgentIDFromContext ctx; action = mi_action params; key = mi_key params in
           if action = ''get'' then
             (if key = [] then (Inl (ErrText ''memory: key is required for get''), t)
              else (case memory_Get (se_get env) t agentID key of
                Inl err \<Rightarrow> (Inl (mem_error_text err), t)
              | Inr e \<Rightarrow> (Inr (me_value e), t)))
           else if action = ''set'' then
             (if key = [] then (Inl (ErrText ''memory: key is required for set''), t)
              else if mi_value params = [] then (Inl (ErrText ''memory: value is required for set''), t)
              else (case memory_Set contentHash immutableKeys (se_get env) (se_put env) (se_id env) (se_now env) agentID key (mi_value params) t of
                (Inl err, t1) \<Rightarrow> (Inl (mem_error_text err), t1)
              | (Inr _, t1) \<Rightarrow> (Inr (''stored '' @ go_quote key), t1)))
           else if action = ''delete'' then
             (if key = [] then (Inl (ErrText ''memory: key is required for delete''), t)
              else (case memory_Delete immutableKeys (se_put env) agentID key t of
                (Inl err, t1) \<Rightarrow> (Inl (mem_error_text err), t1)
              | (Inr _, t1) \<Rightarrow> (Inr (''deleted '' @ go_quote key), t1)))
           else if action = ''list'' then
             (case memory_List (se_get env) t agentID of
                Inl err \<Rightarrow> (Inl (mem_error_text err), t)
              | Inr es \<Rightarrow> (Inr (if es = [] then ''no memory entries'' else entry_lines es), t))
           else if action = ''search'' then
             (if mi_query params = [] then (Inl (ErrText ''memory: query is required for search''), t)
              else (case memory_Search (se_get env) t agentID (mi_query params) of
                Inl err \<Rightarrow> (Inl (mem_error_text err), t)
              | Inr es \<Rightarrow> (Inr (if es = [] then ''no matching entries'' else entry_lines es), t)))
           else (Inl (ErrText (''memory: unknown action '' @ go_quote action)), t)))"

subsection \<open>Credentials\<close>

record credential_input =
  ci_action :: string
  ci_name :: string
  ci_value :: string

record cred_env =
  ce_rand :: "go_error + string"
  ce_fault :: "go_error option"
  ce_id :: string
  ce_now :: timestamp

definition credential_Execute :: "aead \<Rightarrow> cred_env \<Rightarrow> go_error + credential_input \<Rightarrow> cred_table \<Rightarrow> (go_error + string) \<times> cred_table" where
  "credential_Execute gcm env input t =
     (case parseInput input ''credential'' of
        Inl err \<Rightarrow> (Inl err, t)
      | Inr params \<Rightarrow>
          (let action = ci_action params; name = ci_name params in
           if action = ''get'' then
             (if name = [] then (Inl (ErrText ''credential: name is required for get''), t)
              else (cred_Get gcm (ce_fault env) name t, t))
           else if action = ''set'' then
             (if name = [] then (Inl (ErrText ''credential: name is required for set''), t)
              else if ci_value params = [] then (Inl (ErrText ''credential: value is required for set''), t)
              else (case cred_Set gcm (ce_rand env) (ce_fault env) (ce_id env) (ce_now env) name (ci_value params) t of
                (Some err, t1) \<Rightarrow> (Inl err, t1)
              | (None, t1) \<Rightarrow> (Inr (''credential '' @ go_quote name @ '' stored''), t1)))
           else if action = ''delete'' then
             (if name = [] then (Inl (ErrText ''credential: name is required for delete''), t)
              else (case cred_Delete (ce_fault env) name t of
                (Some err, t1) \<Rightarrow> (Inl err, t1)
              | (None, t1) \<Rightarrow> (Inr (''credential '' @ go_quote name @ '' deleted''), t1)))
           else if action = ''list'' then
             (case cred_List (ce_fault env) t of
                Inl err \<Rightarrow> (Inl err, t)
              | Inr names \<Rightarrow> (Inr (if names = [] then ''no credentials stored'' else Join names nl), t))
           else (Inl (ErrText (''credential: unknown action '' @ go_quote action)), t)))"

subsection \<open>Soul\<close>

definition soul_Execute :: "soul \<Rightarrow> go_error + string \<Rightarrow> go_error + string" where
  "soul_Execute s input =
     (case parseInput input ''soul'' of
        Inl err \<Rightarrow> Inl err
      | Inr section0 \<Rightarrow> Inr (if section0 = [] \<or> section0 = ''all'' then Render s else soul_Section s section0))"

subsection \<open>A tool over a keyed store\<close>

text \<open>
  What the memory and the credential tool have in common: a call that succeeds has its effect on one
  key, a call that fails has none, and a call that asks for a key answers with its value.
  \<open>latest\<close> is the abstract specification: a key holds what the last successful call wrote.
\<close>

fun kv_run :: "('c \<Rightarrow> 's \<Rightarrow> (go_error + string) \<times> 's) \<Rightarrow> 'c list \<Rightarrow> 's \<Rightarrow> (go_error + string) list \<times> 's" where
  "kv_run exec [] s = ([], s)"
| "kv_run exec (c # cs) s = (let (r, s1) = exec c s; (rs, s2) = kv_run exec cs s1 in (r # rs, s2))"

fun latest :: "('c \<Rightarrow> ('k \<times> string option) option) \<Rightarrow> 'k \<Rightarrow> ('c \<times> (go_error + string)) list \<Rightarrow> string option \<Rightarrow> string option" where
  "latest effect k [] v = v"
| "latest effect k ((c, r) # hist) v =
     latest effect k hist (case (r, effect c) of (Inr _, Some (k', v')) \<Rightarrow> if k' = k then v' else v | _ \<Rightarrow> v)"

locale kv_tool =
  fixes exec :: "'c \<Rightarrow> 's \<Rightarrow> (go_error + string) \<times> 's"
    and view :: "'s \<Rightarrow> 'k \<Rightarrow> string option"
    and inv :: "'s \<Rightarrow> bool"
    and good :: "'c \<Rightarrow> bool"
    and effect :: "'c \<Rightarrow> ('k \<times> string option) option"
    and asks :: "'c \<Rightarrow> 'k option"
  assumes exec_inv: "inv s \<Longrightarrow> good c \<Longrightarrow> inv (snd (exec c s))"
    and exec_ok: "inv s \<Longrightarrow> good c \<Longrightarrow> exec c s = (Inr out, s') \<Longrightarrow>
      view s' = (case effect c of Some (k, v) \<Rightarrow> (view s)(k := v) | None \<Rightarrow> view s)"
    and exec_err: "inv s \<Longrightarrow> good c \<Longrightarrow> exec c s = (Inl e, s') \<Longrightarrow> view s' = view s"
    and exec_ask: "inv s \<Longrightarrow> good c \<Longrightarrow> asks c = Some k \<Longrightarrow> exec c s = (Inr out, s') \<Longrightarrow> view s k = Some out"
begin

lemma step_view:
  assumes "inv s" "good c" "exec c s = (r, s')"
  shows "view s' k = (case (r, effect c) of (Inr _, Some (k', v')) \<Rightarrow> if k' = k then v' else view s k | _ \<Rightarrow> view s k)"
proof (cases r)
  case (Inr out)
  then show ?thesis using exec_ok [OF assms(1,2)] assms(3) by (auto split: option.splits)
qed (use exec_err [OF assms(1,2)] assms(3) in auto)

lemma run_view:
  "inv s \<Longrightarrow> list_all good cs \<Longrightarrow> kv_run exec cs s = (rs, s') \<Longrightarrow>
     inv s' \<and> view s' k = latest effect k (zip cs rs) (view s k)"
proof (induction cs arbitrary: s rs)
  case (Cons c cs)
  obtain r s1 where e: "exec c s = (r, s1)" by force
  obtain rs1 where rs: "kv_run exec cs s1 = (rs1, s')" "rs = r # rs1" using Cons.prems(3) e by (auto split: prod.splits)
  have i1: "inv s1" using exec_inv [OF Cons.prems(1), of c] Cons.prems(2) e by simp
  have v: "view s1 k = (case (r, effect c) of (Inr _, Some (k', v')) \<Rightarrow> if k' = k then v' else view s k | _ \<Rightarrow> view s k)"
    using Cons.prems(1,2) e by (intro step_view) simp_all
  from Cons.IH [OF i1 _ rs(1)] Cons.prems(2) show ?case unfolding rs(2) by (simp add: v)
qed simp

lemma reads_latest:
  assumes "inv s" "list_all good cs" "kv_run exec cs s = (rs, s')" "good c" "asks c = Some k" "exec c s' = (Inr out, s'')"
  shows "latest effect k (zip cs rs) (view s k) = Some out"
  using run_view [OF assms(1-3), of k] exec_ask [OF _ assms(4-6)] by simp

end

subsection \<open>The memory tool\<close>

record memory_call =
  mc_env :: stmt_env
  mc_ctx :: go_ctx
  mc_input :: "go_error + memory_input"

definition memory_call_run :: "(string \<Rightarrow> string) \<Rightarrow> string set \<Rightarrow> memory_call \<Rightarrow> mem_table \<Rightarrow> (go_error + string) \<times> mem_table" where
  "memory_call_run h ik c = memory_Execute h ik (mc_env c) (mc_ctx c) (mc_input c)"

definition memory_effect :: "memory_call \<Rightarrow> ((string \<times> string) \<times> string option) option" where
  "memory_effect c =
     (case mc_input c of
        Inl _ \<Rightarrow> None
      | Inr p \<Rightarrow>
          if mi_action p = ''set'' then Some ((AgentIDFromContext (mc_ctx c), mi_key p), Some (mi_value p))
          else if mi_action p = ''delete'' then Some ((AgentIDFromContext (mc_ctx c), mi_key p), None) else None)"

definition memory_asks :: "memory_call \<Rightarrow> (string \<times> string) option" where
  "memory_asks c =
     (case mc_input c of
        Inl _ \<Rightarrow> None
      | Inr p \<Rightarrow> if mi_action p = ''get'' then Some (AgentIDFromContext (mc_ctx c), mi_key p) else None)"

lemma memory_Set_Inr: "memory_Set h ik fget fput i now a k v t = (Inr u, t') \<Longrightarrow> t' = mem_put h i now (a, k) v t"
  by (auto simp: memory_Set_def mem_put_def split: if_splits option.splits)

lemma memory_Set_Inl: "memory_Set h ik fget fput i now a k v t = (Inl e, t') \<Longrightarrow> t' = t"
  by (auto simp: memory_Set_def split: if_splits option.splits)

lemma memory_Delete_Inr: "memory_Delete ik fault a k t = (Inr u, t') \<Longrightarrow> t' = mem_remove (a, k) t"
  by (auto simp: memory_Delete_def mem_remove_def Let_def split: if_splits option.splits)

lemma filter_full: "length (filter P xs) = length xs \<Longrightarrow> filter P xs = xs"
  by (metis filter_True length_filter_less less_irrefl)

lemma memory_Delete_Inl: "memory_Delete ik fault a k t = (Inl e, t') \<Longrightarrow> t' = t"
  by (auto simp: memory_Delete_def Let_def dest!: filter_full split: if_splits option.splits)

lemma memory_Get_Inr: "memory_Get fault t a k = Inr e \<Longrightarrow> mem_lookup t (a, k) = Some (me_value e)"
  by (auto simp: memory_Get_def mem_lookup_def split: option.splits)

lemma memory_Execute_set:
  assumes "memory_Execute h ik env ctx (Inr p) t = (r, t')" "mi_action p = ''set''"
  shows "(\<exists>e. r = Inl e) \<and> t' = t \<or>
    (\<exists>out. r = Inr out) \<and> t' = mem_put h (se_id env) (se_now env) (AgentIDFromContext ctx, mi_key p) (mi_value p) t"
  using assms
  by (auto simp: memory_Execute_def parseInput_def Let_def
      dest!: memory_Set_Inr memory_Set_Inl split: if_splits sum.splits prod.splits)

lemma memory_Execute_delete:
  assumes "memory_Execute h ik env ctx (Inr p) t = (r, t')" "mi_action p = ''delete''"
  shows "(\<exists>e. r = Inl e) \<and> t' = t \<or> (\<exists>out. r = Inr out) \<and> t' = mem_remove (AgentIDFromContext ctx, mi_key p) t"
  using assms
  by (auto simp: memory_Execute_def parseInput_def Let_def
      dest!: memory_Delete_Inr memory_Delete_Inl split: if_splits sum.splits prod.splits)

lemma memory_Execute_get:
  assumes "memory_Execute h ik env ctx (Inr p) t = (Inr out, t')" "mi_action p = ''get''"
  shows "mem_lookup t (AgentIDFromContext ctx, mi_key p) = Some out"
  using assms
  by (auto simp: memory_Execute_def parseInput_def Let_def
      dest!: memory_Get_Inr split: if_splits sum.splits)

lemma memory_Execute_reads:
  assumes "mi_action p \<noteq> ''set''" "mi_action p \<noteq> ''delete''"
  shows "snd (memory_Execute h ik env ctx (Inr p) t) = t"
  using assms by (simp add: memory_Execute_def parseInput_def Let_def split: sum.split)

lemma memory_call_cases:
  assumes "memory_call_run h ik c t = (r, t')"
  obtains (unchanged) "t' = t" "(\<exists>e. r = Inl e) \<or> memory_effect c = None"
  | (set) p out where "mc_input c = Inr p" "mi_action p = ''set''" "r = Inr out"
      "t' = mem_put h (se_id (mc_env c)) (se_now (mc_env c)) (AgentIDFromContext (mc_ctx c), mi_key p) (mi_value p) t"
  | (delete) p out where "mc_input c = Inr p" "mi_action p = ''delete''" "r = Inr out"
      "t' = mem_remove (AgentIDFromContext (mc_ctx c), mi_key p) t"
proof (cases "mc_input c")
  case (Inl e)
  with assms unchanged show ?thesis by (auto simp: memory_call_run_def memory_Execute_def parseInput_def)
next
  case (Inr p)
  consider "mi_action p = ''set''" | "mi_action p = ''delete''" | "mi_action p \<noteq> ''set''" "mi_action p \<noteq> ''delete''" by blast
  then show ?thesis
  proof cases
    case 1
    from memory_Execute_set [OF assms [unfolded memory_call_run_def Inr] 1] show ?thesis using unchanged set Inr 1 by blast
  next
    case 2
    from memory_Execute_delete [OF assms [unfolded memory_call_run_def Inr] 2] show ?thesis using unchanged delete Inr 2 by blast
  next
    case 3
    then have "memory_effect c = None" by (simp add: memory_effect_def Inr)
    moreover have "t' = t" using memory_Execute_reads [OF 3] assms by (metis memory_call_run_def Inr snd_conv)
    ultimately show ?thesis using unchanged by blast
  qed
qed

interpretation memory_tool: kv_tool "memory_call_run h ik" mem_lookup mem_ok "\<lambda>c. True" memory_effect memory_asks for h ik
proof (unfold_locales, goal_cases)
  case (1 s c)
  obtain r s' where e: "memory_call_run h ik c s = (r, s')" by force
  then show ?case using 1 by (cases rule: memory_call_cases) (simp_all add: e memory.inv_put memory.inv_remove)
next
  case (2 s c out s')
  from 2(3) show ?case
    using 2(1) by (cases rule: memory_call_cases) (auto simp: memory_effect_def memory.lookup_put memory.lookup_remove)
next
  case (3 s c e s')
  from 3(3) show ?case by (cases rule: memory_call_cases) auto
next
  case (4 s c k out s')
  then obtain p where "mc_input c = Inr p" "mi_action p = ''get''" "k = (AgentIDFromContext (mc_ctx c), mi_key p)"
    by (auto simp: memory_asks_def split: sum.splits if_splits)
  with memory_Execute_get 4(4) show ?case by (metis memory_call_run_def)
qed

text \<open>
  the memory tool is a map from agents and keys to values. Over any sequence of calls, by any agents
  and with any database faults, a \<^verbatim>\<open>get\<close> that answers returns what the last successful
  \<^verbatim>\<open>set\<close> or \<^verbatim>\<open>delete\<close> of that key by that agent left, or what was stored before;
  calls that report an error, calls on other keys and calls of other agents change nothing.
\<close>

theorem memory_tool_reads_latest:
  assumes "mem_ok t" and run: "kv_run (memory_call_run h ik) cs t = (rs, t')"
    and get: "mc_input c = Inr p" "mi_action p = ''get''" and out: "memory_call_run h ik c t' = (Inr out, t'')"
  shows "latest memory_effect (AgentIDFromContext (mc_ctx c), mi_key p) (zip cs rs)
      (mem_lookup t (AgentIDFromContext (mc_ctx c), mi_key p)) = Some out"
  by (rule memory_tool.reads_latest [OF assms(1) _ run _ _ out]) (simp_all add: memory_asks_def get list_all_iff)

definition demo_memory_call :: "string \<Rightarrow> string \<Rightarrow> string \<Rightarrow> string \<Rightarrow> memory_call" where
  "demo_memory_call agent action key v =
     \<lparr>mc_env = \<lparr>se_get = None, se_put = None, se_id = ''7'', se_now = 7\<rparr>,
      mc_ctx = \<lparr>ctx_session_val = None, ctx_agent_val = Some agent, ctx_depth_val = None, ctx_auto_approve = False\<rparr>,
      mc_input = Inr \<lparr>mi_action = action, mi_key = key, mi_value = v, mi_query = []\<rparr>\<rparr>"

theorem memory_tool_reads_latest_witness:
  "let cs = [demo_memory_call ''a'' ''set'' ''city'' ''Rome'', demo_memory_call ''b'' ''set'' ''city'' ''Oslo'', demo_memory_call ''a'' ''set'' ''name'' ''Eve''];
       c = demo_memory_call ''a'' ''get'' ''name'' [];
       (rs, t) = kv_run (memory_call_run (\<lambda>s. s) {''name''}) cs demo_mem
   in latest memory_effect (''a'', ''name'') (zip cs rs) (Some ''Ada'') = Some ''Ada'' \<and> fst (memory_call_run (\<lambda>s. s) {''name''} c t) = Inr ''Ada''"
proof -
  let ?cs = "[demo_memory_call ''a'' ''set'' ''city'' ''Rome'', demo_memory_call ''b'' ''set'' ''city'' ''Oslo'', demo_memory_call ''a'' ''set'' ''name'' ''Eve'']"
  let ?c = "demo_memory_call ''a'' ''get'' ''name'' []" and ?ex = "memory_call_run (\<lambda>s. s) {''name''}"
  obtain rs t where run: "kv_run ?ex ?cs demo_mem = (rs, t)" by force
  have ok: "mem_ok demo_mem" by (simp add: mem_ok_def demo_mem_def mem_key_def)
  have "fst (?ex ?c (snd (kv_run ?ex ?cs demo_mem))) = Inr ''Ada''" by code_simp
  then have out: "?ex ?c t = (Inr ''Ada'', snd (?ex ?c t))" by (metis run snd_conv prod.collapse)
  have l: "mem_lookup demo_mem (''a'', ''name'') = Some ''Ada''" by (simp add: demo_mem_def mem_lookup_def mem_match_def)
  from memory_tool_reads_latest [OF ok run _ _ out] l
  have "latest memory_effect (''a'', ''name'') (zip ?cs rs) (Some ''Ada'') = Some ''Ada''"
    by (simp add: demo_memory_call_def AgentIDFromContext_def)
  moreover have "fst (?ex ?c t) = Inr ''Ada''" by (subst out) simp
  ultimately show ?thesis unfolding Let_def run prod.case by blast
qed

subsection \<open>The credential tool\<close>

record credential_call =
  cc_env :: cred_env
  cc_input :: "go_error + credential_input"

definition credential_call_run :: "aead \<Rightarrow> credential_call \<Rightarrow> cred_table \<Rightarrow> (go_error + string) \<times> cred_table" where
  "credential_call_run gcm c = credential_Execute gcm (cc_env c) (cc_input c)"

definition cred_view :: "aead \<Rightarrow> cred_table \<Rightarrow> string \<Rightarrow> string option" where
  "cred_view gcm t name =
     (case cred_lookup t name of
        None \<Rightarrow> None
      | Some ct \<Rightarrow> (case decrypt gcm ct of Inl _ \<Rightarrow> None | Inr plaintext \<Rightarrow> Some plaintext))"

definition credential_effect :: "credential_call \<Rightarrow> (string \<times> string option) option" where
  "credential_effect c =
     (case cc_input c of
        Inl _ \<Rightarrow> None
      | Inr p \<Rightarrow>
          if ci_action p = ''set'' then Some (ci_name p, Some (ci_value p))
          else if ci_action p = ''delete'' then Some (ci_name p, None) else None)"

definition credential_asks :: "credential_call \<Rightarrow> string option" where
  "credential_asks c = (case cc_input c of Inl _ \<Rightarrow> None | Inr p \<Rightarrow> if ci_action p = ''get'' then Some (ci_name p) else None)"

text \<open>The cipher opens what it sealed, and the random source yields nonces of its size.\<close>

definition sound_nonces :: "aead \<Rightarrow> credential_call \<Rightarrow> bool" where
  "sound_nonces gcm c \<longleftrightarrow> aead_ok gcm \<and> (case ce_rand (cc_env c) of Inl _ \<Rightarrow> True | Inr nonce \<Rightarrow> length nonce = nonce_size gcm)"

lemma cred_Set_None:
  "cred_Set gcm rand fault i now n v t = (None, t') \<Longrightarrow>
     \<exists>nonce. rand = Inr nonce \<and> t' = cred_upsert \<lparr>cred_id = i, cred_name = n, cred_value = nonce @ seal gcm nonce v, cred_created = now\<rparr> t"
  by (auto simp: cred_Set_def encrypt_def split: sum.splits option.splits)

lemma cred_Set_Some: "cred_Set gcm rand fault i now n v t = (Some e, t') \<Longrightarrow> t' = t"
  by (auto simp: cred_Set_def split: sum.splits option.splits)

lemma cred_Delete_None: "cred_Delete fault n t = (None, t') \<Longrightarrow> t' = cred_remove n t"
  by (auto simp: cred_Delete_def cred_remove_def Let_def split: if_splits option.splits)

lemma cred_Delete_Some: "cred_Delete fault n t = (Some e, t') \<Longrightarrow> t' = t"
  by (auto simp: cred_Delete_def Let_def dest!: filter_full split: if_splits option.splits)

lemma credential_Execute_set:
  assumes "credential_Execute gcm env (Inr p) t = (r, t')" "ci_action p = ''set''"
  shows "(\<exists>e. r = Inl e) \<and> t' = t \<or> (\<exists>out nonce. r = Inr out \<and> ce_rand env = Inr nonce \<and> t' =
    cred_upsert \<lparr>cred_id = ce_id env, cred_name = ci_name p, cred_value = nonce @ seal gcm nonce (ci_value p), cred_created = ce_now env\<rparr> t)"
  using assms
  by (auto simp: credential_Execute_def parseInput_def Let_def
      dest!: cred_Set_None cred_Set_Some split: if_splits option.splits prod.splits)

lemma credential_Execute_delete:
  assumes "credential_Execute gcm env (Inr p) t = (r, t')" "ci_action p = ''delete''"
  shows "(\<exists>e. r = Inl e) \<and> t' = t \<or> (\<exists>out. r = Inr out) \<and> t' = cred_remove (ci_name p) t"
  using assms
  by (auto simp: credential_Execute_def parseInput_def Let_def
      dest!: cred_Delete_None cred_Delete_Some split: if_splits option.splits prod.splits)

lemma credential_Execute_get:
  assumes "credential_Execute gcm env (Inr p) t = (Inr out, t')" "ci_action p = ''get''"
  shows "cred_view gcm t (ci_name p) = Some out"
  using assms
  by (auto simp: credential_Execute_def parseInput_def Let_def cred_Get_def cred_view_def cred_lookup_def
      split: if_splits sum.splits option.splits)

lemma credential_Execute_reads:
  assumes "ci_action p \<noteq> ''set''" "ci_action p \<noteq> ''delete''"
  shows "snd (credential_Execute gcm env (Inr p) t) = t"
  using assms by (simp add: credential_Execute_def parseInput_def Let_def split: sum.split)

lemma credential_call_cases:
  assumes "credential_call_run gcm c t = (r, t')"
  obtains (unchanged) "t' = t" "(\<exists>e. r = Inl e) \<or> credential_effect c = None"
  | (set) p out nonce where "cc_input c = Inr p" "ci_action p = ''set''" "r = Inr out" "ce_rand (cc_env c) = Inr nonce"
      "t' = cred_upsert \<lparr>cred_id = ce_id (cc_env c), cred_name = ci_name p, cred_value = nonce @ seal gcm nonce (ci_value p), cred_created = ce_now (cc_env c)\<rparr> t"
  | (delete) p out where "cc_input c = Inr p" "ci_action p = ''delete''" "r = Inr out" "t' = cred_remove (ci_name p) t"
proof (cases "cc_input c")
  case (Inl e)
  with assms unchanged show ?thesis by (auto simp: credential_call_run_def credential_Execute_def parseInput_def)
next
  case (Inr p)
  consider "ci_action p = ''set''" | "ci_action p = ''delete''" | "ci_action p \<noteq> ''set''" "ci_action p \<noteq> ''delete''" by blast
  then show ?thesis
  proof cases
    case 1
    from credential_Execute_set [OF assms [unfolded credential_call_run_def Inr] 1] show ?thesis using unchanged set Inr 1 by blast
  next
    case 2
    from credential_Execute_delete [OF assms [unfolded credential_call_run_def Inr] 2] show ?thesis using unchanged delete Inr 2 by blast
  next
    case 3
    then have "credential_effect c = None" by (simp add: credential_effect_def Inr)
    moreover have "t' = t" using credential_Execute_reads [OF 3] assms by (metis credential_call_run_def Inr snd_conv)
    ultimately show ?thesis using unchanged by blast
  qed
qed

lemma cred_view_upsert:
  "aead_ok gcm \<Longrightarrow> length nonce = nonce_size gcm \<Longrightarrow> cred_value x = nonce @ seal gcm nonce v \<Longrightarrow>
     cred_view gcm (cred_upsert x t) = (cred_view gcm t)(cred_name x \<mapsto> v)"
  by (auto simp: cred_view_def fun_eq_iff cred_lookup_upsert decrypt_def aead_ok_def)

lemma cred_view_remove: "cred_view gcm (cred_remove n t) = (cred_view gcm t)(n := None)"
  by (auto simp: cred_view_def fun_eq_iff cred_lookup_remove)

interpretation credential_tool: kv_tool "credential_call_run gcm" "cred_view gcm" cred_ok "sound_nonces gcm" credential_effect credential_asks for gcm
proof (unfold_locales, goal_cases)
  case (1 s c)
  obtain r s' where e: "credential_call_run gcm c s = (r, s')" by force
  then show ?case using 1 by (cases rule: credential_call_cases) (simp_all add: e cred_ok_upsert credentials.inv_remove)
next
  case (2 s c out s')
  from 2(3) show ?case
    using 2(2) by (cases rule: credential_call_cases) (auto simp: credential_effect_def sound_nonces_def cred_view_upsert cred_view_remove)
next
  case (3 s c e s')
  from 3(3) show ?case by (cases rule: credential_call_cases) auto
next
  case (4 s c k out s')
  then obtain p where "cc_input c = Inr p" "ci_action p = ''get''" "k = ci_name p"
    by (auto simp: credential_asks_def split: sum.splits if_splits)
  with credential_Execute_get 4(4) show ?case by (metis credential_call_run_def)
qed

text \<open>
  the credential tool is a map from names to secrets. With a cipher that opens what it sealed and
  nonces of its size, over any sequence of calls with any faults of the database and the random
  source, a \<^verbatim>\<open>get\<close> that answers returns the plain text that the last successful \<^verbatim>\<open>set\<close>
  of that name stored, with no successful \<^verbatim>\<open>delete\<close> since.
\<close>

theorem credential_tool_reads_latest:
  assumes "cred_ok t" and good: "list_all (sound_nonces gcm) cs" "sound_nonces gcm c"
    and run: "kv_run (credential_call_run gcm) cs t = (rs, t')"
    and get: "cc_input c = Inr p" "ci_action p = ''get''" and out: "credential_call_run gcm c t' = (Inr out, t'')"
  shows "latest credential_effect (ci_name p) (zip cs rs) (cred_view gcm t (ci_name p)) = Some out"
  by (rule credential_tool.reads_latest [OF assms(1) good(1) run good(2) _ out]) (simp add: credential_asks_def get)

definition demo_credential_call :: "string \<Rightarrow> string \<Rightarrow> string \<Rightarrow> credential_call" where
  "demo_credential_call action name v =
     \<lparr>cc_env = \<lparr>ce_rand = Inr ''ab'', ce_fault = None, ce_id = ''7'', ce_now = 7\<rparr>,
      cc_input = Inr \<lparr>ci_action = action, ci_name = name, ci_value = v\<rparr>\<rparr>"

theorem credential_tool_reads_latest_witness:
  "let cs = [demo_credential_call ''set'' ''k'' ''one'', demo_credential_call ''set'' ''k'' ''two'', demo_credential_call ''delete'' ''x'' []];
       (rs, t) = kv_run (credential_call_run demo_aead) cs []
   in latest credential_effect ''k'' (zip cs rs) None = Some ''two''"
proof -
  let ?cs = "[demo_credential_call ''set'' ''k'' ''one'', demo_credential_call ''set'' ''k'' ''two'', demo_credential_call ''delete'' ''x'' []]"
  let ?c = "demo_credential_call ''get'' ''k'' []" and ?ex = "credential_call_run demo_aead"
  obtain rs t where run: "kv_run ?ex ?cs [] = (rs, t)" by force
  have a: "aead_ok demo_aead" by (simp add: aead_ok_def demo_aead_def)
  have g: "list_all (sound_nonces demo_aead) ?cs" "sound_nonces demo_aead ?c"
    using a by (simp_all add: sound_nonces_def demo_credential_call_def) (simp_all add: demo_aead_def)
  have "fst (?ex ?c (snd (kv_run ?ex ?cs []))) = Inr ''two''" by code_simp
  then have out: "?ex ?c t = (Inr ''two'', snd (?ex ?c t))" by (metis run snd_conv prod.collapse)
  from credential_tool_reads_latest [OF _ g run _ _ out]
  show ?thesis unfolding run Let_def by (simp add: demo_credential_call_def cred_ok_def cred_view_def cred_lookup_def)
qed

end
