(* ===== verification/Task_Tools.thy ===== *)
theory Task_Tools
  imports Channel_Delivery File_Tools
begin

section \<open>Tools on sessions and tasks (\<^verbatim>\<open>pkg/agent/tools/notify.go\<close>, \<^verbatim>\<open>spawn.go\<close>, \<^verbatim>\<open>subagent.go\<close>)\<close>

text \<open>
  The tools \<^verbatim>\<open>notify\<close>, \<^verbatim>\<open>spawn\<close> and \<^verbatim>\<open>subagent\<close>. Functions the tools hold in their
  fields (sending, spawning, running a sub-agent) are arguments here, as they are in the code; they
  are joined to the channel router below the way \<^verbatim>\<open>cmd/pincer/start.go\<close> joins them.
\<close>

subsection \<open>Messages, background tasks and sub-agents\<close>

record notify_input =
  ni_action :: string
  ni_delay :: string
  ni_message :: string

text \<open>A pending timer: its delay, its session and the prompt of the turn it will run.\<close>

type_synonym timer = "int \<times> string \<times> string"

definition notify_Execute :: "(string \<Rightarrow> go_error + int) \<Rightarrow> (int \<Rightarrow> string) \<Rightarrow> (string \<Rightarrow> string \<Rightarrow> 'w \<Rightarrow> go_error option \<times> 'w) \<Rightarrow>
    (string \<Rightarrow> string \<Rightarrow> string \<Rightarrow> 'w \<Rightarrow> 'w) \<Rightarrow> go_ctx \<Rightarrow> go_error + notify_input \<Rightarrow> 'w \<times> timer list \<Rightarrow> (go_error + string) \<times> 'w \<times> timer list" where
  "notify_Execute ParseDuration show_dur send lg ctx input wt =
     (case parseInput input ''notify'' of
        Inl err \<Rightarrow> (Inl err, wt)
      | Inr params \<Rightarrow>
          (let sessionID = SessionIDFromContext ctx; (w, timers) = wt in
           if sessionID = [] then (Inl (ErrText ''notify: no session in context''), wt)
           else if ni_action params = ''schedule'' then
             (if ni_delay params = [] then (Inl (ErrText ''notify: delay is required for schedule''), wt)
              else if ni_message params = [] then (Inl (ErrText ''notify: message is required for schedule''), wt)
              else (case ParseDuration (ni_delay params) of
                Inl err \<Rightarrow> (Inl (ErrWrap (''notify: invalid delay '' @ go_quote (ni_delay params) @ '': '') err), wt)
              | Inr delay \<Rightarrow>
                  if delay \<le> 0 then (Inl (ErrText ''notify: delay must be positive''), wt)
                  else (Inr (''scheduled: will run in '' @ show_dur delay),
                        lg ''notify_schedule'' sessionID (''delay='' @ show_dur delay @ '' prompt='' @ ni_message params) w,
                        timers @ [(delay, sessionID, ni_message params)])))
           else if ni_action params = ''send'' then
             (if ni_message params = [] then (Inl (ErrText ''notify: message is required for send''), wt)
              else (case send sessionID (ni_message params) w of
                (Some err, w1) \<Rightarrow> (Inl (ErrWrap ''notify: send failed: '' err), w1, timers)
              | (None, w1) \<Rightarrow> (Inr ''message sent'', w1, timers)))
           else (Inl (ErrText (''notify: unknown action '' @ go_quote (ni_action params))), wt)))"

record spawn_input =
  sp_action :: string
  sp_task :: string
  sp_tools :: "string list"
  sp_id :: string

definition spawn_Execute :: "(string \<Rightarrow> string \<Rightarrow> string list \<Rightarrow> 'w \<Rightarrow> string \<times> 'w) \<Rightarrow> (string \<Rightarrow> 'w \<Rightarrow> (go_error + string option) \<times> 'w) \<Rightarrow>
    (string \<Rightarrow> string \<Rightarrow> string \<Rightarrow> 'w \<Rightarrow> 'w) \<Rightarrow> go_ctx \<Rightarrow> go_error + spawn_input \<Rightarrow> 'w \<Rightarrow> (go_error + string) \<times> 'w" where
  "spawn_Execute run check lg ctx input w =
     (case parseInput input ''spawn'' of
        Inl err \<Rightarrow> (Inl err, w)
      | Inr params \<Rightarrow>
          (let action = (if sp_action params = [] then ''start'' else sp_action params); sessionID = SessionIDFromContext ctx in
           if action = ''start'' then
             (if sp_task params = [] then (Inl (ErrText ''spawn: task is required for start''), w)
              else if sessionID = [] then (Inl (ErrText ''spawn: no session in context''), w)
              else (let w1 = lg ''spawn_start'' sessionID (''task='' @ sp_task params) w;
                        (spawnID, w2) = run sessionID (sp_task params) (sp_tools params) w1
                    in (Inr (''spawned: '' @ spawnID), lg ''spawn_started'' sessionID (''spawn_id='' @ spawnID) w2)))
           else if action = ''check'' then
             (if sp_id params = [] then (Inl (ErrText ''spawn: spawn_id is required for check''), w)
              else (case check (sp_id params) (lg ''spawn_check'' sessionID (''spawn_id='' @ sp_id params) w) of
                (Inl err, w1) \<Rightarrow> (Inl (ErrWrap ''spawn: '' err), w1)
              | (Inr None, w1) \<Rightarrow> (Inr ''still running'', w1)
              | (Inr (Some result), w1) \<Rightarrow> (Inr result, w1)))
           else (Inl (ErrText (''spawn: unknown action '' @ go_quote action)), w)))"

record subagent_input =
  su_task :: string
  su_tools :: "string list"

text \<open>\<^verbatim>\<open>RunSubturn\<close> panics in a runtime without a registry; the result is then \<^term>\<open>None\<close>.\<close>

definition subagent_Execute :: "(go_ctx \<Rightarrow> string \<Rightarrow> string list \<Rightarrow> 'w \<Rightarrow> (go_error + string) option \<times> 'w) \<Rightarrow>
    (string \<Rightarrow> string \<Rightarrow> string \<Rightarrow> 'w \<Rightarrow> 'w) \<Rightarrow> go_ctx \<Rightarrow> go_error + subagent_input \<Rightarrow> 'w \<Rightarrow> (go_error + string) option \<times> 'w" where
  "subagent_Execute run lg ctx input w =
     (case parseInput input ''subagent'' of
        Inl err \<Rightarrow> (Some (Inl err), w)
      | Inr params \<Rightarrow>
          if su_task params = [] then (Some (Inl (ErrText ''subagent: task is required'')), w)
          else (let sessionID = SessionIDFromContext ctx;
                    w1 = lg ''subagent_start'' sessionID (''task='' @ su_task params) w in
            case run ctx (su_task params) (su_tools params) w1 of
              (None, w2) \<Rightarrow> (None, w2)
            | (Some (Inl err), w2) \<Rightarrow> (Some (Inl (ErrWrap ''subagent: '' err)), lg ''subagent_error'' sessionID (''error='' @ err_msg err) w2)
            | (Some (Inr result), w2) \<Rightarrow>
                (Some (Inr result), lg ''subagent_done'' sessionID (''result_len='' @ nat_to_dec (length result)) w2)))"

subsection \<open>A service of background tasks\<close>

text \<open>
  What the spawn tool relies on: a started task is known and running, a check tells what is known
  and takes out a finished result, and logging does not disturb the tasks. The status of a task is
  unknown, running (\<^term>\<open>Some None\<close>) or done with its text.
\<close>

locale task_service =
  fixes run :: "string \<Rightarrow> string \<Rightarrow> string list \<Rightarrow> 'w \<Rightarrow> string \<times> 'w"
    and check :: "string \<Rightarrow> 'w \<Rightarrow> (go_error + string option) \<times> 'w"
    and lg :: "string \<Rightarrow> string \<Rightarrow> string \<Rightarrow> 'w \<Rightarrow> 'w"
    and status :: "'w \<Rightarrow> string \<Rightarrow> string option option"
  assumes run_status: "run sid p tools w = (i, w') \<Longrightarrow> status w' = (status w)(i \<mapsto> None)"
    and check_unknown: "status w i = None \<Longrightarrow> \<exists>e. check i w = (Inl e, w)"
    and check_running: "status w i = Some None \<Longrightarrow> check i w = (Inr None, w)"
    and check_done: "status w i = Some (Some r) \<Longrightarrow> \<exists>w'. check i w = (Inr (Some r), w') \<and> status w' = (status w)(i := None)"
    and lg_status: "status (lg ev sid d w) = status w"
begin

lemma start_tool:
  assumes "sp_action p \<in> {[], ''start''}" "sp_task p \<noteq> []" "SessionIDFromContext ctx \<noteq> []"
  shows "\<exists>i w'. spawn_Execute run check lg ctx (Inr p) w = (Inr (''spawned: '' @ i), w') \<and> status w' = (status w)(i \<mapsto> None)"
proof -
  let ?w = "lg ''spawn_start'' (SessionIDFromContext ctx) (''task='' @ sp_task p) w"
  obtain i w2 where r: "run (SessionIDFromContext ctx) (sp_task p) (sp_tools p) ?w = (i, w2)" by force
  from run_status [OF this] have "status w2 = (status w)(i \<mapsto> None)" by (simp add: lg_status)
  with assms r show ?thesis by (auto simp: spawn_Execute_def parseInput_def Let_def lg_status)
qed

lemma check_tool:
  assumes "sp_action p = ''check''" "sp_id p \<noteq> []"
  shows "case status w (sp_id p) of
      None \<Rightarrow> \<exists>e w'. spawn_Execute run check lg ctx (Inr p) w = (Inl e, w') \<and> status w' = status w
    | Some None \<Rightarrow> \<exists>w'. spawn_Execute run check lg ctx (Inr p) w = (Inr ''still running'', w') \<and> status w' = status w
    | Some (Some r) \<Rightarrow> \<exists>w'. spawn_Execute run check lg ctx (Inr p) w = (Inr r, w') \<and> status w' = (status w)(sp_id p := None)"
proof -
  let ?w = "lg ''spawn_check'' (SessionIDFromContext ctx) (''spawn_id='' @ sp_id p) w"
  have ex: "spawn_Execute run check lg ctx (Inr p) w = (case check (sp_id p) ?w of
                (Inl err, w1) \<Rightarrow> (Inl (ErrWrap ''spawn: '' err), w1)
              | (Inr None, w1) \<Rightarrow> (Inr ''still running'', w1)
              | (Inr (Some result), w1) \<Rightarrow> (Inr result, w1))"
    using assms by (simp add: spawn_Execute_def parseInput_def Let_def)
  show ?thesis
    unfolding ex
    using check_unknown [of ?w "sp_id p"] check_running [of ?w "sp_id p"] check_done [of ?w "sp_id p"]
    by (auto simp: lg_status split: option.split)
qed

end

subsection \<open>Joined to the channel router\<close>

definition tool_log :: "router_env \<Rightarrow> bool \<Rightarrow> string \<Rightarrow> string \<Rightarrow> string \<Rightarrow> string \<Rightarrow> router \<Rightarrow> router" where
  "tool_log re has_audit actor eventType sessionID detail cr =
     (router_log re eventType sessionID detail (cr\<lparr>cr_logger := NewToolLogger has_audit actor\<rparr>))\<lparr>cr_logger := cr_logger cr\<rparr>"

definition router_CheckSpawn :: "string \<Rightarrow> router \<Rightarrow> (go_error + string option) \<times> router" where
  "router_CheckSpawn spawnID cr = (let (r, t) = CheckSpawn spawnID (cr_spawns cr) in (r, cr\<lparr>cr_spawns := t\<rparr>))"

text \<open>The tool as \<^verbatim>\<open>start.go\<close> registers it; \<open>spawnID\<close> is the new id of a started task.\<close>

definition router_spawn_tool :: "router_env \<Rightarrow> bool \<Rightarrow> string \<Rightarrow> go_ctx \<Rightarrow> go_error + spawn_input \<Rightarrow> router \<Rightarrow> (go_error + string) \<times> router" where
  "router_spawn_tool re has_audit spawnID =
     spawn_Execute (\<lambda>sid prompt allowed. RunSpawnAgent re spawnID sid prompt) router_CheckSpawn (tool_log re has_audit ''spawn'')"

definition router_notify_tool :: "router_env \<Rightarrow> bool \<Rightarrow> (string \<Rightarrow> go_error + int) \<Rightarrow> (int \<Rightarrow> string) \<Rightarrow> go_ctx \<Rightarrow> go_error + notify_input \<Rightarrow>
    router \<times> timer list \<Rightarrow> (go_error + string) \<times> router \<times> timer list" where
  "router_notify_tool re has_audit ParseDuration show_dur =
     notify_Execute ParseDuration show_dur (SendToSession re) (tool_log re has_audit ''notify'')"

definition sr_status :: "spawn_result \<Rightarrow> string option" where
  "sr_status sr = (if sr_done sr then Some (if sr_error sr \<noteq> [] then ''error: '' @ sr_error sr else sr_result sr) else None)"

definition task_status :: "router \<Rightarrow> string \<Rightarrow> string option option" where
  "task_status cr i = map_option sr_status (map_of (cr_spawns cr) i)"

lemma task_status_put: "cr_spawns cr' = gomap_put i sr (cr_spawns cr) \<Longrightarrow> task_status cr' = (task_status cr)(i \<mapsto> sr_status sr)"
  by (simp add: task_status_def fun_eq_iff)

lemma task_status_delete: "cr_spawns cr' = gomap_delete i (cr_spawns cr) \<Longrightarrow> task_status cr' = (task_status cr)(i := None)"
  by (simp add: task_status_def fun_eq_iff)

lemma sr_status_outcome: "sr_status (spawn_outcome now r) = Some (outcome_text r)"
  by (simp add: sr_status_def spawn_outcome_def outcome_text_def split: sum.split)

lemma router_log_spawns [simp]: "cr_spawns (router_log re ev sid d cr) = cr_spawns cr"
  by (simp add: router_log_def Let_def)

lemma tool_log_spawns [simp]: "cr_spawns (tool_log re b actor ev sid d cr) = cr_spawns cr"
  by (simp add: tool_log_def)

interpretation spawns: task_service "\<lambda>sid prompt allowed. RunSpawnAgent re i sid prompt" router_CheckSpawn
    "tool_log re has_audit actor" task_status for re i has_audit actor
proof (unfold_locales, goal_cases)
  case (1 sid p tools w i' w')
  then have "cr_spawns w' = spawn_begin i' (cr_spawns w)" by (auto simp: RunSpawnAgent_def)
  from task_status_put [OF this [unfolded spawn_begin_def]] show ?case by (simp add: sr_status_def)
next
  case (2 w i)
  then show ?case by (simp add: task_status_def router_CheckSpawn_def CheckSpawn_def)
next
  case (3 w i)
  then show ?case by (auto simp: task_status_def sr_status_def router_CheckSpawn_def CheckSpawn_def split: if_splits)
next
  case (4 w i r)
  then obtain sr where "map_of (cr_spawns w) i = Some sr" "sr_status sr = Some r" by (auto simp: task_status_def)
  then have "router_CheckSpawn i w = (Inr (Some r), w\<lparr>cr_spawns := gomap_delete i (cr_spawns w)\<rparr>)"
    by (auto simp: sr_status_def router_CheckSpawn_def CheckSpawn_def split: if_splits)
  then show ?case using task_status_delete [of "w\<lparr>cr_spawns := gomap_delete i (cr_spawns w)\<rparr>" i w] by simp
next
  case (5 ev sid d w)
  then show ?case by (simp add: task_status_def fun_eq_iff)
qed

lemma SendToSession_spawns [simp]: "cr_spawns (snd (SendToSession re sid content cr)) = cr_spawns cr"
  by (auto simp: SendToSession_def adapterForSession_def adapter_call_def Let_def split: sum.splits prod.splits option.splits)

lemma spawn_task_status:
  assumes "spawn_task rt re ctx now i sid prompt allowed cr = Some cr'"
  shows "\<exists>r w. RunSubturn rt (re_agent re) (spawn_ctx ctx sid) prompt allowed (cr_world cr) = (Some r, w)
    \<and> task_status cr' = (task_status cr)(i \<mapsto> Some (outcome_text r))"
proof -
  obtain r w where run: "RunSubturn rt (re_agent re) (spawn_ctx ctx sid) prompt allowed (cr_world cr) = (Some r, w)"
    using assms by (auto simp: spawn_task_def split: prod.splits option.splits)
  have "cr_spawns cr' = spawn_finish i now r (cr_spawns cr)"
    using assms by (auto simp: spawn_task_def run Let_def split: sum.splits)
  from task_status_put [OF this [unfolded spawn_finish_def]] run show ?thesis by (auto simp: sr_status_outcome)
qed

lemma spawn_task_ends: "tp_registry (rt_tools rt) = Some reg \<Longrightarrow> \<exists>cr'. spawn_task rt re ctx now i sid prompt allowed cr = Some cr'"
  by (auto simp: spawn_task_def RunSubturn_def Let_def split: prod.splits sum.splits)

text \<open>
  the life of a background task, seen through the tool. Starting a task with a description, in a
  session, with a runtime that has tools, answers with its id; from then on a check answers that it is still running; once its
  goroutine has ended, which it does, a check answers with the text of the sub-agent's outcome, whatever that was,
  and the next check fails, since the result has been taken. Tasks with other ids are not disturbed.
\<close>

theorem spawn_tool_lifecycle:
  fixes re has_audit i ctx task allowed cr
  defines "start \<equiv> router_spawn_tool re has_audit i ctx (Inr \<lparr>sp_action = ''start'', sp_task = task, sp_tools = allowed, sp_id = []\<rparr>)"
    and "check \<equiv> router_spawn_tool re has_audit i ctx (Inr \<lparr>sp_action = ''check'', sp_task = [], sp_tools = [], sp_id = i\<rparr>)"
    and "sid \<equiv> SessionIDFromContext ctx"
  assumes "task \<noteq> []" "sid \<noteq> []" "i \<noteq> []"
    and reg: "tp_registry (rt_tools rt) = Some reg"
  shows "fst (start cr) = Inr (''spawned: '' @ i) \<and> fst (check (snd (start cr))) = Inr ''still running''
    \<and> (\<exists>r w cr2. RunSubturn rt (re_agent re) (spawn_ctx ctx sid) task allowed (cr_world (snd (check (snd (start cr))))) = (Some r, w)
        \<and> spawn_task rt re ctx now i sid task allowed (snd (check (snd (start cr)))) = Some cr2
        \<and> fst (check cr2) = Inr (outcome_text r)
        \<and> (\<exists>e. fst (check (snd (check cr2))) = Inl e)
        \<and> (\<forall>j. j \<noteq> i \<longrightarrow> task_status (snd (check cr2)) j = task_status cr j))"
proof -
  let ?p = "\<lparr>sp_action = ''check'', sp_task = [], sp_tools = [], sp_id = i\<rparr>"
  have c: "case task_status w i of
      None \<Rightarrow> \<exists>e w'. check w = (Inl e, w') \<and> task_status w' = task_status w
    | Some None \<Rightarrow> \<exists>w'. check w = (Inr ''still running'', w') \<and> task_status w' = task_status w
    | Some (Some r) \<Rightarrow> \<exists>w'. check w = (Inr r, w') \<and> task_status w' = (task_status w)(i := None)" for w
    using spawns.check_tool [where p = ?p and w = w and re = re and i = i and has_audit = has_audit and actor = "''spawn''" and ctx = ctx] \<open>i \<noteq> []\<close> unfolding check_def router_spawn_tool_def by (auto split: option.splits)
  from spawns.start_tool [where p = "\<lparr>sp_action = ''start'', sp_task = task, sp_tools = allowed, sp_id = []\<rparr>" and w = cr
    and re = re and i = i and has_audit = has_audit and actor = "''spawn''" and ctx = ctx]
  obtain i' w where st: "start cr = (Inr (''spawned: '' @ i'), w)" "task_status w = (task_status cr)(i' \<mapsto> None)"
    using assms(4,5) unfolding start_def router_spawn_tool_def sid_def by auto
  have "i' = i" using st(1) \<open>task \<noteq> []\<close> \<open>sid \<noteq> []\<close>
    by (auto simp: start_def router_spawn_tool_def spawn_Execute_def parseInput_def Let_def RunSpawnAgent_def sid_def)
  with c [of w] st obtain w1 where c1: "check w = (Inr ''still running'', w1)" "task_status w1 = (task_status cr)(i \<mapsto> None)" by auto
  from spawn_task_ends [OF reg] obtain cr2 where ended: "spawn_task rt re ctx now i sid task allowed (snd (check (snd (start cr)))) = Some cr2" by blast
  from spawn_task_status [OF ended] obtain r w' where
    r: "RunSubturn rt (re_agent re) (spawn_ctx ctx sid) task allowed (cr_world (snd (check (snd (start cr))))) = (Some r, w')"
      "task_status cr2 = (task_status cr)(i \<mapsto> Some (outcome_text r))"
    using c1 st by auto
  with c [of cr2] obtain w2 where c2: "check cr2 = (Inr (outcome_text r), w2)" "task_status w2 = (task_status cr)(i := None)" by auto
  with c [of w2] obtain e w3 where "check w2 = (Inl e, w3)" by auto
  with st c1 c2 r ended \<open>i' = i\<close> show ?thesis by auto
qed

definition demo_session_ctx :: go_ctx where
  "demo_session_ctx = demo_ctx\<lparr>ctx_session_val := Some ''wa-1''\<rparr>"

theorem spawn_tool_lifecycle_witness:
  "fst (router_spawn_tool demo_router_env True ''t1'' demo_session_ctx
     (Inr \<lparr>sp_action = ''start'', sp_task = ''sum up'', sp_tools = [], sp_id = []\<rparr>) demo_router) = Inr ''spawned: t1''
   \<and> (\<exists>cr2. spawn_task demo_rt demo_router_env demo_session_ctx 9 ''t1'' ''wa-1'' ''sum up'' []
        (snd (router_spawn_tool demo_router_env True ''t1'' demo_session_ctx (Inr \<lparr>sp_action = ''check'', sp_task = [], sp_tools = [], sp_id = ''t1''\<rparr>)
          (snd (router_spawn_tool demo_router_env True ''t1'' demo_session_ctx (Inr \<lparr>sp_action = ''start'', sp_task = ''sum up'', sp_tools = [], sp_id = []\<rparr>) demo_router)))) = Some cr2)"
proof -
  obtain reg where "tp_registry (rt_tools demo_rt) = Some reg" by (simp add: demo_rt_def demo_tools_def)
  moreover have "SessionIDFromContext demo_session_ctx = ''wa-1''" by (simp add: SessionIDFromContext_def demo_session_ctx_def)
  ultimately show ?thesis
    using spawn_tool_lifecycle [of "''sum up''" demo_session_ctx "''t1''" demo_rt reg demo_router_env True "[]" demo_router 9] by auto
qed

lemma tool_log_out [simp]: "cr_out (tool_log re b actor ev sid d cr) = cr_out cr" "cr_out (router_log re ev sid d cr) = cr_out cr"
  by (simp_all add: tool_log_def router_log_def Let_def)

lemma SendToSession_out:
  "cr_out (snd (SendToSession re sid content cr)) = cr_out cr
    \<or> (\<exists>ad \<in> set (cr_adapters cr). \<exists>e. cr_out (snd (SendToSession re sid content cr)) = cr_out cr @ [(ad_name ad, Send sid content, e)])"
  by (auto simp: SendToSession_def adapterForSession_def adapter_call_def Let_def find_Some_iff
      split: sum.splits prod.splits option.splits)

text \<open>
  the notify tool stays in its session. Whatever the input, a call changes the timers by at
  most one new timer, whose delay is positive and whose session and prompt are the context's session
  and the given message; it sends only on the action \<^verbatim>\<open>send\<close>, and then one message to that same
  session; without a session it does neither.
\<close>

theorem notify_tool_own_session:
  fixes re has_audit pd sd ctx input cr timers
  defines "res \<equiv> router_notify_tool re has_audit pd sd ctx input (cr, timers)"
    and "sid \<equiv> SessionIDFromContext ctx"
  shows "snd (snd res) = timers \<and> (cr_out (fst (snd res)) = cr_out cr
        \<or> (\<exists>p ad e. input = Inr p \<and> ni_action p = ''send'' \<and> sid \<noteq> [] \<and> ad \<in> set (cr_adapters cr)
            \<and> cr_out (fst (snd res)) = cr_out cr @ [(ad_name ad, Send sid (ni_message p), e)]))
    \<or> (\<exists>p d. input = Inr p \<and> pd (ni_delay p) = Inr d \<and> 0 < d \<and> sid \<noteq> []
        \<and> snd (snd res) = timers @ [(d, sid, ni_message p)] \<and> cr_out (fst (snd res)) = cr_out cr)"
proof (cases "\<exists>p. input = Inr p \<and> sid \<noteq> []")
  case True
  then obtain p where p: "input = Inr p" and sid: "sid \<noteq> []" by blast
  consider "ni_action p = ''schedule''" | "ni_action p = ''send''" | "ni_action p \<noteq> ''schedule''" "ni_action p \<noteq> ''send''" by blast
  then show ?thesis
  proof cases
    case 1
    show ?thesis
    proof (cases "\<exists>d. ni_delay p \<noteq> [] \<and> ni_message p \<noteq> [] \<and> pd (ni_delay p) = Inr d \<and> 0 < d")
      case True
      then show ?thesis using 1 sid by (auto simp: res_def sid_def router_notify_tool_def notify_Execute_def parseInput_def p Let_def)
    next
      case False
      then have "snd res = (cr, timers)"
        using 1 sid by (auto simp: res_def sid_def router_notify_tool_def notify_Execute_def parseInput_def p Let_def split: sum.splits)
      then show ?thesis by simp
    qed
  next
    case 2
    then have "snd res = (if ni_message p = [] then (cr, timers) else (snd (SendToSession re sid (ni_message p) cr), timers))"
      using sid by (auto simp: res_def sid_def router_notify_tool_def notify_Execute_def parseInput_def p Let_def split: prod.splits option.splits)
    with SendToSession_out [of re sid "ni_message p" cr] 2 sid p show ?thesis by auto
  next
    case 3
    then have "snd res = (cr, timers)"
      using sid by (simp add: res_def sid_def router_notify_tool_def notify_Execute_def parseInput_def p Let_def)
    then show ?thesis by simp
  qed
next
  case False
  then have "snd res = (cr, timers)"
    by (auto simp: res_def sid_def router_notify_tool_def notify_Execute_def parseInput_def Let_def split: sum.splits)
  then show ?thesis by simp
qed

end
