(* ===== verification/Mcp_Manager.thy ===== *)
theory Mcp_Manager
  imports Tool_Registry Audit_Log
begin

section \<open>External tool servers (\<^verbatim>\<open>pkg/mcp/client.go\<close>, \<^verbatim>\<open>pkg/mcp/tool.go\<close>)\<close>

text \<open>
  The manager keeps one session per server of the Model Context Protocol and offers the servers'
  tools under prefixed names. The protocol client is a library: whether connecting, listing and
  closing succeed and what a call returns are arguments. Sessions are numbered as they are opened, and
  \<open>mg_live\<close> lists those that have been opened and not closed.
\<close>

record mcp_tool =
  mt_name :: string
  mt_desc :: string
  mt_schema :: string

record server_config =
  sc_name :: string
  sc_command :: string
  sc_args :: "string list"
  sc_env :: "(string \<times> string) list"
  sc_url :: string

record server_conn =
  conn_session :: nat
  conn_tools :: "mcp_tool list"

record manager =
  mg_servers :: "(string, server_conn) gomap"
  mg_live :: "nat list"
  mg_next :: nat

definition NewManager :: manager where
  "NewManager = \<lparr>mg_servers = [], mg_live = [], mg_next = 0\<rparr>"

datatype transport = Streamable string | Stdio string "string list" "string list option"

text \<open>A command without variables of its own inherits the environment, written as \<^term>\<open>None\<close>.\<close>

definition server_transport :: "string list \<Rightarrow> server_config \<Rightarrow> transport" where
  "server_transport environ cfg =
     (if sc_url cfg \<noteq> [] then Streamable (sc_url cfg)
      else Stdio (sc_command cfg) (sc_args cfg)
        (if sc_env cfg \<noteq> [] then Some (environ @ map (\<lambda>(k, v). k @ ''='' @ v) (sc_env cfg)) else None))"

record mcp_env =
  mv_environ :: "string list"
  mv_connect :: "transport \<Rightarrow> go_error option"
  mv_list :: "go_error + mcp_tool list"

definition mgr_Connect :: "mcp_env \<Rightarrow> server_config \<Rightarrow> manager \<Rightarrow> (go_error + mcp_tool list) \<times> manager" where
  "mgr_Connect env cfg m =
     (case map_of (mg_servers m) (sc_name cfg) of
        Some _ \<Rightarrow> (Inl (ErrText (''mcp: server '' @ go_quote (sc_name cfg) @ '' already connected'')), m)
      | None \<Rightarrow>
          (case mv_connect env (server_transport (mv_environ env) cfg) of
             Some err \<Rightarrow> (Inl (ErrWrap (''mcp: connecting to '' @ go_quote (sc_name cfg) @ '': '') err), m)
           | None \<Rightarrow>
               (let sess = mg_next m; m1 = m\<lparr>mg_next := Suc sess, mg_live := sess # mg_live m\<rparr> in
                case mv_list env of
                  Inl err \<Rightarrow> (Inl (ErrWrap (''mcp: listing tools from '' @ go_quote (sc_name cfg) @ '': '') err),
                              m1\<lparr>mg_live := remove1 sess (mg_live m1)\<rparr>)
                | Inr tools \<Rightarrow>
                    (Inr tools, m1\<lparr>mg_servers := gomap_put (sc_name cfg) \<lparr>conn_session = sess, conn_tools = tools\<rparr> (mg_servers m1)\<rparr>))))"

definition mgr_Session :: "string \<Rightarrow> manager \<Rightarrow> go_error + nat" where
  "mgr_Session name m =
     (case map_of (mg_servers m) name of
        None \<Rightarrow> Inl (ErrText (''mcp: server '' @ go_quote name @ '' not connected''))
      | Some conn \<Rightarrow> Inr (conn_session conn))"

text \<open>Closing ends the session; the error it may report is an argument.\<close>

definition mgr_Disconnect :: "go_error option \<Rightarrow> string \<Rightarrow> manager \<Rightarrow> go_error option \<times> manager" where
  "mgr_Disconnect closeErr name m =
     (case map_of (mg_servers m) name of
        None \<Rightarrow> (Some (ErrText (''mcp: server '' @ go_quote name @ '' not connected'')), m)
      | Some conn \<Rightarrow>
          (closeErr, m\<lparr>mg_servers := gomap_delete name (mg_servers m), mg_live := remove1 (conn_session conn) (mg_live m)\<rparr>))"

definition mgr_DisconnectAll :: "(string \<Rightarrow> go_error option) \<Rightarrow> manager \<Rightarrow> manager" where
  "mgr_DisconnectAll closeErr m = fold (\<lambda>name m. snd (mgr_Disconnect (closeErr name) name m)) (map fst (mg_servers m)) m"

definition mgr_AllTools :: "manager \<Rightarrow> (string \<times> mcp_tool) list" where
  "mgr_AllTools m = concat (map (\<lambda>(serverName, conn). map (\<lambda>t. (serverName, t)) (conn_tools conn)) (mg_servers m))"

subsection \<open>The tools\<close>

definition ToolName :: "string \<Rightarrow> string \<Rightarrow> string" where
  "ToolName serverName toolName = ''mcp_'' @ serverName @ ''__'' @ toolName"

definition NewMCPTool :: "string \<Rightarrow> mcp_tool \<Rightarrow> tool" where
  "NewMCPTool serverName t =
     \<lparr>Definition = \<lparr>td_name = ToolName serverName (mt_name t), td_description = ''[MCP:'' @ serverName @ ''] '' @ mt_desc t,
        td_input_schema = (if mt_schema t = [] \<or> mt_schema t = ''null'' then ''{'' @ [CHR 0x22] @ ''type'' @ [CHR 0x22] @ '':'' @ [CHR 0x22] @ ''object'' @ [CHR 0x22] @ ''}'' else mt_schema t)\<rparr>,
      produces_images = False\<rparr>"

text \<open>A part of a result is text or something else; only text is shown.\<close>

datatype mcp_content = TextContent string | OtherContent

record mcp_result =
  mr_content :: "mcp_content list"
  mr_is_error :: bool

definition mcp_Execute :: "(string \<Rightarrow> go_error + 'a option) \<Rightarrow> 'a \<Rightarrow> (nat \<Rightarrow> string \<Rightarrow> 'a \<Rightarrow> go_error + mcp_result) \<Rightarrow> go_error + nat \<Rightarrow> string \<Rightarrow> string \<Rightarrow>
    go_error + string" where
  "mcp_Execute unmarshal empty_args call session toolName input =
     (case (if input \<noteq> [] \<and> input \<noteq> ''null'' then unmarshal input else Inr None) of
        Inl err \<Rightarrow> Inl (ErrWrap (''mcp tool '' @ toolName @ '': invalid input: '') err)
      | Inr args0 \<Rightarrow>
          (let args = (case args0 of None \<Rightarrow> empty_args | Some a \<Rightarrow> a) in
           case session of
             Inl err \<Rightarrow> Inl (ErrWrap (''mcp tool '' @ toolName @ '': '') err)
           | Inr sess \<Rightarrow>
               (case call sess toolName args of
                  Inl err \<Rightarrow> Inl (ErrWrap (''mcp tool '' @ toolName @ '': call failed: '') err)
                | Inr result \<Rightarrow>
                    (let txt0 = Join (concat (map (\<lambda>c. case c of TextContent t \<Rightarrow> [t] | OtherContent \<Rightarrow> []) (mr_content result))) nl in
                     if mr_is_error result then Inl (ErrText (''mcp tool '' @ toolName @ '': '' @ txt0)) else Inr txt0))))"

subsection \<open>Connecting at start-up (\<^verbatim>\<open>cmd/pincer/start.go\<close>)\<close>

definition EventMCPConnect :: string where "EventMCPConnect = ''mcp_connect''"

record server_entry =
  en_server :: server_config
  en_enabled :: "bool option"

record mcp_start =
  ms_mgr :: manager
  ms_reg :: registry
  ms_audit :: audit_table

text \<open>What starting one server meets: the protocol client, and the audit log's fault, id and time.\<close>

record start_env =
  st_mcp :: mcp_env
  st_fault :: "go_error option"
  st_id :: string
  st_now :: timestamp

fun connect_servers :: "(string \<Rightarrow> start_env) \<Rightarrow> server_entry list \<Rightarrow> mcp_start \<Rightarrow> mcp_start" where
  "connect_servers env [] st = st"
| "connect_servers env (e # es) st =
     (let srv = en_server e; en = env (sc_name srv) in
      if en_enabled e = Some False \<or> sc_command srv = [] \<and> sc_url srv = [] then connect_servers env es st
      else (case mgr_Connect (st_mcp en) srv (ms_mgr st) of
        (Inl err, m) \<Rightarrow> connect_servers env es (st\<lparr>ms_mgr := m\<rparr>)
      | (Inr tools, m) \<Rightarrow>
          connect_servers env es
            \<lparr>ms_mgr = m, ms_reg = fold (\<lambda>t. Register (NewMCPTool (sc_name srv) t)) tools (ms_reg st),
             ms_audit = snd (audit_Log (st_fault en) (st_id en) (st_now en) EventMCPConnect [] [] ''system''
               (DetailString (''server='' @ sc_name srv @ '' tools='' @ nat_to_dec (length tools))) (ms_audit st))\<rparr>))"

definition initMCPServers :: "bool \<Rightarrow> (string \<Rightarrow> start_env) \<Rightarrow> server_entry list \<Rightarrow> registry \<Rightarrow> audit_table \<Rightarrow> mcp_start option" where
  "initMCPServers enabled env servers reg audit =
     (if \<not> enabled \<or> servers = [] then None
      else Some (connect_servers env servers \<lparr>ms_mgr = NewManager, ms_reg = reg, ms_audit = audit\<rparr>))"

subsection \<open>Sessions are tracked\<close>

text \<open>The live sessions are exactly those of the table, each of one server.\<close>

definition held :: "manager \<Rightarrow> string \<rightharpoonup> nat" where
  "held m n = map_option conn_session (map_of (mg_servers m) n)"

definition mgr_ok :: "manager \<Rightarrow> bool" where
  "mgr_ok m \<longleftrightarrow> gomap_ok (mg_servers m) \<and> distinct (mg_live m) \<and> set (mg_live m) = ran (held m)
     \<and> inj_on (held m) (dom (held m)) \<and> (\<forall>i \<in> set (mg_live m). i < mg_next m)"

lemma inj_map_put:
  assumes "inj_on m (dom m)" "b \<notin> ran m" "m a = None"
  shows "inj_on (m(a \<mapsto> b)) (dom (m(a \<mapsto> b)))"
  using assms by (auto simp: inj_on_def ran_def dom_def)

lemma inj_map_delete: "inj_on m (dom m) \<Longrightarrow> inj_on (m(a := None)) (dom (m(a := None)))"
  by (auto simp: inj_on_def dom_def)

lemma ran_map_delete:
  assumes "inj_on m (dom m)" "m a = Some b"
  shows "ran (m(a := None)) = ran m - {b}"
proof
  show "ran (m(a := None)) \<subseteq> ran m - {b}"
    using assms by (auto simp: ran_def inj_on_def dom_def)
  show "ran m - {b} \<subseteq> ran (m(a := None))" using assms(2) by (auto simp: ran_def) (metis option.inject)
qed

lemma mgr_ok_New: "mgr_ok NewManager"
  by (simp add: mgr_ok_def NewManager_def held_def [abs_def])

lemma mgr_ok_fresh: "mgr_ok m \<Longrightarrow> mg_next m \<notin> set (mg_live m)"
  by (auto simp: mgr_ok_def)

lemma mgr_Connect_cases:
  assumes "mgr_Connect env cfg m = (r, m')"
  obtains (failed) e where "r = Inl e" "m' = m \<or> m' = m\<lparr>mg_next := Suc (mg_next m)\<rparr>"
  | (connected) tools where "r = Inr tools" "map_of (mg_servers m) (sc_name cfg) = None"
      "m' = m\<lparr>mg_next := Suc (mg_next m), mg_live := mg_next m # mg_live m,
              mg_servers := gomap_put (sc_name cfg) \<lparr>conn_session = mg_next m, conn_tools = tools\<rparr> (mg_servers m)\<rparr>"
proof (cases "map_of (mg_servers m) (sc_name cfg) = None \<and> mv_connect env (server_transport (mv_environ env) cfg) = None")
  case True
  then show thesis
  proof (cases "mv_list env")
    case (Inl e)
    with True assms have "\<exists>e. r = Inl e" "m' = m\<lparr>mg_next := Suc (mg_next m)\<rparr>" by (auto simp: mgr_Connect_def Let_def)
    then show thesis using failed by blast
  next
    case (Inr tools)
    with True assms have "r = Inr tools" "m' = m\<lparr>mg_next := Suc (mg_next m), mg_live := mg_next m # mg_live m,
        mg_servers := gomap_put (sc_name cfg) \<lparr>conn_session = mg_next m, conn_tools = tools\<rparr> (mg_servers m)\<rparr>"
      by (simp_all add: mgr_Connect_def Let_def)
    then show thesis using connected True by blast
  qed
next
  case False
  with assms have "\<exists>e. r = Inl e" "m' = m" by (auto simp: mgr_Connect_def split: option.splits)
  then show thesis using failed by blast
qed

lemma mgr_ok_Connect: "mgr_ok m \<Longrightarrow> mgr_Connect env cfg m = (r, m') \<Longrightarrow> mgr_ok m'"
proof -
  assume ok: "mgr_ok m" and c: "mgr_Connect env cfg m = (r, m')"
  from c show ?thesis
  proof (cases rule: mgr_Connect_cases)
    case (failed e)
    then have "held m' = held m" "mg_live m' = mg_live m" "mg_servers m' = mg_servers m" "mg_next m \<le> mg_next m'"
      by (auto simp: held_def fun_eq_iff)
    with ok show ?thesis unfolding mgr_ok_def by (auto intro: less_le_trans)
  next
    case (connected tools)
    have h: "held m' = (held m)(sc_name cfg \<mapsto> mg_next m)" "held m (sc_name cfg) = None"
      using connected by (auto simp: held_def fun_eq_iff)
    moreover have "mg_next m \<notin> ran (held m)" using mgr_ok_fresh [OF ok] ok by (simp add: mgr_ok_def)
    ultimately have "inj_on (held m') (dom (held m'))" unfolding h(1) using ok by (intro inj_map_put) (simp_all add: mgr_ok_def)
    moreover have "set (mg_live m') = ran (held m')" using ok h by (simp add: mgr_ok_def connected(3))
    ultimately show ?thesis using ok mgr_ok_fresh [OF ok] by (auto simp: mgr_ok_def connected(3) less_Suc_eq)
  qed
qed

lemma mgr_ok_Disconnect: "mgr_ok m \<Longrightarrow> mgr_ok (snd (mgr_Disconnect e name m))"
proof (cases "map_of (mg_servers m) name")
  case (Some conn)
  assume ok: "mgr_ok m"
  let ?m = "snd (mgr_Disconnect e name m)"
  have m: "mg_servers ?m = gomap_delete name (mg_servers m)" "mg_live ?m = remove1 (conn_session conn) (mg_live m)" "mg_next ?m = mg_next m"
    by (simp_all add: mgr_Disconnect_def Some)
  have h: "held ?m = (held m)(name := None)" "held m name = Some (conn_session conn)" by (auto simp: held_def m(1) Some fun_eq_iff)
  have "set (mg_live ?m) = ran (held m) - {conn_session conn}" using ok by (simp add: mgr_ok_def m set_remove1_eq)
  also have "\<dots> = ran (held ?m)" unfolding h(1) using ok ran_map_delete [of "held m" name "conn_session conn"] h(2) by (simp add: mgr_ok_def)
  finally have "set (mg_live ?m) = ran (held ?m)" .
  moreover have "inj_on (held ?m) (dom (held ?m))" unfolding h(1) using ok by (intro inj_map_delete) (simp add: mgr_ok_def)
  moreover have "set (mg_live ?m) \<subseteq> set (mg_live m)" unfolding m(2) by (rule set_remove1_subset)
  ultimately show ?thesis using ok unfolding mgr_ok_def m by auto
qed (simp add: mgr_Disconnect_def)

inductive mgr_run :: "manager \<Rightarrow> bool" where
  start: "mgr_run NewManager"
| connect: "mgr_run m \<Longrightarrow> mgr_run (snd (mgr_Connect env cfg m))"
| disconnect: "mgr_run m \<Longrightarrow> mgr_run (snd (mgr_Disconnect e name m))"

lemma mgr_run_ok: "mgr_run m \<Longrightarrow> mgr_ok m"
  by (induction rule: mgr_run.induct) (auto simp: mgr_ok_New mgr_ok_Disconnect intro: mgr_ok_Connect [OF _ surjective_pairing])

lemma Disconnect_lookup: "map_of (mg_servers (snd (mgr_Disconnect e name m))) = (map_of (mg_servers m))(name := None)"
  by (auto simp: mgr_Disconnect_def fun_eq_iff split: option.split)

lemma Disconnects_lookup:
  "map_of (mg_servers (fold (\<lambda>name m. snd (mgr_Disconnect (e name) name m)) names m)) = map_of (mg_servers m) |` (- set names)"
  by (induction names arbitrary: m) (auto simp: Disconnect_lookup restrict_map_def fun_eq_iff)

lemma Disconnects_ok: "mgr_ok m \<Longrightarrow> mgr_ok (fold (\<lambda>name m. snd (mgr_Disconnect (e name) name m)) names m)"
  by (induction names arbitrary: m) (auto simp: mgr_ok_Disconnect)

text \<open>
  no session of a tool server is lost. After any sequence of connects and disconnects, whatever
  fails, the sessions still open are exactly those of the connected servers, one each; a session handed
  out for a server is open; a failed connect leaves the servers as they were; and
  \<^verbatim>\<open>DisconnectAll\<close> closes every session and forgets every server, whatever errors closing
  reports.
\<close>

theorem mcp_sessions_tracked:
  assumes "mgr_run m"
  shows "set (mg_live m) = {i. \<exists>name. mgr_Session name m = Inr i} \<and> distinct (mg_live m)
    \<and> (\<forall>err. fst (mgr_Connect env cfg m) = Inl err \<longrightarrow> mg_servers (snd (mgr_Connect env cfg m)) = mg_servers m
          \<and> mg_live (snd (mgr_Connect env cfg m)) = mg_live m)
    \<and> mg_live (mgr_DisconnectAll closeErr m) = [] \<and> mg_servers (mgr_DisconnectAll closeErr m) = []"
proof -
  note ok = mgr_run_ok [OF assms]
  have s: "set (mg_live m) = {i. \<exists>name. mgr_Session name m = Inr i}"
    using ok by (auto simp: mgr_ok_def held_def ran_def mgr_Session_def split: option.splits)
  have "map_of (mg_servers (mgr_DisconnectAll closeErr m)) = Map.empty"
    unfolding mgr_DisconnectAll_def Disconnects_lookup by (auto simp: restrict_map_def fun_eq_iff map_of_eq_None_iff image_iff)
  then have e: "mg_servers (mgr_DisconnectAll closeErr m) = []"
    by (cases "mg_servers (mgr_DisconnectAll closeErr m)") (auto simp: fun_eq_iff split: if_splits)
  have "mgr_ok (mgr_DisconnectAll closeErr m)" unfolding mgr_DisconnectAll_def by (rule Disconnects_ok [OF ok])
  with e have "set (mg_live (mgr_DisconnectAll closeErr m)) = {}" unfolding mgr_ok_def by (simp add: held_def [abs_def])
  moreover have "mg_servers (snd (mgr_Connect env cfg m)) = mg_servers m \<and> mg_live (snd (mgr_Connect env cfg m)) = mg_live m"
    if "fst (mgr_Connect env cfg m) = Inl err" for err
    using that by (auto simp: mgr_Connect_def Let_def split: option.splits sum.splits)
  ultimately show ?thesis using s e ok by (simp add: mgr_ok_def)
qed

definition demo_server :: "string \<Rightarrow> server_config" where
  "demo_server n = \<lparr>sc_name = n, sc_command = ''run'', sc_args = [], sc_env = [], sc_url = []\<rparr>"

definition demo_mcp :: "go_error option \<Rightarrow> mcp_env" where
  "demo_mcp err = \<lparr>mv_environ = [], mv_connect = (\<lambda>t. None),
     mv_list = (case err of None \<Rightarrow> Inr [\<lparr>mt_name = ''find'', mt_desc = [], mt_schema = []\<rparr>] | Some e \<Rightarrow> Inl e)\<rparr>"

theorem mcp_sessions_tracked_witness:
  "let m = snd (mgr_Connect (demo_mcp (Some Canceled)) (demo_server ''b'') (snd (mgr_Connect (demo_mcp None) (demo_server ''a'') NewManager)))
   in mg_live m = [0] \<and> mg_live (mgr_DisconnectAll (\<lambda>n. None) m) = []"
proof -
  let ?m = "snd (mgr_Connect (demo_mcp (Some Canceled)) (demo_server ''b'') (snd (mgr_Connect (demo_mcp None) (demo_server ''a'') NewManager)))"
  have "mgr_run ?m" by (intro mgr_run.intros)
  from mcp_sessions_tracked [OF this, of undefined undefined "\<lambda>n. None"] have "mg_live (mgr_DisconnectAll (\<lambda>n. None) ?m) = []" by blast
  moreover have "mg_live ?m = [0]"
    by (simp add: mgr_Connect_def demo_mcp_def demo_server_def NewManager_def gomap_put_def)
  ultimately show ?thesis by (simp only: Let_def)
qed

subsection \<open>Names of external tools\<close>

definition under :: string where "under = ''__''"

text \<open>A server name after which the separator can be found: followed by an underscore it holds no double one.\<close>

definition plain_server :: "string \<Rightarrow> bool" where
  "plain_server s \<longleftrightarrow> \<not> Contains (s @ ''_'') under"

lemma ToolName_inject_aux:
  assumes "s @ under @ t = s' @ under @ t'" "plain_server s'" "length s \<le> length s'"
  shows "s = s' \<and> t = t'"
proof -
  from assms(1) obtain w where w: "s = s' @ w \<and> w @ under @ t = under @ t' \<or> s @ w = s' \<and> under @ t = w @ under @ t'"
    unfolding append_eq_append_conv2 by blast
  then obtain u where u: "s' = s @ u" "under @ t = u @ under @ t'" using assms(3) by (cases "w = []") auto
  have "u = []"
  proof (rule ccontr)
    assume "u \<noteq> []"
    then obtain v where "u @ ''_'' = under @ v"
      using u(2) by (cases u; cases "tl u") (auto simp: under_def)
    then have "Contains (u @ ''_'') under" unfolding Contains_iff by (intro exI [of _ "[]"] exI [of _ v]) simp
    then show False using assms(2) unfolding plain_server_def u(1) Contains_iff by (metis append_assoc)
  qed
  with u show ?thesis by simp
qed

lemma ToolName_inject:
  assumes "plain_server s" "plain_server s'"
  shows "ToolName s t = ToolName s' t' \<longleftrightarrow> s = s' \<and> t = t'"
proof
  assume "ToolName s t = ToolName s' t'"
  then have e: "s @ under @ t = s' @ under @ t'" by (simp add: ToolName_def under_def)
  show "s = s' \<and> t = t'"
  proof (cases "length s \<le> length s'")
    case True
    then show ?thesis by (rule ToolName_inject_aux [OF e assms(2)])
  next
    case False
    then show ?thesis using ToolName_inject_aux [OF e [symmetric] assms(1)] by auto
  qed
qed simp

lemma ToolName_clash: "ToolName ''a__b'' ''c'' = ToolName ''a'' ''b__c''"
  by (simp add: ToolName_def)

lemma ToolName_prefix: "HasPrefix (ToolName s t) ''mcp_''"
  by (simp add: ToolName_def)

lemma NewMCPTool_name [simp]: "td_name (Definition (NewMCPTool s t)) = ToolName s (mt_name t)"
  by (simp add: NewMCPTool_def)

lemma registered_tools:
  "map_of (fold (\<lambda>t. Register (NewMCPTool s t)) tools r) n =
     (case find (\<lambda>t. ToolName s (mt_name t) = n) (rev tools) of Some t \<Rightarrow> Some (NewMCPTool s t) | None \<Rightarrow> map_of r n)"
  by (induction tools arbitrary: r rule: rev_induct) (auto simp: Register_def)

text \<open>The entries of the registry are those of the connected servers.\<close>

definition reg_tracks :: "registry \<Rightarrow> mcp_start \<Rightarrow> bool" where
  "reg_tracks reg0 st \<longleftrightarrow> (\<forall>n. \<not> HasPrefix n ''mcp_'' \<longrightarrow> map_of (ms_reg st) n = map_of reg0 n)
     \<and> (\<forall>s c t. map_of (mg_servers (ms_mgr st)) s = Some c \<longrightarrow> plain_server s
          \<and> (distinct (map mt_name (conn_tools c)) \<longrightarrow> t \<in> set (conn_tools c) \<longrightarrow> map_of (ms_reg st) (ToolName s (mt_name t)) = Some (NewMCPTool s t)))"

lemma find_ToolName_own:
  assumes "distinct (map mt_name tools)" "t \<in> set tools"
  shows "find (\<lambda>x. ToolName s (mt_name x) = ToolName s (mt_name t)) (rev tools) = Some t"
  using assms
proof (induction tools rule: rev_induct)
  case (snoc x tools)
  then show ?case by (auto simp: ToolName_def)
qed simp

lemma find_ToolName_other:
  assumes "plain_server s" "plain_server s'" "s \<noteq> s'"
  shows "find (\<lambda>x. ToolName s (mt_name x) = ToolName s' n) tools = None"
  using ToolName_inject [OF assms(1,2)] assms(3) by (auto simp: find_None_iff)

lemma reg_tracks_connect:
  assumes tr: "reg_tracks reg0 st" and plain: "plain_server (sc_name cfg)"
    and c: "mgr_Connect env cfg (ms_mgr st) = (Inr tools, m)"
  shows "reg_tracks reg0 \<lparr>ms_mgr = m, ms_reg = fold (\<lambda>t. Register (NewMCPTool (sc_name cfg) t)) tools (ms_reg st), ms_audit = a\<rparr>"
proof -
  let ?s = "sc_name cfg" and ?reg = "fold (\<lambda>t. Register (NewMCPTool (sc_name cfg) t)) tools (ms_reg st)"
  have m: "map_of (mg_servers m) = (map_of (mg_servers (ms_mgr st)))(?s \<mapsto> \<lparr>conn_session = mg_next (ms_mgr st), conn_tools = tools\<rparr>)"
    using c by (cases rule: mgr_Connect_cases) auto
  have other: "map_of ?reg n = map_of reg0 n" if "\<not> HasPrefix n ''mcp_''" for n
  proof -
    have "find (\<lambda>t. ToolName ?s (mt_name t) = n) (rev tools) = None" using that ToolName_prefix by (auto simp: find_None_iff)
    then show ?thesis using tr that by (simp add: registered_tools reg_tracks_def)
  qed
  have own: "map_of ?reg (ToolName ?s (mt_name t)) = Some (NewMCPTool ?s t)" if "distinct (map mt_name tools)" "t \<in> set tools" for t
    by (simp add: registered_tools find_ToolName_own [OF that])
  have kept: "map_of ?reg (ToolName s (mt_name t)) = map_of (ms_reg st) (ToolName s (mt_name t))" if "plain_server s" "s \<noteq> ?s" for s and t :: mcp_tool
    by (simp add: registered_tools find_ToolName_other [OF plain that(1) that(2) [symmetric]])
  show ?thesis
    unfolding reg_tracks_def
  proof (intro conjI allI impI, goal_cases)
    case (3 s c t)
    show ?case
    proof (cases "s = ?s")
      case True
      with 3 own show ?thesis by (auto simp: m)
    next
      case False
      with 3 tr have "plain_server s" "map_of (ms_reg st) (ToolName s (mt_name t)) = Some (NewMCPTool s t)"
        by (auto simp: m reg_tracks_def)
      with kept [OF this(1) False] show ?thesis by simp
    qed
  qed (use other plain tr in \<open>auto simp: m reg_tracks_def split: if_splits\<close>)
qed

lemma reg_tracks_servers:
  "reg_tracks reg0 st \<Longrightarrow> list_all (\<lambda>e. plain_server (sc_name (en_server e))) es \<Longrightarrow> reg_tracks reg0 (connect_servers env es st)"
proof (induction es arbitrary: st)
  case (Cons e es)
  let ?srv = "en_server e"
  obtain r m where c: "mgr_Connect (st_mcp (env (sc_name ?srv))) ?srv (ms_mgr st) = (r, m)" by force
  show ?case
  proof (cases r)
    case (Inl err)
    from c have "mg_servers m = mg_servers (ms_mgr st)" unfolding Inl by (cases rule: mgr_Connect_cases) auto
    then have "reg_tracks reg0 (st\<lparr>ms_mgr := m\<rparr>)" using Cons.prems(1) by (simp add: reg_tracks_def)
    with Cons show ?thesis by (simp add: Let_def c Inl)
  next
    case (Inr tools)
    have p: "plain_server (sc_name ?srv)" "list_all (\<lambda>e. plain_server (sc_name (en_server e))) es" using Cons.prems(2) by simp_all
    from Cons.IH [OF reg_tracks_connect [OF Cons.prems(1) p(1) c [unfolded Inr]] p(2)] Cons.IH [OF Cons.prems(1) p(2)]
    show ?thesis by (simp add: Let_def c Inr)
  qed
qed simp

text \<open>
  external tools do not shadow others. When no configured server's name hides the separator (followed
  by an underscore it contains no double underscore), then after start-up every tool of a connected
  server whose own tool names differ is found in the registry under its prefixed name, as that server's
  tool, whatever the other servers offer and whichever of them failed; and tools whose name does not
  start with \<^verbatim>\<open>mcp_\<close> are those registered before.
\<close>

theorem mcp_tools_registered:
  assumes "list_all (\<lambda>e. plain_server (sc_name (en_server e))) servers"
    and "initMCPServers enabled env servers reg audit = Some st"
    and "map_of (mg_servers (ms_mgr st)) s = Some c" "distinct (map mt_name (conn_tools c))" "t \<in> set (conn_tools c)"
  shows "registry_Get (ms_reg st) (ToolName s (mt_name t)) = Inr (NewMCPTool s t)
    \<and> (\<forall>n. \<not> HasPrefix n ''mcp_'' \<longrightarrow> registry_Get (ms_reg st) n = registry_Get reg n)"
proof -
  have "reg_tracks reg \<lparr>ms_mgr = NewManager, ms_reg = reg, ms_audit = audit\<rparr>" by (simp add: reg_tracks_def NewManager_def)
  from reg_tracks_servers [OF this assms(1), of env] have "reg_tracks reg st"
    using assms(2) by (auto simp: initMCPServers_def split: if_splits)
  with assms(3-5) show ?thesis by (auto simp: reg_tracks_def registry_Get_def)
qed

definition demo_start :: "string \<Rightarrow> start_env" where
  "demo_start n = \<lparr>st_mcp = demo_mcp (if n = ''b'' then Some Canceled else None), st_fault = None, st_id = n, st_now = 1\<rparr>"

text \<open>One server starts, one fails while its tools are listed, one is switched off.\<close>

theorem mcp_tools_registered_witness:
  "\<exists>st. initMCPServers True demo_start
      [\<lparr>en_server = demo_server ''a'', en_enabled = None\<rparr>, \<lparr>en_server = demo_server ''b'', en_enabled = None\<rparr>,
       \<lparr>en_server = demo_server ''c'', en_enabled = Some False\<rparr>] [] [] = Some st
    \<and> registry_Get (ms_reg st) ''mcp_a__find'' = Inr (NewMCPTool ''a'' \<lparr>mt_name = ''find'', mt_desc = [], mt_schema = []\<rparr>) \<and> length (ms_reg st) = 1"
proof -
  let ?es = "[\<lparr>en_server = demo_server ''a'', en_enabled = None\<rparr>, \<lparr>en_server = demo_server ''b'', en_enabled = None\<rparr>,
       \<lparr>en_server = demo_server ''c'', en_enabled = Some False\<rparr>]"
  let ?t = "\<lparr>mt_name = ''find'', mt_desc = [], mt_schema = []\<rparr>"
  let ?st = "connect_servers demo_start ?es \<lparr>ms_mgr = NewManager, ms_reg = [], ms_audit = []\<rparr>"
  have i: "initMCPServers True demo_start ?es [] [] = Some ?st" by (simp add: initMCPServers_def)
  have p: "list_all (\<lambda>e. plain_server (sc_name (en_server e))) ?es" by code_simp
  have c: "map_of (mg_servers (ms_mgr ?st)) ''a'' = Some \<lparr>conn_session = 0, conn_tools = [?t]\<rparr>" by code_simp
  have l: "length (ms_reg ?st) = 1" by code_simp
  from mcp_tools_registered [OF p i c] have "registry_Get (ms_reg ?st) (ToolName ''a'' ''find'') = Inr (NewMCPTool ''a'' ?t)" by simp
  with i l show ?thesis by (auto simp: ToolName_def)
qed

end
