(* ===== verification/Go_Regexp.thy ===== *)
theory Go_Regexp
  imports Prelude
begin

section \<open>Regular expressions (package \<^verbatim>\<open>regexp\<close>, as far as the sources use it)\<close>

text \<open>
  The patterns of the skill scanner: literals (a choice of byte strings, which is how a
  case-insensitive letter or a character class is written), the dot, word boundaries, sequence,
  alternative and star. \<open>rx_match\<close> is their meaning on the positions of a text; \<open>rx_ends\<close>
  computes the ends of the matches from a position, and both agree. Case folding of \<open>k\<close> and
  \<open>s\<close> includes the Kelvin sign and the long s, as in Go.
\<close>

datatype rx = Lit "string list" | Dot | WordB | Seq rx rx | Alt rx rx | Star rx

definition word_byte :: "char \<Rightarrow> bool" where
  "word_byte c \<longleftrightarrow> (let n = of_char c :: nat in 48 \<le> n \<and> n \<le> 57 \<or> 65 \<le> n \<and> n \<le> 90 \<or> 97 \<le> n \<and> n \<le> 122 \<or> n = 95)"

definition word_at :: "string \<Rightarrow> nat \<Rightarrow> bool" where
  "word_at s i \<longleftrightarrow> i < length s \<and> word_byte (s ! i)"

definition boundary :: "string \<Rightarrow> nat \<Rightarrow> bool" where
  "boundary s i \<longleftrightarrow> (i > 0 \<and> word_at s (i - 1)) \<noteq> word_at s i"

fun star_ends :: "(nat \<Rightarrow> nat list) \<Rightarrow> nat \<Rightarrow> nat \<Rightarrow> nat list" where
  "star_ends f 0 i = [i]"
| "star_ends f (Suc n) i = i # concat (map (star_ends f n) (filter (\<lambda>j. j > i) (f i)))"

fun rx_ends :: "rx \<Rightarrow> string \<Rightarrow> nat \<Rightarrow> nat list" where
  "rx_ends (Lit ws) s i = map (\<lambda>w. i + length w) (filter (\<lambda>w. HasPrefix (drop i s) w) ws)"
| "rx_ends Dot s i = (if i < length s \<and> s ! i \<noteq> newline then [Suc i] else [])"
| "rx_ends WordB s i = (if boundary s i then [i] else [])"
| "rx_ends (Seq a b) s i = concat (map (rx_ends b s) (rx_ends a s i))"
| "rx_ends (Alt a b) s i = rx_ends a s i @ rx_ends b s i"
| "rx_ends (Star r) s i = star_ends (rx_ends r s) (length s - i) i"

definition MatchString :: "rx \<Rightarrow> string \<Rightarrow> bool" where
  "MatchString r s \<longleftrightarrow> list_ex (\<lambda>i. rx_ends r s i \<noteq> []) [0..<Suc (length s)]"

inductive rx_match :: "string \<Rightarrow> rx \<Rightarrow> nat \<Rightarrow> nat \<Rightarrow> bool" for s where
  lit: "w \<in> set ws \<Longrightarrow> HasPrefix (drop i s) w \<Longrightarrow> i \<le> length s \<Longrightarrow> rx_match s (Lit ws) i (i + length w)"
| dot: "i < length s \<Longrightarrow> s ! i \<noteq> newline \<Longrightarrow> rx_match s Dot i (Suc i)"
| wordb: "boundary s i \<Longrightarrow> i \<le> length s \<Longrightarrow> rx_match s WordB i i"
| seq: "rx_match s a i j \<Longrightarrow> rx_match s b j k \<Longrightarrow> rx_match s (Seq a b) i k"
| alt1: "rx_match s a i j \<Longrightarrow> rx_match s (Alt a b) i j"
| alt2: "rx_match s b i j \<Longrightarrow> rx_match s (Alt a b) i j"
| star0: "i \<le> length s \<Longrightarrow> rx_match s (Star r) i i"
| star1: "rx_match s r i j \<Longrightarrow> rx_match s (Star r) j k \<Longrightarrow> rx_match s (Star r) i k"

inductive_simps rx_match_simps: "rx_match s (Lit ws) i j" "rx_match s Dot i j" "rx_match s WordB i j"
  "rx_match s (Seq a b) i j" "rx_match s (Alt a b) i j"

lemma rx_match_bounds: "rx_match s r i j \<Longrightarrow> i \<le> j \<and> j \<le> length s"
proof (induction rule: rx_match.induct)
  case (lit w ws i)
  then have "length w \<le> length s - i" by (metis HasPrefix_prefix length_drop prefix_length_le)
  with lit show ?case by simp
qed auto

lemma star_ends_sound:
  assumes "\<And>i j. i \<le> length s \<Longrightarrow> j \<in> set (f i) \<Longrightarrow> rx_match s r i j"
  shows "i \<le> length s \<Longrightarrow> j \<in> set (star_ends f n i) \<Longrightarrow> rx_match s (Star r) i j"
proof (induction n arbitrary: i)
  case (Suc n)
  show ?case
  proof (cases "j = i")
    case False
    with Suc.prems obtain k where k: "k \<in> set (f i)" "j \<in> set (star_ends f n k)" by auto
    with assms Suc.prems have m: "rx_match s r i k" by blast
    with Suc.IH k rx_match_bounds [OF m] show ?thesis by (auto intro: star1)
  qed (use Suc.prems in \<open>simp add: star0\<close>)
qed (simp add: star0)

lemma star_ends_complete:
  assumes "\<And>i j. rx_match s r i j \<Longrightarrow> j \<in> set (f i)"
  shows "rx_match s (Star r) i j \<Longrightarrow> length s - i \<le> n \<Longrightarrow> j \<in> set (star_ends f n i)"
proof (induction "Star r" i j arbitrary: n rule: rx_match.induct)
  case (star0 i)
  then show ?case by (cases n) auto
next
  case (star1 i j k)
  note b = rx_match_bounds [OF star1.hyps(1)]
  show ?case
  proof (cases "j = i")
    case True
    with star1 show ?thesis by simp
  next
    case False
    with b have lt: "i < j" by simp
    with b star1.prems obtain m where n: "n = Suc m" by (cases n) auto
    have "k \<in> set (star_ends f m j)" using star1.hyps(4) [of m] star1.prems lt n by simp
    with assms [OF star1.hyps(1)] lt n show ?thesis by auto
  qed
qed

lemma rx_ends_iff: "i \<le> length s \<Longrightarrow> j \<in> set (rx_ends r s i) \<longleftrightarrow> rx_match s r i j"
proof (induction r arbitrary: i j)
  case (Seq a b)
  then show ?case by (auto simp: rx_match_simps dest: rx_match_bounds) (meson rx_match_bounds)+
next
  case (Star r)
  have sound: "rx_match s (Star r) i j" if "j \<in> set (rx_ends (Star r) s i)"
    using star_ends_sound [of s "rx_ends r s" r i j] Star that by auto
  have complete: "j \<in> set (rx_ends (Star r) s i)" if "rx_match s (Star r) i j"
    using star_ends_complete [of s r "rx_ends r s" i j "length s - i"] Star that
    by (auto dest: rx_match_bounds) (meson order_trans rx_match_bounds)
  from sound complete show ?case by blast
qed (auto simp: rx_match_simps)

lemma MatchString_iff: "MatchString r s \<longleftrightarrow> (\<exists>i j. rx_match s r i j)"
proof -
  have "rx_ends r s i \<noteq> [] \<longleftrightarrow> (\<exists>j. rx_match s r i j)" if "i \<le> length s" for i
    using rx_ends_iff [OF that] by (metis list.set_intros(1) list.set(1) empty_iff neq_Nil_conv)
  then have "MatchString r s \<longleftrightarrow> (\<exists>i \<le> length s. \<exists>j. rx_match s r i j)"
    unfolding MatchString_def list_ex_iff set_upt atLeast0LessThan by (simp add: lessThan_Suc_atMost Bex_def)
  moreover have "i \<le> length s" if "rx_match s r i j" for i j using rx_match_bounds [OF that] by simp
  ultimately show ?thesis by blast
qed

subsection \<open>Building patterns\<close>

text \<open>One letter under \<^verbatim>\<open>(?i)\<close>, a literal text, and the usual abbreviations.\<close>

definition fold_char :: "char \<Rightarrow> string list" where
  "fold_char c = [[lower_char c], [upper_char c]]
     @ (if lower_char c = CHR ''k'' then [[CHR 0xE2, CHR 0x84, CHR 0xAA]] else [])
     @ (if lower_char c = CHR ''s'' then [[CHR 0xC5, CHR 0xBF]] else [])"

fun rx_seq :: "rx list \<Rightarrow> rx" where
  "rx_seq [] = Lit [[]]"
| "rx_seq [r] = r"
| "rx_seq (r # rs) = Seq r (rx_seq rs)"

definition ci :: "string \<Rightarrow> rx" where
  "ci w = rx_seq (map (\<lambda>c. Lit (fold_char c)) w)"

definition one_of_ci :: "string \<Rightarrow> rx" where
  "one_of_ci cs = Lit (concat (map fold_char cs))"

definition any_ci :: "string list \<Rightarrow> rx" where
  "any_ci ws = foldr (\<lambda>w r. Alt (ci w) r) (butlast ws) (ci (List.last ws))"

definition optional :: "rx \<Rightarrow> rx" where
  "optional r = Alt r (Lit [[]])"

definition many1 :: "rx \<Rightarrow> rx" where
  "many1 r = Seq r (Star r)"

end
