(* ===== verification/Skills.thy ===== *)
theory Skills
  imports Go_Regexp Keyed_Store Llm_Types Sandbox_Policy
begin

section \<open>Skills (\<^verbatim>\<open>pkg/skills\<close>)\<close>

text \<open>
  Installable skills: their signature, the static scan, and the engine that admits them. SHA-256,
  Ed25519 and the JSON text of tools and policy are arguments (\<open>skill_crypto\<close>), as are the
  directory listing, the files and the JSON decoder.
\<close>

subsection \<open>Skills and signatures (\<^verbatim>\<open>skill.go\<close>)\<close>

record skill_policy =
  skp_network :: bool
  skp_filesystem :: bool
  skp_shell :: bool
  skp_allowed_paths :: "string list"
  skp_max_timeout :: string

record skill =
  sk_name :: string
  sk_description :: string
  sk_version :: string
  sk_author :: string
  sk_tools :: "tool_definition list"
  sk_prompt :: string
  sk_policy :: skill_policy
  sk_signature :: string
  sk_verified :: bool

record skill_crypto =
  sha256 :: "string \<Rightarrow> string"
  ed_sign :: "string \<Rightarrow> string \<Rightarrow> string"
  ed_verify :: "string \<Rightarrow> string \<Rightarrow> string \<Rightarrow> bool"
  marshal_tools :: "tool_definition list \<Rightarrow> string"
  marshal_policy :: "skill_policy \<Rightarrow> string"

definition contentDigest :: "skill_crypto \<Rightarrow> skill \<Rightarrow> string" where
  "contentDigest cr sk = sha256 cr (sk_name sk @ sk_version sk @ sk_author sk @ sk_prompt sk
     @ marshal_tools cr (sk_tools sk) @ marshal_policy cr (sk_policy sk))"

definition Verify :: "skill_crypto \<Rightarrow> string \<Rightarrow> skill \<Rightarrow> bool \<times> skill" where
  "Verify cr publicKey sk =
     (if sk_signature sk = [] then (False, sk)
      else (case hex_decode (sk_signature sk) of
        None \<Rightarrow> (False, sk)
      | Some sig \<Rightarrow> (let v = ed_verify cr publicKey (contentDigest cr sk) sig in (v, sk\<lparr>sk_verified := v\<rparr>))))"

definition Sign :: "skill_crypto \<Rightarrow> string \<Rightarrow> skill \<Rightarrow> skill" where
  "Sign cr privateKey sk = sk\<lparr>sk_signature := hex_encode (ed_sign cr privateKey (contentDigest cr sk)), sk_verified := True\<rparr>"

definition LoadFromFile :: "(string \<Rightarrow> go_error + string) \<Rightarrow> (string \<Rightarrow> go_error + skill) \<Rightarrow> string \<Rightarrow> go_error + skill" where
  "LoadFromFile readFile unmarshal path =
     (case readFile path of
        Inl err \<Rightarrow> Inl (ErrWrap (''skills: reading '' @ path @ '': '') err)
      | Inr d \<Rightarrow>
          (case unmarshal d of
             Inl err \<Rightarrow> Inl (ErrWrap (''skills: parsing '' @ path @ '': '') err)
           | Inr sk \<Rightarrow>
               if sk_name sk = [] then Inl (ErrText (''skills: '' @ path @ '': name is required'')) else Inr sk))"

text \<open>\<^verbatim>\<open>filepath.Ext\<close> of a file name.\<close>

definition path_Ext :: "string \<Rightarrow> string" where
  "path_Ext name = (case LastIndex name ''.'' of None \<Rightarrow> [] | Some i \<Rightarrow> drop i name)"

datatype dir_listing = DirMissing | DirError go_error | DirEntries "(string \<times> bool) list"

fun load_entries :: "(string \<Rightarrow> go_error + skill) \<Rightarrow> string \<Rightarrow> (string \<times> bool) list \<Rightarrow> go_error + skill list" where
  "load_entries load dir [] = Inr []"
| "load_entries load dir ((name, isDir) # es) =
     (if isDir \<or> path_Ext name \<noteq> ''.json'' then load_entries load dir es
      else (case load (path_Join dir name) of
        Inl err \<Rightarrow> Inl err
      | Inr sk \<Rightarrow> (case load_entries load dir es of Inl err \<Rightarrow> Inl err | Inr sks \<Rightarrow> Inr (sk # sks))))"

definition LoadDir :: "(string \<Rightarrow> dir_listing) \<Rightarrow> (string \<Rightarrow> go_error + skill) \<Rightarrow> string \<Rightarrow> go_error + skill list" where
  "LoadDir readDir load dir =
     (case readDir dir of
        DirMissing \<Rightarrow> Inr []
      | DirError err \<Rightarrow> Inl (ErrWrap (''skills: reading dir '' @ dir @ '': '') err)
      | DirEntries es \<Rightarrow> load_entries load dir es)"

subsection \<open>The static scan (\<^verbatim>\<open>scanner.go\<close>)\<close>

record scan_finding =
  fi_rule :: string
  fi_message :: string

record scan_result =
  sr_skill :: string
  sr_findings :: "scan_finding list"
  sr_safe :: bool

definition space_rx :: rx where
  "space_rx = Star (Lit [[CHR 0x09], [CHR 0x0A], [CHR 0x0C], [CHR 0x0D], [CHR 0x20]])"

definition base64_bytes :: "string list" where
  "base64_bytes = map (\<lambda>c. [c]) ''ABCDEFGHIJKLMNOPQRSTUVWXYZabcdefghijklmnopqrstuvwxyz0123456789+/=''"

definition exfilPatterns :: "(string \<times> rx \<times> string) list" where
  "exfilPatterns =
     [(''curl_exfil'', rx_seq [WordB, ci ''curl'', WordB, Star Dot, Lit [''-''], one_of_ci ''dX''],
         ''curl with data flag may exfiltrate data''),
      (''wget_post'', rx_seq [WordB, ci ''wget'', WordB, Star Dot, ci ''--post''], ''wget with POST may exfiltrate data''),
      (''nc_reverse'', rx_seq [WordB, any_ci [''nc'', ''ncat'', ''netcat''], WordB, Star Dot, Lit [''-''], one_of_ci ''el''],
         ''netcat listener may open reverse shell''),
      (''base64_url'', rx_seq [ci ''base64'', Star Dot, ci ''http'', optional (ci ''s''), Lit [''://'']],
         ''base64 encoded URL detected''),
      (''encoded_url'', rx_seq [Lit [''aHR0c''], many1 (Lit base64_bytes)], ''base64 encoded HTTP URL detected''),
      (''eval_exec'', rx_seq [WordB, any_ci [''eval'', ''exec''], WordB, Star Dot, Lit [''$'']],
         ''dynamic code execution with variable expansion''),
      (''env_leak'', rx_seq [Lit [''$''], optional (Lit [''{'']), any_ci [''API_KEY'', ''SECRET'', ''TOKEN'', ''PASSWORD'', ''CREDENTIALS'']],
         ''potential secret/credential access''),
      (''pipe_remote'', rx_seq [Lit [''|''], space_rx, any_ci [''curl'', ''wget'', ''nc'']], ''piping output to network command''),
      (''dns_exfil'', rx_seq [WordB, ci ''dig'', WordB, Star Dot, Lit [''@'']], ''DNS query to custom server may exfiltrate data'')]"

definition scanText :: "string \<Rightarrow> string \<Rightarrow> scan_finding list" where
  "scanText text location =
     (if text = [] then []
      else map (\<lambda>(rule, r, m). \<lparr>fi_rule = rule, fi_message = ''['' @ location @ ''] '' @ m\<rparr>)
             (filter (\<lambda>(rule, r, m). MatchString r text) exfilPatterns)
         @ (if Contains text ''#!/''
            then [\<lparr>fi_rule = ''inline_script'', fi_message = ''['' @ location @ ''] inline script shebang detected''\<rparr>] else []))"

definition network_tool :: "tool_definition \<Rightarrow> bool" where
  "network_tool t \<longleftrightarrow> Contains (ToLower (td_name t)) ''http'' \<or> Contains (ToLower (td_description t)) ''network''
     \<or> Contains (ToLower (td_description t)) ''http''"

definition shell_tool :: "tool_definition \<Rightarrow> bool" where
  "shell_tool t \<longleftrightarrow> Contains (ToLower (td_name t)) ''shell'' \<or> Contains (ToLower (td_name t)) ''exec''
     \<or> Contains (ToLower (td_description t)) ''command''"

definition fs_tool :: "tool_definition \<Rightarrow> bool" where
  "fs_tool t \<longleftrightarrow> Contains (ToLower (td_name t)) ''file'' \<or> Contains (ToLower (td_description t)) ''filesystem''
     \<or> Contains (ToLower (td_description t)) ''read'' \<or> Contains (ToLower (td_description t)) ''write''"

definition checkPolicy :: "skill \<Rightarrow> scan_finding list" where
  "checkPolicy sk =
     (if list_ex network_tool (sk_tools sk) \<and> \<not> skp_network (sk_policy sk)
      then [\<lparr>fi_rule = ''undeclared_network'', fi_message = ''skill has network-capable tools but does not declare network policy''\<rparr>] else [])
   @ (if list_ex shell_tool (sk_tools sk) \<and> \<not> skp_shell (sk_policy sk)
      then [\<lparr>fi_rule = ''undeclared_shell'', fi_message = ''skill has shell-capable tools but does not declare shell policy''\<rparr>] else [])
   @ (if list_ex fs_tool (sk_tools sk) \<and> \<not> skp_filesystem (sk_policy sk)
      then [\<lparr>fi_rule = ''undeclared_filesystem'', fi_message = ''skill has filesystem-capable tools but does not declare filesystem policy''\<rparr>] else [])"

definition scanned_texts :: "skill \<Rightarrow> (string \<times> string) list" where
  "scanned_texts sk = (sk_prompt sk, ''prompt'') # concat (map (\<lambda>t.
     [(td_description t, ''tool['' @ td_name t @ ''].description''), (td_input_schema t, ''tool['' @ td_name t @ ''].schema'')]) (sk_tools sk))"

definition Scan :: "skill \<Rightarrow> scan_result" where
  "Scan sk = (let fs = concat (map (\<lambda>(t, l). scanText t l) (scanned_texts sk)) @ checkPolicy sk
     in \<lparr>sr_skill = sk_name sk, sr_findings = fs, sr_safe = (length fs = 0)\<rparr>)"

subsection \<open>The engine (\<^verbatim>\<open>engine.go\<close>)\<close>

record skill_engine =
  en_skills :: "(string, skill) gomap"
  en_trustedKeys :: "string list"
  en_allowUnsigned :: bool
  en_skillDir :: string

definition NewEngine :: "string \<Rightarrow> string list \<Rightarrow> bool \<Rightarrow> skill_engine" where
  "NewEngine dir keys allowUnsigned = \<lparr>en_skills = [], en_trustedKeys = keys, en_allowUnsigned = allowUnsigned, en_skillDir = dir\<rparr>"

fun verify_keys :: "skill_crypto \<Rightarrow> string list \<Rightarrow> skill \<Rightarrow> bool \<times> skill" where
  "verify_keys cr [] sk = (False, sk)"
| "verify_keys cr (key # keys) sk =
     (case Verify cr key sk of (True, sk') \<Rightarrow> (True, sk') | (False, sk') \<Rightarrow> verify_keys cr keys sk')"

definition verifySignature :: "skill_crypto \<Rightarrow> skill_engine \<Rightarrow> skill \<Rightarrow> bool \<times> skill" where
  "verifySignature cr en sk = verify_keys cr (en_trustedKeys en) sk"

definition zero_scan :: scan_result where
  "zero_scan = \<lparr>sr_skill = [], sr_findings = [], sr_safe = False\<rparr>"

definition Install :: "skill_crypto \<Rightarrow> skill \<Rightarrow> skill_engine \<Rightarrow> (scan_result \<times> go_error option) \<times> skill_engine" where
  "Install cr sk0 en =
     (let (signed, sk) = verifySignature cr en sk0 in
      if \<not> signed \<and> \<not> en_allowUnsigned en
      then ((zero_scan, Some (ErrText (''skill '' @ go_quote (sk_name sk) @ '' has no valid signature (use --allow-unsigned to override)''))), en)
      else (let result = Scan sk in
        if \<not> sr_safe result
        then ((result, Some (ErrText (''skill '' @ go_quote (sk_name sk) @ '' failed static analysis with '' @ nat_to_dec (length (sr_findings result)) @ '' findings''))), en)
        else ((result, None), en\<lparr>en_skills := gomap_put (sk_name sk) sk (en_skills en)\<rparr>)))"

definition engine_Get :: "skill_engine \<Rightarrow> string \<Rightarrow> skill option" where
  "engine_Get en name = map_of (en_skills en) name"

definition engine_List :: "skill_engine \<Rightarrow> skill list" where
  "engine_List en = map snd (en_skills en)"

definition Uninstall :: "string \<Rightarrow> skill_engine \<Rightarrow> bool \<times> skill_engine" where
  "Uninstall name en = (map_of (en_skills en) name \<noteq> None, en\<lparr>en_skills := gomap_delete name (en_skills en)\<rparr>)"

fun install_all :: "skill_crypto \<Rightarrow> skill list \<Rightarrow> skill_engine \<Rightarrow> (scan_result list \<times> go_error option) \<times> skill_engine" where
  "install_all cr [] en = (([], None), en)"
| "install_all cr (sk # sks) en =
     (case Install cr sk en of
        ((result, Some err), en1) \<Rightarrow> (([], Some (ErrWrap (''skills: installing '' @ go_quote (sk_name sk) @ '': '') err)), en1)
      | ((result, None), en1) \<Rightarrow>
          (let ((results, err), en2) = install_all cr sks en1 in ((result # results, err), en2)))"

definition LoadAll :: "skill_crypto \<Rightarrow> (string \<Rightarrow> go_error + skill list) \<Rightarrow> skill_engine \<Rightarrow> (scan_result list \<times> go_error option) \<times> skill_engine" where
  "LoadAll cr loadDir en =
     (if en_skillDir en = [] then (([], None), en)
      else (case loadDir (en_skillDir en) of
        Inl err \<Rightarrow> (([], Some (ErrWrap ''skills: loading directory: '' err)), en)
      | Inr sks \<Rightarrow> install_all cr sks en))"

subsection \<open>Signatures\<close>

lemma contentDigest_frame [simp]:
  "contentDigest cr (sk\<lparr>sk_verified := v\<rparr>) = contentDigest cr sk" "contentDigest cr (sk\<lparr>sk_signature := g\<rparr>) = contentDigest cr sk"
  by (simp_all add: contentDigest_def)

text \<open>
  a skill signed with a private key verifies under the public key that belongs to it (one that
  accepts what the private key signs): the signature survives its hexadecimal form, and signing
  does not change what is signed.
\<close>

theorem Sign_Verify:
  assumes pair: "\<And>d. ed_verify cr pub d (ed_sign cr priv d)" and sig: "ed_sign cr priv (contentDigest cr sk) \<noteq> []"
  shows "fst (Verify cr pub (Sign cr priv sk)) \<and> sk_verified (snd (Verify cr pub (Sign cr priv sk)))"
  using assms by (simp add: Verify_def Sign_def hex_decode_encode Let_def)

definition demo_crypto :: skill_crypto where
  "demo_crypto = \<lparr>sha256 = (\<lambda>s. s), ed_sign = (\<lambda>k d. k @ d), ed_verify = (\<lambda>k d g. g = k @ d),
     marshal_tools = (\<lambda>ts. concat (map td_name ts)), marshal_policy = (\<lambda>p. if skp_shell p then ''s'' else ''-'')\<rparr>"

definition demo_skill :: skill where
  "demo_skill = \<lparr>sk_name = ''cal'', sk_description = ''adds numbers'', sk_version = ''1'', sk_author = ''ann'', sk_tools = [],
     sk_prompt = ''Add the numbers.'', sk_policy = \<lparr>skp_network = False, skp_filesystem = False, skp_shell = False, skp_allowed_paths = [], skp_max_timeout = []\<rparr>,
     sk_signature = [], sk_verified = False\<rparr>"

theorem Sign_Verify_witness: "fst (Verify demo_crypto ''key'' (Sign demo_crypto ''key'' demo_skill))"
  using Sign_Verify [of demo_crypto "''key''" "''key''" demo_skill] by (simp add: demo_crypto_def)

text \<open>
  a signature does not bind the fields of a skill. Verification gives the same answer for every
  skill whose name, version, author and prompt run together to the same text, with any other
  description: text can be moved from the end of the author into the prompt, or the boundary between
  name and version shifted, without touching the signature.
\<close>

theorem signature_not_binding:
  assumes "sk_name sk' @ sk_version sk' @ sk_author sk' @ sk_prompt sk' = sk_name sk @ sk_version sk @ sk_author sk @ sk_prompt sk"
    and "sk_tools sk' = sk_tools sk" "sk_policy sk' = sk_policy sk" "sk_signature sk' = sk_signature sk"
  shows "fst (Verify cr key sk') = fst (Verify cr key sk)"
proof -
  have "contentDigest cr sk' = contentDigest cr sk"
    unfolding contentDigest_def using assms(1) by (simp add: assms(2,3) flip: append_assoc)
  with assms(4) show ?thesis by (simp add: Verify_def Let_def split: option.splits)
qed

theorem signature_not_binding_witness:
  "fst (Verify demo_crypto ''key'' ((Sign demo_crypto ''key'' demo_skill)\<lparr>sk_name := ''ca'', sk_version := ''l1'', sk_description := ''other''\<rparr>))"
proof -
  let ?sk = "Sign demo_crypto ''key'' demo_skill"
  have "fst (Verify demo_crypto ''key'' ?sk)"
    by (simp add: Verify_def Sign_def hex_decode_encode Let_def demo_crypto_def)
  with signature_not_binding [of "?sk\<lparr>sk_name := ''ca'', sk_version := ''l1'', sk_description := ''other''\<rparr>" ?sk demo_crypto "''key''"]
  show ?thesis by (simp add: Sign_def demo_skill_def)
qed

subsection \<open>Admission\<close>

definition signed_by :: "skill_crypto \<Rightarrow> string list \<Rightarrow> skill \<Rightarrow> bool" where
  "signed_by cr keys sk \<longleftrightarrow> sk_signature sk \<noteq> [] \<and>
     (\<exists>sig. hex_decode (sk_signature sk) = Some sig \<and> (\<exists>key \<in> set keys. ed_verify cr key (contentDigest cr sk) sig))"

text \<open>What the scan looks for, by the meaning of the patterns.\<close>

definition clean_text :: "string \<Rightarrow> bool" where
  "clean_text t \<longleftrightarrow> t = [] \<or> ((\<forall>(rule, r, m) \<in> set exfilPatterns. \<nexists>i j. rx_match t r i j) \<and> \<not> Contains t ''#!/'')"

definition clean_skill :: "skill \<Rightarrow> bool" where
  "clean_skill sk \<longleftrightarrow> clean_text (sk_prompt sk)
     \<and> (\<forall>t \<in> set (sk_tools sk). clean_text (td_description t) \<and> clean_text (td_input_schema t)
        \<and> (network_tool t \<longrightarrow> skp_network (sk_policy sk)) \<and> (shell_tool t \<longrightarrow> skp_shell (sk_policy sk))
        \<and> (fs_tool t \<longrightarrow> skp_filesystem (sk_policy sk)))"

definition admitted :: "skill_crypto \<Rightarrow> string list \<Rightarrow> bool \<Rightarrow> skill \<Rightarrow> bool" where
  "admitted cr keys allowUnsigned sk \<longleftrightarrow> (allowUnsigned \<or> signed_by cr keys sk) \<and> clean_skill sk"

lemma scanText_clean: "scanText t l = [] \<longleftrightarrow> clean_text t"
  unfolding scanText_def clean_text_def MatchString_iff by (fastforce simp: filter_empty_conv)

lemma Scan_safe: "sr_safe (Scan sk) \<longleftrightarrow> clean_skill sk"
  by (auto simp: Scan_def Let_def scanned_texts_def scanText_clean clean_skill_def checkPolicy_def list_ex_iff)

lemma skill_unverified: "\<exists>v. sk = sk\<lparr>sk_verified := v\<rparr>"
  by (rule exI [of _ "sk_verified sk"]) simp

lemma Verify_signed: "Verify cr key sk = (b, sk') \<Longrightarrow> (b \<longleftrightarrow> signed_by cr [key] sk) \<and> (\<exists>v. sk' = sk\<lparr>sk_verified := v\<rparr>)"
proof (cases "hex_decode (sk_signature sk)")
  case (Some sig)
  assume "Verify cr key sk = (b, sk')"
  with Some show ?thesis
    by (cases "sk_signature sk = []") (auto simp: Verify_def signed_by_def Let_def intro: skill_unverified)
qed (auto simp: Verify_def signed_by_def intro: skill_unverified split: if_splits)

lemma signed_by_Cons: "signed_by cr (key # keys) sk \<longleftrightarrow> signed_by cr [key] sk \<or> signed_by cr keys sk"
  by (auto simp: signed_by_def)

lemma signed_by_verified [simp]: "signed_by cr keys (sk\<lparr>sk_verified := v\<rparr>) = signed_by cr keys sk"
  by (simp add: signed_by_def)

lemma verify_keys_signed:
  "verify_keys cr keys sk = (b, sk') \<Longrightarrow> (b \<longleftrightarrow> signed_by cr keys sk) \<and> (\<exists>v. sk' = sk\<lparr>sk_verified := v\<rparr>)"
proof (induction keys arbitrary: sk)
  case Nil
  then show ?case by (auto simp: signed_by_def intro: skill_unverified)
next
  case (Cons key keys)
  obtain b1 sk1 where v: "Verify cr key sk = (b1, sk1)" by force
  note s = Verify_signed [OF v]
  then obtain w where sk1: "sk1 = sk\<lparr>sk_verified := w\<rparr>" by blast
  show ?case
  proof (cases b1)
    case True
    with Cons.prems v have "b" "sk' = sk1" by simp_all
    with s True show ?thesis using signed_by_Cons [of cr key keys sk] by blast
  next
    case False
    with Cons.prems v have "verify_keys cr keys sk1 = (b, sk')" by simp
    from Cons.IH [OF this] s False show ?thesis using signed_by_Cons [of cr key keys sk] by (auto simp: sk1)
  qed
qed

interpretation skills: keyed_store engine_Get "\<lambda>n sk en. en\<lparr>en_skills := gomap_put n sk (en_skills en)\<rparr>"
    "\<lambda>n en. snd (Uninstall n en)" "\<lambda>en. gomap_ok (en_skills en)"
  by unfold_locales (auto simp: engine_Get_def Uninstall_def fun_eq_iff)

lemma clean_skill_verified [simp]: "clean_skill (sk\<lparr>sk_verified := v\<rparr>) = clean_skill sk"
  by (simp add: clean_skill_def)

text \<open>\<^verbatim>\<open>Install\<close> on every branch.\<close>

lemma Install_cases:
  assumes "Install cr sk en = ((res, err), en')"
  shows "(admitted cr (en_trustedKeys en) (en_allowUnsigned en) sk \<longleftrightarrow> err = None)
    \<and> (err \<noteq> None \<longrightarrow> en' = en)
    \<and> (err = None \<longrightarrow> (\<exists>v. en' = en\<lparr>en_skills := gomap_put (sk_name sk) (sk\<lparr>sk_verified := v\<rparr>) (en_skills en)\<rparr>))"
proof -
  obtain b sk1 where v: "verifySignature cr en sk = (b, sk1)" by force
  from verify_keys_signed [OF v [unfolded verifySignature_def]] obtain w
    where b: "b \<longleftrightarrow> signed_by cr (en_trustedKeys en) sk" and sk1: "sk1 = sk\<lparr>sk_verified := w\<rparr>" by blast
  from assms show ?thesis
    by (auto simp: Install_def v b sk1 Let_def Scan_safe admitted_def split: if_splits)
qed

inductive engine_run :: "skill_crypto \<Rightarrow> skill_engine \<Rightarrow> skill_engine \<Rightarrow> bool" for cr en0 where
  start: "engine_run cr en0 en0"
| install: "engine_run cr en0 en \<Longrightarrow> engine_run cr en0 (snd (Install cr sk en))"
| uninstall: "engine_run cr en0 en \<Longrightarrow> engine_run cr en0 (snd (Uninstall n en))"

lemma install_all_run: "engine_run cr en0 en \<Longrightarrow> engine_run cr en0 (snd (install_all cr sks en))"
proof (induction sks arbitrary: en)
  case (Cons sk sks)
  obtain res err en1 where i: "Install cr sk en = ((res, err), en1)" by (metis prod.exhaust)
  with install [OF Cons.prems, of sk] have "engine_run cr en0 en1" by simp
  with Cons.IH i show ?case by (auto simp: split_beta Let_def split: option.splits)
qed simp

lemma LoadAll_run: "engine_run cr en0 en \<Longrightarrow> engine_run cr en0 (snd (LoadAll cr loadDir en))"
  by (simp add: LoadAll_def install_all_run split: sum.splits)

definition engine_inv :: "skill_crypto \<Rightarrow> skill_engine \<Rightarrow> skill_engine \<Rightarrow> bool" where
  "engine_inv cr en0 en \<longleftrightarrow> gomap_ok (en_skills en) \<and> en_trustedKeys en = en_trustedKeys en0 \<and> en_allowUnsigned en = en_allowUnsigned en0
     \<and> (\<forall>n sk. engine_Get en n = Some sk \<longrightarrow> sk_name sk = n \<and> admitted cr (en_trustedKeys en0) (en_allowUnsigned en0) sk)"

lemma admitted_verified [simp]: "admitted cr keys u (sk\<lparr>sk_verified := v\<rparr>) = admitted cr keys u sk"
  by (simp add: admitted_def)

lemma engine_run_inv:
  assumes "engine_run cr en0 en" "en_skills en0 = []"
  shows "engine_inv cr en0 en"
  using assms
proof (induction rule: engine_run.induct)
  case start
  then show ?case by (simp add: engine_inv_def engine_Get_def)
next
  case (install en sk)
  obtain res err en1 where i: "Install cr sk en = ((res, err), en1)" by (metis prod.exhaust)
  have inv: "engine_inv cr en0 en" using install by simp
  show ?case
  proof (cases err)
    case None
    with Install_cases [OF i] obtain v where "en1 = en\<lparr>en_skills := gomap_put (sk_name sk) (sk\<lparr>sk_verified := v\<rparr>) (en_skills en)\<rparr>"
      and "admitted cr (en_trustedKeys en) (en_allowUnsigned en) sk" by auto
    with inv show ?thesis by (auto simp: i engine_inv_def engine_Get_def)
  next
    case (Some e)
    with Install_cases [OF i] inv show ?thesis by (simp add: i)
  qed
next
  case (uninstall en n)
  then show ?case by (auto simp: engine_inv_def engine_Get_def Uninstall_def split: if_splits)
qed

text \<open>
  C22: the engine holds only skills that were entitled to be installed, and admits every such skill.
  After any run of installations and removals each listed skill is found under its name, carries a
  valid signature of a trusted key over its contents (unless unsigned skills are allowed), declares
  the capabilities its tools suggest, and no prompt, tool description or schema of it contains a match
  of an exfiltration pattern or a script line; and \<^verbatim>\<open>Install\<close> succeeds exactly on the skills
  with these properties, otherwise leaving the engine as it was.
\<close>

theorem installed_skills_admitted:
  assumes "engine_run cr (NewEngine dir keys allowUnsigned) en"
  shows "list_all (\<lambda>sk. admitted cr keys allowUnsigned sk \<and> engine_Get en (sk_name sk) = Some sk) (engine_List en)
    \<and> (if admitted cr keys allowUnsigned sk then snd (fst (Install cr sk en)) = None \<and> engine_Get (snd (Install cr sk en)) (sk_name sk) \<noteq> None
       else snd (fst (Install cr sk en)) \<noteq> None \<and> snd (Install cr sk en) = en)"
proof -
  have inv: "engine_inv cr (NewEngine dir keys allowUnsigned) en" using engine_run_inv [OF assms] by (simp add: NewEngine_def)
  then have "list_all (\<lambda>sk. admitted cr keys allowUnsigned sk \<and> engine_Get en (sk_name sk) = Some sk) (engine_List en)"
    by (fastforce simp: list_all_iff engine_List_def engine_inv_def engine_Get_def NewEngine_def gomap_lookup_iff)
  moreover obtain res err en1 where i: "Install cr sk en = ((res, err), en1)" by (metis prod.exhaust)
  moreover have "engine_Get en1 (sk_name sk) \<noteq> None" if "err = None"
  proof -
    from Install_cases [OF i] that obtain v where "en1 = en\<lparr>en_skills := gomap_put (sk_name sk) (sk\<lparr>sk_verified := v\<rparr>) (en_skills en)\<rparr>" by blast
    then show ?thesis using skills.get_put [of en] inv by (simp add: engine_inv_def)
  qed
  moreover have "admitted cr keys allowUnsigned sk \<longleftrightarrow> err = None"
    using Install_cases [OF i] inv by (simp add: engine_inv_def NewEngine_def)
  moreover have "en1 = en" if "err \<noteq> None" using Install_cases [OF i] that by simp
  ultimately show ?thesis by (simp add: i)
qed

theorem installed_skills_admitted_witness:
  "snd (fst (Install demo_crypto demo_skill (NewEngine ''d'' [''key''] False))) \<noteq> None"
proof -
  have "\<not> admitted demo_crypto [''key''] False demo_skill" by (simp add: admitted_def signed_by_def demo_skill_def)
  with installed_skills_admitted [OF engine_run.start, where cr = demo_crypto and dir = "''d''" and keys = "[''key'']" and allowUnsigned = False and sk = demo_skill] show ?thesis by simp
qed

end
