(* ===== verification/Scheduler.thy ===== *)
theory Scheduler
  imports Keyed_Store
begin

section \<open>Scheduled jobs and webhooks (\<^verbatim>\<open>pkg/scheduler\<close>)\<close>

text \<open>
  The scheduler checks once a second which jobs are due and starts them; the webhook handler
  authenticates a request by an HMAC over its body and calls the function registered for its event.
  Reading of duration texts (\<^verbatim>\<open>time.ParseDuration\<close>), the HMAC and the JSON decoder are arguments;
  times and durations are nanoseconds.
\<close>

subsection \<open>Jobs (\<^verbatim>\<open>scheduler.go\<close>)\<close>

record job_entry =
  je_name :: string
  je_interval :: int
  je_next :: timestamp

definition parseSchedule :: "(string \<Rightarrow> go_error + int) \<Rightarrow> string \<Rightarrow> go_error + int" where
  "parseSchedule parseDuration s =
     (if s = ''@hourly'' then Inr (3600 * 1000000000)
      else if s = ''@daily'' then Inr (24 * 3600 * 1000000000)
      else if s = ''@weekly'' then Inr (7 * 24 * 3600 * 1000000000)
      else if length s > 7 \<and> take 7 s = ''@every '' then parseDuration (drop 7 s)
      else parseDuration s)"

definition scheduler_Add :: "(string \<Rightarrow> go_error + int) \<Rightarrow> timestamp \<Rightarrow> string \<Rightarrow> string \<Rightarrow> job_entry list \<Rightarrow> (go_error + unit) \<times> job_entry list" where
  "scheduler_Add parseDuration now name schedule jobs =
     (case parseSchedule parseDuration schedule of
        Inl err \<Rightarrow> (Inl (ErrWrap (''scheduler: invalid schedule '' @ go_quote schedule @ '': '') err), jobs)
      | Inr interval \<Rightarrow> (Inr (), jobs @ [\<lparr>je_name = name, je_interval = interval, je_next = now + interval\<rparr>]))"

text \<open>One pass of \<^verbatim>\<open>tick\<close>: the entries with their next times, and the jobs that were started.\<close>

fun scheduler_tick :: "timestamp \<Rightarrow> job_entry list \<Rightarrow> job_entry list \<times> string list" where
  "scheduler_tick now [] = ([], [])"
| "scheduler_tick now (e # es) =
     (let (es', started) = scheduler_tick now es in
      if now < je_next e then (e # es', started)
      else (e\<lparr>je_next := now + je_interval e\<rparr> # es', je_name e # started))"

text \<open>The loop of \<^verbatim>\<open>Start\<close> over the ticks it gets, with what was started at each.\<close>

fun scheduler_ticks :: "timestamp list \<Rightarrow> job_entry list \<Rightarrow> job_entry list \<times> (timestamp \<times> string list) list" where
  "scheduler_ticks [] jobs = (jobs, [])"
| "scheduler_ticks (now # ts) jobs =
     (let (jobs1, started) = scheduler_tick now jobs; (jobs2, out) = scheduler_ticks ts jobs1 in (jobs2, (now, started) # out))"

text \<open>
  The scheduler as an object: \<^verbatim>\<open>Start\<close> marks it running and enters the loop, \<^verbatim>\<open>Stop\<close> closes the stop
  channel of a running scheduler. Closing it a second time panics, which is \<^term>\<open>None\<close>. A loop that has
  not seen the closed channel yet may still take a tick.
\<close>

record scheduler =
  sch_jobs :: "job_entry list"
  sch_running :: bool
  sch_closed :: bool
  sch_loops :: nat
  sch_started :: "(timestamp \<times> string list) list"

definition scheduler_New :: scheduler where
  "scheduler_New = \<lparr>sch_jobs = [], sch_running = False, sch_closed = False, sch_loops = 0, sch_started = []\<rparr>"

definition scheduler_Start :: "scheduler \<Rightarrow> scheduler" where
  "scheduler_Start s = s\<lparr>sch_running := True, sch_loops := Suc (sch_loops s)\<rparr>"

definition scheduler_Stop :: "scheduler \<Rightarrow> scheduler option" where
  "scheduler_Stop s =
     (if \<not> sch_running s then Some s
      else if sch_closed s then None
      else Some (s\<lparr>sch_closed := True, sch_running := False\<rparr>))"

definition scheduler_loop :: "timestamp loop_event \<Rightarrow> scheduler \<Rightarrow> scheduler" where
  "scheduler_loop ev s =
     (case ev of
        LoopTick now \<Rightarrow> (let (jobs, started) = scheduler_tick now (sch_jobs s) in s\<lparr>sch_jobs := jobs, sch_started := sch_started s @ [(now, started)]\<rparr>)
      | LoopCancelled \<Rightarrow> s\<lparr>sch_loops := sch_loops s - 1\<rparr>
      | LoopStopped \<Rightarrow> s\<lparr>sch_loops := sch_loops s - 1\<rparr>)"

inductive scheduler_run :: "scheduler \<Rightarrow> scheduler \<Rightarrow> bool" for s0 where
  init: "scheduler_run s0 s0"
| add: "scheduler_run s0 s \<Longrightarrow> scheduler_run s0 (s\<lparr>sch_jobs := snd (scheduler_Add parse now name schedule (sch_jobs s))\<rparr>)"
| start: "scheduler_run s0 s \<Longrightarrow> scheduler_run s0 (scheduler_Start s)"
| stop: "scheduler_run s0 s \<Longrightarrow> scheduler_Stop s = Some s' \<Longrightarrow> scheduler_run s0 s'"
| loop: "scheduler_run s0 s \<Longrightarrow> 0 < sch_loops s \<Longrightarrow> ev = LoopStopped \<longrightarrow> sch_closed s \<Longrightarrow> scheduler_run s0 (scheduler_loop ev s)"

subsection \<open>Webhooks (\<^verbatim>\<open>webhook.go\<close>)\<close>

record webhook_payload =
  wp_event :: string
  wp_source :: string
  wp_payload :: string

record webhook_handler =
  wh_secret :: string
  wh_handlers :: "string \<rightharpoonup> (webhook_payload \<Rightarrow> go_error option)"

record webhook_request =
  wr_method :: string
  wr_body :: "go_error + string"
  wr_signature :: string

definition NewWebhookHandler :: "string \<Rightarrow> webhook_handler" where
  "NewWebhookHandler secret = \<lparr>wh_secret = secret, wh_handlers = Map.empty\<rparr>"

definition webhook_On :: "string \<Rightarrow> (webhook_payload \<Rightarrow> go_error option) \<Rightarrow> webhook_handler \<Rightarrow> webhook_handler" where
  "webhook_On event fn wh = wh\<lparr>wh_handlers := (wh_handlers wh)(event \<mapsto> fn)\<rparr>"

definition webhook_verifySignature :: "(string \<Rightarrow> string \<Rightarrow> string) \<Rightarrow> webhook_handler \<Rightarrow> string \<Rightarrow> string \<Rightarrow> bool" where
  "webhook_verifySignature hmac wh body signature =
     (if signature = [] then False else hex_encode (hmac (wh_secret wh) body) = signature)"

definition max_webhook_body :: nat where "max_webhook_body = 2 ^ 20"

text \<open>The response status and text, and the call of a registered function, if there was one.\<close>

definition webhook_ServeHTTP :: "(string \<Rightarrow> string \<Rightarrow> string) \<Rightarrow> (string \<Rightarrow> webhook_payload option) \<Rightarrow> webhook_handler \<Rightarrow> webhook_request \<Rightarrow>
    (nat \<times> string) \<times> webhook_payload option" where
  "webhook_ServeHTTP hmac unmarshal wh r =
     (if wr_method r \<noteq> ''POST'' then ((405, ''method not allowed''), None)
      else (case wr_body r of
        Inl err \<Rightarrow> ((400, ''failed to read body''), None)
      | Inr whole \<Rightarrow>
          (let body = take max_webhook_body whole in
           if wh_secret wh \<noteq> [] \<and> \<not> webhook_verifySignature hmac wh body (wr_signature r)
           then ((401, ''invalid signature''), None)
           else (case unmarshal body of
             None \<Rightarrow> ((400, ''invalid JSON''), None)
           | Some payload \<Rightarrow>
               (case wh_handlers wh (wp_event payload) of
                  None \<Rightarrow> ((202, ''{\"status\":\"accepted\",\"handled\":false}''), None)
                | Some fn \<Rightarrow>
                    (case fn payload of
                       Some err \<Rightarrow> ((500, ''handler error''), Some payload)
                     | None \<Rightarrow> ((200, ''{\"status\":\"ok\",\"handled\":true}''), Some payload)))))))"

subsection \<open>Properties\<close>

text \<open>The times at which the job at position \<open>i\<close> is started.\<close>

fun job_runs :: "int \<Rightarrow> timestamp \<Rightarrow> timestamp list \<Rightarrow> timestamp list" where
  "job_runs interval due [] = []"
| "job_runs interval due (now # ts) =
     (if now < due then job_runs interval due ts else now # job_runs interval (now + interval) ts)"

definition started_at :: "string \<Rightarrow> (timestamp \<times> string list) list \<Rightarrow> timestamp list" where
  "started_at name out = map fst (filter (\<lambda>(t, started). name \<in> set started) out)"

lemma scheduler_tick_entries:
  "fst (scheduler_tick now jobs) = map (\<lambda>e. if now < je_next e then e else e\<lparr>je_next := now + je_interval e\<rparr>) jobs"
  "snd (scheduler_tick now jobs) = map je_name (filter (\<lambda>e. \<not> now < je_next e) jobs)"
  by (induction jobs) (auto simp: Let_def split_beta)

lemma scheduler_ticks_jobs:
  assumes "distinct (map je_name jobs)" "e \<in> set jobs"
  shows "started_at (je_name e) (snd (scheduler_ticks ts jobs)) = job_runs (je_interval e) (je_next e) ts"
  using assms
proof (induction ts arbitrary: jobs e)
  case (Cons now ts)
  let ?upd = "\<lambda>e. if now < je_next e then e else e\<lparr>je_next := now + je_interval e\<rparr>"
  have names: "map je_name (map ?upd jobs) = map je_name jobs" by (induction jobs) auto
  have started: "je_name e \<in> set (snd (scheduler_tick now jobs)) \<longleftrightarrow> \<not> now < je_next e"
    using Cons.prems by (auto simp: scheduler_tick_entries distinct_map inj_on_def)
  have "distinct (map je_name (map ?upd jobs))" unfolding names by (rule Cons.prems(1))
  moreover have "?upd e \<in> set (map ?upd jobs)" using Cons.prems(2) by simp
  ultimately have "started_at (je_name (?upd e)) (snd (scheduler_ticks ts (map ?upd jobs))) = job_runs (je_interval (?upd e)) (je_next (?upd e)) ts"
    by (rule Cons.IH)
  moreover have "je_name (?upd e) = je_name e" "je_interval (?upd e) = je_interval e" by simp_all
  moreover have "snd (scheduler_ticks (now # ts) jobs) = (now, snd (scheduler_tick now jobs)) # snd (scheduler_ticks ts (map ?upd jobs))"
    by (simp add: Let_def split_beta scheduler_tick_entries(1))
  ultimately show ?case using started by (cases "now < je_next e") (simp_all add: started_at_def)
qed (simp add: started_at_def)

lemma job_runs_spaced:
  assumes "0 \<le> interval"
  shows "sorted_wrt (\<lambda>a b. a + interval \<le> b) (job_runs interval due ts) \<and> (\<forall>t \<in> set (job_runs interval due ts). due \<le> t)"
proof (induction ts arbitrary: due)
  case (Cons now ts)
  then have "sorted_wrt (\<lambda>a b. a + interval \<le> b) (job_runs interval d ts)" "\<forall>t \<in> set (job_runs interval d ts). d \<le> t" for d
    by blast+
  with assms show ?case by (cases "now < due") fastforce+
qed simp

lemma job_runs_covers:
  "t \<in> set ts \<Longrightarrow> t < due \<or> (\<exists>r \<in> set (job_runs interval due ts). t < r + interval \<or> t = r)"
proof (induction interval due ts rule: job_runs.induct)
  case (2 interval due now ts)
  then show ?case by (cases "now < due") auto
qed simp

text \<open>
  every job keeps its own pace. For jobs with different names and any sequence of ticks, a job with
  interval \<open>d\<close> is never started before its first due time, two starts are at least \<open>d\<close> apart,
  and it is not forgotten: each tick from the due time on is a start or less than \<open>d\<close>
  after one; the other jobs make no difference.
\<close>

theorem jobs_keep_pace:
  assumes jobs: "distinct (map je_name jobs)" "e \<in> set jobs" and pos: "0 < je_interval e"
  shows "let runs = started_at (je_name e) (snd (scheduler_ticks ts jobs)) in
    sorted_wrt (\<lambda>a b. a + je_interval e \<le> b) runs \<and> list_all (\<lambda>t. je_next e \<le> t) runs
    \<and> list_all (\<lambda>t. t < je_next e \<or> list_ex (\<lambda>r. t < r + je_interval e) runs) ts"
  using job_runs_spaced [of "je_interval e" "je_next e" ts] job_runs_covers [of _ ts "je_next e" "je_interval e"] pos
  by (auto simp: scheduler_ticks_jobs [OF jobs] Let_def list_all_iff list_ex_iff) (smt (verit))

theorem jobs_keep_pace_witness:
  "started_at ''gc'' (snd (scheduler_ticks [5, 10, 12, 19, 21] [\<lparr>je_name = ''gc'', je_interval = 10, je_next = 10\<rparr>])) = [10, 21]
   \<and> sorted_wrt (\<lambda>a b. a + 10 \<le> b) (started_at ''gc'' (snd (scheduler_ticks [5, 10, 12, 19, 21] [\<lparr>je_name = ''gc'', je_interval = 10, je_next = 10\<rparr>])))"
  using jobs_keep_pace [of "[\<lparr>je_name = ''gc'', je_interval = 10, je_next = 10\<rparr>]" "\<lparr>je_name = ''gc'', je_interval = 10, je_next = 10\<rparr>" "[5, 10, 12, 19, 21]"]
  by (simp add: started_at_def Let_def)

text \<open>The ticks of a running scheduler are the list of ticks above.\<close>

lemma scheduler_loop_ticks:
  "fold (\<lambda>now. scheduler_loop (LoopTick now)) ts s =
     s\<lparr>sch_jobs := fst (scheduler_ticks ts (sch_jobs s)), sch_started := sch_started s @ snd (scheduler_ticks ts (sch_jobs s))\<rparr>"
proof (induction ts arbitrary: s)
  case (Cons now ts)
  then show ?case by (simp add: scheduler_loop_def Let_def split_beta)
qed simp

text \<open>
  The life of a scheduler. Nothing is ever started before \<^verbatim>\<open>Start\<close>, a stop before the start has no effect, and the loop
  of a stopped scheduler can leave; but a scheduler that is started again after a stop can only be stopped by a panic,
  because the stop channel is never made anew.
\<close>

lemma scheduler_run_inv:
  assumes "scheduler_run scheduler_New s"
  shows "(sch_running s \<or> sch_closed s \<or> sch_loops s = 0) \<and> (sch_loops s = 0 \<and> \<not> sch_closed s \<and> \<not> sch_running s \<longrightarrow> sch_started s = [])"
  using assms
  by (induction rule: scheduler_run.induct)
    (auto simp: scheduler_New_def scheduler_Start_def scheduler_Stop_def scheduler_loop_def Let_def split: loop_event.splits prod.splits if_splits)

lemma stop_before_start: "scheduler_Stop scheduler_New = Some scheduler_New"
  by (simp add: scheduler_Stop_def scheduler_New_def)

lemma restarted_scheduler_panics:
  assumes "scheduler_Stop (scheduler_Start s) = Some s'"
  shows "scheduler_Stop (scheduler_Start s') = None"
  using assms by (auto simp: scheduler_Stop_def scheduler_Start_def split: if_splits)

text \<open>
  a webhook function is called only for an authenticated request. With a secret, whatever the
  request, a registered function is called exactly when the method is POST, the signature header is
  the hexadecimal HMAC of the first mebibyte of the body under the secret, and that part decodes to a
  payload whose event is registered; then it gets this payload. Without a call the status is neither
  200 nor 500.
\<close>

theorem webhook_calls_authenticated:
  assumes "wh_secret wh \<noteq> []"
  shows "(snd (webhook_ServeHTTP hmac unmarshal wh r) = Some payload \<longleftrightarrow>
      wr_method r = ''POST'' \<and> (\<exists>whole. wr_body r = Inr whole
        \<and> wr_signature r \<noteq> [] \<and> wr_signature r = hex_encode (hmac (wh_secret wh) (take max_webhook_body whole))
        \<and> unmarshal (take max_webhook_body whole) = Some payload \<and> wp_event payload \<in> dom (wh_handlers wh)))
    \<and> (snd (webhook_ServeHTTP hmac unmarshal wh r) = None \<longleftrightarrow> fst (fst (webhook_ServeHTTP hmac unmarshal wh r)) \<notin> {200, 500})"
  using assms
  by (auto simp: webhook_ServeHTTP_def webhook_verifySignature_def Let_def eq_commute [of "[]"] split: sum.splits option.splits if_splits)

definition demo_webhook :: webhook_handler where
  "demo_webhook = webhook_On ''push'' (\<lambda>p. None) (NewWebhookHandler ''k'')"

theorem webhook_calls_authenticated_witness:
  "snd (webhook_ServeHTTP (\<lambda>k b. k @ b) (\<lambda>b. Some \<lparr>wp_event = ''push'', wp_source = [], wp_payload = b\<rparr>) demo_webhook
     \<lparr>wr_method = ''POST'', wr_body = Inr ''x'', wr_signature = hex_encode ''kx''\<rparr>) = Some \<lparr>wp_event = ''push'', wp_source = [], wp_payload = ''x''\<rparr>"
proof -
  have s: "wh_secret demo_webhook = ''k''" "''push'' \<in> dom (wh_handlers demo_webhook)"
    by (simp_all add: demo_webhook_def webhook_On_def NewWebhookHandler_def)
  have t: "take max_webhook_body ''x'' = ''x''" by (simp add: max_webhook_body_def)
  show ?thesis
    using webhook_calls_authenticated [of demo_webhook "\<lambda>k b. k @ b" "\<lambda>b. Some \<lparr>wp_event = ''push'', wp_source = [], wp_payload = b\<rparr>"
        "\<lparr>wr_method = ''POST'', wr_body = Inr ''x'', wr_signature = hex_encode ''kx''\<rparr>" "\<lparr>wp_event = ''push'', wp_source = [], wp_payload = ''x''\<rparr>"]
    by (simp add: s t)
qed

end
