(* ===== verification/Config.thy ===== *)
theory Config
  imports Sandbox_Policy Mcp_Manager Config_Defaults Verification_Gates
begin

section \<open>Configuration (\<^verbatim>\<open>pkg/config/config.go\<close>)\<close>

text \<open>
  The configuration record, its defaults and loading it from a file. Decoding the TOML text over
  the defaults is an argument, as are the environment variables and what reading the file gives. The
  package variable \<open>current\<close> is passed as state.
\<close>

subsection \<open>The record\<close>

record gateway_config =
  gw_bind :: string
  gw_port :: int
  gw_auth_token :: string

record retry_config =
  rc_max_attempts :: int
  rc_strategies :: "string list"
  rc_cooldown_ms :: int

record checkpoint_config =
  cc_enabled :: bool
  cc_token_threshold :: int
  cc_retention_hours :: int

record verification_config =
  vc_enabled :: bool
  vc_threshold :: rat
  vc_max_attempts :: int
  vc_gates :: "string list"

record agent_config =
  ag_model :: string
  ag_api_key_env :: string
  ag_base_url :: string
  ag_fallback_models :: "string list"
  ag_max_context_tokens :: int
  ag_max_tool_iterations :: int
  ag_tool_approval :: string
  ag_system_prompt :: string
  ag_tool_concurrency :: int
  ag_tool_timeout :: string
  ag_auth_header :: string
  ag_retry :: retry_config
  ag_checkpoint :: checkpoint_config
  ag_verification :: verification_config

record channel_config =
  chan_enabled :: bool
  chan_token :: string
  chan_token_env :: string
  chan_allow_list :: "string list"

record sandbox_config =
  sbx_mode :: string
  sbx_network :: string
  sbx_max_timeout :: string
  sbx_allowed_paths :: "string list"
  sbx_read_only_paths :: "string list"

record memory_config =
  mem_immutable_keys :: "string list"
  mem_max_versions :: int
  mem_vector_search :: bool

record skills_config =
  skills_dir :: string
  skills_allow_unsigned :: bool

record a2a_config =
  a2ac_enabled :: bool
  a2ac_token :: string
  a2ac_url :: string

record browser_config =
  br_enabled :: bool
  br_headless :: bool
  br_idle_timeout :: string

record config =
  co_gateway :: gateway_config
  co_agent :: agent_config
  co_channels :: "string \<rightharpoonup> channel_config"
  co_sandbox :: sandbox_config
  co_memory :: memory_config
  co_store_driver :: string
  co_store_dsn :: string
  co_log_level :: string
  co_log_format :: string
  co_tracing :: "bool \<times> string"
  co_skills :: skills_config
  co_master_key_env :: string
  co_soul_path :: string
  co_mcp_enabled :: bool
  co_mcp_servers :: "server_entry list"
  co_a2a :: a2a_config
  co_browser :: browser_config

subsection \<open>Defaults\<close>

definition DataDir :: "(string \<Rightarrow> string) \<Rightarrow> string" where
  "DataDir getenv = (let dir = getenv ''PINCER_DATA_DIR'' in if dir \<noteq> [] then dir else ''.pincer'')"

definition DefaultConfigPath :: "(string \<Rightarrow> string) \<Rightarrow> string" where
  "DefaultConfigPath getenv = path_Join (DataDir getenv) ''pincer.toml''"

definition config_Default :: "(string \<Rightarrow> string) \<Rightarrow> config" where
  "config_Default getenv =
     \<lparr>co_gateway = \<lparr>gw_bind = ''loopback'', gw_port = 18789, gw_auth_token = []\<rparr>,
      co_agent = \<lparr>ag_model = ''claude-sonnet-4-20250514'', ag_api_key_env = [], ag_base_url = [], ag_fallback_models = [],
        ag_max_context_tokens = 128000, ag_max_tool_iterations = 25, ag_tool_approval = ''ask'', ag_system_prompt = [],
        ag_tool_concurrency = 0, ag_tool_timeout = [], ag_auth_header = [],
        ag_retry = \<lparr>rc_max_attempts = 3, rc_strategies = [''tool_swap'', ''decompose'', ''rephrase''], rc_cooldown_ms = 500\<rparr>,
        ag_checkpoint = \<lparr>cc_enabled = False, cc_token_threshold = 10000, cc_retention_hours = 24\<rparr>,
        ag_verification = \<lparr>vc_enabled = False, vc_threshold = 8 / 10, vc_max_attempts = 2, vc_gates = [''llm_self_check'']\<rparr>\<rparr>,
      co_channels = Map.empty,
      co_sandbox = \<lparr>sbx_mode = ''process'', sbx_network = ''deny'', sbx_max_timeout = ''5m'', sbx_allowed_paths = [], sbx_read_only_paths = []\<rparr>,
      co_memory = \<lparr>mem_immutable_keys = [''identity'', ''core_values''], mem_max_versions = 100, mem_vector_search = False\<rparr>,
      co_store_driver = ''sqlite'', co_store_dsn = path_Join (DataDir getenv) ''pincer.db'',
      co_log_level = ''info'', co_log_format = ''json'', co_tracing = (False, []),
      co_skills = \<lparr>skills_dir = [], skills_allow_unsigned = False\<rparr>,
      co_master_key_env = [], co_soul_path = [], co_mcp_enabled = False, co_mcp_servers = [],
      co_a2a = \<lparr>a2ac_enabled = False, a2ac_token = [], a2ac_url = []\<rparr>,
      co_browser = \<lparr>br_enabled = False, br_headless = True, br_idle_timeout = ''10m''\<rparr>\<rparr>"

subsection \<open>Loading\<close>

datatype config_file = ConfigMissing | ConfigUnreadable go_error | ConfigData string

text \<open>The paths that are filled in after decoding.\<close>

definition fill_paths :: "(string \<Rightarrow> string) \<Rightarrow> config \<Rightarrow> config" where
  "fill_paths getenv cfg =
     (let c1 = (if co_store_dsn cfg = [] then cfg\<lparr>co_store_dsn := path_Join (DataDir getenv) ''pincer.db''\<rparr> else cfg);
          c2 = (if co_soul_path c1 = [] then c1\<lparr>co_soul_path := path_Join (DataDir getenv) ''soul.toml''\<rparr> else c1)
      in (if skills_dir (co_skills c2) = [] then c2\<lparr>co_skills := (co_skills c2)\<lparr>skills_dir := path_Join (DataDir getenv) ''skills''\<rparr>\<rparr> else c2))"

definition config_Load :: "(string \<Rightarrow> string) \<Rightarrow> (string \<Rightarrow> config \<Rightarrow> go_error + config) \<Rightarrow> config_file \<Rightarrow> config option \<Rightarrow>
    (go_error + config) \<times> config option" where
  "config_Load getenv unmarshal file current =
     (let cfg = config_Default getenv in
      case file of
        ConfigMissing \<Rightarrow> (Inr cfg, current)
      | ConfigUnreadable err \<Rightarrow> (Inl (ErrWrap ''reading config file: '' err), current)
      | ConfigData data \<Rightarrow>
          (case unmarshal data cfg of
             Inl err \<Rightarrow> (Inl (ErrWrap ''parsing config file: '' err), current)
           | Inr c \<Rightarrow> (let c' = fill_paths getenv c in (Inr c', Some c'))))"

definition config_Current :: "(string \<Rightarrow> string) \<Rightarrow> config option \<Rightarrow> config" where
  "config_Current getenv current = (case current of None \<Rightarrow> config_Default getenv | Some c \<Rightarrow> c)"

subsection \<open>Saving\<close>

text \<open>
  The directory and the file are made by the operating system, whose failures are arguments. The encoder gives what it has
  written and its failure; the file has been emptied by then.
\<close>

type_synonym file_texts = "string \<rightharpoonup> string"

definition EnsureDataDir :: "(string \<Rightarrow> string) \<Rightarrow> (string \<Rightarrow> int \<Rightarrow> go_error option) \<Rightarrow> go_error option" where
  "EnsureDataDir getenv mkdirAll = mkdirAll (DataDir getenv) 448"

definition config_Save :: "(string \<Rightarrow> go_error option) \<Rightarrow> (config \<Rightarrow> string \<times> go_error option) \<Rightarrow> config \<Rightarrow> string \<Rightarrow> file_texts \<Rightarrow>
    go_error option \<times> file_texts" where
  "config_Save create encode cfg path fs =
     (case create path of
        Some err \<Rightarrow> (Some (ErrWrap ''creating config file: '' err), fs)
      | None \<Rightarrow> (case encode cfg of (written, failed) \<Rightarrow>
          (map_option (ErrWrap ''encoding config: '') failed, fs(path \<mapsto> written))))"

definition read_config :: "file_texts \<Rightarrow> string \<Rightarrow> config_file" where
  "read_config fs path = (case fs path of None \<Rightarrow> ConfigMissing | Some d \<Rightarrow> ConfigData d)"

subsection \<open>Lemmas\<close>

lemma clean_comps_nonempty: "[] \<notin> set acc \<Longrightarrow> [] \<notin> set (clean_comps r acc cs)"
  by (induction r acc cs rule: clean_comps.induct) (auto split: list.splits)

lemma Join_empty: "Join cs sep = [] \<Longrightarrow> [] \<notin> set cs \<Longrightarrow> cs = []"
  by (induction cs sep rule: Join.induct) auto

lemma Clean_nonempty: "Clean p \<noteq> []"
  using clean_comps_nonempty [of "[]" False "split_slash p"] Join_empty [of "rev (clean_comps False [] (split_slash p))" "[slash]"]
  by (auto simp: Clean_def abs_path_def Let_def)

lemma path_Join_nonempty: "n \<noteq> [] \<Longrightarrow> path_Join d n \<noteq> []"
  by (auto simp: path_Join_def Clean_nonempty)

text \<open>
  A loaded file always names its database, soul and skills; without a file the soul and the skills directory
  stay empty, so the defaults there are not the defaults of a file with no entries.
\<close>

lemma fill_paths_set:
  "co_store_dsn (fill_paths getenv c) \<noteq> [] \<and> co_soul_path (fill_paths getenv c) \<noteq> [] \<and> skills_dir (co_skills (fill_paths getenv c)) \<noteq> []"
  by (auto simp: fill_paths_def Let_def path_Join_nonempty)

lemma missing_file_differs:
  assumes "unmarshal [] (config_Default getenv) = Inr (config_Default getenv)"
  shows "fst (config_Load getenv unmarshal ConfigMissing cur) \<noteq> fst (config_Load getenv unmarshal (ConfigData []) cur)"
  using fill_paths_set [of getenv "config_Default getenv"] assms
  by (auto simp: config_Load_def Let_def config_Default_def)

text \<open>
  Saving and loading: where the codec reads back what it wrote, the loaded configuration is the saved one with its paths
  filled in, and it becomes the current one. A failed encoding has destroyed the previous file.
\<close>

lemma Save_Load:
  assumes "config_Save create encode cfg path fs = (None, fs')" "unmarshal (fst (encode cfg)) (config_Default getenv) = Inr cfg"
  shows "config_Load getenv unmarshal (read_config fs' path) cur = (Inr (fill_paths getenv cfg), Some (fill_paths getenv cfg))"
  using assms by (auto simp: config_Save_def config_Load_def read_config_def Let_def split: option.splits prod.splits)

lemma Save_failure_destroys:
  assumes "create path = None" "encode cfg = (written, Some err)"
  shows "config_Save create encode cfg path fs = (Some (ErrWrap ''encoding config: '' err), fs(path \<mapsto> written))"
  using assms by (simp add: config_Save_def)

end
