(* ===== verification/Container_Sandbox.thy ===== *)
theory Container_Sandbox
  imports Sandbox_Policy
begin

section \<open>The container sandbox (\<^verbatim>\<open>pkg/sandbox/container.go\<close>)\<close>

text \<open>
  A command runs in a fresh container of the first runtime found. Looking up a program on the path
  and how the started process ends are arguments; the arguments of the runtime's command line are exact.
\<close>

record container =
  ct_runtime :: string
  ct_image :: string
  ct_workDir :: string

definition detectRuntime :: "(string \<Rightarrow> bool) \<Rightarrow> string" where
  "detectRuntime LookPath = (case find LookPath [''docker'', ''podman'', ''nerdctl''] of Some rt \<Rightarrow> rt | None \<Rightarrow> [])"

definition NewContainerSandbox :: "(string \<Rightarrow> bool) \<Rightarrow> container \<Rightarrow> go_error + container" where
  "NewContainerSandbox LookPath cfg =
     (let runtime = (if ct_runtime cfg = [] then detectRuntime LookPath else ct_runtime cfg) in
      if runtime = [] then Inl (ErrText ''sandbox: no container runtime found (install docker, podman, or nerdctl)'')
      else Inr \<lparr>ct_runtime = runtime, ct_image = (if ct_image cfg = [] then ''alpine:latest'' else ct_image cfg), ct_workDir = ct_workDir cfg\<rparr>)"

definition container_workDir :: "container \<Rightarrow> command \<Rightarrow> string" where
  "container_workDir s cmd = (if WorkDir cmd = [] then ct_workDir s else WorkDir cmd)"

definition buildRunArgs :: "container \<Rightarrow> command \<Rightarrow> policy \<Rightarrow> string list" where
  "buildRunArgs s cmd pol =
     [''run'', ''--rm'', ''--read-only'', ''--tmpfs'', ''/tmp:rw,noexec,nosuid,size=64m'', ''--memory'', ''256m'', ''--cpus'', ''1'', ''--pids-limit'', ''64'']
     @ (if NetworkAccess pol = NetworkDeny then [''--network'', ''none''] else [])
     @ (let workDir = container_workDir s cmd in if workDir \<noteq> [] then [''-v'', workDir @ '':/workspace:rw'', ''-w'', ''/workspace''] else [])
     @ concat (map (\<lambda>p. [''-v'', p @ '':'' @ p @ '':ro'']) (ReadOnlyPaths pol))
     @ concat (map (\<lambda>e. [''-e'', e]) (cmd_Env cmd))
     @ [ct_image s]"

text \<open>\<^verbatim>\<open>Exec\<close>: \<open>run\<close> starts the runtime with the arguments, input and time limit.\<close>

definition container_Exec :: "(duration \<Rightarrow> string) \<Rightarrow> (string \<Rightarrow> string list \<Rightarrow> string \<Rightarrow> duration \<Rightarrow> proc_run) \<Rightarrow> container \<Rightarrow> command \<Rightarrow> policy \<Rightarrow>
    go_error + exec_output" where
  "container_Exec show_dur run s cmd pol =
     (if Program cmd = [] then Inl (ErrText ''sandbox: empty program'')
      else
        (let timeout = (if sint (pol_Timeout pol) \<le> 0 then 30 * second else pol_Timeout pol);
             r = run (ct_runtime s) (buildRunArgs s cmd pol @ [Program cmd] @ Args cmd) (Stdin cmd) timeout;
             maxOut = (if MaxOutputBytes pol \<le> 0 then 1024 * 1024 else MaxOutputBytes pol);
             result = \<lparr>Stdout = sandbox_truncate (pr_stdout r) maxOut, Stderr = sandbox_truncate (pr_stderr r) maxOut,
                       ExitCode = 0, out_Duration = pr_time r, out_Error = []\<rparr>
         in case pr_end r of
              ProcOk \<Rightarrow> Inr result
            | ProcDeadline \<Rightarrow> Inr (result\<lparr>ExitCode := -1, out_Error := ''container execution timed out after '' @ show_dur timeout\<rparr>)
            | ProcExit code \<Rightarrow> Inr (result\<lparr>ExitCode := code\<rparr>)
            | ProcFail msg \<Rightarrow> Inr (result\<lparr>out_Error := msg, ExitCode := -1\<rparr>)))"

subsection \<open>Lemmas\<close>

text \<open>The allowed paths of the policy play no part, unlike in the process sandbox, and the work directory is mounted writable even if it is read-only.\<close>

lemma container_ignores_allowed_paths:
  "container_Exec show_dur run s cmd (pol\<lparr>AllowedPaths := ps\<rparr>) = container_Exec show_dur run s cmd pol"
proof -
  have "buildRunArgs s cmd (pol\<lparr>AllowedPaths := ps\<rparr>) = buildRunArgs s cmd pol" by (simp add: buildRunArgs_def)
  then show ?thesis by (simp add: container_Exec_def)
qed

lemma container_workdir_writable:
  "container_workDir s cmd \<noteq> [] \<Longrightarrow> (container_workDir s cmd @ '':/workspace:rw'') \<in> set (buildRunArgs s cmd pol)"
  by (simp add: buildRunArgs_def Let_def)

lemma container_network: "NetworkAccess pol = NetworkDeny \<longleftrightarrow> take 2 (drop 11 (buildRunArgs s cmd pol)) = [''--network'', ''none'']"
  by (cases "NetworkAccess pol"; cases "ReadOnlyPaths pol"; cases "cmd_Env cmd") (simp_all add: buildRunArgs_def Let_def)

end
