(* ===== verification/Startup.thy ===== *)
theory Startup
  imports Config Container_Sandbox Gemini_Provider Agent_Turn Soul Skills Channel_Router Scheduler Credentials A2A_Tasks
begin

section \<open>Start-up (\<^verbatim>\<open>cmd/pincer/start.go\<close>)\<close>

text \<open>
  How the parts are put together: which provider, sandbox, policy, tools, strategies and gates a configuration
  gives, and in which order things fail. Environment variables, files, clocks and the libraries behind
  the adapters are arguments, gathered in \<open>startup_io\<close>.
\<close>

subsection \<open>The provider\<close>

datatype provider =
    AnthropicProvider anthropic_provider
  | OpenAIProvider openai_provider
  | GeminiProvider string
  | OllamaProvider ollama_provider

definition provider_Name :: "provider \<Rightarrow> string" where
  "provider_Name p = (case p of AnthropicProvider _ \<Rightarrow> ''anthropic'' | OpenAIProvider _ \<Rightarrow> ''openai'' | GeminiProvider _ \<Rightarrow> ''gemini'' | OllamaProvider _ \<Rightarrow> ''ollama'')"

definition createProvider :: "(string \<Rightarrow> string) \<Rightarrow> config \<Rightarrow> go_error + provider" where
  "createProvider getenv cfg =
     (let model = ag_model (co_agent cfg); authHeader = ag_auth_header (co_agent cfg);
          anthropic = (case NewAnthropicProvider getenv (getenv (ag_api_key_env (co_agent cfg))) (ag_base_url (co_agent cfg)) authHeader of
            Inl err \<Rightarrow> Inl err | Inr p \<Rightarrow> Inr (AnthropicProvider p))
      in if HasPrefix model ''claude-'' then anthropic
         else if HasPrefix model ''gpt-'' \<or> HasPrefix model ''o3-'' \<or> HasPrefix model ''o4-''
         then (case NewOpenAIProvider getenv [] [] authHeader of Inl err \<Rightarrow> Inl err | Inr p \<Rightarrow> Inr (OpenAIProvider p))
         else if HasPrefix model ''gemini-''
         then (case NewGeminiProvider getenv [] of Inl err \<Rightarrow> Inl err | Inr p \<Rightarrow> Inr (GeminiProvider p))
         else if HasPrefix model ''ollama/''
         then (case NewOllamaProvider getenv [] (drop (length ''ollama/'') model) of Inl err \<Rightarrow> Inl err | Inr p \<Rightarrow> Inr (OllamaProvider p))
         else anthropic)"

subsection \<open>Sandbox and policy\<close>

datatype sandbox_kind = ProcessSandbox string | ContainerBox container

definition createSandbox :: "(string \<Rightarrow> string) \<Rightarrow> (string \<Rightarrow> bool) \<Rightarrow> config \<Rightarrow> go_error + sandbox_kind" where
  "createSandbox getenv LookPath cfg =
     (if sbx_mode (co_sandbox cfg) = ''container''
      then (case NewContainerSandbox LookPath \<lparr>ct_runtime = [], ct_image = [], ct_workDir = DataDir getenv\<rparr> of
        Inl err \<Rightarrow> Inl err | Inr c \<Rightarrow> Inr (ContainerBox c))
      else Inr (ProcessSandbox (DataDir getenv)))"

definition buildDefaultPolicy :: "(string \<Rightarrow> go_error + duration) \<Rightarrow> config \<Rightarrow> policy" where
  "buildDefaultPolicy ParseDuration cfg =
     (let sc = co_sandbox cfg;
          p1 = (if sbx_max_timeout sc \<noteq> [] then (case ParseDuration (sbx_max_timeout sc) of Inr d \<Rightarrow> DefaultPolicy\<lparr>pol_Timeout := d\<rparr> | Inl _ \<Rightarrow> DefaultPolicy) else DefaultPolicy);
          p2 = (if sbx_network sc = ''allow'' then p1\<lparr>NetworkAccess := NetworkAllow\<rparr>
                else if sbx_network sc = ''allowlist'' then p1\<lparr>NetworkAccess := NetworkAllowList\<rparr>
                else if sbx_network sc = ''deny'' then p1\<lparr>NetworkAccess := NetworkDeny\<rparr> else p1)
      in p2\<lparr>AllowedPaths := sbx_allowed_paths sc, ReadOnlyPaths := sbx_read_only_paths sc\<rparr>)"

subsection \<open>Strategies and gates\<close>

definition retry_strategy :: "string \<Rightarrow> strategy list" where
  "retry_strategy name =
     (if name = ''tool_swap'' then [ToolSwap [(''http_request'', ''browser'')]]
      else if name = ''decompose'' then [Decompose 50]
      else if name = ''rephrase'' then [Rephrase] else [])"

definition buildRetryStrategies :: "retry_config \<Rightarrow> strategy list" where
  "buildRetryStrategies cfg = concat (map retry_strategy (rc_strategies cfg))"

definition build_verifier :: "(chat_request \<Rightarrow> go_error + chat_event list) \<Rightarrow> string \<Rightarrow> verification_config \<Rightarrow> gate_runner option" where
  "build_verifier chat model cfg =
     (let gs = concat (map (\<lambda>name. if name = ''llm_self_check'' then [LLMSelfCheckGate (Some (checker_Check chat model))] else []) (vc_gates cfg)) in
      if vc_enabled cfg \<and> gs \<noteq> []
      then Some \<lparr>gates = gs, confidenceThreshold = vc_threshold cfg, runner_maxAttempts = vc_max_attempts cfg\<rparr> else None)"

subsection \<open>Storage\<close>

text \<open>
  The databases and tables that are opened are arguments; the result is the cipher of the credential
  store, if there is a master key, and whether the database is left open.
\<close>

definition initStorage :: "(string \<Rightarrow> string) \<Rightarrow> go_error option \<Rightarrow> go_error option \<Rightarrow> (string \<Rightarrow> go_error + aead) \<Rightarrow> config \<Rightarrow>
    (go_error + aead option) \<times> bool" where
  "initStorage getenv open_err audit_err derive_cipher cfg =
     (case open_err of
        Some err \<Rightarrow> (Inl (ErrWrap ''opening store: '' err), False)
      | None \<Rightarrow> (case audit_err of
          Some err \<Rightarrow> (Inl (ErrWrap ''initializing audit logger: '' err), False)
        | None \<Rightarrow>
            (let masterKeyEnv = (if co_master_key_env cfg = [] then ''PINCER_MASTER_KEY'' else co_master_key_env cfg);
                 masterKey = getenv masterKeyEnv
             in if masterKey = [] then (Inr None, True)
                else (case cred_New derive_cipher masterKey of
                  Inl err \<Rightarrow> (Inl (ErrWrap ''initializing credential store: '' err), False)
                | Inr c \<Rightarrow> (Inr (Some c), True)))))"

subsection \<open>The agent\<close>

record startup_io =
  su_getenv :: "string \<Rightarrow> string"
  su_soul_file :: soul_file
  su_unmarshal_soul :: "string \<Rightarrow> soul \<Rightarrow> go_error + soul"
  su_hash :: "string \<Rightarrow> string"
  su_stmts :: "nat \<Rightarrow> stmt_env"
  su_crypto :: skill_crypto
  su_load_dir :: "string \<Rightarrow> go_error + skill list"
  su_log :: "nat \<Rightarrow> go_error option \<times> string \<times> timestamp"
  su_LookPath :: "string \<Rightarrow> bool"
  su_ParseDuration :: "string \<Rightarrow> go_error + duration"
  su_docs :: "string \<Rightarrow> string \<times> string"
  su_version :: string
  su_defaultPrompt :: string
  su_chat :: "provider \<Rightarrow> chat_request \<Rightarrow> go_error + chat_event list"

text \<open>A built-in tool: its name is fixed, its description and schema are texts of the program.\<close>

definition builtin_tool :: "startup_io \<Rightarrow> string \<Rightarrow> tool" where
  "builtin_tool io name = \<lparr>Definition = \<lparr>td_name = name, td_description = fst (su_docs io name), td_input_schema = snd (su_docs io name)\<rparr>,
     produces_images = (name = ''browser'')\<rparr>"

definition DefaultRegistry :: "startup_io \<Rightarrow> registry" where
  "DefaultRegistry io = fold (\<lambda>n. Register (builtin_tool io n)) [''shell'', ''file_read'', ''file_write'', ''http_request''] NewRegistry"

definition start_registry :: "startup_io \<Rightarrow> bool \<Rightarrow> registry" where
  "start_registry io has_cred =
     (let r = Register (builtin_tool io ''soul'') (Register (builtin_tool io ''memory'') (DefaultRegistry io)) in
      if has_cred then Register (builtin_tool io ''credential'') r else r)"

definition start_engine :: "startup_io \<Rightarrow> config \<Rightarrow> (scan_result list \<times> go_error option) \<times> skill_engine" where
  "start_engine io cfg =
     LoadAll (su_crypto io) (su_load_dir io) (NewEngine (skills_dir (co_skills cfg)) [] (skills_allow_unsigned (co_skills cfg)))"

definition start_prompt :: "config \<Rightarrow> soul \<Rightarrow> skill list \<Rightarrow> string" where
  "start_prompt cfg s skills =
     Render s @ (if ag_system_prompt (co_agent cfg) \<noteq> [] then nl @ ag_system_prompt (co_agent cfg) else [])
     @ concat (map (\<lambda>sk. if sk_prompt sk \<noteq> [] then nl @ nl @ sk_prompt sk else []) skills)"

definition start_tool_timeout :: "(string \<Rightarrow> go_error + duration) \<Rightarrow> config \<Rightarrow> duration" where
  "start_tool_timeout ParseDuration cfg =
     (if ag_tool_timeout (co_agent cfg) \<noteq> [] then (case ParseDuration (ag_tool_timeout (co_agent cfg)) of Inr d \<Rightarrow> d | Inl _ \<Rightarrow> DefaultToolTimeout)
      else DefaultToolTimeout)"

definition start_concurrency :: "config \<Rightarrow> int" where
  "start_concurrency cfg = (if ag_tool_concurrency (co_agent cfg) > 0 then ag_tool_concurrency (co_agent cfg) else DefaultToolConcurrency)"

definition EventSkillLoad :: string where "EventSkillLoad = ''skill_load''"
definition EventConfigChg :: string where "EventConfigChg = ''config_change''"

definition start_log :: "startup_io \<Rightarrow> string \<Rightarrow> string \<Rightarrow> audit_table \<Rightarrow> audit_table" where
  "start_log io event detail t =
     (let (fault, i, now) = su_log io (length t) in snd (audit_Log fault i now event [] [] ''system'' (DetailString detail) t))"

definition log_skill :: "startup_io \<Rightarrow> scan_result \<Rightarrow> audit_table \<Rightarrow> audit_table" where
  "log_skill io r = start_log io EventSkillLoad (''skill='' @ sr_skill r @ '' safe='' @ (if sr_safe r then ''true'' else ''false'') @
     '' findings='' @ nat_to_dec (length (sr_findings r)))"

record started_agent =
  sa_runtime :: runtime
  sa_builder :: context_builder
  sa_provider :: provider
  sa_sandbox :: sandbox_kind
  sa_soul :: soul
  sa_concurrency :: nat
  sa_tool_timeout :: duration

definition initAgent :: "startup_io \<Rightarrow> runtime \<Rightarrow> config \<Rightarrow> bool \<Rightarrow> mem_table \<Rightarrow> audit_table \<Rightarrow>
    (go_error + started_agent) \<times> mem_table \<times> audit_table" where
  "initAgent io base cfg has_cred mem audit =
     (case soul_Load (su_unmarshal_soul io) (co_soul_path cfg) (su_soul_file io) of
        Inl err \<Rightarrow> (Inl (ErrWrap ''loading soul: '' err), mem, audit)
      | Inr soulDef \<Rightarrow>
          (let mem1 = snd (SeedMemory (su_hash io) (set (mem_immutable_keys (co_memory cfg))) ''default'' (su_stmts io) 0 (so_seeds soulDef) mem) in
           case createProvider (su_getenv io) cfg of
             Inl err \<Rightarrow> (Inl (ErrWrap ''creating LLM provider: '' err), mem1, audit)
           | Inr p \<Rightarrow>
               (case createSandbox (su_getenv io) (su_LookPath io) cfg of
                  Inl err \<Rightarrow> (Inl (ErrWrap ''creating sandbox: '' err), mem1, audit)
                | Inr sb \<Rightarrow>
                    (let ((results, _), engine) = start_engine io cfg;
                         audit1 = fold (log_skill io) results audit;
                         ac = co_agent cfg;
                         rc = \<lparr>cfg_Model = ag_model ac, cfg_MaxTokens = ag_max_context_tokens ac, cfg_MaxOutputTokens = 0,
                               cfg_MaxToolIterations = ag_max_tool_iterations ac, cfg_SystemPrompt = start_prompt cfg soulDef (engine_List engine),
                               cfg_Recovery = Some \<lparr>MaxRetries = DefaultRecoveryRetries, BaseDelay = RecoveryBaseDelay, MaxDelay = RecoveryMaxDelay\<rparr>\<rparr>;
                         (rt, cb) = NewRuntime (su_defaultPrompt io)
                           (base\<lparr>rt_tools := \<lparr>tp_approver = Some (NewApprover (ag_tool_approval ac)), tp_registry = Some (start_registry io has_cred),
                                               tp_policy = buildDefaultPolicy (su_ParseDuration io) cfg\<rparr>,
                                 rt_supports_tools := True, rt_has_memory := True, rt_has_audit := True,
                                 rt_strategies := buildRetryStrategies (ag_retry ac),
                                 rt_cooldown := word_of_int (rc_cooldown_ms (ag_retry ac)) * 1000000,
                                 rt_checkpoint := (if cc_enabled (ag_checkpoint ac) then Some (cc_token_threshold (ag_checkpoint ac)) else None),
                                 rt_verifier := build_verifier (su_chat io p) (ag_model ac) (ag_verification ac)\<rparr>) rc
                     in (Inr \<lparr>sa_runtime = rt, sa_builder = cb, sa_provider = p, sa_sandbox = sb, sa_soul = soulDef,
                              sa_concurrency = executor_new (start_concurrency cfg),
                              sa_tool_timeout = (if start_tool_timeout (su_ParseDuration io) cfg = 0 then DefaultToolTimeout else start_tool_timeout (su_ParseDuration io) cfg)\<rparr>,
                         mem1, start_log io EventConfigChg (''pincer started version='' @ su_version io @ '' provider='' @ provider_Name p @
                           '' sandbox='' @ sbx_mode (co_sandbox cfg)) audit1)))))"

subsection \<open>Channel adapters\<close>

definition channelEnabled :: "config \<Rightarrow> string \<Rightarrow> bool" where
  "channelEnabled cfg name = (case co_channels cfg name of Some ch \<Rightarrow> chan_enabled ch | None \<Rightarrow> False)"

definition channelToken :: "(string \<Rightarrow> string) \<Rightarrow> config \<Rightarrow> string \<Rightarrow> string" where
  "channelToken getenv cfg name =
     (case co_channels cfg name of
        None \<Rightarrow> []
      | Some ch \<Rightarrow> if chan_token ch \<noteq> [] then chan_token ch else if chan_token_env ch \<noteq> [] then getenv (chan_token_env ch) else [])"

text \<open>What an adapter is created from; the constructors themselves are an argument.\<close>

datatype adapter_args = TelegramArgs string | DiscordArgs string | SlackArgs string string | WhatsAppArgs string "string list" | MatrixArgs

record adapter_entry =
  ade_name :: string
  ade_envVar :: string
  ade_create :: adapter_args

definition adapter_entries :: "(string \<Rightarrow> string) \<Rightarrow> config \<Rightarrow> adapter_entry list" where
  "adapter_entries getenv cfg =
     [\<lparr>ade_name = ''telegram'', ade_envVar = ''TELEGRAM_BOT_TOKEN'', ade_create = TelegramArgs (channelToken getenv cfg ''telegram'')\<rparr>,
      \<lparr>ade_name = ''discord'', ade_envVar = ''DISCORD_BOT_TOKEN'', ade_create = DiscordArgs (channelToken getenv cfg ''discord'')\<rparr>,
      \<lparr>ade_name = ''slack'', ade_envVar = ''SLACK_BOT_TOKEN'', ade_create = SlackArgs (channelToken getenv cfg ''slack'') (getenv ''SLACK_APP_TOKEN'')\<rparr>,
      \<lparr>ade_name = ''whatsapp'', ade_envVar = ''WHATSAPP_DB_PATH'', ade_create = WhatsAppArgs []
        (case co_channels cfg ''whatsapp'' of Some ch \<Rightarrow> chan_allow_list ch | None \<Rightarrow> [])\<rparr>,
      \<lparr>ade_name = ''matrix'', ade_envVar = ''MATRIX_HOMESERVER'', ade_create = MatrixArgs\<rparr>]"

fun init_adapters :: "(string \<Rightarrow> string) \<Rightarrow> (adapter_args \<Rightarrow> go_error + adapter) \<Rightarrow> (adapter \<Rightarrow> go_error option) \<Rightarrow> config \<Rightarrow>
    adapter_entry list \<Rightarrow> adapter list" where
  "init_adapters getenv new start cfg [] = []"
| "init_adapters getenv new start cfg (e # es) =
     (if \<not> channelEnabled cfg (ade_name e) \<and> getenv (ade_envVar e) = [] then init_adapters getenv new start cfg es
      else (case new (ade_create e) of
        Inl err \<Rightarrow> init_adapters getenv new start cfg es
      | Inr a \<Rightarrow> (case start a of
          Some err \<Rightarrow> init_adapters getenv new start cfg es
        | None \<Rightarrow> a # init_adapters getenv new start cfg es)))"

definition initChannelAdapters :: "(string \<Rightarrow> string) \<Rightarrow> (adapter_args \<Rightarrow> go_error + adapter) \<Rightarrow> (adapter \<Rightarrow> go_error option) \<Rightarrow> config \<Rightarrow> adapter list" where
  "initChannelAdapters getenv new start cfg = init_adapters getenv new start cfg (adapter_entries getenv cfg)"

subsection \<open>The agent card\<close>

record agent_card =
  card_name :: string
  card_description :: string
  card_url :: string
  card_version :: string
  card_streaming :: bool
  card_skills :: "(string \<times> string \<times> string) list"

definition buildAgentCard :: "string \<Rightarrow> config \<Rightarrow> registry \<Rightarrow> soul \<Rightarrow> agent_card" where
  "buildAgentCard version cfg reg soulDef =
     \<lparr>card_name = id_name (so_identity soulDef), card_description = id_role (so_identity soulDef),
      card_url = (if a2ac_url (co_a2a cfg) = [] then ''http://127.0.0.1:'' @ int_to_dec (gw_port (co_gateway cfg)) else a2ac_url (co_a2a cfg)),
      card_version = version, card_streaming = True,
      card_skills = map (\<lambda>def. (td_name def, td_name def, td_description def)) (Definitions reg)\<rparr>"

subsection \<open>The whole start-up\<close>

text \<open>The faults and services of the steps of \<^verbatim>\<open>runStart\<close> outside the agent itself.\<close>

record run_io =
  ru_file :: config_file
  ru_unmarshal :: "string \<Rightarrow> config \<Rightarrow> go_error + config"
  ru_mkdir :: "go_error option"
  ru_tracer :: "go_error option"
  ru_open :: "go_error option"
  ru_audit :: "go_error option"
  ru_derive :: "string \<Rightarrow> go_error + aead"
  ru_mcp :: "string \<Rightarrow> start_env"
  ru_webchat :: "go_error option"
  ru_new_adapter :: "adapter_args \<Rightarrow> go_error + adapter"
  ru_start_adapter :: "adapter \<Rightarrow> go_error option"
  ru_now :: timestamp

record started =
  sd_config :: config
  sd_agent :: started_agent
  sd_registry :: registry
  sd_cipher :: "aead option"
  sd_mcp :: "manager option"
  sd_webhooks :: webhook_handler
  sd_jobs :: "job_entry list"
  sd_idle_timeout :: "duration option"
  sd_router :: "router option"
  sd_card :: "agent_card option"
  sd_a2a :: "a2a option"

text \<open>The registry is shared: a tool that is registered later is seen by the runtime that holds it.\<close>

definition with_registry :: "registry \<Rightarrow> runtime \<Rightarrow> runtime" where
  "with_registry reg rt = rt\<lparr>rt_tools := (rt_tools rt)\<lparr>tp_registry := Some reg\<rparr>\<rparr>"

definition browser_idle :: "(string \<Rightarrow> go_error + duration) \<Rightarrow> config \<Rightarrow> duration" where
  "browser_idle ParseDuration cfg =
     (if br_idle_timeout (co_browser cfg) \<noteq> [] then (case ParseDuration (br_idle_timeout (co_browser cfg)) of Inr d \<Rightarrow> d | Inl _ \<Rightarrow> 10 * minute) else 10 * minute)"

definition late_tools :: "startup_io \<Rightarrow> config \<Rightarrow> bool \<Rightarrow> registry \<Rightarrow> registry" where
  "late_tools io cfg has_adapters reg =
     (let r1 = Register (builtin_tool io ''subagent'') reg;
          r2 = (if br_enabled (co_browser cfg) then Register (builtin_tool io ''browser'') r1 else r1)
      in if has_adapters then Register (builtin_tool io ''spawn'') (Register (builtin_tool io ''notify'') r2) else r2)"

text \<open>The steps after the agent: external tools, webhooks, jobs, adapters and the services that hold the registry.\<close>

definition start_services :: "startup_io \<Rightarrow> run_io \<Rightarrow> world \<Rightarrow> config \<Rightarrow> aead option \<Rightarrow> started_agent \<Rightarrow> audit_table \<Rightarrow> go_error + started" where
  "start_services io ru w cfg cipher ag audit1 =
     (let reg0 = the (tp_registry (rt_tools (sa_runtime ag)));
          mcp = initMCPServers (co_mcp_enabled cfg) (ru_mcp ru) (co_mcp_servers cfg) reg0 audit1;
          reg1 = (case mcp of Some m \<Rightarrow> ms_reg m | None \<Rightarrow> reg0);
          audit2 = (case mcp of Some m \<Rightarrow> ms_audit m | None \<Rightarrow> audit1);
          parse = (\<lambda>s. case su_ParseDuration io s of Inl err \<Rightarrow> Inl err | Inr d \<Rightarrow> Inr (sint d));
          jobs = (if cc_enabled (ag_checkpoint (co_agent cfg)) then snd (scheduler_Add parse (ru_now ru) ''checkpoint-gc'' ''@daily'' []) else [])
      in case ru_webchat ru of
        Some err \<Rightarrow> Inl (ErrWrap ''starting webchat adapter: '' err)
      | None \<Rightarrow>
          (let adapters = initChannelAdapters (su_getenv io) (ru_new_adapter ru) (ru_start_adapter ru) cfg;
               reg = late_tools io cfg (adapters \<noteq> []) reg1;
               w1 = w\<lparr>w_audit := audit2, w_builder := Some (sa_builder ag)\<rparr>
           in Inr \<lparr>sd_config = cfg, sd_agent = ag\<lparr>sa_runtime := with_registry reg (sa_runtime ag)\<rparr>, sd_registry = reg, sd_cipher = cipher,
                sd_mcp = map_option ms_mgr mcp, sd_webhooks = NewWebhookHandler (su_getenv io ''PINCER_WEBHOOK_SECRET''), sd_jobs = jobs,
                sd_idle_timeout = (if br_enabled (co_browser cfg) then Some (browser_idle (su_ParseDuration io) cfg) else None),
                sd_router = (if adapters \<noteq> [] then Some (NewChannelRouter adapters (NewApprover (ag_tool_approval (co_agent cfg))) True True w1) else None),
                sd_card = (if a2ac_enabled (co_a2a cfg) then Some (buildAgentCard (su_version io) cfg reg (sa_soul ag)) else None),
                sd_a2a = (if a2ac_enabled (co_a2a cfg) then Some \<lparr>a2a_store = NewTaskStore, a2a_world = w1, a2a_has_audit = True, a2a_token = a2ac_token (co_a2a cfg)\<rparr> else None)\<rparr>))"

definition runStart :: "startup_io \<Rightarrow> run_io \<Rightarrow> runtime \<Rightarrow> world \<Rightarrow> mem_table \<Rightarrow> go_error + started" where
  "runStart io ru base w mem =
     (case fst (config_Load (su_getenv io) (ru_unmarshal ru) (ru_file ru) None) of
        Inl err \<Rightarrow> Inl (ErrWrap ''loading config: '' err)
      | Inr cfg \<Rightarrow> (case ru_mkdir ru of
        Some err \<Rightarrow> Inl (ErrWrap ''creating data directory: '' err)
      | None \<Rightarrow> (case ru_tracer ru of
        Some err \<Rightarrow> Inl (ErrWrap ''initializing tracer: '' err)
      | None \<Rightarrow> (case fst (initStorage (su_getenv io) (ru_open ru) (ru_audit ru) (ru_derive ru) cfg) of
        Inl err \<Rightarrow> Inl err
      | Inr cipher \<Rightarrow> (case initAgent io base cfg (cipher \<noteq> None) mem (w_audit w) of
        (Inl err, _) \<Rightarrow> Inl err
      | (Inr ag, mem1, audit1) \<Rightarrow> start_services io ru w cfg cipher ag audit1)))))"

end
