(* ===== verification/Startup_Facts.thy ===== *)
theory Startup_Facts
  imports Startup
begin

section \<open>What a configuration gives\<close>

text \<open>
  The claims about the started program: which tools exist, under which policy they run, what the modes of approval
  mean for a whole turn, and which skills reach the prompt.
\<close>

lemma initAgent_ok:
  assumes "initAgent io base cfg has_cred mem audit = (Inr ag, rest)"
  shows "rt_tools (sa_runtime ag) = \<lparr>tp_approver = Some (NewApprover (ag_tool_approval (co_agent cfg))),
      tp_registry = Some (start_registry io has_cred), tp_policy = buildDefaultPolicy (su_ParseDuration io) cfg\<rparr>"
    and "rt_model (sa_runtime ag) = ag_model (co_agent cfg)"
    and "createProvider (su_getenv io) cfg = Inr (sa_provider ag)"
    and "soul_Load (su_unmarshal_soul io) (co_soul_path cfg) (su_soul_file io) = Inr (sa_soul ag)"
    and "rt_systemPrompt (sa_runtime ag) = (let p = start_prompt cfg (sa_soul ag) (engine_List (snd (start_engine io cfg))) in if p = [] then su_defaultPrompt io else p)"
  using assms by (auto simp: initAgent_def Let_def NewRuntime_def split: sum.splits prod.splits)

lemma start_services_ok:
  assumes "start_services io ru w cfg cipher ag audit1 = Inr s"
  shows "sd_config s = cfg" "sd_cipher s = cipher" "sd_agent s = ag\<lparr>sa_runtime := with_registry (sd_registry s) (sa_runtime ag)\<rparr>"
    "sd_registry s = late_tools io cfg (sd_router s \<noteq> None)
       (case initMCPServers (co_mcp_enabled cfg) (ru_mcp ru) (co_mcp_servers cfg) (the (tp_registry (rt_tools (sa_runtime ag)))) audit1 of
          Some m \<Rightarrow> ms_reg m | None \<Rightarrow> the (tp_registry (rt_tools (sa_runtime ag))))"
    "\<And>c. sd_card s = Some c \<Longrightarrow> c = buildAgentCard (su_version io) cfg (sd_registry s) (sa_soul ag)"
  using assms by (auto simp: start_services_def Let_def split: option.splits if_splits)

lemma runStart_ok:
  assumes "runStart io ru base w mem = Inr s"
  obtains ag rest audit1 where
    "initAgent io base (sd_config s) (sd_cipher s \<noteq> None) mem (w_audit w) = (Inr ag, rest)"
    "start_services io ru w (sd_config s) (sd_cipher s) ag audit1 = Inr s"
    "fst (config_Load (su_getenv io) (ru_unmarshal ru) (ru_file ru) None) = Inr (sd_config s)"
proof -
  from assms obtain cfg cipher ag mem1 audit1 where
    "initAgent io base cfg (cipher \<noteq> None) mem (w_audit w) = (Inr ag, mem1, audit1)"
    and s: "start_services io ru w cfg cipher ag audit1 = Inr s" "fst (config_Load (su_getenv io) (ru_unmarshal ru) (ru_file ru) None) = Inr cfg"
    by (auto simp: runStart_def split: sum.splits option.splits prod.splits)
  with start_services_ok(1,2) [OF s(1)] show thesis by (intro that [of ag "(mem1, audit1)" audit1]) simp_all
qed

subsection \<open>Tools\<close>

lemma Register_lookup: "map_of (Register t r) n = (if n = td_name (Definition t) then Some t else map_of r n)"
  by (simp add: Register_def)

lemma builtin_name [simp]: "td_name (Definition (builtin_tool io n)) = n"
  by (simp add: builtin_tool_def)

lemma mcp_tool_prefixed: "HasPrefix (td_name (Definition (NewMCPTool s t))) ''mcp_''"
  by (simp add: NewMCPTool_def ToolName_def)

lemma register_mcp_frame:
  assumes "\<not> HasPrefix n ''mcp_''"
  shows "map_of (fold (\<lambda>t. Register (NewMCPTool s t)) ts r) n = map_of r n"
proof (induction ts arbitrary: r)
  case (Cons t ts)
  have "n \<noteq> td_name (Definition (NewMCPTool s t))" using assms mcp_tool_prefixed by metis
  with Cons show ?case by (simp add: Register_lookup)
qed simp

lemma connect_servers_frame:
  "\<not> HasPrefix n ''mcp_'' \<Longrightarrow> map_of (ms_reg (connect_servers env es st)) n = map_of (ms_reg st) n"
proof (induction es arbitrary: st)
  case (Cons e es)
  then show ?case by (auto simp: Let_def register_mcp_frame split: prod.split sum.split)
qed simp

text \<open>The names of the built-in tools of a configuration.\<close>

definition builtin_names :: "bool \<Rightarrow> bool \<Rightarrow> bool \<Rightarrow> string list" where
  "builtin_names has_cred has_browser has_router =
     [''shell'', ''file_read'', ''file_write'', ''http_request'', ''memory'', ''soul'', ''subagent'']
     @ (if has_cred then [''credential''] else []) @ (if has_browser then [''browser''] else []) @ (if has_router then [''notify'', ''spawn''] else [])"


subsection \<open>Policy and approval\<close>

lemma policy_fields:
  "AllowedPaths (buildDefaultPolicy pd cfg) = sbx_allowed_paths (co_sandbox cfg)"
  "ReadOnlyPaths (buildDefaultPolicy pd cfg) = sbx_read_only_paths (co_sandbox cfg)"
  "RequireApproval (buildDefaultPolicy pd cfg)"
  "NetworkAccess (buildDefaultPolicy pd cfg) = NetworkDeny \<longleftrightarrow> sbx_network (co_sandbox cfg) \<notin> {''allow'', ''allowlist''}"
  "pol_Timeout (buildDefaultPolicy pd cfg) = 0 \<longleftrightarrow> sbx_max_timeout (co_sandbox cfg) \<noteq> [] \<and> pd (sbx_max_timeout (co_sandbox cfg)) = Inr 0"
  by (auto simp: buildDefaultPolicy_def Let_def DefaultPolicy_def second_def split: sum.split)

lemma started_runtime:
  assumes "runStart io ru base w mem = Inr s"
  shows "tp_policy (rt_tools (sa_runtime (sd_agent s))) = buildDefaultPolicy (su_ParseDuration io) (sd_config s)"
    "tp_approver (rt_tools (sa_runtime (sd_agent s))) = Some (NewApprover (ag_tool_approval (co_agent (sd_config s))))"
proof -
  from runStart_ok [OF assms(1)] obtain ag rest audit1 where
    ag: "initAgent io base (sd_config s) (sd_cipher s \<noteq> None) mem (w_audit w) = (Inr ag, rest)"
    and sv: "start_services io ru w (sd_config s) (sd_cipher s) ag audit1 = Inr s" by metis
  show "tp_policy (rt_tools (sa_runtime (sd_agent s))) = buildDefaultPolicy (su_ParseDuration io) (sd_config s)"
    "tp_approver (rt_tools (sa_runtime (sd_agent s))) = Some (NewApprover (ag_tool_approval (co_agent (sd_config s))))"
    using initAgent_ok(1) [OF ag] start_services_ok(3) [OF sv] by (simp_all add: with_registry_def)
qed


subsection \<open>Skills\<close>

lemma unsigned_refused: "\<not> signed_by cr [] sk"
  by (simp add: signed_by_def)

text \<open>
  Which skills reach the prompt: at start-up no key is trusted, so unless unsigned skills are allowed no skill is
  ever loaded, signed or not, and the prompt is the soul and the configured text alone; if they are
  allowed, every skill whose prompt is added passed the scan.
\<close>

lemma started_skills:
  assumes "initAgent io base cfg has_cred mem audit = (Inr ag, rest)"
  shows "\<exists>skills. rt_systemPrompt (sa_runtime ag) = (let p = start_prompt cfg (sa_soul ag) skills in if p = [] then su_defaultPrompt io else p)
      \<and> list_all clean_skill skills \<and> (\<not> skills_allow_unsigned (co_skills cfg) \<longrightarrow> skills = [])"
proof -
  let ?en = "NewEngine (skills_dir (co_skills cfg)) [] (skills_allow_unsigned (co_skills cfg))" and ?en' = "snd (start_engine io cfg)"
  have inv: "engine_inv (su_crypto io) ?en ?en'"
    by (rule engine_run_inv) (simp_all add: start_engine_def LoadAll_run engine_run.start NewEngine_def)
  have adm: "admitted (su_crypto io) [] (skills_allow_unsigned (co_skills cfg)) sk" if "sk \<in> set (engine_List ?en')" for sk
  proof -
    from that inv obtain n where "engine_Get ?en' n = Some sk"
      by (auto simp: engine_List_def engine_inv_def engine_Get_def gomap_ok_def intro: map_of_is_SomeI)
    with inv show ?thesis by (auto simp: engine_inv_def NewEngine_def)
  qed
  then have "list_all clean_skill (engine_List ?en')" "\<not> skills_allow_unsigned (co_skills cfg) \<longrightarrow> engine_List ?en' = []"
    by (auto simp: list_all_iff admitted_def unsigned_refused) (metis list.set_intros(1) neq_Nil_conv)
  with initAgent_ok(5) [OF assms] show ?thesis by blast
qed

subsection \<open>A start with the shell forbidden outside one directory\<close>

definition demo_io :: startup_io where
  "demo_io = \<lparr>su_getenv = (\<lambda>n. if n = ''ANTHROPIC_API_KEY'' then ''k'' else []), su_soul_file = SoulMissing,
     su_unmarshal_soul = (\<lambda>_ s. Inr s), su_hash = id, su_stmts = demo_stmt_env, su_crypto = demo_crypto, su_load_dir = (\<lambda>_. Inr [demo_skill]),
     su_log = (\<lambda>n. (None, nat_to_dec n, 0)), su_LookPath = (\<lambda>_. False), su_ParseDuration = (\<lambda>_. Inr minute),
     su_docs = (\<lambda>_. ([], ''{}'')), su_version = ''dev'', su_defaultPrompt = ''helpful'', su_chat = (\<lambda>_ _. Inl Canceled)\<rparr>"

definition demo_cfg :: config where
  "demo_cfg = (let c = fill_paths (su_getenv demo_io) (config_Default (su_getenv demo_io)) in
     c\<lparr>co_agent := (co_agent c)\<lparr>ag_tool_approval := ''deny''\<rparr>, co_sandbox := (co_sandbox c)\<lparr>sbx_allowed_paths := [''/w'']\<rparr>\<rparr>)"

definition demo_run :: run_io where
  "demo_run = \<lparr>ru_file = ConfigData ''x'', ru_unmarshal = (\<lambda>_ _. Inr demo_cfg), ru_mkdir = None, ru_tracer = None, ru_open = None, ru_audit = None,
     ru_derive = (\<lambda>_. Inl Canceled), ru_mcp = demo_start, ru_webchat = None, ru_new_adapter = (\<lambda>_. Inl Canceled), ru_start_adapter = (\<lambda>_. None), ru_now = 0\<rparr>"

lemma demo_load: "fst (config_Load (su_getenv demo_io) (ru_unmarshal demo_run) (ru_file demo_run) None) = Inr demo_cfg"
proof -
  have "co_store_dsn demo_cfg \<noteq> [] \<and> co_soul_path demo_cfg \<noteq> [] \<and> skills_dir (co_skills demo_cfg) \<noteq> []"
    using fill_paths_set [of "su_getenv demo_io" "config_Default (su_getenv demo_io)"] by (simp add: demo_cfg_def Let_def)
  then have "fill_paths g demo_cfg = demo_cfg" for g by (simp add: fill_paths_def Let_def)
  then show ?thesis by (simp add: config_Load_def demo_run_def Let_def)
qed

lemma demo_fields:
  "co_agent demo_cfg = (co_agent (config_Default (su_getenv demo_io)))\<lparr>ag_tool_approval := ''deny''\<rparr>"
  "co_sandbox demo_cfg = (co_sandbox (config_Default (su_getenv demo_io)))\<lparr>sbx_allowed_paths := [''/w'']\<rparr>"
  "co_mcp_enabled demo_cfg = False" "co_channels demo_cfg = Map.empty" "co_browser demo_cfg = co_browser (config_Default (su_getenv demo_io))"
  "co_master_key_env demo_cfg = []" "co_a2a demo_cfg = co_a2a (config_Default (su_getenv demo_io))" "skills_allow_unsigned (co_skills demo_cfg) = False"
  by (simp_all add: demo_cfg_def Let_def fill_paths_def config_Default_def)

lemma demo_agent: "\<exists>ag rest. initAgent demo_io demo_rt demo_cfg False [] [] = (Inr ag, rest)"
proof -
  have "createProvider (su_getenv demo_io) demo_cfg = Inr (AnthropicProvider \<lparr>ap_key = ''k'', ap_url = anthropicDefaultBaseURL, ap_auth_header = ''X-Api-Key''\<rparr>)"
    by (simp add: createProvider_def demo_fields config_Default_def NewAnthropicProvider_def anthropicDefaultBaseURL_def demo_io_def Let_def)
  moreover have "\<exists>sb. createSandbox (su_getenv demo_io) (su_LookPath demo_io) demo_cfg = Inr sb"
    by (simp add: createSandbox_def demo_fields config_Default_def)
  moreover have "soul_Load (su_unmarshal_soul demo_io) p (su_soul_file demo_io) = Inr soul_Default" for p by (simp add: soul_Load_def demo_io_def)
  ultimately show ?thesis by (auto simp: initAgent_def Let_def split: prod.split)
qed

lemma demo_started: "\<exists>s. runStart demo_io demo_run demo_rt demo_world [] = Inr s \<and> sd_config s = demo_cfg \<and> sd_cipher s = None \<and> sd_router s = None"
proof -
  obtain ag rest where ag: "initAgent demo_io demo_rt demo_cfg False [] [] = (Inr ag, rest)" using demo_agent by blast
  have "fst (initStorage (su_getenv demo_io) None None d demo_cfg) = Inr None" for d
    by (simp add: initStorage_def demo_fields demo_io_def)
  moreover have "w_audit demo_world = []" by (simp add: demo_world_def)
  moreover have "initChannelAdapters (su_getenv demo_io) (ru_new_adapter demo_run) (ru_start_adapter demo_run) demo_cfg = []"
    by (simp add: initChannelAdapters_def adapter_entries_def channelEnabled_def demo_fields demo_run_def)
  ultimately show ?thesis using ag demo_load
    by (cases rest) (simp add: runStart_def start_services_def Let_def demo_run_def)
qed



lemma started_skills_demo:
  "\<exists>ag rest. initAgent demo_io demo_rt demo_cfg False [] [] = (Inr ag, rest)
    \<and> rt_systemPrompt (sa_runtime ag) = (let p = start_prompt demo_cfg (sa_soul ag) [] in if p = [] then ''helpful'' else p)"
proof -
  obtain ag rest where ag: "initAgent demo_io demo_rt demo_cfg False [] [] = (Inr ag, rest)" using demo_agent by blast
  have h: "su_defaultPrompt demo_io = ''helpful''" by (simp add: demo_io_def)
  from started_skills [OF ag] ag h show ?thesis by (auto simp: demo_fields Let_def)
qed

subsection \<open>Providers\<close>

text \<open>
  The prefix that selects Ollama is dropped for the provider's own model but not for the runtime's, and a request
  of the agent names the runtime's model, which is what is sent.
\<close>

lemma ollama_prefix_sent:
  assumes "initAgent io base cfg has_cred mem audit = (Inr ag, rest)" "ag_model (co_agent cfg) = ''ollama/'' @ m"
    and "rq_model req = rt_model (sa_runtime ag)"
  shows "\<exists>p. sa_provider ag = OllamaProvider p \<and> ol_model p = (if m = [] then ''llama3'' else m)"
    and "or_model (openai_Chat_request opts (if rq_model req = [] then req\<lparr>rq_model := ol_model p\<rparr> else req)) = ''ollama/'' @ m"
proof -
  show "\<exists>p. sa_provider ag = OllamaProvider p \<and> ol_model p = (if m = [] then ''llama3'' else m)"
    using initAgent_ok(3) [OF assms(1)] assms(2)
    by (cases "sa_provider ag") (auto simp: createProvider_def Let_def NewOllamaProvider_def split: sum.splits if_splits)
  show "or_model (openai_Chat_request opts (if rq_model req = [] then req\<lparr>rq_model := ol_model p\<rparr> else req)) = ''ollama/'' @ m"
    using initAgent_ok(2) [OF assms(1)] assms(2,3) by (simp add: openai_Chat_request_def)
qed

text \<open>The configured key variable and address are used for Anthropic only.\<close>

lemma openai_ignores_config:
  "HasPrefix (ag_model (co_agent cfg)) ''gpt-'' \<Longrightarrow>
   createProvider getenv (cfg\<lparr>co_agent := (co_agent cfg)\<lparr>ag_api_key_env := e, ag_base_url := u\<rparr>\<rparr>) = createProvider getenv cfg"
  by (cases "ag_model (co_agent cfg)") (simp_all add: createProvider_def Let_def HasPrefix_def)

text \<open>The number of attempts in the configuration of retries reaches nothing.\<close>

lemma retry_attempts_ignored:
  "buildRetryStrategies (rc\<lparr>rc_max_attempts := n\<rparr>) = buildRetryStrategies rc"
  by (simp add: buildRetryStrategies_def)

text \<open>A channel whose variable is set runs although it is switched off.\<close>

lemma disabled_channel_starts:
  "\<lbrakk>co_channels cfg ''telegram'' = Some \<lparr>chan_enabled = False, chan_token = [], chan_token_env = [], chan_allow_list = []\<rparr>;
    getenv ''TELEGRAM_BOT_TOKEN'' \<noteq> []; new (TelegramArgs []) = Inr a; start a = None\<rbrakk> \<Longrightarrow>
   a \<in> set (initChannelAdapters getenv new start cfg)"
  by (simp add: initChannelAdapters_def adapter_entries_def channelToken_def)

end
