(* ===== verification/WhatsApp_Format.thy ===== *)
theory WhatsApp_Format
  imports Prelude
begin

section \<open>Markdown for WhatsApp (\<^verbatim>\<open>pkg/channels/whatsapp/format.go\<close>)\<close>

text \<open>
  Each regular expression is written as a matcher at one position: what it captures and what follows the match.
  The expressions are delimited by ASCII characters and have one way to match at a position
  (the first that the engine prefers), so bytes can stand for runes; \<open>bol\<close> says whether the position begins a line.
\<close>

subsection \<open>Replacing matches\<close>

type_synonym 'c matcher = "bool \<Rightarrow> string \<Rightarrow> ('c \<times> string) option"

text \<open>
  \<^verbatim>\<open>ReplaceAllStringFunc\<close>: leftmost matches, one after the other. No expression here matches the empty text
  (\<open>shortens\<close> below), so the branch for a match that consumes nothing is never taken.
\<close>

function replace_all :: "'c matcher \<Rightarrow> ('c \<Rightarrow> 'st \<Rightarrow> string \<times> 'st) \<Rightarrow> bool \<Rightarrow> string \<Rightarrow> 'st \<Rightarrow> string \<times> 'st" where
  "replace_all m f bol [] st = ([], st)"
| "replace_all m f bol (c # s) st =
     (case m bol (c # s) of
        Some (caps, rest) \<Rightarrow>
          if length rest < length (c # s)
          then (let (r, st1) = f caps st;
                    (out, st2) = replace_all m f (last (take (length (c # s) - length rest) (c # s)) = newline) rest st1
                in (r @ out, st2))
          else ([], st)
      | None \<Rightarrow> (let (out, st1) = replace_all m f (c = newline) s st in (c # out, st1)))"
  by pat_completeness auto
termination by (relation "measure (\<lambda>(m, f, bol, s, st). length s)") auto

fun until :: "string \<Rightarrow> string \<Rightarrow> (string \<times> string) option" where
  "until d [] = None"
| "until d (c # s) = (if HasPrefix (c # s) d then Some ([], drop (length d) (c # s)) else map_option (\<lambda>(a, b). (c # a, b)) (until d s))"

fun until_line :: "string \<Rightarrow> string \<Rightarrow> (string \<times> string) option" where
  "until_line d [] = None"
| "until_line d (c # s) =
     (if HasPrefix (c # s) d then Some ([], drop (length d) (c # s))
      else if c = newline then None else map_option (\<lambda>(a, b). (c # a, b)) (until_line d s))"

subsection \<open>The expressions\<close>

abbreviation tick :: char where "tick \<equiv> CHR 0x60"
abbreviation star :: char where "star \<equiv> CHR ''*''"

definition fence :: string where "fence = [tick, tick, tick]"

definition word_char :: "char \<Rightarrow> bool" where
  "word_char c = (let n = of_char c :: nat in 48 \<le> n \<and> n \<le> 57 \<or> 65 \<le> n \<and> n \<le> 90 \<or> n = 95 \<or> 97 \<le> n \<and> n \<le> 122)"

definition rx_space :: "char \<Rightarrow> bool" where
  "rx_space c = (c \<in> {CHR 0x09, CHR 0x0A, CHR 0x0C, CHR 0x0D, CHR '' ''})"

text \<open>\<^verbatim>\<open>(?s)```(\w*)\n(.*?)```\<close>, capturing the body.\<close>

definition codeBlockRe :: "string matcher" where
  "codeBlockRe bol s =
     (if HasPrefix s fence
      then (case dropWhile word_char (drop 3 s) of
        c # r \<Rightarrow> if c = newline then until fence r else None
      | [] \<Rightarrow> None)
      else None)"

definition inlineCodeRe :: "string matcher" where
  "inlineCodeRe bol s =
     (case s of
        c # r \<Rightarrow> if c = tick \<and> takeWhile (\<lambda>x. x \<noteq> tick) r \<noteq> [] \<and> dropWhile (\<lambda>x. x \<noteq> tick) r \<noteq> []
          then Some (takeWhile (\<lambda>x. x \<noteq> tick) r, tl (dropWhile (\<lambda>x. x \<noteq> tick) r)) else None
      | [] \<Rightarrow> None)"

text \<open>The lazy \<^verbatim>\<open>d(.+?)d\<close>; a dot does not match a line end.\<close>

definition lazyRe :: "string \<Rightarrow> string matcher" where
  "lazyRe d bol s =
     (if HasPrefix s d
      then (case drop (length d) s of
        c # r \<Rightarrow> if c = newline then None else map_option (\<lambda>(a, b). (c # a, b)) (until_line d r)
      | [] \<Rightarrow> None)
      else None)"

definition boldItalicRe :: "string matcher" where "boldItalicRe = lazyRe [star, star, star]"
definition boldRe :: "string matcher" where "boldRe = lazyRe [star, star]"
definition strikethroughRe :: "string matcher" where "strikethroughRe = lazyRe ''~~''"

definition linkRe :: "(string \<times> string) matcher" where
  "linkRe bol s =
     (case s of
        c # r \<Rightarrow> (let a = takeWhile (\<lambda>x. x \<noteq> CHR '']'') r in
          case dropWhile (\<lambda>x. x \<noteq> CHR '']'') r of
            _ # p # r2 \<Rightarrow> (let b = takeWhile (\<lambda>x. x \<noteq> CHR '')'') r2; r3 = dropWhile (\<lambda>x. x \<noteq> CHR '')'') r2 in
              if c = CHR ''['' \<and> a \<noteq> [] \<and> p = CHR ''('' \<and> b \<noteq> [] \<and> r3 \<noteq> [] then Some ((a, b), tl r3) else None)
          | _ \<Rightarrow> None)
      | [] \<Rightarrow> None)"

text \<open>How much white space \<^verbatim>\<open>\s+\<close> keeps when \<^verbatim>\<open>(.+)\<close> needs a character on the line: the most that leaves one.\<close>

fun header_space :: "string \<Rightarrow> nat \<Rightarrow> nat option" where
  "header_space r 0 = None"
| "header_space r (Suc j) = (case drop (Suc j) r of c # _ \<Rightarrow> if c \<noteq> newline then Some (Suc j) else header_space r j | [] \<Rightarrow> header_space r j)"

definition headerRe :: "string matcher" where
  "headerRe bol s =
     (let k = length (takeWhile (\<lambda>c. c = CHR ''#'') s); r = drop k s in
      if bol \<and> 1 \<le> k \<and> k \<le> 6
      then (case header_space r (length (takeWhile rx_space r)) of
        None \<Rightarrow> None
      | Some j \<Rightarrow> Some (takeWhile (\<lambda>c. c \<noteq> newline) (drop j r), dropWhile (\<lambda>c. c \<noteq> newline) (drop j r)))
      else None)"

definition bulletStarRe :: "(string \<times> string) matcher" where
  "bulletStarRe bol s =
     (case dropWhile rx_space s of
        c # d # r \<Rightarrow> if bol \<and> c = star \<and> rx_space d then Some ((takeWhile rx_space s, [d]), r) else None
      | _ \<Rightarrow> None)"

subsection \<open>The conversion\<close>

definition placeholder :: "nat \<Rightarrow> string" where
  "placeholder i = [CHR 0x00] @ ''PH'' @ nat_to_dec i @ [CHR 0x00]"

definition protect :: "('c \<Rightarrow> string) \<Rightarrow> 'c \<Rightarrow> string list \<Rightarrow> string \<times> string list" where
  "protect repl caps protected = (placeholder (length protected), protected @ [repl caps])"

definition rewrite :: "('c \<Rightarrow> string) \<Rightarrow> 'c \<Rightarrow> unit \<Rightarrow> string \<times> unit" where
  "rewrite repl caps u = (repl caps, u)"

function replaceItalicStars :: "string \<Rightarrow> string" where
  "replaceItalicStars [] = []"
| "replaceItalicStars (c # s) =
     (if c \<noteq> star then c # replaceItalicStars s
      else (case IndexByte s star of
        None \<Rightarrow> c # replaceItalicStars s
      | Some end \<Rightarrow>
          (let inner = take end s in
           if end = 0 \<or> CHR 0x0A \<in> set inner \<or> CHR 0x0D \<in> set inner then c # replaceItalicStars s
           else [CHR ''_''] @ inner @ [CHR ''_''] @ replaceItalicStars (drop (Suc end) s))))"
  by pat_completeness auto
termination by (relation "measure length") auto

definition Replace1 :: "string \<Rightarrow> string \<Rightarrow> string \<Rightarrow> string" where
  "Replace1 s old new = (case until old s of Some (a, b) \<Rightarrow> a @ new @ b | None \<Rightarrow> s)"

fun restore :: "nat \<Rightarrow> string list \<Rightarrow> string \<Rightarrow> string" where
  "restore i [] s = s"
| "restore i (r # rs) s = restore (Suc i) rs (Replace1 s (placeholder i) r)"

definition markdownToWhatsApp :: "string \<Rightarrow> string" where
  "markdownToWhatsApp s0 =
     (let (s1, p1) = replace_all codeBlockRe (protect (\<lambda>body. fence @ nl @ body @ fence)) True s0 [];
          (s2, p2) = replace_all inlineCodeRe (protect (\<lambda>body. fence @ body @ fence)) True s1 p1;
          (s3, p3) = replace_all headerRe (protect (\<lambda>t. [star] @ t @ [star])) True s2 p2;
          (s4, p4) = replace_all boldItalicRe (protect (\<lambda>t. ''*_'' @ t @ ''_*'')) True s3 p3;
          (s5, p5) = replace_all boldRe (protect (\<lambda>t. [star] @ t @ [star])) True s4 p4;
          s6 = replaceItalicStars s5;
          s7 = fst (replace_all strikethroughRe (rewrite (\<lambda>t. ''~'' @ t @ ''~'')) True s6 ());
          s8 = fst (replace_all linkRe (rewrite (\<lambda>(a, b). a @ '' ('' @ b @ '')'')) True s7 ());
          s9 = fst (replace_all bulletStarRe (rewrite (\<lambda>(a, b). a @ [CHR 0xE2, CHR 0x80, CHR 0xA2] @ b)) True s8 ())
      in restore 0 p5 s9)"

subsection \<open>Matches are not empty\<close>

lemma until_Some: "until d s = Some (a, b) \<Longrightarrow> s = a @ d @ b"
proof (induction s arbitrary: a)
  case (Cons c s)
  then show ?case by (auto simp: HasPrefix_prefix prefix_def split: if_splits)
qed simp

lemma until_line_Some: "until_line d s = Some (a, b) \<Longrightarrow> s = a @ d @ b"
proof (induction s arbitrary: a)
  case (Cons c s)
  then show ?case by (auto simp: HasPrefix_prefix prefix_def split: if_splits)
qed simp

definition shortens :: "'c matcher \<Rightarrow> bool" where
  "shortens m \<longleftrightarrow> (\<forall>bol s caps rest. m bol s = Some (caps, rest) \<longrightarrow> length rest < length s)"

lemma drop_tail_shorter: "dropWhile p r = c # r' \<Longrightarrow> length r' < length r"
  by (metis length_dropWhile_le length_Cons Suc_le_lessD)

lemma lazy_shortens: "d \<noteq> [] \<Longrightarrow> shortens (lazyRe d)"
proof -
  assume d: "d \<noteq> []"
  have "length rest < length s" if "lazyRe d bol s = Some (caps, rest)" for bol s caps rest
  proof -
    from that obtain c r a where s: "drop (length d) s = c # r" "until_line d r = Some (a, rest)"
      by (auto simp: lazyRe_def split: if_splits list.splits)
    from until_line_Some [OF s(2)] have "length rest \<le> length r" by simp
    moreover have "length r < length s" using s(1) by (metis length_drop diff_le_self length_Cons Suc_le_lessD)
    ultimately show ?thesis by simp
  qed
  then show ?thesis by (auto simp: shortens_def)
qed

lemma expressions_shorten:
  "shortens codeBlockRe" "shortens inlineCodeRe" "shortens boldItalicRe" "shortens boldRe" "shortens strikethroughRe"
  "shortens linkRe" "shortens headerRe" "shortens bulletStarRe"
proof -
  show "shortens boldItalicRe" "shortens boldRe" "shortens strikethroughRe"
    by (simp_all add: boldItalicRe_def boldRe_def strikethroughRe_def lazy_shortens)
  have "length rest < length s" if "codeBlockRe bol s = Some (caps, rest)" for bol s caps rest
  proof -
    from that obtain c r where s: "HasPrefix s fence" "dropWhile word_char (drop 3 s) = c # r" "until fence r = Some (caps, rest)"
      by (auto simp: codeBlockRe_def split: if_splits list.splits)
    have "length rest \<le> length r" using until_Some [OF s(3)] by simp
    with drop_tail_shorter [OF s(2)] show ?thesis by simp
  qed
  then show "shortens codeBlockRe" by (auto simp: shortens_def)
  have "length rest < length s" if "inlineCodeRe bol s = Some (caps, rest)" for bol s caps rest
    using that by (auto simp: inlineCodeRe_def length_dropWhile_le le_imp_less_Suc le_diff_conv split: list.splits if_splits)
      (metis length_dropWhile_le le_imp_less_Suc le_trans diff_le_self)
  then show "shortens inlineCodeRe" by (auto simp: shortens_def)
  have "length rest < length s" if "linkRe bol s = Some (caps, rest)" for bol s caps rest
  proof -
    from that obtain c r x p r2 where s: "s = c # r" "dropWhile (\<lambda>x. x \<noteq> CHR '']'') r = x # p # r2" "rest = tl (dropWhile (\<lambda>x. x \<noteq> CHR '')'') r2)"
      by (auto simp: linkRe_def Let_def split: list.splits if_splits)
    have "length rest \<le> length r2" unfolding s(3) by (metis length_dropWhile_le length_tl diff_le_self le_trans)
    with drop_tail_shorter [OF s(2)] s(1) show ?thesis by simp
  qed
  then show "shortens linkRe" by (auto simp: shortens_def)
  have "length rest < length s" if "headerRe bol s = Some (caps, rest)" for bol s caps rest
  proof -
    let ?k = "length (takeWhile (\<lambda>c. c = CHR ''#'') s)"
    from that obtain j where j: "1 \<le> ?k" "rest = dropWhile (\<lambda>c. c \<noteq> newline) (drop j (drop ?k s))"
      by (auto simp: headerRe_def Let_def split: if_splits option.splits)
    have "?k \<le> length s" by (rule length_takeWhile_le)
    moreover have "length rest \<le> length s - ?k" unfolding j(2) by (metis length_dropWhile_le length_drop diff_le_self le_trans)
    ultimately show ?thesis using j(1) by linarith
  qed
  then show "shortens headerRe" by (auto simp: shortens_def)
  have "length rest < length s" if "bulletStarRe bol s = Some (caps, rest)" for bol s caps rest
    using that drop_tail_shorter [of rx_space s] by (fastforce simp: bulletStarRe_def split: list.splits if_splits)
  then show "shortens bulletStarRe" by (auto simp: shortens_def)
qed

subsection \<open>Text without a match\<close>

text \<open>No match at any position: nothing is replaced.\<close>

lemma replace_all_none:
  assumes "\<And>bol t. t \<noteq> [] \<Longrightarrow> suffix t s \<Longrightarrow> m bol t = None"
  shows "replace_all m f bol s st = (s, st)"
  using assms
proof (induction s arbitrary: bol)
  case (Cons c s)
  then have "replace_all m f b s st = (s, st)" for b by (simp add: suffix_ConsI)
  with Cons.prems [of "c # s"] show ?case by simp
qed simp

lemma suffix_set: "suffix t s \<Longrightarrow> c \<notin> set s \<Longrightarrow> c \<notin> set t"
  by (auto simp: suffix_def)

lemma no_code_block: "tick \<notin> set s \<Longrightarrow> codeBlockRe bol s = None"
  by (cases s) (auto simp: codeBlockRe_def fence_def)

lemma no_inline_code: "tick \<notin> set s \<Longrightarrow> inlineCodeRe bol s = None"
  by (cases s) (auto simp: inlineCodeRe_def)

lemma no_lazy: "c \<notin> set s \<Longrightarrow> lazyRe (c # d) bol s = None"
  by (cases s) (auto simp: lazyRe_def)

lemma no_link: "CHR ''['' \<notin> set s \<Longrightarrow> linkRe bol s = None"
  by (auto simp: linkRe_def Let_def split: list.splits)

lemma no_header: "CHR ''#'' \<notin> set s \<Longrightarrow> headerRe bol s = None"
  by (cases s) (auto simp: headerRe_def Let_def)

lemma no_bullet: "star \<notin> set s \<Longrightarrow> bulletStarRe bol s = None"
proof -
  assume "star \<notin> set s"
  then have "star \<notin> set (dropWhile rx_space s)" using set_dropWhileD by metis
  then show ?thesis by (auto simp: bulletStarRe_def split: list.splits)
qed

lemma no_italic: "star \<notin> set s \<Longrightarrow> replaceItalicStars s = s"
  by (induction s) auto

text \<open>Text without any of the characters that mark something, code aside.\<close>

definition unmarked :: "string \<Rightarrow> bool" where
  "unmarked s \<longleftrightarrow> set s \<inter> {star, CHR ''#'', CHR ''~'', CHR ''[''} = {}"

lemma unmarked_append [simp]: "unmarked (s @ t) \<longleftrightarrow> unmarked s \<and> unmarked t"
  by (auto simp: unmarked_def)

lemmas steps_none = replace_all_none [OF no_header [OF suffix_set]] replace_all_none [OF no_lazy [OF suffix_set]]
  replace_all_none [OF no_link [OF suffix_set]] replace_all_none [OF no_bullet [OF suffix_set]]

lemma after_code:
  assumes "unmarked s2" "replace_all codeBlockRe (protect (\<lambda>body. fence @ nl @ body @ fence)) True s0 [] = (s1, p1)"
    "replace_all inlineCodeRe (protect (\<lambda>body. fence @ body @ fence)) True s1 p1 = (s2, p2)"
  shows "markdownToWhatsApp s0 = restore 0 p2 s2"
  using assms unfolding markdownToWhatsApp_def boldItalicRe_def boldRe_def strikethroughRe_def
  by (simp add: steps_none no_italic unmarked_def)

lemma digits_plain: "c \<in> set (nat_to_dec n) \<Longrightarrow> 48 \<le> (of_char c :: nat) \<and> (of_char c :: nat) < 58"
proof (induction n rule: nat_to_dec.induct)
  case (1 n)
  then show ?case
    using digit_char_value [of n] digit_char_value [of "n mod 10"] by (subst (asm) (2) nat_to_dec.simps) (auto split: if_splits)
qed

lemma placeholder_plain:
  "unmarked (placeholder i)" "tick \<notin> set (placeholder i)"
  by (auto simp: unmarked_def placeholder_def dest: digits_plain)

text \<open>The first place where a delimiter can start.\<close>

lemma until_first: "d \<notin> set a \<Longrightarrow> until (d # ds) (a @ (d # ds) @ b) = Some (a, b)"
  by (induction a) auto

lemma replace_all_skip:
  assumes "\<And>bol p. p \<noteq> [] \<Longrightarrow> suffix p a \<Longrightarrow> m bol (p @ x) = None"
  shows "\<exists>bol'. replace_all m f bol (a @ x) st = (let (out, st1) = replace_all m f bol' x st in (a @ out, st1))"
  using assms
proof (induction a arbitrary: bol)
  case Nil
  show ?case by (intro exI [of _ bol]) (simp split: prod.split)
next
  case (Cons c a)
  have "m b (p @ x) = None" if "p \<noteq> []" "suffix p a" for b p using Cons.prems that by (simp add: suffix_ConsI)
  from Cons.IH [OF this] obtain b where "replace_all m f (c = newline) (a @ x) st = (let (out, st1) = replace_all m f b x st in (a @ out, st1))" by blast
  with Cons.prems [of "c # a" bol] show ?case by (intro exI [of _ b]) (simp add: Let_def split: prod.split)
qed

lemma replace_all_match:
  assumes "\<And>b. m b x = Some (caps, rest)" "shortens m" "\<And>b t. t \<noteq> [] \<Longrightarrow> suffix t rest \<Longrightarrow> m b t = None"
  shows "replace_all m (protect repl) bol x st = (placeholder (length st) @ rest, st @ [repl caps])"
proof (cases x)
  case Nil
  with assms(1) [of True] assms(2) have "length rest < length ([] :: string)" unfolding shortens_def by metis
  then show ?thesis by simp
next
  case (Cons c s)
  have "length rest < length (c # s)" using assms(1) [of True] assms(2) unfolding Cons shortens_def by metis
  moreover have "replace_all m (protect repl) b rest st1 = (rest, st1)" for b st1 by (rule replace_all_none) (rule assms(3))
  ultimately show ?thesis using assms(1) [of bol] by (simp add: Cons protect_def)
qed

lemma replace_one:
  assumes "\<And>bol p. p \<noteq> [] \<Longrightarrow> suffix p a \<Longrightarrow> m bol (p @ x) = None"
    and "\<And>b. m b x = Some (caps, rest)" "shortens m" "\<And>b t. t \<noteq> [] \<Longrightarrow> suffix t rest \<Longrightarrow> m b t = None"
  shows "replace_all m (protect repl) bol (a @ x) st = (a @ placeholder (length st) @ rest, st @ [repl caps])"
  using replace_all_skip [of a m x "protect repl" bol st, OF assms(1)] replace_all_match [of m x caps rest repl, OF assms(2-4)] by auto

lemma restore_one:
  assumes "CHR 0x00 \<notin> set a"
  shows "restore 0 [r] (a @ placeholder 0 @ b) = a @ r @ b"
  using until_first [OF assms, of "''PH'' @ nat_to_dec 0 @ [CHR 0x00]" b] by (simp add: Replace1_def placeholder_def)

lemma codeBlock_match:
  assumes "list_all word_char lang" "tick \<notin> set code"
  shows "codeBlockRe bol (fence @ lang @ nl @ code @ fence @ b) = Some (code, b)"
proof -
  have "\<not> word_char newline" by (simp add: word_char_def newline_def)
  with assms(1) have "dropWhile word_char (lang @ newline # r) = newline # r" for r by (induction lang) auto
  moreover have "until fence (code @ fence @ b) = Some (code, b)" using until_first [OF assms(2), of "[tick, tick]" b] by (simp add: fence_def)
  ultimately show ?thesis by (simp add: codeBlockRe_def nl_def) (simp add: fence_def)
qed

lemma inlineCode_match:
  assumes "code \<noteq> []" "tick \<notin> set code"
  shows "inlineCodeRe bol ([tick] @ code @ [tick] @ b) = Some (code, b)"
proof -
  have "takeWhile (\<lambda>x. x \<noteq> tick) (code @ tick # b) = code" "dropWhile (\<lambda>x. x \<noteq> tick) (code @ tick # b) = tick # b"
    using assms(2) by (induction code) auto
  with assms(1) show ?thesis by (simp add: inlineCodeRe_def)
qed

lemma fence_count: "HasPrefix s fence \<Longrightarrow> 3 \<le> count_list s tick"
  by (cases s rule: list.exhaust; cases "tl s" rule: list.exhaust; cases "tl (tl s)" rule: list.exhaust) (auto simp: fence_def)

lemma no_fence: "count_list s tick < 3 \<Longrightarrow> codeBlockRe bol s = None"
  using fence_count by (fastforce simp: codeBlockRe_def)

lemma count_suffix: "suffix t s \<Longrightarrow> count_list t c \<le> count_list s c"
  by (auto simp: suffix_def)

text \<open>
  C31: the conversion keeps text and code. Text without marks is unchanged. A fenced block between unmarked texts
  is sent as a block with the same contents, whatever marks it holds, only without the name of its language, and
  inline code likewise becomes a monospaced run with the same contents.
\<close>

theorem markdown_keeps_code:
  assumes "unmarked a" "unmarked b" "tick \<notin> set a" "tick \<notin> set b" "CHR 0x00 \<notin> set a" "tick \<notin> set code"
  shows "markdownToWhatsApp (a @ b) = a @ b
    \<and> (list_all word_char lang \<longrightarrow> markdownToWhatsApp (a @ fence @ lang @ nl @ code @ fence @ b) = a @ fence @ nl @ code @ fence @ b)
    \<and> (code \<noteq> [] \<longrightarrow> markdownToWhatsApp (a @ [tick] @ code @ [tick] @ b) = a @ fence @ code @ fence @ b)"
proof (intro conjI impI)
  have tb: "tick \<notin> set t" if "suffix t b" for t using that assms(4) by (rule suffix_set)
  have ta: "p = [] \<or> hd p \<noteq> tick" if "suffix p a" for p using suffix_set [OF that assms(3)] by (cases p) auto
  have um: "unmarked (a @ placeholder 0 @ b)" and tk: "tick \<notin> set (a @ placeholder 0 @ b)" using assms placeholder_plain [of 0] by auto
  have pl: "replace_all codeBlockRe f bol s st = (s, st)" "replace_all inlineCodeRe g bol s st' = (s, st')" if "tick \<notin> set s" for s f g bol st st'
    using that by (auto intro!: replace_all_none no_code_block no_inline_code dest: suffix_set)
  show "markdownToWhatsApp (a @ b) = a @ b"
    using assms by (subst after_code [OF _ pl(1) pl(2)]) auto
  show "markdownToWhatsApp (a @ fence @ lang @ nl @ code @ fence @ b) = a @ fence @ nl @ code @ fence @ b" if lang: "list_all word_char lang"
  proof -
    have "replace_all codeBlockRe (protect (\<lambda>body. fence @ nl @ body @ fence)) True (a @ fence @ lang @ nl @ code @ fence @ b) [] =
        (a @ placeholder (length ([] :: string list)) @ b, [] @ [fence @ nl @ code @ fence])"
    proof (rule replace_one [where caps = code])
      show "codeBlockRe bol (p @ fence @ lang @ nl @ code @ fence @ b) = None" if "p \<noteq> []" "suffix p a" for bol p
        using ta [OF that(2)] that(1) by (cases p) (auto simp: codeBlockRe_def fence_def)
    qed (auto simp: codeBlock_match [OF lang assms(6)] expressions_shorten tb no_code_block)
    then have "markdownToWhatsApp (a @ fence @ lang @ nl @ code @ fence @ b) = restore 0 [fence @ nl @ code @ fence] (a @ placeholder 0 @ b)"
      using after_code [OF um _ pl(2) [OF tk]] by simp
    then show ?thesis using restore_one [OF assms(5)] by simp
  qed
  show "markdownToWhatsApp (a @ [tick] @ code @ [tick] @ b) = a @ fence @ code @ fence @ b" if code: "code \<noteq> []"
  proof -
    let ?s = "a @ [tick] @ code @ [tick] @ b"
    have "count_list ?s tick < 3" using assms by (simp add: count_notin)
    then have s1: "replace_all codeBlockRe (protect (\<lambda>body. fence @ nl @ body @ fence)) True ?s [] = (?s, [])"
      by (intro replace_all_none no_fence) (metis count_suffix le_less_trans)
    have "replace_all inlineCodeRe (protect (\<lambda>body. fence @ body @ fence)) True ?s [] =
        (a @ placeholder (length ([] :: string list)) @ b, [] @ [fence @ code @ fence])"
    proof (rule replace_one [where caps = code])
      show "inlineCodeRe bol (p @ [tick] @ code @ [tick] @ b) = None" if "p \<noteq> []" "suffix p a" for bol p
        using ta [OF that(2)] that(1) by (cases p) (auto simp: inlineCodeRe_def)
    qed (auto simp: inlineCode_match [OF code assms(6), simplified] expressions_shorten tb no_inline_code)
    with after_code [OF um s1] have "markdownToWhatsApp ?s = restore 0 [fence @ code @ fence] (a @ placeholder 0 @ b)" by simp
    then show ?thesis using restore_one [OF assms(5)] by simp
  qed
qed

theorem markdown_keeps_code_witness:
  "markdownToWhatsApp (''run '' @ fence @ ''go'' @ nl @ ''**x*'' @ fence @ '' now'') = ''run '' @ fence @ nl @ ''**x*'' @ fence @ '' now''"
proof -
  have "unmarked ''run ''" "unmarked '' now''" "list_all word_char ''go''" by (simp_all add: unmarked_def word_char_def)
  with markdown_keeps_code [of "''run ''" "'' now''" "''**x*''" "''go''"] show ?thesis by simp
qed

text \<open>
  Code in a header (or in bold text) is lost: its placeholder is inside the text that the header protects, and the
  placeholders are restored in the order they were made, so the inner one is looked for before it is there.
\<close>

lemma markdown_header_code_lost:
  "markdownToWhatsApp (''# Use '' @ [tick] @ ''ls'' @ [tick]) = [star] @ ''Use '' @ placeholder 0 @ [star]"
  by code_simp

end
