(* ===== verification/Channel_Adapters.thy ===== *)
theory Channel_Adapters
  imports Session_Map Message_Split WhatsApp_Format Channel_Router
begin

section \<open>The chat adapters (\<^verbatim>\<open>pkg/channels/telegram, discord, slack, matrix, whatsapp\<close>)\<close>

text \<open>
  What the adapters make of the platforms' events and what they ask the platforms to do. The platform clients are
  libraries: a call of a platform is recorded with its outcome, which the argument \<open>fault\<close> decides by the number of
  calls before it. Calls that only acknowledge an event, whose outcome the adapters ignore, are a list of their own. The
  inbound channel is the list of the messages put on it. Starting a client gives its outcome; the adapters of
  Telegram, Matrix and WhatsApp are used only after a successful start, as \<^verbatim>\<open>initChannelAdapters\<close> does.
\<close>

datatype platform_call =
    SendText string
  | SendButtons string string string
  | SendAction

datatype 'k ack =
    AnswerCallback string string
  | ClearButtons 'k int
  | EditText 'k int string
  | UpdateMessage string
  | AckEvent

record 'k channel =
  ca_connected :: bool
  ca_sessions :: "'k session_map"
  ca_inbound :: "inbound_message list"
  ca_calls :: "('k \<times> platform_call \<times> go_error option) list"
  ca_acks :: "'k ack list"

type_synonym fault = "nat \<Rightarrow> go_error option"

definition new_channel :: "string \<Rightarrow> ('k \<Rightarrow> string) \<Rightarrow> 'k channel" where
  "new_channel pre toKey = \<lparr>ca_connected = True, ca_sessions = NewSessionMap pre toKey, ca_inbound = [], ca_calls = [], ca_acks = []\<rparr>"

text \<open>What a constructor returns has no client yet; the start gives it one.\<close>

definition unconnected :: "string \<Rightarrow> ('k \<Rightarrow> string) \<Rightarrow> 'k channel" where
  "unconnected pre toKey = (new_channel pre toKey)\<lparr>ca_connected := False\<rparr>"

definition connect :: "go_error option \<Rightarrow> 'k channel \<Rightarrow> go_error option \<times> 'k channel" where
  "connect e st = (case e of Some err \<Rightarrow> (Some err, st) | None \<Rightarrow> (None, st\<lparr>ca_connected := True\<rparr>))"

definition acknowledge :: "'k ack list \<Rightarrow> 'k channel \<Rightarrow> 'k channel" where
  "acknowledge acks st = st\<lparr>ca_acks := ca_acks st @ acks\<rparr>"

text \<open>\<^verbatim>\<open>if v == "" { v = os.Getenv(name) }\<close>\<close>

definition or_env :: "(string \<Rightarrow> string) \<Rightarrow> string \<Rightarrow> string \<Rightarrow> string" where
  "or_env getenv v name = (if v = [] then getenv name else v)"

definition platform :: "fault \<Rightarrow> 'k \<Rightarrow> platform_call \<Rightarrow> 'k channel \<Rightarrow> go_error option \<times> 'k channel" where
  "platform fault k c st = (let e = fault (length (ca_calls st)) in (e, st\<lparr>ca_calls := ca_calls st @ [(k, c, e)]\<rparr>))"

fun send_chunks :: "fault \<Rightarrow> 'k \<Rightarrow> string list \<Rightarrow> 'k channel \<Rightarrow> go_error option \<times> 'k channel" where
  "send_chunks fault k [] st = (None, st)"
| "send_chunks fault k (c # cs) st =
     (case platform fault k (SendText c) st of
        (Some err, st1) \<Rightarrow> (Some err, st1)
      | (None, st1) \<Rightarrow> send_chunks fault k cs st1)"

definition push :: "inbound_message \<Rightarrow> 'k channel \<Rightarrow> 'k channel" where
  "push msg st = st\<lparr>ca_inbound := ca_inbound st @ [msg]\<rparr>"

text \<open>A text message of a chat: it gets the session of the chat.\<close>

definition receive_text :: "string \<Rightarrow> 'k \<Rightarrow> string \<Rightarrow> string \<Rightarrow> 'k channel \<Rightarrow> 'k channel" where
  "receive_text name chat peer content st =
     (let (sid, sm) = GetOrCreate (ca_sessions st) chat in
      push \<lparr>im_channel = name, im_session = sid, im_peer = peer, im_content = content, im_approval = None\<rparr> (st\<lparr>ca_sessions := sm\<rparr>))"

definition no_route :: "string \<Rightarrow> string \<Rightarrow> go_error" where
  "no_route what sid = ErrText (what @ '' for session '' @ sid)"

subsection \<open>Buttons\<close>

text \<open>The data of the two buttons, and what \<^verbatim>\<open>SplitN(data, ":", 3)\<close> makes of a pressed one.\<close>

definition approve_data :: "string \<Rightarrow> string" where "approve_data requestID = ''approval:approve:'' @ requestID"
definition deny_data :: "string \<Rightarrow> string" where "deny_data requestID = ''approval:deny:'' @ requestID"

definition button_parts :: "string \<Rightarrow> (string \<times> string \<times> string) option" where
  "button_parts s =
     (case IndexByte s CHR '':'' of
        None \<Rightarrow> None
      | Some i \<Rightarrow> (case IndexByte (drop (Suc i) s) CHR '':'' of
          None \<Rightarrow> None
        | Some j \<Rightarrow> Some (take i s, take j (drop (Suc i) s), drop (Suc j) (drop (Suc i) s))))"

definition button_answer :: "string \<Rightarrow> inbound_approval option" where
  "button_answer s =
     (case button_parts s of
        Some (kind, action, requestID) \<Rightarrow>
          if kind = ''approval'' then Some \<lparr>ia_request = requestID, ia_approved = (action = ''approve'')\<rparr> else None
      | None \<Rightarrow> None)"

definition receive_answer :: "string \<Rightarrow> 'k \<Rightarrow> string \<Rightarrow> inbound_approval \<Rightarrow> 'k channel \<Rightarrow> 'k channel" where
  "receive_answer name chat peer r st =
     push \<lparr>im_channel = name, im_session = (case Lookup (ca_sessions st) chat of Some sid \<Rightarrow> sid | None \<Rightarrow> []),
       im_peer = peer, im_content = [], im_approval = Some r\<rparr> st"

subsection \<open>Telegram\<close>

fun html_escape :: "string \<Rightarrow> string" where
  "html_escape [] = []"
| "html_escape (c # s) =
     (if c = CHR ''&'' then ''&amp;'' else if c = CHR 0x27 then ''&#39;'' else if c = CHR ''<'' then ''&lt;''
      else if c = CHR ''>'' then ''&gt;'' else if c = CHR 0x22 then ''&#34;'' else [c]) @ html_escape s"

definition telegram_New :: "(string \<Rightarrow> string) \<Rightarrow> string \<Rightarrow> go_error + string \<times> (64 word) channel" where
  "telegram_New getenv token0 =
     (let token = or_env getenv token0 ''TELEGRAM_BOT_TOKEN'' in
      if token = [] then Inl (ErrText ''telegram: bot token not set'') else Inr (token, unconnected ''tg'' telegram_key))"

definition telegram_Start :: "go_error option \<Rightarrow> (64 word) channel \<Rightarrow> go_error option \<times> (64 word) channel" where
  "telegram_Start created = connect (map_option (ErrWrap ''telegram: creating bot: '') created)"

definition telegram_Send :: "fault \<Rightarrow> string \<Rightarrow> string \<Rightarrow> (64 word) channel \<Rightarrow> go_error option \<times> (64 word) channel" where
  "telegram_Send fault sid content st =
     (case Reverse (ca_sessions st) sid of
        None \<Rightarrow> (Some (no_route ''telegram: no chat'' sid), st)
      | Some chatID \<Rightarrow> send_chunks fault chatID (SplitMessage content 4096) st)"

definition telegram_approval_text :: "string \<Rightarrow> string \<Rightarrow> string" where
  "telegram_approval_text toolName input =
     [CHR 0xF0, CHR 0x9F, CHR 0x94, CHR 0xA7] @ '' <b>Tool approval needed: '' @ html_escape toolName @ ''</b>'' @ nl @
     ''Input: <code>'' @ html_escape input @ ''</code>''"

definition telegram_SendApprovalRequest :: "fault \<Rightarrow> string \<Rightarrow> string \<Rightarrow> string \<Rightarrow> string \<Rightarrow> (64 word) channel \<Rightarrow> go_error option \<times> (64 word) channel" where
  "telegram_SendApprovalRequest fault requestID sid toolName input st =
     (case Reverse (ca_sessions st) sid of
        None \<Rightarrow> (Some (no_route ''telegram: no chat'' sid), st)
      | Some chatID \<Rightarrow> platform fault chatID (SendButtons (telegram_approval_text toolName input) (approve_data requestID) (deny_data requestID)) st)"

definition telegram_SendTyping :: "fault \<Rightarrow> string \<Rightarrow> (64 word) channel \<Rightarrow> go_error option \<times> (64 word) channel" where
  "telegram_SendTyping fault sid st =
     (case Reverse (ca_sessions st) sid of
        None \<Rightarrow> (Some (no_route ''telegram: no chat'' sid), st)
      | Some chatID \<Rightarrow> platform fault chatID SendAction st)"

text \<open>A pressed button: the sender, the data, and its message (the chat, the number and the text), if Telegram still has it.\<close>

record callback_query =
  cq_id :: string
  cq_from :: "64 word"
  cq_data :: string
  cq_message :: "(64 word \<times> int \<times> string) option"

definition approved_mark :: "bool \<Rightarrow> string" where
  "approved_mark ok = (if ok then [CHR 0xE2, CHR 0x9C, CHR 0x85] @ '' Approved'' else [CHR 0xE2, CHR 0x9D, CHR 0x8C] @ '' Denied'')"

definition telegram_handleCallbackQuery :: "callback_query \<Rightarrow> (64 word) channel \<Rightarrow> (64 word) channel" where
  "telegram_handleCallbackQuery q st =
     (case button_parts (cq_data q) of
        None \<Rightarrow> st
      | Some (kind, action, requestID) \<Rightarrow>
          if kind \<noteq> ''approval'' then st
          else (let approved = (action = ''approve''); st1 = acknowledge [AnswerCallback (cq_id q) (''Tool '' @ action @ ''d'')] st in
            case cq_message q of
              None \<Rightarrow> st1
            | Some (chatID, messageID, body) \<Rightarrow>
                receive_answer ''telegram'' chatID (telegram_key (cq_from q)) \<lparr>ia_request = requestID, ia_approved = approved\<rparr>
                  (acknowledge [ClearButtons chatID messageID, EditText chatID messageID (body @ nl @ nl @ approved_mark approved)] st1)))"

definition telegram_handleUpdate :: "64 word \<Rightarrow> 64 word \<Rightarrow> string \<Rightarrow> (64 word) channel \<Rightarrow> (64 word) channel" where
  "telegram_handleUpdate chatID from content st =
     (if content = [] then st else receive_text ''telegram'' chatID (telegram_key from) content st)"

subsection \<open>Discord\<close>

definition discord_not_connected :: go_error where "discord_not_connected = ErrText ''discord: not connected''"

definition discord_New :: "(string \<Rightarrow> string) \<Rightarrow> string \<Rightarrow> go_error + string \<times> string channel" where
  "discord_New getenv token0 =
     (let token = or_env getenv token0 ''DISCORD_BOT_TOKEN'' in
      if token = [] then Inl (ErrText ''discord: bot token not set'') else Inr (token, unconnected ''dc'' string_key))"

definition discord_Start :: "go_error option \<Rightarrow> go_error option \<Rightarrow> string channel \<Rightarrow> go_error option \<times> string channel" where
  "discord_Start created opened =
     connect (case created of
       Some err \<Rightarrow> Some (ErrWrap ''discord: creating session: '' err)
     | None \<Rightarrow> map_option (ErrWrap ''discord: opening connection: '') opened)"

definition discord_Send :: "fault \<Rightarrow> string \<Rightarrow> string \<Rightarrow> string channel \<Rightarrow> go_error option \<times> string channel" where
  "discord_Send fault sid content st =
     (if \<not> ca_connected st then (Some discord_not_connected, st)
      else (case Reverse (ca_sessions st) sid of
        None \<Rightarrow> (Some (no_route ''discord: no channel'' sid), st)
      | Some channelID \<Rightarrow>
          (case send_chunks fault channelID (SplitMessage content 2000) st of
             (e, st1) \<Rightarrow> (map_option (ErrWrap ''discord: sending message: '') e, st1))))"

definition discord_SendApprovalRequest :: "fault \<Rightarrow> string \<Rightarrow> string \<Rightarrow> string \<Rightarrow> string \<Rightarrow> string channel \<Rightarrow> go_error option \<times> string channel" where
  "discord_SendApprovalRequest fault requestID sid toolName input st =
     (if \<not> ca_connected st then (Some discord_not_connected, st)
      else (case Reverse (ca_sessions st) sid of
        None \<Rightarrow> (Some (no_route ''discord: no channel'' sid), st)
      | Some channelID \<Rightarrow> platform fault channelID (SendButtons
          (''**Tool approval needed: '' @ toolName @ ''**'' @ nl @ ''Input: '' @ [tick] @ input @ [tick]) (approve_data requestID) (deny_data requestID)) st))"

definition discord_SendTyping :: "fault \<Rightarrow> string \<Rightarrow> string channel \<Rightarrow> go_error option \<times> string channel" where
  "discord_SendTyping fault sid st =
     (if \<not> ca_connected st then (Some discord_not_connected, st)
      else (case Reverse (ca_sessions st) sid of
        None \<Rightarrow> (Some (no_route ''discord: no channel'' sid), st)
      | Some channelID \<Rightarrow> platform fault channelID SendAction st))"

text \<open>A component interaction, with the text of its message and the id of the pressing member, or else user, if there is one.\<close>

definition discord_handleInteraction :: "string \<Rightarrow> string \<Rightarrow> string \<Rightarrow> string option \<Rightarrow> string option \<Rightarrow> string channel \<Rightarrow> string channel" where
  "discord_handleInteraction customID channelID body member user st =
     (case button_answer customID of
        None \<Rightarrow> st
      | Some r \<Rightarrow>
          receive_answer ''discord'' channelID (case member of Some m \<Rightarrow> m | None \<Rightarrow> (case user of Some u \<Rightarrow> u | None \<Rightarrow> [])) r
            (acknowledge [UpdateMessage (body @ nl @ nl @ ''**'' @ (if ia_approved r then ''Approved'' else ''Denied'') @ ''**'')] st))"

definition discord_handleMessage :: "string \<Rightarrow> string \<Rightarrow> string \<Rightarrow> string \<Rightarrow> string channel \<Rightarrow> string channel" where
  "discord_handleMessage self channelID author content st =
     (if author = self \<or> content = [] then st else receive_text ''discord'' channelID author content st)"

subsection \<open>Slack\<close>

definition slack_not_connected :: go_error where "slack_not_connected = ErrText ''slack: not connected''"

definition slack_New :: "(string \<Rightarrow> string) \<Rightarrow> string \<Rightarrow> string \<Rightarrow> go_error + (string \<times> string) \<times> string channel" where
  "slack_New getenv botToken0 appToken0 =
     (let botToken = or_env getenv botToken0 ''SLACK_BOT_TOKEN''; appToken = or_env getenv appToken0 ''SLACK_APP_TOKEN'' in
      if botToken = [] \<or> appToken = []
      then Inl (ErrText ''slack: bot token and app token required (set SLACK_BOT_TOKEN and SLACK_APP_TOKEN)'')
      else Inr ((botToken, appToken), unconnected ''sl'' string_key))"

definition slack_Start :: "string channel \<Rightarrow> go_error option \<times> string channel" where
  "slack_Start = connect None"

definition slack_Send :: "fault \<Rightarrow> string \<Rightarrow> string \<Rightarrow> string channel \<Rightarrow> go_error option \<times> string channel" where
  "slack_Send fault sid content st =
     (if \<not> ca_connected st then (Some slack_not_connected, st)
      else (case Reverse (ca_sessions st) sid of
        None \<Rightarrow> (Some (no_route ''slack: no channel'' sid), st)
      | Some channelID \<Rightarrow> send_chunks fault channelID (SplitMessage content 40000) st))"

definition slack_SendApprovalRequest :: "fault \<Rightarrow> string \<Rightarrow> string \<Rightarrow> string \<Rightarrow> string \<Rightarrow> string channel \<Rightarrow> go_error option \<times> string channel" where
  "slack_SendApprovalRequest fault requestID sid toolName input st =
     (if \<not> ca_connected st then (Some slack_not_connected, st)
      else (case Reverse (ca_sessions st) sid of
        None \<Rightarrow> (Some (no_route ''slack: no channel'' sid), st)
      | Some channelID \<Rightarrow> platform fault channelID (SendButtons
          (''*Tool approval needed: '' @ toolName @ ''*'' @ nl @ ''Input: '' @ [tick] @ input @ [tick]) (approve_data requestID) (deny_data requestID)) st))"

text \<open>An interaction carries the ids of the pressed actions; only the first counts.\<close>

definition slack_handleInteraction :: "string list \<Rightarrow> string \<Rightarrow> string \<Rightarrow> string channel \<Rightarrow> string channel" where
  "slack_handleInteraction actions channelID user st =
     (case actions of
        [] \<Rightarrow> st
      | actionID # _ \<Rightarrow> (case button_answer actionID of None \<Rightarrow> st | Some r \<Rightarrow> receive_answer ''slack'' channelID user r st))"

definition slack_handleMessage :: "string \<Rightarrow> string \<Rightarrow> string \<Rightarrow> string \<Rightarrow> string channel \<Rightarrow> string channel" where
  "slack_handleMessage subType channelID user content st =
     (if subType \<noteq> [] \<or> content = [] then st else receive_text ''slack'' channelID user content st)"

text \<open>Events of the socket; the payload is missing when it is not of the expected type.\<close>

datatype slack_inner = MessageEvent string string string string | OtherInner
datatype slack_event =
    EventsAPI "(bool \<times> slack_inner) option"
  | Interactive "(string list \<times> string \<times> string) option"
  | OtherEvent

definition slack_handleEventsAPI :: "bool \<Rightarrow> slack_inner \<Rightarrow> string channel \<Rightarrow> string channel" where
  "slack_handleEventsAPI is_callback inner st =
     (case inner of
        MessageEvent subType channelID user content \<Rightarrow> if is_callback then slack_handleMessage subType channelID user content st else st
      | OtherInner \<Rightarrow> st)"

fun slack_handleEvent :: "slack_event \<Rightarrow> string channel \<Rightarrow> string channel" where
  "slack_handleEvent (EventsAPI (Some (is_callback, inner))) st = slack_handleEventsAPI is_callback inner (acknowledge [AckEvent] st)"
| "slack_handleEvent (Interactive (Some (actions, channelID, user))) st = slack_handleInteraction actions channelID user (acknowledge [AckEvent] st)"
| "slack_handleEvent _ st = st"

subsection \<open>Matrix\<close>

definition matrix_New :: "(string \<Rightarrow> string) \<Rightarrow> string \<Rightarrow> string \<Rightarrow> string \<Rightarrow> go_error + (string \<times> string \<times> string) \<times> string channel" where
  "matrix_New getenv homeserver0 userID0 token0 =
     (let homeserver = or_env getenv homeserver0 ''MATRIX_HOMESERVER''; userID = or_env getenv userID0 ''MATRIX_USER_ID'';
          token = or_env getenv token0 ''MATRIX_ACCESS_TOKEN''
      in if homeserver = [] \<or> userID = [] \<or> token = []
         then Inl (ErrText ''matrix: homeserver, user_id, and access_token are required'')
         else Inr ((homeserver, userID, token), unconnected ''mx'' string_key))"

definition matrix_Start :: "go_error option \<Rightarrow> string channel \<Rightarrow> go_error option \<times> string channel" where
  "matrix_Start created = connect (map_option (ErrWrap ''matrix: creating client: '') created)"

definition matrix_Send :: "fault \<Rightarrow> string \<Rightarrow> string \<Rightarrow> string channel \<Rightarrow> go_error option \<times> string channel" where
  "matrix_Send fault sid content st =
     (case Reverse (ca_sessions st) sid of
        None \<Rightarrow> (Some (no_route ''matrix: no room'' sid), st)
      | Some roomID \<Rightarrow> send_chunks fault roomID (SplitMessage content 65536) st)"

definition matrix_SendTyping :: "fault \<Rightarrow> string \<Rightarrow> string channel \<Rightarrow> go_error option \<times> string channel" where
  "matrix_SendTyping fault sid st =
     (case Reverse (ca_sessions st) sid of
        None \<Rightarrow> (Some (no_route ''matrix: no room'' sid), st)
      | Some roomID \<Rightarrow> platform fault roomID SendAction st)"

definition matrix_handleMessage :: "string \<Rightarrow> string \<Rightarrow> string \<Rightarrow> string \<Rightarrow> string channel \<Rightarrow> string channel" where
  "matrix_handleMessage self roomID sender body st =
     (if sender = self \<or> body = [] then st else receive_text ''matrix'' roomID sender body st)"

subsection \<open>WhatsApp\<close>

text \<open>An address: its user, and the rest of it, which the library prints and reduces.\<close>

record jid =
  jid_user :: string
  jid_rest :: string

definition whatsapp_New :: "(string \<Rightarrow> string) \<Rightarrow> string \<Rightarrow> string \<times> jid channel" where
  "whatsapp_New getenv dbPath0 =
     (let dbPath = or_env getenv dbPath0 ''WHATSAPP_DB_PATH'' in
      (if dbPath = [] then ''whatsapp.db'' else dbPath, unconnected ''wa'' jid_user))"

text \<open>The outcomes of the library at the start: the session store, the device and whether it is paired, the pairing codes, the connection.\<close>

definition whatsapp_Start :: "go_error option \<Rightarrow> go_error + bool \<Rightarrow> go_error option \<Rightarrow> go_error option \<Rightarrow> jid channel \<Rightarrow> go_error option \<times> jid channel" where
  "whatsapp_Start opened device codes online st =
     (case opened of
        Some err \<Rightarrow> (Some (ErrWrap ''whatsapp: opening session store: '' err), st)
      | None \<Rightarrow> (case device of
          Inl err \<Rightarrow> (Some (ErrWrap ''whatsapp: getting device: '' err), st)
        | Inr paired \<Rightarrow>
            (case (if paired then None else codes) of
               Some err \<Rightarrow> (Some (ErrWrap ''whatsapp: getting QR channel: '' err), snd (connect None st))
             | None \<Rightarrow> (map_option (ErrWrap ''whatsapp: connecting: '') online, snd (connect None st)))))"

definition whatsapp_Send :: "fault \<Rightarrow> string \<Rightarrow> string \<Rightarrow> jid channel \<Rightarrow> go_error option \<times> jid channel" where
  "whatsapp_Send fault sid content st =
     (case Reverse (ca_sessions st) sid of
        None \<Rightarrow> (Some (no_route ''whatsapp: no chat'' sid), st)
      | Some j \<Rightarrow> send_chunks fault j (SplitMessage (markdownToWhatsApp content) 65536) st)"

definition whatsapp_SendTyping :: "fault \<Rightarrow> string \<Rightarrow> jid channel \<Rightarrow> go_error option \<times> jid channel" where
  "whatsapp_SendTyping fault sid st =
     (case Reverse (ca_sessions st) sid of
        None \<Rightarrow> (Some (no_route ''whatsapp: no chat'' sid), st)
      | Some j \<Rightarrow> platform fault j SendAction st)"

definition whatsapp_handleMessage :: "(jid \<Rightarrow> jid) \<Rightarrow> (jid \<Rightarrow> string) \<Rightarrow> string list \<Rightarrow> jid \<Rightarrow> string \<Rightarrow> string option \<Rightarrow> jid channel \<Rightarrow> jid channel" where
  "whatsapp_handleMessage ToNonAD show_jid allowList sender0 conversation extended st =
     (if allowList \<noteq> [] \<and> jid_user sender0 \<notin> set allowList then st
      else (let content = (if conversation = [] then (case extended of Some t \<Rightarrow> t | None \<Rightarrow> []) else conversation) in
        if content = [] then st
        else receive_text ''whatsapp'' (ToNonAD sender0) (show_jid (ToNonAD sender0)) content st))"

end
