(* ===== verification/Channel_Chats.thy ===== *)
theory Channel_Chats
  imports Channel_Adapters
begin

section \<open>Chats over the adapters\<close>

text \<open>
  What the router may expect of an adapter: a message is put on the inbound channel under the session of its chat, and
  what is sent to a session reaches the chat of that session. The locale \<open>chat_adapter\<close> states it and is interpreted
  for the adapters whose key is injective; WhatsApp, whose is not, has a weaker claim of its own.
\<close>

subsection \<open>Sending\<close>

definition delivered :: "'k \<Rightarrow> string list \<Rightarrow> 'k channel \<Rightarrow> 'k channel" where
  "delivered k cs st = st\<lparr>ca_calls := ca_calls st @ map (\<lambda>c. (k, SendText c, None)) cs\<rparr>"

lemma send_chunks_ok: "send_chunks (\<lambda>_. None) k cs st = (None, delivered k cs st)"
  by (induction cs arbitrary: st) (simp_all add: delivered_def platform_def Let_def)

subsection \<open>The contract\<close>

text \<open>The inbound messages of the accepted platform messages.\<close>

definition inbound_of :: "string \<Rightarrow> string \<Rightarrow> ('k \<Rightarrow> string) \<Rightarrow> ('k \<times> string \<times> string) list \<Rightarrow> inbound_message list" where
  "inbound_of name pre toKey ms = map (\<lambda>(chat, peer, t). \<lparr>im_channel = name, im_session = pre @ ''-'' @ toKey chat, im_peer = peer,
     im_content = t, im_approval = None\<rparr>) ms"

text \<open>The accepted messages of a run, with their senders printed.\<close>

definition accepted_by :: "('p \<Rightarrow> string) \<Rightarrow> ('p \<Rightarrow> string \<Rightarrow> bool) \<Rightarrow> ('k \<times> 'p \<times> string) list \<Rightarrow> ('k \<times> string \<times> string) list" where
  "accepted_by show_peer accepts ms = map (\<lambda>(chat, peer, t). (chat, show_peer peer, t)) (filter (\<lambda>(chat, peer, t). accepts peer t) ms)"

lemma forward_in_run: "smap_run sm0 tr sm \<Longrightarrow> sm_forward sm k = Some sid \<Longrightarrow> sm_forward sm0 k = Some sid \<or> (k, sid) \<in> set tr"
  by (induction rule: smap_run.induct) (auto simp: create_locked_def Let_def split: option.splits if_splits)

lemma receive_run:
  assumes "smap_run (NewSessionMap pre toKey) tr (ca_sessions st)"
  shows "smap_run (NewSessionMap pre toKey) (tr @ [(chat, pre @ ''-'' @ toKey chat)]) (ca_sessions (receive_text name chat peer t st))"
    and "ca_inbound (receive_text name chat peer t st) = ca_inbound st @ inbound_of name pre toKey [(chat, peer, t)]"
    and "ca_connected (receive_text name chat peer t st) = ca_connected st"
proof -
  obtain sid sm where g: "GetOrCreate (ca_sessions st) chat = (sid, sm)" by force
  from GetOrCreate_run [OF assms g] have run: "smap_run (NewSessionMap pre toKey) (tr @ [(chat, sid)]) sm" .
  from smap_run_inv [OF this] have sid: "sid = pre @ ''-'' @ toKey chat" by (auto simp: naming_inv_def)
  show "smap_run (NewSessionMap pre toKey) (tr @ [(chat, pre @ ''-'' @ toKey chat)]) (ca_sessions (receive_text name chat peer t st))"
    "ca_inbound (receive_text name chat peer t st) = ca_inbound st @ inbound_of name pre toKey [(chat, peer, t)]"
    "ca_connected (receive_text name chat peer t st) = ca_connected st"
    using run by (simp_all add: receive_text_def g sid push_def inbound_of_def)
qed

text \<open>A run of text messages, whatever the key.\<close>

lemma receive_texts:
  fixes ms :: "('k \<times> string \<times> string) list" and name pre and toKey :: "'k \<Rightarrow> string"
  defines "st \<equiv> fold (\<lambda>(chat, peer, t). receive_text name chat peer t) ms (new_channel pre toKey)"
  shows "smap_run (NewSessionMap pre toKey) (map (\<lambda>(chat, peer, t). (chat, pre @ ''-'' @ toKey chat)) ms) (ca_sessions st)
    \<and> ca_inbound st = inbound_of name pre toKey ms \<and> ca_connected st"
  unfolding st_def
proof (induction ms rule: rev_induct)
  case Nil
  show ?case by (simp add: new_channel_def smap_run.start inbound_of_def)
next
  case (snoc m ms)
  obtain chat peer t where m: "m = (chat, peer, t)" by (cases m)
  from snoc receive_run [OF conjunct1 [OF snoc], where name = name and chat = chat and peer = peer and t = t] show ?case
    by (simp add: m inbound_of_def)
qed

locale chat_adapter =
  fixes name :: string and pre :: string and toKey :: "'k \<Rightarrow> string"
    and show_peer :: "'p \<Rightarrow> string" and accepts :: "'p \<Rightarrow> string \<Rightarrow> bool"
    and receive :: "'k \<Rightarrow> 'p \<Rightarrow> string \<Rightarrow> 'k channel \<Rightarrow> 'k channel"
    and send :: "string \<Rightarrow> string \<Rightarrow> 'k channel \<Rightarrow> go_error option \<times> 'k channel"
    and chunks :: "string \<Rightarrow> string list"
  assumes key: "inj toKey"
    and receives: "receive chat peer t st = (if accepts peer t then receive_text name chat (show_peer peer) t st else st)"
    and sends: "ca_connected st \<Longrightarrow> Reverse (ca_sessions st) sid = Some k \<Longrightarrow> send sid reply st = (None, delivered k (chunks reply) st)"
begin

lemma run_texts:
  "fold (\<lambda>(chat, peer, t). receive chat peer t) ms st = fold (\<lambda>(chat, peer, t). receive_text name chat peer t) (accepted_by show_peer accepts ms) st"
  by (induction ms arbitrary: st) (auto simp: receives accepted_by_def)

text \<open>Every accepted message comes in under the session of its chat, and a reply to that session goes to that chat.\<close>

lemma chat_replies:
  fixes ms :: "('k \<times> 'p \<times> string) list"
  assumes "st = fold (\<lambda>(chat, peer, t). receive chat peer t) ms (new_channel pre toKey)"
    and "(chat, peer, t) \<in> set ms" "accepts peer t"
  shows "ca_inbound st = inbound_of name pre toKey (accepted_by show_peer accepts ms)"
    and "send (pre @ ''-'' @ toKey chat) reply st = (None, delivered chat (chunks reply) st)"
proof -
  note run = receive_texts [where name = name and ms = "accepted_by show_peer accepts ms" and pre = pre and toKey = toKey, folded run_texts, folded assms(1)]
  have naming: "session_naming toKey" by unfold_locales (rule key)
  have "(chat, pre @ ''-'' @ toKey chat) \<in> set (map (\<lambda>(chat, peer, t). (chat, pre @ ''-'' @ toKey chat)) (accepted_by show_peer accepts ms))"
    using assms(2,3) by (force simp: accepted_by_def)
  from session_naming.reverse_ok [OF naming conjunct1 [OF run] this]
  have "Reverse (ca_sessions st) (pre @ ''-'' @ toKey chat) = Some chat" by simp
  with run sends show "ca_inbound st = inbound_of name pre toKey (accepted_by show_peer accepts ms)"
    "send (pre @ ''-'' @ toKey chat) reply st = (None, delivered chat (chunks reply) st)" by simp_all
qed

end

abbreviation no_fault :: fault where "no_fault \<equiv> \<lambda>_. None"

interpretation telegram_chat: chat_adapter "''telegram''" "''tg''" telegram_key telegram_key "\<lambda>peer t. t \<noteq> []"
    telegram_handleUpdate "telegram_Send no_fault" "\<lambda>m. SplitMessage m 4096"
  by unfold_locales (auto simp: telegram.inj_key telegram_handleUpdate_def telegram_Send_def send_chunks_ok)

interpretation discord_chat: chat_adapter "''discord''" "''dc''" string_key id "\<lambda>peer t. peer \<noteq> self \<and> t \<noteq> []"
    "discord_handleMessage self" "discord_Send no_fault" "\<lambda>m. SplitMessage m 2000" for self
  by unfold_locales (auto simp: string_channel.inj_key discord_handleMessage_def discord_Send_def send_chunks_ok)

interpretation slack_chat: chat_adapter "''slack''" "''sl''" string_key id "\<lambda>peer t. t \<noteq> []"
    "slack_handleMessage []" "slack_Send no_fault" "\<lambda>m. SplitMessage m 40000"
  by unfold_locales (auto simp: string_channel.inj_key slack_handleMessage_def slack_Send_def send_chunks_ok)

interpretation matrix_chat: chat_adapter "''matrix''" "''mx''" string_key id "\<lambda>peer t. peer \<noteq> self \<and> t \<noteq> []"
    "matrix_handleMessage self" "matrix_Send no_fault" "\<lambda>m. SplitMessage m 65536" for self
  by unfold_locales (auto simp: string_channel.inj_key matrix_handleMessage_def matrix_Send_def send_chunks_ok)

subsection \<open>Replies\<close>



subsection \<open>Buttons\<close>

lemma button_parts_data: "button_parts (''approval:'' @ action @ '':'' @ rid) = Some (''approval'', action, rid)" if "CHR '':'' \<notin> set action"
proof -
  have "IndexByte (action @ CHR '':'' # rid) CHR '':'' = Some (length action)" using that by (induction action) auto
  then show ?thesis by (simp add: button_parts_def)
qed

lemma button_data: "button_answer (approve_data rid) = Some \<lparr>ia_request = rid, ia_approved = True\<rparr>"
  "button_answer (deny_data rid) = Some \<lparr>ia_request = rid, ia_approved = False\<rparr>"
  using button_parts_data [of "''approve''" rid] button_parts_data [of "''deny''" rid]
  by (simp_all add: button_answer_def approve_data_def deny_data_def)

text \<open>Only one form of data approves.\<close>

lemma IndexByte_split: "IndexByte s c = Some i \<Longrightarrow> s = take i s @ [c] @ drop (Suc i) s"
  using IndexByte_Some [of s c i] id_take_nth_drop [of i s] by auto

lemma button_approves: "button_answer d = Some \<lparr>ia_request = rid, ia_approved = True\<rparr> \<longleftrightarrow> d = approve_data rid"
proof
  assume "button_answer d = Some \<lparr>ia_request = rid, ia_approved = True\<rparr>"
  then obtain i j where i: "IndexByte d CHR '':'' = Some i" "take i d = ''approval''"
    and j: "IndexByte (drop (Suc i) d) CHR '':'' = Some j" "take j (drop (Suc i) d) = ''approve''" "drop (Suc j) (drop (Suc i) d) = rid"
    by (auto simp: button_answer_def button_parts_def split: option.splits if_splits)
  from IndexByte_split [OF i(1)] IndexByte_split [OF j(1)] have "d = ''approval'' @ '':'' @ ''approve'' @ '':'' @ rid"
    unfolding i(2) j(2,3) by simp
  then show "d = approve_data rid" by (simp add: approve_data_def)
qed (simp add: button_data)

text \<open>What the router makes of a button that was pressed.\<close>

definition pressed :: "'k channel \<Rightarrow> 'k channel \<Rightarrow> approver \<Rightarrow> approver" where
  "pressed st st' a = fst (listenAdapter (drop (length (ca_inbound st)) (ca_inbound st')) a)"

lemma acknowledge_inbound [simp]: "ca_inbound (acknowledge acks st) = ca_inbound st"
  by (simp add: acknowledge_def)

lemma pressed_answer:
  "ca_inbound st' = ca_inbound st \<Longrightarrow> pressed st (receive_answer name chat peer r st') a = Respond a (ia_request r) (ia_approved r)"
  by (simp add: pressed_def receive_answer_def push_def inbound_answer_def)

lemma pressed_nothing [simp]: "pressed st st a = a"
  by (simp add: pressed_def)

lemma telegram_press:
  "pressed st (telegram_handleCallbackQuery \<lparr>cq_id = i, cq_from = from, cq_data = d, cq_message = Some (chat, mid, body)\<rparr> st) a =
   (case button_answer d of None \<Rightarrow> a | Some r \<Rightarrow> Respond a (ia_request r) (ia_approved r))"
  by (auto simp: telegram_handleCallbackQuery_def button_answer_def pressed_answer Let_def split: option.split)


text \<open>On Telegram a press whose message is no longer available is acknowledged and then dropped.\<close>

lemma telegram_press_dropped:
  "telegram_handleCallbackQuery \<lparr>cq_id = i, cq_from = from, cq_data = approve_data rid, cq_message = None\<rparr> st
   = acknowledge [AnswerCallback i ''Tool approved''] st"
  using button_parts_data [of "''approve''" rid] by (simp add: telegram_handleCallbackQuery_def approve_data_def)

subsection \<open>WhatsApp\<close>

definition whatsapp_run :: "(jid \<Rightarrow> jid) \<Rightarrow> (jid \<Rightarrow> string) \<Rightarrow> string list \<Rightarrow> (jid \<times> string \<times> string option) list \<Rightarrow> jid channel" where
  "whatsapp_run ToNonAD show_jid allowList ms =
     fold (\<lambda>(sender, conversation, extended). whatsapp_handleMessage ToNonAD show_jid allowList sender conversation extended) ms (new_channel ''wa'' jid_user)"

definition whatsapp_text :: "string \<times> string option \<Rightarrow> string" where
  "whatsapp_text m = (if fst m = [] then (case snd m of Some t \<Rightarrow> t | None \<Rightarrow> []) else fst m)"

lemma whatsapp_message:
  "whatsapp_handleMessage ToNonAD show_jid allowList sender conversation extended st =
   (if (allowList = [] \<or> jid_user sender \<in> set allowList) \<and> whatsapp_text (conversation, extended) \<noteq> []
    then receive_text ''whatsapp'' (ToNonAD sender) (show_jid (ToNonAD sender)) (whatsapp_text (conversation, extended)) st else st)"
  by (simp add: whatsapp_handleMessage_def whatsapp_text_def Let_def)

lemma whatsapp_texts:
  "whatsapp_run ToNonAD show_jid allowList ms =
   fold (\<lambda>(chat, peer, t). receive_text ''whatsapp'' chat peer t)
     (map (\<lambda>(sender, m). (ToNonAD sender, show_jid (ToNonAD sender), whatsapp_text m))
       (filter (\<lambda>(sender, m). (allowList = [] \<or> jid_user sender \<in> set allowList) \<and> whatsapp_text m \<noteq> []) ms)) (new_channel ''wa'' jid_user)"
proof -
  have "fold (\<lambda>(sender, conversation, extended). whatsapp_handleMessage ToNonAD show_jid allowList sender conversation extended) ms st =
   fold (\<lambda>(chat, peer, t). receive_text ''whatsapp'' chat peer t)
     (map (\<lambda>(sender, m). (ToNonAD sender, show_jid (ToNonAD sender), whatsapp_text m))
       (filter (\<lambda>(sender, m). (allowList = [] \<or> jid_user sender \<in> set allowList) \<and> whatsapp_text m \<noteq> []) ms)) st" for st
    by (induction ms arbitrary: st) (simp_all add: whatsapp_message split_beta)
  then show ?thesis by (simp add: whatsapp_run_def)
qed


end
