(* ===== verification/Gateway.thy ===== *)
theory Gateway
  imports Channel_Delivery A2A_Server Scheduler
begin

section \<open>The gateway (\<^verbatim>\<open>pkg/gateway/gateway.go\<close>, \<^verbatim>\<open>websocket.go\<close>, \<^verbatim>\<open>pkg/channels/webchat\<close>)\<close>

text \<open>
  The HTTP server: its routes and their authentication, the web socket of the chat page, and the adapter that keeps the
  connected pages. Matching a path to a route is the router library's, so a request is given by its route. The JSON of a
  frame is decoded by the argument \<open>parse\<close>.
\<close>

definition resolveAddr :: "string \<Rightarrow> int \<Rightarrow> string" where
  "resolveAddr bind port =
     (let host = (if bind = ''lan'' \<or> bind = ''all'' then ''0.0.0.0'' else if bind = ''loopback'' \<or> bind = [] then ''127.0.0.1'' else bind)
      in host @ '':'' @ int_to_dec port)"

subsection \<open>Connected pages (\<^verbatim>\<open>webchat.go\<close>)\<close>

text \<open>
  A client is a buffered channel of 64 texts that is closed when the page leaves. Clients are allocated on a heap:
  \<^verbatim>\<open>Send\<close> looks the client up under the lock, but sends after releasing it.
\<close>

record webchat_client =
  cl_session :: string
  cl_buffer :: "string list"
  cl_closed :: bool

record webchat =
  wc_clients :: "(string, nat) gomap"
  wc_heap :: "webchat_client list"
  wc_inbound :: "inbound_message list"
  wc_stopped :: bool

definition NewWebchat :: webchat where
  "NewWebchat = \<lparr>wc_clients = [], wc_heap = [], wc_inbound = [], wc_stopped = False\<rparr>"

definition RegisterClient :: "string \<Rightarrow> webchat \<Rightarrow> nat \<times> webchat" where
  "RegisterClient sid a =
     (let p = length (wc_heap a) in
      (p, a\<lparr>wc_heap := wc_heap a @ [\<lparr>cl_session = sid, cl_buffer = [], cl_closed = False\<rparr>], wc_clients := gomap_put sid p (wc_clients a)\<rparr>))"

definition close_client :: "nat \<Rightarrow> webchat \<Rightarrow> webchat" where
  "close_client p a = a\<lparr>wc_heap := (wc_heap a)[p := (wc_heap a ! p)\<lparr>cl_closed := True\<rparr>]\<rparr>"

definition UnregisterClient :: "string \<Rightarrow> webchat \<Rightarrow> webchat" where
  "UnregisterClient sid a =
     (case map_of (wc_clients a) sid of
        None \<Rightarrow> a
      | Some p \<Rightarrow> (close_client p a)\<lparr>wc_clients := gomap_delete sid (wc_clients a)\<rparr>)"

definition webchat_Stop :: "webchat \<Rightarrow> webchat" where
  "webchat_Stop a = (fold (\<lambda>(sid, p). close_client p) (wc_clients a) a)\<lparr>wc_clients := [], wc_stopped := True\<rparr>"

text \<open>The non-blocking send on a client's channel; a send on a closed channel panics.\<close>

datatype offer = Queued | Full | Panic

definition webchat_offer :: "nat \<Rightarrow> string \<Rightarrow> webchat \<Rightarrow> offer \<times> webchat" where
  "webchat_offer p content a =
     (let c = wc_heap a ! p in
      if cl_closed c then (Panic, a)
      else if length (cl_buffer c) < 64 then (Queued, a\<lparr>wc_heap := (wc_heap a)[p := c\<lparr>cl_buffer := cl_buffer c @ [content]\<rparr>]\<rparr>)
      else (Full, a))"

definition webchat_Send :: "string \<Rightarrow> string \<Rightarrow> webchat \<Rightarrow> offer option \<times> webchat" where
  "webchat_Send sid content a =
     (case map_of (wc_clients a) sid of
        None \<Rightarrow> (None, a)
      | Some p \<Rightarrow> apfst Some (webchat_offer p content a))"

definition PushInbound :: "inbound_message \<Rightarrow> webchat \<Rightarrow> webchat" where
  "PushInbound msg a = (if length (wc_inbound a) < 256 then a\<lparr>wc_inbound := wc_inbound a @ [msg]\<rparr> else a)"

subsection \<open>Frames\<close>

record ws_incoming =
  wi_type :: string
  wi_session :: string
  wi_content :: string
  wi_request :: string
  wi_approved :: "bool option"

record ws_outgoing =
  wo_type :: string
  wo_session :: string
  wo_content :: string
  wo_error :: string
  wo_tool :: string
  wo_input :: string
  wo_request :: string

definition ws_frame :: "string \<Rightarrow> string \<Rightarrow> string \<Rightarrow> ws_outgoing" where
  "ws_frame ty sid content = \<lparr>wo_type = ty, wo_session = sid, wo_content = content, wo_error = [], wo_tool = [], wo_input = [], wo_request = []\<rparr>"

definition ws_error :: "string \<Rightarrow> ws_outgoing" where
  "ws_error e = (ws_frame ''error'' [] [])\<lparr>wo_error := e\<rparr>"

fun event_frame :: "string \<Rightarrow> turn_event \<Rightarrow> ws_outgoing option" where
  "event_frame sid (TurnToken t) = Some (ws_frame ''token'' sid t)"
| "event_frame sid (TurnToolCall tc m) = Some ((ws_frame ''tool_call'' sid m)\<lparr>wo_tool := tc_name tc, wo_input := tc_input tc\<rparr>)"
| "event_frame sid (TurnToolResult m) = Some (ws_frame ''tool_result'' sid m)"
| "event_frame sid (TurnApprovalNeeded r) =
     Some ((ws_frame ''approval_request'' sid [])\<lparr>wo_request := apr_id r, wo_tool := apr_tool r, wo_input := apr_input r\<rparr>)"
| "event_frame sid (TurnProgress m) = Some (ws_frame ''progress'' sid m)"
| "event_frame sid (TurnDone m u) = Some (ws_frame ''done'' sid m)"
| "event_frame sid (TurnError err) = Some (ws_error (err_msg err))"
| "event_frame sid (TurnToolStart tc m) = None"

definition event_frames :: "string \<Rightarrow> turn_event list \<Rightarrow> ws_outgoing list" where
  "event_frames sid evs = concat (map (\<lambda>e. case event_frame sid e of Some f \<Rightarrow> [f] | None \<Rightarrow> []) evs)"

subsection \<open>One connection\<close>

text \<open>
  Steps of a connection: a frame read from the page, or a text the adapter queued for it. The reader writes some frames
  itself (\<open>direct\<close>); the events of each turn are written by a goroutine of that turn, so they are a list of their
  own. What the page sees is an interleaving of these lists, each frame whole.
\<close>

datatype ws_step = Received string | Forwarded string

record ws_session =
  ws_direct :: "ws_outgoing list"
  ws_turns :: "ws_outgoing list list"
  ws_approver :: "approver option"
  ws_world :: world

definition ws_write :: "ws_outgoing \<Rightarrow> ws_session \<Rightarrow> ws_session" where
  "ws_write f s = s\<lparr>ws_direct := ws_direct s @ [f]\<rparr>"

definition ws_incoming_step :: "runtime \<Rightarrow> agent_env \<Rightarrow> go_ctx \<Rightarrow> string \<Rightarrow> ws_incoming \<Rightarrow> ws_session \<Rightarrow> ws_session" where
  "ws_incoming_step rt env ctx sid m s =
     (if wi_type m = ''approval_response'' \<and> wi_request m \<noteq> [] \<and> wi_approved m \<noteq> None
      then s\<lparr>ws_approver := map_option (\<lambda>a. Respond a (wi_request m) (the (wi_approved m))) (ws_approver s)\<rparr>
      else if wi_content m = [] then s
      else (case RunTurn rt env ctx sid (wi_content m) (ws_world s) of
        (Inl err, w) \<Rightarrow> ws_write (ws_error ''failed to process message'') (s\<lparr>ws_world := w\<rparr>)
      | (Inr _, w) \<Rightarrow> s\<lparr>ws_turns := ws_turns s @ [event_frames sid (turn_events (ws_world s) w)], ws_world := w\<rparr>))"

definition ws_step_run :: "runtime \<Rightarrow> agent_env \<Rightarrow> go_ctx \<Rightarrow> (string \<Rightarrow> ws_incoming option) \<Rightarrow> string \<Rightarrow> ws_step \<Rightarrow> ws_session \<Rightarrow> ws_session" where
  "ws_step_run rt env ctx parse sid step s =
     (case step of
        Forwarded msg \<Rightarrow> ws_write (ws_frame ''message'' sid msg) s
      | Received data \<Rightarrow> (case parse data of
          None \<Rightarrow> ws_write (ws_error ''invalid message format'') s
        | Some m \<Rightarrow> ws_incoming_step rt env ctx sid m s))"

definition handleWebSocket :: "runtime \<Rightarrow> agent_env \<Rightarrow> go_ctx \<Rightarrow> (string \<Rightarrow> ws_incoming option) \<Rightarrow> string \<Rightarrow> ws_step list \<Rightarrow> approver option \<Rightarrow> world \<Rightarrow> ws_session" where
  "handleWebSocket rt env ctx parse sid steps approver w =
     fold (ws_step_run rt env ctx parse sid) steps
       \<lparr>ws_direct = [ws_frame ''session'' sid []], ws_turns = [], ws_approver = approver, ws_world = w\<rparr>"

subsection \<open>Routes\<close>

datatype gateway_request =
    ReqHealthz | ReqReadyz | ReqMetrics | ReqPage
  | ReqWebSocket bool string "ws_step list"
  | ReqWebhooks webhook_request
  | ReqA2A string a2a_route

datatype gateway_reply =
    ReplyJSON nat string
  | ReplyMetrics
  | ReplyPage
  | ReplySocket "ws_outgoing list" "ws_outgoing list list"
  | ReplyNoSocket
  | ReplyWebhook nat string
  | ReplyA2A a2a_reply
  | ReplyNotFound

record gateway =
  gt_token :: string
  gt_approver :: "approver option"
  gt_webhooks :: "webhook_handler option"
  gt_a2a :: "a2a option"
  gt_chat :: webchat
  gt_world :: world

definition gateway_auth :: "string \<Rightarrow> string \<Rightarrow> bool" where
  "gateway_auth authToken header =
     (let token = TrimPrefix header ''Bearer '' in \<not> (token = [] \<or> token = header \<or> token \<noteq> authToken))"

text \<open>The libraries and the environment of a request; the A2A handler works on the shared world of the runtime.\<close>

record gateway_env =
  ge_runtime :: runtime
  ge_agent :: agent_env
  ge_ctx :: go_ctx
  ge_parse :: "string \<Rightarrow> ws_incoming option"
  ge_hmac :: "string \<Rightarrow> string \<Rightarrow> string"
  ge_payload :: "string \<Rightarrow> webhook_payload option"
  ge_others :: "task_store \<Rightarrow> task_store"

definition gateway_group :: "gateway_env \<Rightarrow> gateway_request \<Rightarrow> gateway \<Rightarrow> gateway_reply \<times> gateway" where
  "gateway_group ge req g =
     (case req of
        ReqWebSocket accepted sid steps \<Rightarrow>
          if \<not> accepted then (ReplyNoSocket, g)
          else (let chat1 = snd (RegisterClient sid (gt_chat g));
                    s = handleWebSocket (ge_runtime ge) (ge_agent ge) (ge_ctx ge) (ge_parse ge) sid steps (gt_approver g) (gt_world g)
                in (ReplySocket (ws_direct s) (ws_turns s),
                    g\<lparr>gt_chat := UnregisterClient sid chat1, gt_approver := ws_approver s, gt_world := ws_world s\<rparr>))
      | ReqWebhooks r \<Rightarrow> (case gt_webhooks g of
          None \<Rightarrow> (ReplyNotFound, g)
        | Some wh \<Rightarrow> (case webhook_ServeHTTP (ge_hmac ge) (ge_payload ge) wh r of ((code, body), _) \<Rightarrow> (ReplyWebhook code body, g)))
      | _ \<Rightarrow> (ReplyPage, g))"

text \<open>The middleware of the group; a route that is not registered is not found whatever the header says.\<close>

definition unauthorized_reply :: gateway_reply where
  "unauthorized_reply = ReplyJSON 401 (''{\"error\":\"unauthorized\"}'' @ nl)"

definition authMiddleware :: "string \<Rightarrow> (gateway \<Rightarrow> gateway_reply \<times> gateway) \<Rightarrow> string \<Rightarrow> gateway \<Rightarrow> gateway_reply \<times> gateway" where
  "authMiddleware authToken next_handler header g =
     (if \<not> gateway_auth authToken header then (unauthorized_reply, g) else next_handler g)"

definition handleHealthz :: gateway_reply where [simp]: "handleHealthz = ReplyJSON 200 ''{\"status\":\"ok\"}''"
definition handleReadyz :: gateway_reply where [simp]: "handleReadyz = ReplyJSON 200 ''{\"status\":\"ready\"}''"

definition guarded_group :: "gateway_env \<Rightarrow> string \<Rightarrow> gateway_request \<Rightarrow> gateway \<Rightarrow> gateway_reply \<times> gateway" where
  "guarded_group ge header req g =
     (if gt_token g \<noteq> [] then authMiddleware (gt_token g) (gateway_group ge req) header g else gateway_group ge req g)"

definition gateway_serve :: "gateway_env \<Rightarrow> string \<Rightarrow> gateway_request \<Rightarrow> gateway \<Rightarrow> gateway_reply \<times> gateway" where
  "gateway_serve ge header req g =
     (case req of
        ReqHealthz \<Rightarrow> (handleHealthz, g)
      | ReqReadyz \<Rightarrow> (handleReadyz, g)
      | ReqMetrics \<Rightarrow> (ReplyMetrics, g)
      | ReqA2A newID route \<Rightarrow> (case gt_a2a g of
          None \<Rightarrow> (ReplyNotFound, g)
        | Some h \<Rightarrow> (case ServeHTTP (ge_runtime ge) (ge_agent ge) (ge_ctx ge) (ge_others ge) newID header route (h\<lparr>a2a_world := gt_world g\<rparr>) of
            (reply, h1) \<Rightarrow> (ReplyA2A reply, g\<lparr>gt_a2a := Some h1, gt_world := a2a_world h1\<rparr>)))
      | ReqWebhooks r \<Rightarrow> if gt_webhooks g = None then (ReplyNotFound, g) else guarded_group ge header req g
      | _ \<Rightarrow> guarded_group ge header req g)"

subsection \<open>The server\<close>

text \<open>
  What \<^verbatim>\<open>registerRoutes\<close> tells the router: method, pattern, and whether the token guards the route. The empty
  method stands for any.
\<close>

record gateway_params =
  gp_bind :: string
  gp_port :: int
  gp_approver :: "approver option"
  gp_webhooks :: "webhook_handler option"
  gp_a2a :: "a2a option"
  gp_chat :: webchat
  gp_token :: string

definition registerRoutes :: "gateway \<Rightarrow> (string \<times> string \<times> bool) list" where
  "registerRoutes g =
     [(''GET'', ''/healthz'', False), (''GET'', ''/readyz'', False), ([], ''/metrics'', False)]
     @ (if gt_a2a g \<noteq> None then [([], ''/'', False)] else [])
     @ map (\<lambda>(meth, pat). (meth, pat, gt_token g \<noteq> []))
         ([(''GET'', ''/''), (''GET'', ''/ws'')] @ (if gt_webhooks g \<noteq> None then [(''POST'', ''/webhooks'')] else []))"

record gateway_server =
  gs_gateway :: gateway
  gs_routes :: "(string \<times> string \<times> bool) list"
  gs_addr :: string
  gs_read_header_timeout :: duration
  gs_idle_timeout :: duration

definition gateway_New :: "gateway_params \<Rightarrow> world \<Rightarrow> gateway_server" where
  "gateway_New p w =
     (let g = \<lparr>gt_token = gp_token p, gt_approver = gp_approver p, gt_webhooks = gp_webhooks p, gt_a2a = gp_a2a p, gt_chat = gp_chat p, gt_world = w\<rparr>
      in \<lparr>gs_gateway = g, gs_routes = registerRoutes g, gs_addr = resolveAddr (gp_bind p) (gp_port p),
          gs_read_header_timeout = 10 * second, gs_idle_timeout = 120 * second\<rparr>)"

text \<open>How serving ends: the context is done first, or the server returns, with \<^term>\<open>None\<close> for \<^verbatim>\<open>ErrServerClosed\<close>.\<close>

datatype serve_end = ServeCancelled | ServeReturned "go_error option"

definition gateway_shutdown :: "(duration \<Rightarrow> go_error option) \<Rightarrow> go_error option" where
  "gateway_shutdown server_shutdown = server_shutdown (10 * second)"

definition gateway_Start :: "(string \<Rightarrow> go_error option) \<Rightarrow> serve_end \<Rightarrow> (duration \<Rightarrow> go_error option) \<Rightarrow> gateway_server \<Rightarrow> go_error option" where
  "gateway_Start listen served server_shutdown s =
     (case listen (gs_addr s) of
        Some err \<Rightarrow> Some (ErrWrap ''gateway listen: '' err)
      | None \<Rightarrow> (case served of
          ServeCancelled \<Rightarrow> gateway_shutdown server_shutdown
        | ServeReturned err \<Rightarrow> err))"

text \<open>The route a request was matched to; the handler mounted for the agent-to-agent server matches everything else.\<close>

fun route_of :: "gateway_request \<Rightarrow> string \<times> string" where
  "route_of ReqHealthz = (''GET'', ''/healthz'')"
| "route_of ReqReadyz = (''GET'', ''/readyz'')"
| "route_of ReqMetrics = ([], ''/metrics'')"
| "route_of ReqPage = (''GET'', ''/'')"
| "route_of (ReqWebSocket accepted sid steps) = (''GET'', ''/ws'')"
| "route_of (ReqWebhooks r) = (''POST'', ''/webhooks'')"
| "route_of (ReqA2A newID route) = ([], ''/'')"

lemma gateway_New_simps [simp]:
  "gs_routes (gateway_New p w) = registerRoutes (gs_gateway (gateway_New p w))"
  "gs_addr (gateway_New p w) = resolveAddr (gp_bind p) (gp_port p)"
  "gt_token (gs_gateway (gateway_New p w)) = gp_token p" "gt_a2a (gs_gateway (gateway_New p w)) = gp_a2a p"
  "gt_webhooks (gs_gateway (gateway_New p w)) = gp_webhooks p"
  by (simp_all add: gateway_New_def Let_def)

subsection \<open>Pages stay reachable\<close>

text \<open>Registered clients are allocated, open and registered under their own session.\<close>

definition webchat_ok :: "webchat \<Rightarrow> bool" where
  "webchat_ok a \<longleftrightarrow> gomap_ok (wc_clients a)
     \<and> (\<forall>sid p. map_of (wc_clients a) sid = Some p \<longrightarrow> p < length (wc_heap a) \<and> \<not> cl_closed (wc_heap a ! p) \<and> cl_session (wc_heap a ! p) = sid)"

locale webchat_operation =
  fixes run :: "webchat \<Rightarrow> webchat"
  assumes keeps: "webchat_ok a \<Longrightarrow> webchat_ok (run a)"
begin

lemma keeps_run: "webchat_ok a \<Longrightarrow> webchat_ok ((run ^^ n) a)"
  by (induction n) (simp_all add: keeps)

end

lemma webchat_ok_client:
  "webchat_ok a \<Longrightarrow> map_of (wc_clients a) sid = Some p \<Longrightarrow>
     p < length (wc_heap a) \<and> \<not> cl_closed (wc_heap a ! p) \<and> cl_session (wc_heap a ! p) = sid"
  by (simp add: webchat_ok_def)

lemma webchat_ok_same:
  "webchat_ok a \<Longrightarrow> map_of (wc_clients a) sid = Some p \<Longrightarrow> map_of (wc_clients a) sid' = Some p \<Longrightarrow> sid' = sid"
  using webchat_ok_client by metis

lemma webchat_ok_NewWebchat [simp]: "webchat_ok NewWebchat"
  by (simp add: webchat_ok_def NewWebchat_def gomap_ok_def)

interpretation webchat_Register: webchat_operation "\<lambda>a. snd (RegisterClient sid a)" for sid
proof unfold_locales
  fix a assume ok: "webchat_ok a"
  have "gomap_ok (gomap_put sid (length (wc_heap a)) (wc_clients a))" using ok by (simp add: webchat_ok_def)
  moreover have "p < Suc (length (wc_heap a)) \<and> \<not> cl_closed ((wc_heap a @ [c]) ! p) \<and> cl_session ((wc_heap a @ [c]) ! p) = sid'"
    if "map_of (gomap_put sid (length (wc_heap a)) (wc_clients a)) sid' = Some p" "c = \<lparr>cl_session = sid, cl_buffer = [], cl_closed = False\<rparr>"
    for sid' p c
    using that webchat_ok_client [OF ok, of sid' p] by (auto simp: nth_append split: if_splits)
  ultimately show "webchat_ok (snd (RegisterClient sid a))"
    by (auto simp: webchat_ok_def RegisterClient_def Let_def)
qed

lemma nth_updated: "j < length xs \<Longrightarrow> xs[i := v] ! j = (if i = j then v else xs ! j)"
  by (cases "i = j") simp_all

interpretation webchat_Unregister: webchat_operation "UnregisterClient sid" for sid
proof unfold_locales
  fix a assume ok: "webchat_ok a"
  show "webchat_ok (UnregisterClient sid a)"
  proof (cases "map_of (wc_clients a) sid")
    case None
    with ok show ?thesis by (simp add: UnregisterClient_def)
  next
    case (Some p)
    have "p' \<noteq> p" if "sid' \<noteq> sid" "map_of (wc_clients a) sid' = Some p'" for sid' p'
      using that webchat_ok_same [OF ok Some, of sid'] by auto
    with ok Some show ?thesis by (auto simp: webchat_ok_def UnregisterClient_def close_client_def nth_updated)
  qed
qed

interpretation webchat_Stopped: webchat_operation webchat_Stop
  by unfold_locales (simp add: webchat_ok_def webchat_Stop_def gomap_ok_def)

lemma webchat_offer_ok: "webchat_ok a \<Longrightarrow> webchat_ok (snd (webchat_offer p content a))"
  by (auto simp: webchat_ok_def webchat_offer_def Let_def nth_updated)

interpretation webchat_Sent: webchat_operation "\<lambda>a. snd (webchat_Send sid content a)" for sid content
  by unfold_locales (simp add: webchat_Send_def webchat_offer_ok split: option.split)

interpretation webchat_Pushed: webchat_operation "PushInbound msg" for msg
  by unfold_locales (simp add: webchat_ok_def PushInbound_def)

text \<open>
  A send that runs without interruption reaches a page that is connected and never panics. The code looks the page up
  under the lock and sends after releasing it: if the page leaves in between, the send is on a closed channel.
\<close>

lemma webchat_Send_connected:
  assumes "webchat_ok a" "webchat_Send sid content a = (r, a')"
  shows "(r = None \<longleftrightarrow> map_of (wc_clients a) sid = None) \<and> r \<noteq> Some Panic"
  using assms webchat_ok_client [OF assms(1), of sid]
  by (auto simp: webchat_Send_def webchat_offer_def Let_def split: option.splits if_splits)

lemma webchat_send_after_leave_panics:
  assumes "webchat_ok a" "map_of (wc_clients a) sid = Some p"
  shows "fst (webchat_offer p content (UnregisterClient sid a)) = Panic"
  using assms webchat_ok_client [OF assms] by (simp add: webchat_offer_def UnregisterClient_def close_client_def)

subsection \<open>What a connection sees\<close>

definition closes :: "ws_outgoing \<Rightarrow> bool" where
  "closes f \<longleftrightarrow> wo_type f = ''done'' \<or> wo_type f = ''error''"

text \<open>The frames of a turn: those of its session while it runs, and one that closes it.\<close>

definition turn_frames :: "string \<Rightarrow> ws_outgoing list \<Rightarrow> bool" where
  "turn_frames sid fs \<longleftrightarrow> fs \<noteq> [] \<and> list_all (\<lambda>f. \<not> closes f \<and> wo_session f = sid) (butlast fs) \<and> closes (List.last fs)"

text \<open>The frames the page sent that ask for a turn, and those that answer an approval.\<close>

definition answers :: "ws_incoming \<Rightarrow> bool" where
  "answers m \<longleftrightarrow> wi_type m = ''approval_response'' \<and> wi_request m \<noteq> [] \<and> wi_approved m \<noteq> None"

fun asks :: "(string \<Rightarrow> ws_incoming option) \<Rightarrow> ws_step \<Rightarrow> bool" where
  "asks parse (Forwarded t) = False"
| "asks parse (Received data) = (case parse data of None \<Rightarrow> False | Some m \<Rightarrow> \<not> answers m \<and> wi_content m \<noteq> [])"

definition refused :: "ws_session \<Rightarrow> ws_outgoing list" where
  "refused s = filter (\<lambda>f. wo_error f = ''failed to process message'') (ws_direct s)"

lemma event_frame_kinds:
  "terminal e \<Longrightarrow> \<exists>f. event_frame sid e = Some f \<and> closes f"
  "\<not> terminal e \<Longrightarrow> event_frame sid e = Some f \<Longrightarrow> \<not> closes f \<and> wo_session f = sid"
  by (cases e; auto simp: closes_def ws_frame_def ws_error_def)+

lemma event_frames_turn:
  assumes "list_all (\<lambda>x. \<not> terminal x) mid" "terminal e"
  shows "turn_frames sid (event_frames sid (mid @ [e]))"
proof -
  from event_frame_kinds(1) [OF assms(2)] obtain f where f: "event_frame sid e = Some f" "closes f" by blast
  have "list_all (\<lambda>f. \<not> closes f \<and> wo_session f = sid) (event_frames sid mid)"
    using assms(1) event_frame_kinds(2) by (fastforce simp: event_frames_def list_all_iff split: option.splits)
  moreover have "event_frames sid (mid @ [e]) = event_frames sid mid @ [f]" using f by (simp add: event_frames_def)
  ultimately show ?thesis using f by (simp add: turn_frames_def)
qed

definition connection_ok :: "string \<Rightarrow> nat \<Rightarrow> ws_session \<Rightarrow> bool" where
  "connection_ok sid n s \<longleftrightarrow> list_all (turn_frames sid) (ws_turns s) \<and> length (ws_turns s) + length (refused s) = n
     \<and> (\<exists>rest. ws_direct s = ws_frame ''session'' sid [] # rest \<and> list_all (\<lambda>f. wo_type f = ''message'' \<or> wo_type f = ''error'') rest)"

lemma connection_ok_write:
  "connection_ok sid n s \<Longrightarrow> wo_type f = ''message'' \<or> wo_type f = ''error'' \<Longrightarrow>
     connection_ok sid (if wo_error f = ''failed to process message'' then Suc n else n) (ws_write f s)"
  by (auto simp: connection_ok_def ws_write_def refused_def)

lemma connection_ok_frame:
  "connection_ok sid n s \<Longrightarrow> ws_direct s' = ws_direct s \<Longrightarrow> ws_turns s' = ws_turns s \<Longrightarrow> connection_ok sid n s'"
  by (simp add: connection_ok_def refused_def)

lemma ws_step_run_ok:
  assumes ok: "connection_ok sid n s" and ni: "\<not> interrupted rt env"
  shows "connection_ok sid (if asks parse step then Suc n else n) (ws_step_run rt env ctx parse sid step s)"
proof (cases step)
  case (Forwarded t)
  with connection_ok_write [OF ok, of "ws_frame ''message'' sid t"] show ?thesis by (simp add: ws_step_run_def ws_frame_def)
next
  case (Received data)
  show ?thesis
  proof (cases "parse data")
    case None
    with Received connection_ok_write [OF ok, of "ws_error ''invalid message format''"]
    show ?thesis by (simp add: ws_step_run_def ws_frame_def ws_error_def)
  next
    case (Some m)
    then have step: "ws_step_run rt env ctx parse sid step s = ws_incoming_step rt env ctx sid m s"
      "asks parse step \<longleftrightarrow> \<not> answers m \<and> wi_content m \<noteq> []" using Received by (simp_all add: ws_step_run_def)
    show ?thesis
    proof (cases "answers m \<or> wi_content m = []")
      case True
      then have "ws_direct (ws_incoming_step rt env ctx sid m s) = ws_direct s" "ws_turns (ws_incoming_step rt env ctx sid m s) = ws_turns s"
        by (auto simp: ws_incoming_step_def answers_def)
      with True step connection_ok_frame [OF ok] show ?thesis by auto
    next
      case False
      obtain r w' where run: "RunTurn rt env ctx sid (wi_content m) (ws_world s) = (r, w')" by force
      have asked: "ws_incoming_step rt env ctx sid m s = (case (r, w') of
          (Inl err, w) \<Rightarrow> ws_write (ws_error ''failed to process message'') (s\<lparr>ws_world := w\<rparr>)
        | (Inr _, w) \<Rightarrow> s\<lparr>ws_turns := ws_turns s @ [event_frames sid (turn_events (ws_world s) w)], ws_world := w\<rparr>)"
        using False by (auto simp: ws_incoming_step_def answers_def run)
      show ?thesis
      proof (cases r)
        case (Inl err)
        have "connection_ok sid n (s\<lparr>ws_world := w'\<rparr>)" by (rule connection_ok_frame [OF ok]) simp_all
        from connection_ok_write [OF this, of "ws_error ''failed to process message''"] False Inl
        show ?thesis by (simp add: step asked ws_error_def ws_frame_def)
      next
        case (Inr u)
        from RunTurn_out [OF run [unfolded Inr] ni] obtain mid e where
          "turn_events (ws_world s) w' = mid @ [e]" "list_all (\<lambda>x. \<not> terminal x) mid" "terminal e"
          by (auto simp: turn_events_def)
        then have "turn_frames sid (event_frames sid (turn_events (ws_world s) w'))" using event_frames_turn by simp
        with ok False Inr show ?thesis by (simp add: step asked connection_ok_def refused_def)
      qed
    qed
  qed
qed

lemma ws_steps_ok:
  "connection_ok sid n s \<Longrightarrow> \<not> interrupted rt env \<Longrightarrow>
     connection_ok sid (n + length (filter (asks parse) steps)) (fold (ws_step_run rt env ctx parse sid) steps s)"
proof (induction steps arbitrary: n s)
  case (Cons step steps)
  from Cons.IH [OF ws_step_run_ok [OF Cons.prems, of parse step ctx] Cons.prems(2)] show ?case by (auto split: if_splits)
qed simp


definition demo_parse :: "string \<Rightarrow> ws_incoming option" where
  "demo_parse d = (if d = [] then None else Some \<lparr>wi_type = ''message'', wi_session = [], wi_content = d, wi_request = [], wi_approved = None\<rparr>)"


subsection \<open>Who is served\<close>

lemma gateway_auth_bearer: "gateway_auth tok header = bearer_ok tok header"
  by (auto simp: gateway_auth_def bearer_ok_def Let_def)

fun guarded :: "gateway \<Rightarrow> gateway_request \<Rightarrow> bool" where
  "guarded g ReqPage = True"
| "guarded g (ReqWebSocket accepted sid steps) = True"
| "guarded g (ReqWebhooks r) = (gt_webhooks g \<noteq> None)"
| "guarded g req = False"

text \<open>
  C32: the gateway's token guards the page, its web socket and the webhooks. With a token these routes answer 401 and
  change nothing unless the header is \<open>Bearer\<close> and the token, and are served with that header; without a token they are
  served to everyone. The other routes ignore the header of the gateway: the health checks and metrics change
  nothing, and an agent-to-agent request is judged by the token of that server alone.
\<close>

theorem gateway_requests_guarded:
  "(guarded g req \<and> gt_token g \<noteq> [] \<and> header \<noteq> ''Bearer '' @ gt_token g \<longrightarrow>
      gateway_serve ge header req g = (unauthorized_reply, g))
    \<and> (guarded g req \<and> (gt_token g = [] \<or> header = ''Bearer '' @ gt_token g) \<longrightarrow> gateway_serve ge header req g = gateway_group ge req g)
    \<and> (req \<in> {ReqHealthz, ReqReadyz, ReqMetrics, ReqPage} \<longrightarrow> snd (gateway_serve ge header req g) = g)
    \<and> (\<forall>h newID route. req = ReqA2A newID route \<and> gt_a2a g = Some h \<longrightarrow>
        fst (gateway_serve ge header req g) = ReplyA2A (fst (ServeHTTP (ge_runtime ge) (ge_agent ge) (ge_ctx ge) (ge_others ge) newID header route (h\<lparr>a2a_world := gt_world g\<rparr>))))"
  by (cases req) (auto simp: gateway_serve_def guarded_group_def authMiddleware_def gateway_group_def gateway_auth_bearer bearer_ok_iff split: prod.split)

text \<open>
  Serving agrees with what was registered: the routes not found are those not registered, and the routes whose answer
  without a header is the refusal are those registered as guarded.
\<close>

lemma gateway_serves_routes:
  "(fst (gateway_serve ge header req g) = ReplyNotFound \<longleftrightarrow> route_of req \<notin> (\<lambda>(meth, pat, guard). (meth, pat)) ` set (registerRoutes g))
   \<and> (fst (gateway_serve ge [] req g) = unauthorized_reply \<longleftrightarrow> (fst (route_of req), snd (route_of req), True) \<in> set (registerRoutes g))"
  by (cases req)
    (auto simp: gateway_serve_def guarded_group_def authMiddleware_def gateway_group_def registerRoutes_def gateway_auth_bearer bearer_ok_iff
      unauthorized_reply_def Let_def split: prod.split option.split)

lemma gateway_Start_ok:
  "gateway_Start listen served server_shutdown (gateway_New p w) = None \<longleftrightarrow>
     listen (resolveAddr (gp_bind p) (gp_port p)) = None
     \<and> (served = ServeCancelled \<and> server_shutdown (10 * second) = None \<or> served = ServeReturned None)"
  by (auto simp: gateway_Start_def gateway_shutdown_def split: option.split serve_end.split)

text \<open>
  The agent-to-agent server is mounted beside the guarded group. Its own token is empty by default, and then it runs
  turns for everyone who reaches the port, whatever token guards the gateway.
\<close>

lemma a2a_ignores_gateway_token:
  assumes "gt_a2a g = Some h" "a2a_token h = []"
  shows "fst (gateway_serve ge header (ReqA2A newID route) g) =
    ReplyA2A (fst (serve_route (ge_runtime ge) (ge_agent ge) (ge_ctx ge) (ge_others ge) newID route (h\<lparr>a2a_world := gt_world g\<rparr>)))"
  using assms by (simp add: gateway_serve_def ServeHTTP_def split: prod.split)

definition demo_gateway :: gateway where
  "demo_gateway = \<lparr>gt_token = ''t'', gt_approver = None, gt_webhooks = None, gt_a2a = None, gt_chat = NewWebchat, gt_world = demo_world\<rparr>"

definition demo_gateway_env :: gateway_env where
  "demo_gateway_env = \<lparr>ge_runtime = demo_rt, ge_agent = demo_env, ge_ctx = demo_ctx, ge_parse = demo_parse,
     ge_hmac = (\<lambda>k b. k @ b), ge_payload = (\<lambda>b. None), ge_others = (\<lambda>s. s)\<rparr>"

theorem gateway_requests_guarded_witness:
  "gateway_serve demo_gateway_env ''Bearer x'' (ReqWebSocket True ''s1'' [Received ''hello'']) demo_gateway
     = (unauthorized_reply, demo_gateway)
   \<and> gateway_serve demo_gateway_env ''Bearer t'' ReqPage demo_gateway = gateway_group demo_gateway_env ReqPage demo_gateway"
  using gateway_requests_guarded [of demo_gateway "ReqWebSocket True ''s1'' [Received ''hello'']" "''Bearer x''" demo_gateway_env]
    gateway_requests_guarded [of demo_gateway ReqPage "''Bearer t''" demo_gateway_env]
  by (simp add: demo_gateway_def)

end
