(* ===== verification/Channel_Setup.thy ===== *)
theory Channel_Setup
  imports Startup_Facts Channel_Adapters Gateway
begin

section \<open>The channels and the gateway of the started program\<close>

text \<open>
  The constructors of the adapters fill the place that \<^verbatim>\<open>initChannelAdapters\<close> leaves open, and the parts that the
  start command has made are joined in the gateway, so that claims about one of them become claims about the program.
\<close>

text \<open>The adapters with the optional interfaces that their types implement, and what the constructors yield.\<close>

definition adapter_of :: "string \<Rightarrow> adapter" where
  "adapter_of name =
     \<lparr>ad_name = name, ad_approval_sender = (name \<in> {''telegram'', ''discord'', ''slack''}),
      ad_typing = (name \<noteq> ''slack''), ad_progress = False\<rparr>"

definition new_adapter :: "(string \<Rightarrow> string) \<Rightarrow> adapter_args \<Rightarrow> go_error + adapter" where
  "new_adapter getenv args =
     (case args of
        TelegramArgs token \<Rightarrow> map_sum id (\<lambda>_. adapter_of ''telegram'') (telegram_New getenv token)
      | DiscordArgs token \<Rightarrow> map_sum id (\<lambda>_. adapter_of ''discord'') (discord_New getenv token)
      | SlackArgs botToken appToken \<Rightarrow> map_sum id (\<lambda>_. adapter_of ''slack'') (slack_New getenv botToken appToken)
      | WhatsAppArgs dbPath allowList \<Rightarrow> (case whatsapp_New getenv dbPath of (_, _) \<Rightarrow> Inr (adapter_of ''whatsapp''))
      | MatrixArgs \<Rightarrow> map_sum id (\<lambda>_. adapter_of ''matrix'') (matrix_New getenv [] [] []))"

definition started_params :: "started \<Rightarrow> gateway_params" where
  "started_params s =
     \<lparr>gp_bind = gw_bind (co_gateway (sd_config s)), gp_port = gw_port (co_gateway (sd_config s)),
      gp_approver = Some (NewApprover (ag_tool_approval (co_agent (sd_config s)))), gp_webhooks = Some (sd_webhooks s),
      gp_a2a = sd_a2a s, gp_chat = NewWebchat, gp_token = gw_auth_token (co_gateway (sd_config s))\<rparr>"

definition started_server :: "started \<Rightarrow> world \<Rightarrow> gateway_server" where
  "started_server s w = gateway_New (started_params s) w"

definition started_gateway :: "started \<Rightarrow> world \<Rightarrow> gateway" where
  "started_gateway s w = gs_gateway (started_server s w)"

text \<open>The end of \<^verbatim>\<open>runStart\<close>: it serves until the gateway returns.\<close>

definition serve_started :: "(string \<Rightarrow> go_error option) \<Rightarrow> serve_end \<Rightarrow> (duration \<Rightarrow> go_error option) \<Rightarrow> started \<Rightarrow> world \<Rightarrow> go_error option" where
  "serve_started listen served server_shutdown s w =
     map_option (ErrWrap ''gateway error: '') (gateway_Start listen served server_shutdown (started_server s w))"

lemma serve_started_ok:
  "serve_started listen served server_shutdown s w = None \<longleftrightarrow>
     listen (resolveAddr (gw_bind (co_gateway (sd_config s))) (gw_port (co_gateway (sd_config s)))) = None
     \<and> (served = ServeCancelled \<and> server_shutdown (10 * second) = None \<or> served = ServeReturned None)"
  unfolding serve_started_def started_server_def option.map_disc_iff gateway_Start_ok by (simp add: started_params_def)

subsection \<open>Which channels run\<close>

text \<open>
  A channel runs if it is switched on or has its variable set, has the credentials its constructor wants, and starts.
\<close>

definition wanted :: "(string \<Rightarrow> string) \<Rightarrow> config \<Rightarrow> string \<Rightarrow> string \<Rightarrow> bool" where
  "wanted getenv cfg name var \<longleftrightarrow> channelEnabled cfg name \<or> getenv var \<noteq> []"

definition token_set :: "(string \<Rightarrow> string) \<Rightarrow> config \<Rightarrow> string \<Rightarrow> string \<Rightarrow> bool" where
  "token_set getenv cfg name var \<longleftrightarrow> channelToken getenv cfg name \<noteq> [] \<or> getenv var \<noteq> []"

definition channel_specs :: "(string \<Rightarrow> string) \<Rightarrow> config \<Rightarrow> (string \<times> string \<times> bool) list" where
  "channel_specs getenv cfg =
     [(''telegram'', ''TELEGRAM_BOT_TOKEN'', token_set getenv cfg ''telegram'' ''TELEGRAM_BOT_TOKEN''),
      (''discord'', ''DISCORD_BOT_TOKEN'', token_set getenv cfg ''discord'' ''DISCORD_BOT_TOKEN''),
      (''slack'', ''SLACK_BOT_TOKEN'', token_set getenv cfg ''slack'' ''SLACK_BOT_TOKEN'' \<and> getenv ''SLACK_APP_TOKEN'' \<noteq> []),
      (''whatsapp'', ''WHATSAPP_DB_PATH'', True),
      (''matrix'', ''MATRIX_HOMESERVER'', getenv ''MATRIX_HOMESERVER'' \<noteq> [] \<and> getenv ''MATRIX_USER_ID'' \<noteq> [] \<and> getenv ''MATRIX_ACCESS_TOKEN'' \<noteq> [])]"

lemmas constructors = telegram_New_def discord_New_def slack_New_def matrix_New_def or_env_def

lemma init_adapters_specs:
  assumes "list_all2 (\<lambda>e (name, var, ok). ade_name e = name \<and> ade_envVar e = var
      \<and> (\<exists>err. new (ade_create e) = (if ok then Inr (adapter_of name) else Inl err))) es specs"
  shows "init_adapters getenv new start cfg es = map (\<lambda>(name, var, ok). adapter_of name)
    (filter (\<lambda>(name, var, ok). wanted getenv cfg name var \<and> ok \<and> start (adapter_of name) = None) specs)"
  using assms
proof (induction rule: list_all2_induct)
  case (Cons e es spec specs)
  obtain name var ok where spec: "spec = (name, var, ok)" by (cases spec)
  with Cons show ?case by (cases ok) (auto simp: wanted_def split: option.split)
qed simp

text \<open>
  The channels of the started program: exactly those channels run that are switched on or have their variable set, whose
  credentials are complete and whose client starts, in a fixed order. The web chat is never among them, and
  the credentials of Matrix come from the environment only.
\<close>

lemma channels_started:
  "initChannelAdapters getenv (new_adapter getenv) start cfg =
   map (\<lambda>(name, var, credentials). adapter_of name)
     (filter (\<lambda>(name, var, credentials). wanted getenv cfg name var \<and> credentials \<and> start (adapter_of name) = None) (channel_specs getenv cfg))"
proof -
  have n: "new_adapter getenv (TelegramArgs t) = (if t \<noteq> [] \<or> getenv ''TELEGRAM_BOT_TOKEN'' \<noteq> [] then Inr (adapter_of ''telegram'') else Inl (ErrText ''telegram: bot token not set''))"
    "new_adapter getenv (DiscordArgs t) = (if t \<noteq> [] \<or> getenv ''DISCORD_BOT_TOKEN'' \<noteq> [] then Inr (adapter_of ''discord'') else Inl (ErrText ''discord: bot token not set''))"
    "new_adapter getenv (SlackArgs t (getenv ''SLACK_APP_TOKEN'')) = (if (t \<noteq> [] \<or> getenv ''SLACK_BOT_TOKEN'' \<noteq> []) \<and> getenv ''SLACK_APP_TOKEN'' \<noteq> []
       then Inr (adapter_of ''slack'') else Inl (ErrText ''slack: bot token and app token required (set SLACK_BOT_TOKEN and SLACK_APP_TOKEN)''))"
    "new_adapter getenv (WhatsAppArgs p al) = (if True then Inr (adapter_of ''whatsapp'') else Inl Canceled)"
    "new_adapter getenv MatrixArgs = (if getenv ''MATRIX_HOMESERVER'' \<noteq> [] \<and> getenv ''MATRIX_USER_ID'' \<noteq> [] \<and> getenv ''MATRIX_ACCESS_TOKEN'' \<noteq> []
       then Inr (adapter_of ''matrix'') else Inl (ErrText ''matrix: homeserver, user_id, and access_token are required''))" for t p al
    by (simp_all add: new_adapter_def constructors Let_def split_beta)
  show ?thesis
    unfolding initChannelAdapters_def
  proof (rule init_adapters_specs)
    show "list_all2 (\<lambda>e (name, var, ok). ade_name e = name \<and> ade_envVar e = var
        \<and> (\<exists>err. new_adapter getenv (ade_create e) = (if ok then Inr (adapter_of name) else Inl err))) (adapter_entries getenv cfg) (channel_specs getenv cfg)"
      unfolding adapter_entries_def channel_specs_def token_set_def
      by (simp only: list_all2_Cons list_all2_Nil prod.case adapter_entry.simps n) blast
  qed
qed

lemma webchat_not_started: "\<forall>a \<in> set (initChannelAdapters getenv (new_adapter getenv) start cfg). ad_name a \<noteq> ''webchat''"
  by (auto simp: channels_started adapter_of_def channel_specs_def)

lemma start_services_router:
  "start_services io ru w cfg cipher ag audit1 = Inr s \<Longrightarrow> sd_router s = Some cr \<Longrightarrow>
     cr_adapters cr = initChannelAdapters (su_getenv io) (ru_new_adapter ru) (ru_start_adapter ru) cfg \<and> cr_has_store cr"
  by (auto simp: start_services_def NewChannelRouter_def Let_def split: option.splits if_splits)

lemma started_router:
  assumes "runStart io ru base w mem = Inr s" "sd_router s = Some cr"
  shows "cr_adapters cr = initChannelAdapters (su_getenv io) (ru_new_adapter ru) (ru_start_adapter ru) (sd_config s) \<and> cr_has_store cr"
proof -
  from runStart_ok [OF assms(1)] obtain ag audit1 where "start_services io ru w (sd_config s) (sd_cipher s) ag audit1 = Inr s" by metis
  from start_services_router [OF this assms(2)] show ?thesis .
qed

text \<open>
  What the program cannot do: once a channel's message has been handled, nothing can be sent to its session later.
  The turn has overwritten the channel of the session with \<open>webchat\<close>, and no started adapter has that name.
  So notifications and the results of background tasks reach neither chat channels nor the web chat.
\<close>

lemma started_sessions_unreachable:
  assumes "runStart io ru base w mem = Inr s" "sd_router s = Some cr0" "ru_new_adapter ru = new_adapter (su_getenv io)"
    and "cr_adapters cr = cr_adapters cr0" "cr_has_store cr" "\<forall>n. db_fault (w_db (cr_world cr)) n = None"
  shows "fst (SendToSession re' (im_session msg) content (handleMessage rt re ctx ad msg cr)) =
    Some (ErrWrap ''resolving adapter: '' (ErrText (''no adapter found for channel '' @ go_quote ''webchat'')))"
  using handled_session_unreachable [OF assms(5,6)] webchat_not_started started_router [OF assms(1,2)] assms(3,4) by metis

lemma start_services_a2a:
  "start_services io ru w cfg cipher ag audit1 = Inr s \<Longrightarrow> a2ac_enabled (co_a2a cfg) \<Longrightarrow>
     \<exists>h. sd_a2a s = Some h \<and> a2a_token h = a2ac_token (co_a2a cfg)"
  by (auto simp: start_services_def Let_def split: option.splits if_splits)

text \<open>
  With the agent-to-agent server on and its token left empty, as it is by default, everyone who reaches the port runs turns,
  whatever token the configuration sets for the gateway.
\<close>

lemma started_a2a_open:
  assumes "runStart io ru base w mem = Inr s" "a2ac_enabled (co_a2a (sd_config s))" "a2ac_token (co_a2a (sd_config s)) = []"
  shows "\<exists>h. sd_a2a s = Some h \<and> fst (gateway_serve ge header (ReqA2A newID route) (started_gateway s w1)) =
    ReplyA2A (fst (serve_route (ge_runtime ge) (ge_agent ge) (ge_ctx ge) (ge_others ge) newID route (h\<lparr>a2a_world := w1\<rparr>)))"
proof -
  from runStart_ok [OF assms(1)] obtain ag audit1 where "start_services io ru w (sd_config s) (sd_cipher s) ag audit1 = Inr s" by metis
  then obtain h where h: "sd_a2a s = Some h" "a2a_token h = []"
    using assms(2,3) start_services_a2a by fastforce
  have "gt_a2a (started_gateway s w1) = Some h" "gt_world (started_gateway s w1) = w1" by (simp_all add: started_gateway_def started_server_def started_params_def gateway_New_def Let_def h)
  with a2a_ignores_gateway_token [OF _ h(2)] show ?thesis using h by metis
qed

end
