(* ===== verification/Node_Hub.thy ===== *)
theory Node_Hub
  imports Keyed_Store Llm_Types
begin

section \<open>The node hub (\<^verbatim>\<open>pkg/nodes/nodes.go\<close>)\<close>

text \<open>
  The table of remote nodes. A connection is an object of its own, since the keep-alive goroutine holds it beside the
  table: connections live on a heap, and the table maps ids to them. The gRPC client is a library; what creating and
  closing it answers are arguments. The server has no service registered, so it has no operation to model.
\<close>

record node =
  nd_id :: string
  nd_name :: string
  nd_address :: string
  nd_connected_at :: timestamp
  nd_last_ping :: timestamp
  nd_capabilities :: "string list"

record connected_node =
  cn_node :: node
  cn_cancelled :: bool
  cn_closed :: bool

record hub =
  hub_nodes :: "(string, nat) gomap"
  hub_heap :: "connected_node list"

definition NewHub :: hub where
  "NewHub = \<lparr>hub_nodes = [], hub_heap = []\<rparr>"

definition hub_Connect :: "go_error option \<Rightarrow> timestamp \<Rightarrow> string \<Rightarrow> string \<Rightarrow> string \<Rightarrow> hub \<Rightarrow> go_error option \<times> hub" where
  "hub_Connect dial now i name address h =
     (case dial of
        Some err \<Rightarrow> (Some (ErrWrap (''nodes: connecting to '' @ address @ '': '') err), h)
      | None \<Rightarrow>
          (let cn = \<lparr>cn_node = \<lparr>nd_id = i, nd_name = name, nd_address = address, nd_connected_at = now, nd_last_ping = now, nd_capabilities = []\<rparr>,
                     cn_cancelled = False, cn_closed = False\<rparr>
           in (None, \<lparr>hub_nodes = gomap_put i (length (hub_heap h)) (hub_nodes h), hub_heap = hub_heap h @ [cn]\<rparr>)))"

definition hub_Disconnect :: "go_error option \<Rightarrow> string \<Rightarrow> hub \<Rightarrow> go_error option \<times> hub" where
  "hub_Disconnect closing i h =
     (case map_of (hub_nodes h) i of
        None \<Rightarrow> (Some (ErrText (''nodes: '' @ go_quote i @ '' not found'')), h)
      | Some p \<Rightarrow> (closing, \<lparr>hub_nodes = gomap_delete i (hub_nodes h),
          hub_heap = (hub_heap h)[p := (hub_heap h ! p)\<lparr>cn_cancelled := True, cn_closed := True\<rparr>]\<rparr>))"

text \<open>The order of the list is that of a Go map, which is not fixed.\<close>

definition hub_List :: "hub \<Rightarrow> node list" where
  "hub_List h = map (\<lambda>(i, p). cn_node (hub_heap h ! p)) (hub_nodes h)"

definition SendToNode :: "string \<Rightarrow> string \<Rightarrow> hub \<Rightarrow> go_error + string" where
  "SendToNode nodeID content h =
     (case map_of (hub_nodes h) nodeID of
        None \<Rightarrow> Inl (ErrText (''nodes: '' @ go_quote nodeID @ '' not connected''))
      | Some cn \<Rightarrow> Inl (ErrText (''nodes: remote message dispatch not yet implemented for '' @ go_quote nodeID)))"

text \<open>One tick of the keep-alive goroutine of a connection; it ends when its context is cancelled.\<close>

definition hub_keepalive :: "nat \<Rightarrow> timestamp \<Rightarrow> hub \<Rightarrow> hub" where
  "hub_keepalive p now h =
     (let cn = hub_heap h ! p in
      if cn_cancelled cn then h else h\<lparr>hub_heap := (hub_heap h)[p := cn\<lparr>cn_node := (cn_node cn)\<lparr>nd_last_ping := now\<rparr>\<rparr>]\<rparr>)"

subsection \<open>Listed nodes are connected\<close>

definition hub_ok :: "hub \<Rightarrow> bool" where
  "hub_ok h \<longleftrightarrow> gomap_ok (hub_nodes h)
     \<and> (\<forall>i p. map_of (hub_nodes h) i = Some p \<longrightarrow> p < length (hub_heap h) \<and> nd_id (cn_node (hub_heap h ! p)) = i
         \<and> \<not> cn_cancelled (hub_heap h ! p) \<and> \<not> cn_closed (hub_heap h ! p))"

lemma hub_ok_node:
  "hub_ok h \<Longrightarrow> map_of (hub_nodes h) i = Some p \<Longrightarrow> p < length (hub_heap h) \<and> nd_id (cn_node (hub_heap h ! p)) = i
     \<and> \<not> cn_cancelled (hub_heap h ! p) \<and> \<not> cn_closed (hub_heap h ! p)"
  by (simp add: hub_ok_def)

lemma hub_at: "j < length xs \<Longrightarrow> xs[i := v] ! j = (if i = j then v else xs ! j)"
  by (cases "i = j") simp_all

datatype hub_op = Connecting "go_error option" timestamp string string string | Disconnecting "go_error option" string | Ticking nat timestamp

fun hub_run :: "hub_op \<Rightarrow> hub \<Rightarrow> hub" where
  "hub_run (Connecting dial now i name address) h = snd (hub_Connect dial now i name address h)"
| "hub_run (Disconnecting closing i) h = snd (hub_Disconnect closing i h)"
| "hub_run (Ticking p now) h = hub_keepalive p now h"

lemma hub_run_ok: "hub_ok h \<Longrightarrow> hub_ok (hub_run op h)"
proof (cases op)
  case (Connecting dial now i name address)
  assume ok: "hub_ok h"
  then have "gomap_ok (gomap_put i (length (hub_heap h)) (hub_nodes h))" by (simp add: hub_ok_def)
  with ok Connecting show ?thesis by (cases dial) (auto simp: hub_Connect_def Let_def hub_ok_def nth_append less_Suc_eq)
next
  case (Disconnecting closing i)
  assume ok: "hub_ok h"
  show ?thesis
  proof (cases "map_of (hub_nodes h) i")
    case None
    with ok Disconnecting show ?thesis by (simp add: hub_Disconnect_def)
  next
    case (Some p)
    then have "p' \<noteq> p" if "i' \<noteq> i" "map_of (hub_nodes h) i' = Some p'" for i' p' using hub_ok_node [OF ok] that by metis
    with ok Some Disconnecting show ?thesis by (auto simp: hub_Disconnect_def hub_ok_def hub_at)
  qed
next
  case (Ticking p now)
  assume "hub_ok h"
  with Ticking show ?thesis by (auto simp: hub_keepalive_def Let_def hub_ok_def hub_at)
qed

lemma hub_runs_ok: "hub_ok (fold hub_run ops NewHub)"
proof (induction ops rule: rev_induct)
  case Nil
  show ?case by (simp add: NewHub_def hub_ok_def gomap_ok_def)
qed (simp add: hub_run_ok)

text \<open>The listed nodes have the ids of the table, and disconnecting one closes it and takes it off the list.\<close>

lemma hub_List_ids:
  assumes "hub_ok h"
  shows "map nd_id (hub_List h) = map fst (hub_nodes h)"
proof -
  have "nd_id (cn_node (hub_heap h ! p)) = i" if "(i, p) \<in> set (hub_nodes h)" for i p
    using that assms hub_ok_node [OF assms] by (simp add: hub_ok_def gomap_lookup_iff)
  then show ?thesis by (auto simp: hub_List_def)
qed

lemma hub_Disconnect_closes:
  assumes "hub_ok h" "map_of (hub_nodes h) i = Some p" "hub_Disconnect closing i h = (r, h')"
  shows "r = closing \<and> map_of (hub_nodes h') i = None \<and> cn_closed (hub_heap h' ! p) \<and> cn_cancelled (hub_heap h' ! p)"
  using assms hub_ok_node [OF assms(1,2)] by (auto simp: hub_Disconnect_def)

text \<open>
  Connecting under an id that is in use forgets the old connection without closing it: its keep-alive goroutine runs on and
  no later disconnect can reach it.
\<close>

lemma reconnect_leaks:
  assumes "hub_ok h" "map_of (hub_nodes h) i = Some p" "hub_Connect None now i name address h = (r, h')"
  shows "\<not> cn_closed (hub_heap h' ! p) \<and> \<not> cn_cancelled (hub_heap h' ! p) \<and> p \<notin> ran (map_of (hub_nodes h'))"
proof -
  note p = hub_ok_node [OF assms(1,2)]
  have h': "hub_nodes h' = gomap_put i (length (hub_heap h)) (hub_nodes h)" "hub_heap h' ! p = hub_heap h ! p"
    using assms(3) p by (auto simp: hub_Connect_def Let_def nth_append)
  have "p' \<noteq> p" if "i' \<noteq> i" "map_of (hub_nodes h) i' = Some p'" for i' p' using hub_ok_node [OF assms(1)] assms(2) that by metis
  then have "p \<notin> ran (map_of (hub_nodes h'))" using p by (auto simp: h' ran_def split: if_splits)
  with p h' show ?thesis by simp
qed

end
