(* ===== verification/Browser_Tool.thy ===== *)
theory Browser_Tool
  imports File_Tools Agent_Tools Keyed_Store
begin

section \<open>The browser tool (\<^verbatim>\<open>pkg/agent/tools/browser.go\<close>)\<close>

text \<open>
  One browser per session, started when it is first needed. The library that drives the browser is an argument: what
  starting it, an action, a look at the page and a screenshot give. A browser is known by its allocator, and a tab by its
  context; both are numbers. While an action runs and while the tool waits for the page, other goroutines act:
  the listener that follows new tabs, the clean-up of idle sessions, a concurrent \<^verbatim>\<open>close\<close>. A run of the library in a
  context that is gone (nil) panics.
\<close>

record browser_session =
  bs_alloc :: nat
  bs_ctx :: nat
  bs_used :: timestamp

record browser_tool =
  bt_sessions :: "(string, browser_session) gomap"
  bt_pending :: "(string, image_content list) gomap"
  bt_live :: "nat list"
  bt_next :: nat
  bt_files :: "(string \<times> image_content) list"
  bt_removed :: "string list"
  bt_log :: "(string \<times> string \<times> string) list"

definition new_browser_tool :: browser_tool where
  "new_browser_tool = \<lparr>bt_sessions = [], bt_pending = [], bt_live = [], bt_next = 0, bt_files = [], bt_removed = [], bt_log = []\<rparr>"

record browser_input =
  bi_action :: string
  bi_url :: string
  bi_selector :: string
  bi_text :: string
  bi_script :: string
  bi_delta :: "64 word"

datatype browser_action =
    Navigate string
  | WaitVisible string
  | Click string
  | Clear string
  | SendKeys string string
  | TextOf string
  | OuterHTML string
  | Evaluate string
  | Sleep duration
  | NavigateBack
  | NavigateForward

datatype shot_format = PNG | JPEG
datatype chrome_start = ChromeStarted | ChromeFailed go_error | ChromeTimeout

subsection \<open>Sessions\<close>

definition screenshot_dir :: "string \<Rightarrow> string \<Rightarrow> string" where
  "screenshot_dir dataDir sid = path_Join (path_Join dataDir ''screenshots'') sid"

definition drop_session :: "string \<Rightarrow> browser_session \<Rightarrow> browser_tool \<Rightarrow> browser_tool" where
  "drop_session sid s t =
     t\<lparr>bt_sessions := gomap_delete sid (bt_sessions t), bt_live := filter (\<lambda>a. a \<noteq> bs_alloc s) (bt_live t)\<rparr>"

definition browser_ConsumeImages :: "go_ctx \<Rightarrow> browser_tool \<Rightarrow> image_content list \<times> browser_tool" where
  "browser_ConsumeImages ctx t =
     (let sid = SessionIDFromContext ctx in
      if sid = [] then ([], t)
      else ((case map_of (bt_pending t) sid of Some imgs \<Rightarrow> imgs | None \<Rightarrow> []), t\<lparr>bt_pending := gomap_delete sid (bt_pending t)\<rparr>))"

definition browser_Close :: "browser_tool \<Rightarrow> browser_tool" where
  "browser_Close t = fold (\<lambda>(sid, s). drop_session sid s) (bt_sessions t) t"

definition cleanup_timeout :: "duration \<Rightarrow> duration" where
  "cleanup_timeout idle = (if sint idle \<le> 0 then 10 * minute else idle)"

definition cleanIdleSessions :: "string \<Rightarrow> duration \<Rightarrow> timestamp \<Rightarrow> browser_tool \<Rightarrow> browser_tool" where
  "cleanIdleSessions dataDir timeout now t =
     fold (\<lambda>(sid, s) t1. if now - bs_used s > sint timeout
         then (drop_session sid s t1)\<lparr>bt_removed := bt_removed t1 @ [screenshot_dir dataDir sid]\<rparr> else t1) (bt_sessions t) t"

text \<open>What other goroutines do: a new tab that could be attached, a tick of the clean-up, a close of the session.\<close>

datatype browser_event = NewTab string timestamp | IdleCheck duration timestamp | ClosedBy string

fun browser_other :: "string \<Rightarrow> browser_event \<Rightarrow> browser_tool \<Rightarrow> browser_tool" where
  "browser_other dataDir (NewTab sid now) t =
     (let c = bt_next t; t1 = t\<lparr>bt_next := Suc c\<rparr> in
      case map_of (bt_sessions t) sid of
        None \<Rightarrow> t1
      | Some s \<Rightarrow> t1\<lparr>bt_sessions := gomap_put sid (s\<lparr>bs_ctx := c, bs_used := now\<rparr>) (bt_sessions t)\<rparr>)"
| "browser_other dataDir (IdleCheck idle now) t = cleanIdleSessions dataDir (cleanup_timeout idle) now t"
| "browser_other dataDir (ClosedBy sid) t = (case map_of (bt_sessions t) sid of None \<Rightarrow> t | Some s \<Rightarrow> drop_session sid s t)"

record poll =
  po_check :: timestamp
  po_url :: string
  po_changed :: timestamp
  po_measured :: timestamp
  po_run :: "browser_event list"
  po_sleep :: "browser_event list"

record browser_env =
  be_dir :: string
  be_now :: timestamp
  be_alive :: "nat \<Rightarrow> bool"
  be_chrome :: chrome_start
  be_run :: "nat \<Rightarrow> duration \<Rightarrow> browser_action list \<Rightarrow> go_error + string"
  be_during :: "browser_event list"
  be_started :: timestamp
  be_polls :: "poll list"
  be_page :: "nat \<Rightarrow> string \<times> string"
  be_shot :: "nat \<Rightarrow> shot_format \<Rightarrow> go_error + string"
  be_mkdir :: "go_error option"
  be_write :: "go_error option"
  be_millis :: int

definition browser_others :: "browser_env \<Rightarrow> browser_event list \<Rightarrow> browser_tool \<Rightarrow> browser_tool" where
  "browser_others env evs = fold (browser_other (be_dir env)) evs"

definition start_session :: "browser_env \<Rightarrow> string \<Rightarrow> browser_tool \<Rightarrow> (go_error + nat) \<times> browser_tool" where
  "start_session env sid t =
     (let a = bt_next t; c = Suc a; t1 = t\<lparr>bt_next := Suc c\<rparr> in
      case be_chrome env of
        ChromeFailed err \<Rightarrow> (Inl (ErrWrap ''browser: starting chrome: '' err), t1)
      | ChromeTimeout \<Rightarrow> (Inl (ErrText ''browser: starting chrome: timed out after 30s''), t1)
      | ChromeStarted \<Rightarrow> (Inr c, t1\<lparr>bt_sessions := gomap_put sid \<lparr>bs_alloc = a, bs_ctx = c, bs_used = be_now env\<rparr> (bt_sessions t1),
                                 bt_live := bt_live t1 @ [a]\<rparr>))"

definition browser_getOrCreateSession :: "browser_env \<Rightarrow> string \<Rightarrow> browser_tool \<Rightarrow> (go_error + nat) \<times> browser_tool" where
  "browser_getOrCreateSession env sid t =
     (case map_of (bt_sessions t) sid of
        None \<Rightarrow> start_session env sid t
      | Some s \<Rightarrow>
          if be_alive env (bs_ctx s)
          then (Inr (bs_ctx s), t\<lparr>bt_sessions := gomap_put sid (s\<lparr>bs_used := be_now env\<rparr>) (bt_sessions t)\<rparr>)
          else start_session env sid (drop_session sid s t))"

definition currentContext :: "string \<Rightarrow> browser_tool \<Rightarrow> nat option" where
  "currentContext sid t = map_option bs_ctx (map_of (bt_sessions t) sid)"

subsection \<open>Screenshots\<close>

definition maxImageBytes :: nat where "maxImageBytes = 4500000"

definition take_shot :: "browser_env \<Rightarrow> nat \<Rightarrow> go_error + string \<times> string \<times> string" where
  "take_shot env c =
     (case be_shot env c PNG of
        Inl err \<Rightarrow> Inl (ErrWrap ''browser: screenshot failed: '' err)
      | Inr buf \<Rightarrow>
          if length buf > maxImageBytes
          then (case be_shot env c JPEG of
              Inl err \<Rightarrow> Inl (ErrWrap ''browser: jpeg screenshot failed: '' err)
            | Inr buf2 \<Rightarrow> Inr (buf2, ''image/jpeg'', ''.jpg''))
          else Inr (buf, ''image/png'', ''.png''))"

definition captureScreenshot :: "browser_env \<Rightarrow> nat \<Rightarrow> string \<Rightarrow> browser_tool \<Rightarrow> (go_error + string) \<times> browser_tool" where
  "captureScreenshot env c sid t =
     (case take_shot env c of
        Inl err \<Rightarrow> (Inl err, t)
      | Inr (buf, mediaType, ext) \<Rightarrow>
          (case be_mkdir env of
             Some err \<Rightarrow> (Inl (ErrWrap ''browser: creating screenshot dir: '' err), t)
           | None \<Rightarrow>
               (let path = path_Join (screenshot_dir (be_dir env) sid) (int_to_dec (be_millis env) @ ext) in
                case be_write env of
                  Some err \<Rightarrow> (Inl (ErrWrap ''browser: writing screenshot: '' err), t)
                | None \<Rightarrow>
                    (let img = \<lparr>ic_media_type = mediaType, ic_path = path, ic_data = Some buf\<rparr>;
                         old = (case map_of (bt_pending t) sid of Some imgs \<Rightarrow> imgs | None \<Rightarrow> [])
                     in (Inr path, t\<lparr>bt_pending := gomap_put sid (old @ [img]) (bt_pending t), bt_files := bt_files t @ [(sid, img)]\<rparr>)))))"

text \<open>\<^verbatim>\<open>path, _ := captureScreenshot\<close>: without a screenshot the path is empty.\<close>

definition try_shot :: "browser_env \<Rightarrow> nat \<Rightarrow> string \<Rightarrow> browser_tool \<Rightarrow> string \<times> browser_tool" where
  "try_shot env c sid t = (case captureScreenshot env c sid t of (Inl _, t1) \<Rightarrow> ([], t1) | (Inr path, t1) \<Rightarrow> (path, t1))"

subsection \<open>Waiting for the page\<close>

text \<open>
  The loop that waits until the address has not changed for a second, over the looks it takes at the page (every
  200 ms, for ten seconds at most); the list ends when the clock has passed the deadline.
\<close>

fun wait_loop :: "browser_env \<Rightarrow> string \<Rightarrow> timestamp \<Rightarrow> poll list \<Rightarrow> string \<Rightarrow> timestamp \<Rightarrow> nat option \<Rightarrow> browser_tool \<Rightarrow> nat option \<times> browser_tool" where
  "wait_loop env sid deadline [] lastURL stableSince c t = (c, t)"
| "wait_loop env sid deadline (p # ps) lastURL stableSince c t =
     (if po_check p \<ge> deadline then (c, t)
      else if c = None then (None, t)
      else (let t1 = browser_others env (po_run p) t; changed = (po_url p \<noteq> lastURL);
                since = (if changed then po_changed p else stableSince);
                c1 = (if changed then currentContext sid t1 else c)
            in if po_measured p - since \<ge> 1000000000 then (c1, t1)
               else (let t2 = browser_others env (po_sleep p) t1
                     in wait_loop env sid deadline ps (po_url p) since (currentContext sid t2) t2)))"

definition waitForStableURL :: "browser_env \<Rightarrow> string \<Rightarrow> browser_tool \<Rightarrow> nat option \<times> browser_tool" where
  "waitForStableURL env sid t =
     wait_loop env sid (be_started env + 10000000000) (be_polls env) [] (be_started env) (currentContext sid t) t"

subsection \<open>Actions\<close>

datatype browser_result = Answer "go_error + string" | NilContext

definition defaultActionTimeout :: duration where "defaultActionTimeout = 90 * second"
definition navigationTimeout :: duration where "navigationTimeout = 3 * minute"

definition fails :: "string \<Rightarrow> browser_tool \<Rightarrow> browser_result \<times> browser_tool" where
  "fails msg t = (Answer (Inl (ErrText (''browser: '' @ msg))), t)"

definition answers_text :: "string \<Rightarrow> browser_tool \<Rightarrow> browser_result \<times> browser_tool" where
  "answers_text msg t = (Answer (Inr msg), t)"

text \<open>The session of the call, a run of actions in it, and the page as it is found afterwards.\<close>

definition in_session :: "browser_env \<Rightarrow> string \<Rightarrow> (nat \<Rightarrow> browser_tool \<Rightarrow> browser_result \<times> browser_tool) \<Rightarrow> browser_tool \<Rightarrow> browser_result \<times> browser_tool" where
  "in_session env sid k t =
     (case browser_getOrCreateSession env sid t of
        (Inl err, t1) \<Rightarrow> (Answer (Inl err), t1)
      | (Inr c, t1) \<Rightarrow> k c t1)"

definition runWithTimeout :: "browser_env \<Rightarrow> nat \<Rightarrow> string \<Rightarrow> duration \<Rightarrow> browser_action list \<Rightarrow>
    (string \<Rightarrow> browser_tool \<Rightarrow> browser_result \<times> browser_tool) \<Rightarrow> browser_tool \<Rightarrow> browser_result \<times> browser_tool" where
  "runWithTimeout env c what timeout acts k t =
     (let t1 = browser_others env (be_during env) t in
      case be_run env c timeout acts of
        Inl err \<Rightarrow> (Answer (Inl (ErrWrap (''browser: '' @ what @ '' failed: '') err)), t1)
      | Inr out \<Rightarrow> k out t1)"

definition after_page :: "browser_env \<Rightarrow> string \<Rightarrow> (string \<Rightarrow> string \<Rightarrow> string \<Rightarrow> string) \<Rightarrow> browser_tool \<Rightarrow> browser_result \<times> browser_tool" where
  "after_page env sid report t =
     (case waitForStableURL env sid t of
        (None, t1) \<Rightarrow> (NilContext, t1)
      | (Some c, t1) \<Rightarrow>
          (let (title, url) = be_page env c; (path, t2) = try_shot env c sid t1 in answers_text (report title url path) t2))"

definition page_line :: "string \<Rightarrow> string \<Rightarrow> string \<Rightarrow> string" where
  "page_line title url path = nl @ ''Page: '' @ url @ '' ('' @ title @ '')'' @ nl @ ''Screenshot: '' @ path"

definition doNavigate :: "browser_env \<Rightarrow> string \<Rightarrow> browser_input \<Rightarrow> browser_tool \<Rightarrow> browser_result \<times> browser_tool" where
  "doNavigate env sid params t =
     (if bi_url params = [] then fails ''url is required for navigate'' t
      else in_session env sid (\<lambda>c. runWithTimeout env c ''navigate'' navigationTimeout [Navigate (bi_url params)] (\<lambda>_ t1.
        after_page env sid (\<lambda>title url path. ''Navigated to '' @ url @ nl @ ''Title: '' @ title @ nl @ ''Screenshot: '' @ path)
          (t1\<lparr>bt_log := bt_log t1 @ [(''browser_nav'', sid, bi_url params)]\<rparr>))) t)"

definition doClick :: "browser_env \<Rightarrow> string \<Rightarrow> browser_input \<Rightarrow> browser_tool \<Rightarrow> browser_result \<times> browser_tool" where
  "doClick env sid params t =
     (if bi_selector params = [] then fails ''selector is required for click'' t
      else in_session env sid (\<lambda>c. runWithTimeout env c ''click'' defaultActionTimeout [WaitVisible (bi_selector params), Click (bi_selector params)] (\<lambda>_.
        after_page env sid (\<lambda>title url path. ''Clicked '' @ go_quote (bi_selector params) @ page_line title url path))) t)"

definition doType :: "browser_env \<Rightarrow> string \<Rightarrow> browser_input \<Rightarrow> browser_tool \<Rightarrow> browser_result \<times> browser_tool" where
  "doType env sid params t =
     (if bi_selector params = [] then fails ''selector is required for type'' t
      else if bi_text params = [] then fails ''text is required for type'' t
      else in_session env sid (\<lambda>c. runWithTimeout env c ''type'' defaultActionTimeout
          [WaitVisible (bi_selector params), Clear (bi_selector params), SendKeys (bi_selector params) (bi_text params)] (\<lambda>_ t1.
        (let (path, t2) = try_shot env c sid t1 in
         answers_text (''Typed '' @ nat_to_dec (length (bi_text params)) @ '' chars into '' @ go_quote (bi_selector params) @ nl @ ''Screenshot: '' @ path) t2))) t)"

definition doScreenshot :: "browser_env \<Rightarrow> string \<Rightarrow> browser_tool \<Rightarrow> browser_result \<times> browser_tool" where
  "doScreenshot env sid =
     in_session env sid (\<lambda>c t1.
       (let (title, url) = be_page env c in
        case captureScreenshot env c sid t1 of
          (Inl err, t2) \<Rightarrow> (Answer (Inl err), t2)
        | (Inr path, t2) \<Rightarrow> answers_text (''Screenshot captured'' @ nl @ ''Page: '' @ url @ '' ('' @ title @ '')'' @ nl @ ''Path: '' @ path) t2))"

text \<open>A page text is cut at a byte, which may split a character.\<close>

definition cut_page :: "string \<Rightarrow> string" where
  "cut_page s = (if length s > 50000 then take 50000 s @ nl @ ''... (truncated)'' else s)"

definition doGetText :: "browser_env \<Rightarrow> string \<Rightarrow> browser_input \<Rightarrow> browser_tool \<Rightarrow> browser_result \<times> browser_tool" where
  "doGetText env sid params =
     in_session env sid (\<lambda>c. runWithTimeout env c ''get_text'' defaultActionTimeout
       [TextOf (if bi_selector params = [] then ''body'' else bi_selector params)] (\<lambda>out. answers_text (cut_page out)))"

definition doGetHTML :: "browser_env \<Rightarrow> string \<Rightarrow> browser_input \<Rightarrow> browser_tool \<Rightarrow> browser_result \<times> browser_tool" where
  "doGetHTML env sid params =
     in_session env sid (\<lambda>c. runWithTimeout env c ''get_html'' defaultActionTimeout
       [OuterHTML (if bi_selector params = [] then ''html'' else bi_selector params)] (\<lambda>out. answers_text (cut_page out)))"

definition doWait :: "browser_env \<Rightarrow> string \<Rightarrow> browser_input \<Rightarrow> browser_tool \<Rightarrow> browser_result \<times> browser_tool" where
  "doWait env sid params t =
     (if bi_selector params = [] then fails ''selector is required for wait'' t
      else in_session env sid (\<lambda>c. runWithTimeout env c ''wait'' defaultActionTimeout [WaitVisible (bi_selector params)] (\<lambda>_.
        answers_text (''Element '' @ go_quote (bi_selector params) @ '' is now visible''))) t)"

definition doEvaluate :: "browser_env \<Rightarrow> string \<Rightarrow> browser_input \<Rightarrow> browser_tool \<Rightarrow> browser_result \<times> browser_tool" where
  "doEvaluate env sid params t =
     (if bi_script params = [] then fails ''script is required for evaluate'' t
      else in_session env sid (\<lambda>c. runWithTimeout env c ''evaluate'' defaultActionTimeout [Evaluate (bi_script params)] answers_text) t)"

definition go_abs :: "64 word \<Rightarrow> 64 word" where
  "go_abs n = (if sint n < 0 then - n else n)"

definition doScroll :: "browser_env \<Rightarrow> string \<Rightarrow> browser_input \<Rightarrow> browser_tool \<Rightarrow> browser_result \<times> browser_tool" where
  "doScroll env sid params =
     in_session env sid (\<lambda>c.
       (let delta = (if bi_delta params = 0 then 500 else bi_delta params) in
        runWithTimeout env c ''scroll'' defaultActionTimeout
          [Evaluate (''window.scrollBy(0, '' @ int_to_dec (sint delta) @ '')''), Sleep (300 * 1000000)] (\<lambda>_ t1.
        (let (path, t2) = try_shot env c sid t1 in
         answers_text (''Scrolled '' @ (if sint delta < 0 then ''up'' else ''down'') @ '' by '' @ int_to_dec (sint (go_abs delta)) @ ''px'' @ nl @
           ''Screenshot: '' @ path) t2))))"

definition tabs :: "nat \<Rightarrow> string" where "tabs n = replicate n (CHR 0x09)"

definition select_script :: "string \<Rightarrow> string \<Rightarrow> string" where
  "select_script sel opt =
     ''(function() {'' @ nl @
     tabs 2 @ ''var sel = document.querySelector('' @ go_quote sel @ '');'' @ nl @
     tabs 2 @ ''if (!sel) return \"element not found\";'' @ nl @
     tabs 2 @ ''for (var i = 0; i < sel.options.length; i++) {'' @ nl @
     tabs 3 @ ''if (sel.options[i].text === '' @ go_quote opt @ '' || sel.options[i].value === '' @ go_quote opt @ '') {'' @ nl @
     tabs 4 @ ''sel.selectedIndex = i;'' @ nl @
     tabs 4 @ ''sel.dispatchEvent(new Event('' @ [CHR 0x27] @ ''change'' @ [CHR 0x27] @ '', {bubbles: true}));'' @ nl @
     tabs 4 @ ''return \"selected: \" + sel.options[i].text;'' @ nl @
     tabs 3 @ ''}'' @ nl @ tabs 2 @ ''}'' @ nl @
     tabs 2 @ ''return \"option not found\";'' @ nl @ tabs 1 @ ''})()''"

definition doSelect :: "browser_env \<Rightarrow> string \<Rightarrow> browser_input \<Rightarrow> browser_tool \<Rightarrow> browser_result \<times> browser_tool" where
  "doSelect env sid params t =
     (if bi_selector params = [] then fails ''selector is required for select'' t
      else if bi_text params = [] then fails ''text is required for select'' t
      else in_session env sid (\<lambda>c. runWithTimeout env c ''select'' defaultActionTimeout [Evaluate (select_script (bi_selector params) (bi_text params))] (\<lambda>out t1.
        if HasPrefix out ''element not found'' \<or> HasPrefix out ''option not found'' then fails out t1
        else (let (path, t2) = try_shot env c sid t1 in
          answers_text (''Selected '' @ go_quote (bi_text params) @ '' in '' @ go_quote (bi_selector params) @ nl @ ''Screenshot: '' @ path) t2))) t)"

definition doBack :: "browser_env \<Rightarrow> string \<Rightarrow> browser_tool \<Rightarrow> browser_result \<times> browser_tool" where
  "doBack env sid =
     in_session env sid (\<lambda>c. runWithTimeout env c ''back'' navigationTimeout [NavigateBack] (\<lambda>_.
       after_page env sid (\<lambda>title url path. ''Navigated back'' @ page_line title url path)))"

definition doForward :: "browser_env \<Rightarrow> string \<Rightarrow> browser_tool \<Rightarrow> browser_result \<times> browser_tool" where
  "doForward env sid =
     in_session env sid (\<lambda>c. runWithTimeout env c ''forward'' navigationTimeout [NavigateForward] (\<lambda>_.
       after_page env sid (\<lambda>title url path. ''Navigated forward'' @ page_line title url path)))"

definition doClose :: "string \<Rightarrow> browser_tool \<Rightarrow> browser_result \<times> browser_tool" where
  "doClose sid t =
     (case map_of (bt_sessions t) sid of
        None \<Rightarrow> answers_text ''no browser session to close'' t
      | Some s \<Rightarrow> (let t1 = drop_session sid s t in
          answers_text ''browser session closed'' (t1\<lparr>bt_log := bt_log t1 @ [(''browser_close'', sid, [])]\<rparr>)))"

definition browser_do :: "browser_env \<Rightarrow> string \<Rightarrow> browser_input \<Rightarrow> browser_tool \<Rightarrow> browser_result \<times> browser_tool" where
  "browser_do env sid params t =
     (let a = bi_action params in
      if a = ''navigate'' then doNavigate env sid params t
      else if a = ''click'' then doClick env sid params t
      else if a = ''type'' then doType env sid params t
      else if a = ''screenshot'' then doScreenshot env sid t
      else if a = ''get_text'' then doGetText env sid params t
      else if a = ''get_html'' then doGetHTML env sid params t
      else if a = ''wait'' then doWait env sid params t
      else if a = ''evaluate'' then doEvaluate env sid params t
      else if a = ''scroll'' then doScroll env sid params t
      else if a = ''select'' then doSelect env sid params t
      else if a = ''back'' then doBack env sid t
      else if a = ''forward'' then doForward env sid t
      else if a = ''close'' then doClose sid t
      else fails (''unknown action '' @ go_quote a) t)"

text \<open>The tool is given the policy of the runtime, and does not look at it.\<close>

definition browser_Execute :: "browser_env \<Rightarrow> go_ctx \<Rightarrow> go_error + browser_input \<Rightarrow> policy \<Rightarrow> browser_tool \<Rightarrow> browser_result \<times> browser_tool" where
  "browser_Execute env ctx input pol t =
     (case parseInput input ''browser'' of
        Inl err \<Rightarrow> (Answer (Inl err), t)
      | Inr params \<Rightarrow>
          (let sid = SessionIDFromContext ctx in
           if sid = [] then fails ''no session in context'' t else browser_do env sid params t))"

end
