(* ===== verification/Browser_Facts.thy ===== *)
theory Browser_Facts
  imports Browser_Tool
begin

section \<open>Browsers and their screenshots\<close>

text \<open>
  A relation between the states before and after holds for every call of the tool, whatever goroutines interfere, once it
  holds for the few steps that change the state. The locale \<open>browser_relation\<close> says so; it is interpreted for
  the accounts of screenshots and for the invariant of the session table.
\<close>

locale browser_relation =
  fixes R :: "browser_tool \<Rightarrow> browser_tool \<Rightarrow> bool"
  assumes refl: "R t t"
    and trans: "R t u \<Longrightarrow> R u v \<Longrightarrow> R t v"
    and start: "map_of (bt_sessions t) sid = None \<Longrightarrow> R t (snd (start_session env sid t))"
    and touch: "map_of (bt_sessions t) sid = Some s \<Longrightarrow> bs_alloc s' = bs_alloc s \<Longrightarrow>
      R t (t\<lparr>bt_sessions := gomap_put sid s' (bt_sessions t)\<rparr>)"
    and tick: "n \<ge> bt_next t \<Longrightarrow> R t (t\<lparr>bt_next := n\<rparr>)"
    and drop: "map_of (bt_sessions t) sid = Some s \<Longrightarrow> R t (drop_session sid s t)"
    and shot: "R t (snd (captureScreenshot env c sid t))"
    and noted: "R t (t\<lparr>bt_log := l, bt_removed := rs\<rparr>)"
begin

lemma log: "R t (t\<lparr>bt_log := l\<rparr>)" and removal: "R t (t\<lparr>bt_removed := rs\<rparr>)"
  using noted [where t = t and l = l and rs = "bt_removed t"] noted [where t = t and l = "bt_log t" and rs = rs] by simp_all

lemma idle_step:
  "distinct (map fst es) \<Longrightarrow> (\<And>sid s. (sid, s) \<in> set es \<Longrightarrow> map_of (bt_sessions t) sid = Some s) \<Longrightarrow>
   R t (fold (\<lambda>(sid, s) t1. if P s then (drop_session sid s t1)\<lparr>bt_removed := f sid t1\<rparr> else t1) es t)"
proof (induction es arbitrary: t)
  case Nil
  show ?case by (simp add: refl)
next
  case (Cons e es)
  obtain sid s where e: "e = (sid, s)" by (cases e)
  let ?t = "(drop_session sid s t)\<lparr>bt_removed := f sid t\<rparr>"
  have s: "map_of (bt_sessions t) sid = Some s" using Cons.prems(2) [of sid s] by (simp add: e)
  have "R t ?t" using trans [OF drop [OF s] removal] .
  moreover have "R ?t (fold (\<lambda>(sid, s) t1. if P s then (drop_session sid s t1)\<lparr>bt_removed := f sid t1\<rparr> else t1) es ?t)"
    using Cons.prems by (intro Cons.IH) (force simp: e drop_session_def)+
  moreover have "R t (fold (\<lambda>(sid, s) t1. if P s then (drop_session sid s t1)\<lparr>bt_removed := f sid t1\<rparr> else t1) es t)"
    using Cons.prems by (intro Cons.IH) (auto simp: e)
  ultimately show ?case by (auto simp: e intro: trans)
qed

end

text \<open>The steps of other goroutines, the waiting loop and the calls follow; the table has to be a Go map.\<close>

locale browser_invariant = browser_relation +
  assumes maps: "gomap_ok (bt_sessions t) \<Longrightarrow> R t u \<Longrightarrow> gomap_ok (bt_sessions u)"
begin

lemma other: "gomap_ok (bt_sessions t) \<Longrightarrow> R t (browser_other d ev t)"
proof (cases ev)
  case (NewTab sid now)
  let ?t = "t\<lparr>bt_next := Suc (bt_next t)\<rparr>"
  have t: "R t ?t" by (simp add: tick)
  show ?thesis
  proof (cases "map_of (bt_sessions t) sid")
    case None
    with t NewTab show ?thesis by (simp add: Let_def)
  next
    case (Some s)
    then have "R ?t (?t\<lparr>bt_sessions := gomap_put sid (s\<lparr>bs_ctx := bt_next t, bs_used := now\<rparr>) (bt_sessions ?t)\<rparr>)" by (intro touch) simp_all
    from trans [OF t this] Some NewTab show ?thesis by (simp add: Let_def)
  qed
next
  case (IdleCheck idle now)
  assume "gomap_ok (bt_sessions t)"
  then have "distinct (map fst (bt_sessions t))" "\<And>sid s. (sid, s) \<in> set (bt_sessions t) \<Longrightarrow> map_of (bt_sessions t) sid = Some s"
    by (simp_all add: gomap_ok_def)
  from idle_step [OF this, where P = "\<lambda>s. now - bs_used s > sint (cleanup_timeout idle)" and f = "\<lambda>sid t1. bt_removed t1 @ [screenshot_dir d sid]"]
  show ?thesis using IdleCheck by (simp add: cleanIdleSessions_def)
next
  case (ClosedBy sid)
  then show ?thesis by (auto simp: refl split: option.split intro: drop)
qed

definition good :: "browser_tool \<Rightarrow> browser_tool \<Rightarrow> bool" where
  "good t u \<longleftrightarrow> gomap_ok (bt_sessions t) \<longrightarrow> R t u"

lemma good_refl [intro, simp]: "good t t"
  by (simp add: good_def refl)

lemma good_trans: "good t u \<Longrightarrow> good u v \<Longrightarrow> good t v"
  unfolding good_def by (meson maps trans)

lemma goodI: "R t u \<Longrightarrow> good t u"
  by (simp add: good_def)

lemma others_good [intro]: "good t (browser_others env evs t)"
proof (induction evs arbitrary: t)
  case (Cons ev evs)
  have "good t (browser_other (be_dir env) ev t)" by (simp add: good_def other)
  with Cons show ?case by (auto simp: browser_others_def intro: good_trans)
qed (simp add: browser_others_def)

lemma session_good: "good t (snd (browser_getOrCreateSession env sid t))"
proof (cases "map_of (bt_sessions t) sid")
  case None
  then show ?thesis by (simp add: browser_getOrCreateSession_def goodI start)
next
  case (Some s)
  have "good (drop_session sid s t) (snd (start_session env sid (drop_session sid s t)))"
    by (intro goodI start) (simp add: drop_session_def)
  with touch [OF Some, of "s\<lparr>bs_used := be_now env\<rparr>"] goodI [OF drop [OF Some]] good_trans Some
  show ?thesis by (auto simp: browser_getOrCreateSession_def intro: goodI)
qed

lemma shot_good: "good t (snd (try_shot env c sid t))"
  using goodI [OF shot [of t env c sid]] by (auto simp: try_shot_def split: prod.splits sum.splits)

lemma wait_good: "good t (snd (wait_loop env sid dl ps url since c t))"
proof (induction env sid dl ps url since c t rule: wait_loop.induct)
  case (2 env sid dl p ps url since c t)
  show ?case
  proof (cases "po_check p \<ge> dl \<or> c = None")
    case True
    then show ?thesis by auto
  next
    case False
    let ?t1 = "browser_others env (po_run p) t" and ?since = "if po_url p \<noteq> url then po_changed p else since"
    let ?t2 = "browser_others env (po_sleep p) ?t1"
    have t2: "good t ?t2" by (rule good_trans [OF others_good others_good])
    have "good ?t2 (snd (wait_loop env sid dl ps (po_url p) ?since (currentContext sid ?t2) ?t2))"
      if "\<not> po_measured p - ?since \<ge> 1000000000"
      using False that by (intro "2.IH") simp_all
    from good_trans [OF t2 this] False show ?thesis by (simp add: Let_def others_good)
  qed
qed simp

lemma in_session_good: "(\<And>c t1. good t1 (snd (k c t1))) \<Longrightarrow> good t (snd (in_session env sid k t))"
  using session_good [of t env sid] by (auto simp: in_session_def split: prod.splits sum.splits intro: good_trans)

lemma run_good: "(\<And>out t1. good t1 (snd (k out t1))) \<Longrightarrow> good t (snd (runWithTimeout env c what timeout acts k t))"
  using others_good [of t env "be_during env"] by (auto simp: runWithTimeout_def Let_def split: sum.split intro: good_trans)

lemma answers_good [simp]: "good t (snd (answers_text m t))" "good t (snd (fails m t))"
  by (simp_all add: answers_text_def fails_def)

lemma after_page_good: "good t (snd (after_page env sid report t))"
proof -
  have "good t (snd (waitForStableURL env sid t))" by (simp add: waitForStableURL_def wait_good)
  moreover obtain c t1 where w: "waitForStableURL env sid t = (c, t1)" by force
  ultimately have t: "good t t1" by simp
  show ?thesis
  proof (cases c)
    case None
    with t w show ?thesis by (simp add: after_page_def)
  next
    case (Some tab)
    have "good t (snd (try_shot env tab sid t1))" using good_trans [OF t shot_good] .
    with Some w show ?thesis by (simp add: after_page_def answers_text_def split_beta)
  qed
qed

lemma screenshot_good: "good t (snd (doScreenshot env sid t))"
  unfolding doScreenshot_def
proof (rule in_session_good)
  fix c t1
  show "good t1 (snd (let (title, url) = be_page env c in case captureScreenshot env c sid t1 of
      (Inl err, t2) \<Rightarrow> (Answer (Inl err), t2)
    | (Inr path, t2) \<Rightarrow> answers_text (''Screenshot captured'' @ nl @ ''Page: '' @ url @ '' ('' @ title @ '')'' @ nl @ ''Path: '' @ path) t2))"
    using goodI [OF shot [of t1 env c sid]] by (auto simp: answers_text_def split: prod.splits sum.splits)
qed

lemma shot_answer_good: "good t (snd (case try_shot env c sid t of (path, t2) \<Rightarrow> answers_text (f path) t2))"
  using shot_good [of t env c sid] by (simp add: answers_text_def split_beta)

lemma close_good: "good t (snd (doClose sid t))"
  by (auto simp: doClose_def answers_text_def Let_def split: option.split intro: good_trans goodI drop log)

lemma navigate_good: "good t (snd (doNavigate env sid params t))"
  unfolding doNavigate_def by (auto intro!: in_session_good run_good intro: good_trans [OF goodI [OF log] after_page_good])

lemma do_good: "good t (snd (browser_do env sid params t))"
proof -
  have "good t (snd (doClick env sid params t))" "good t (snd (doBack env sid t))" "good t (snd (doForward env sid t))"
    unfolding doClick_def doBack_def doForward_def by (auto intro!: in_session_good run_good after_page_good)
  moreover have "good t (snd (doGetText env sid params t))" "good t (snd (doGetHTML env sid params t))" "good t (snd (doWait env sid params t))"
    "good t (snd (doEvaluate env sid params t))"
    unfolding doGetText_def doGetHTML_def doWait_def doEvaluate_def by (auto intro!: in_session_good run_good)
  moreover have "good t (snd (doType env sid params t))" "good t (snd (doScroll env sid params t))" "good t (snd (doSelect env sid params t))"
    unfolding doType_def doScroll_def doSelect_def
    by (auto intro!: in_session_good run_good shot_answer_good simp: Let_def)
  ultimately show ?thesis
    using navigate_good [of t env sid params] screenshot_good [of t env sid] close_good [of t sid] by (simp add: browser_do_def Let_def)
qed

lemma Execute_good: "good t (snd (browser_Execute env ctx input pol t))"
  by (simp add: browser_Execute_def do_good Let_def split: sum.split)

end

subsection \<open>Screenshots are handed over once\<close>

definition pictures :: "string \<Rightarrow> (string \<times> image_content) list \<Rightarrow> image_content list" where
  "pictures sid l = map snd (filter (\<lambda>(i, img). i = sid) l)"

definition waiting :: "string \<Rightarrow> browser_tool \<Rightarrow> image_content list" where
  "waiting sid t = (case map_of (bt_pending t) sid of Some imgs \<Rightarrow> imgs | None \<Rightarrow> [])"

lemma pictures_append [simp]: "pictures sid (a @ b) = pictures sid a @ pictures sid b"
  by (simp add: pictures_def)

lemma pictures_own [simp]: "pictures sid (map (Pair i) imgs) = (if i = sid then imgs else [])"
  by (induction imgs) (auto simp: pictures_def)

text \<open>What a step adds to the files it adds to the images that wait.\<close>

definition photographs :: "browser_tool \<Rightarrow> browser_tool \<Rightarrow> bool" where
  "photographs t u \<longleftrightarrow> gomap_ok (bt_sessions t) \<longrightarrow> gomap_ok (bt_sessions u)
     \<and> (\<exists>new. bt_files u = bt_files t @ new \<and> (\<forall>sid. waiting sid u = waiting sid t @ pictures sid new))"

lemma photographs_same:
  "bt_files u = bt_files t \<Longrightarrow> bt_pending u = bt_pending t \<Longrightarrow> (gomap_ok (bt_sessions t) \<Longrightarrow> gomap_ok (bt_sessions u)) \<Longrightarrow> photographs t u"
  by (auto simp: photographs_def waiting_def pictures_def)

lemma captureScreenshot_photographs: "photographs t (snd (captureScreenshot env c sid t))"
proof -
  have "(\<exists>e. captureScreenshot env c sid t = (Inl e, t)) \<or> (\<exists>path img. captureScreenshot env c sid t =
      (Inr path, t\<lparr>bt_pending := gomap_put sid (waiting sid t @ [img]) (bt_pending t), bt_files := bt_files t @ [(sid, img)]\<rparr>))"
    by (cases "take_shot env c"; cases "be_mkdir env"; cases "be_write env") (auto simp: captureScreenshot_def waiting_def Let_def)
  then consider e where "captureScreenshot env c sid t = (Inl e, t)"
    | path img where "captureScreenshot env c sid t = (Inr path, t\<lparr>bt_pending := gomap_put sid (waiting sid t @ [img]) (bt_pending t), bt_files := bt_files t @ [(sid, img)]\<rparr>)"
    by blast
  then show ?thesis
  proof cases
    case 1
    then show ?thesis by (simp add: photographs_same)
  next
    case 2
    then show ?thesis by (auto simp: photographs_def waiting_def pictures_def intro!: exI [of _ "[(sid, img)]"])
  qed
qed

interpretation browser_shots: browser_invariant photographs
proof unfold_locales
  fix t u v :: browser_tool
  assume "photographs t u" "photographs u v"
  then show "photographs t v" by (auto simp: photographs_def)
next
  fix t :: browser_tool and env sid
  show "photographs t (snd (start_session env sid t))"
    by (rule photographs_same) (auto simp: start_session_def Let_def split: chrome_start.split)
next
  fix t :: browser_tool and env c sid
  show "photographs t (snd (captureScreenshot env c sid t))" by (rule captureScreenshot_photographs)
next
  fix t u :: browser_tool
  assume "gomap_ok (bt_sessions t)" "photographs t u"
  then show "gomap_ok (bt_sessions u)" by (simp add: photographs_def)
qed (auto intro!: photographs_same simp: drop_session_def)

subsection \<open>One browser per session\<close>

definition browser_ok :: "browser_tool \<Rightarrow> bool" where
  "browser_ok t \<longleftrightarrow> gomap_ok (bt_sessions t) \<and> distinct (bt_live t) \<and> (\<forall>a \<in> set (bt_live t). a < bt_next t)
     \<and> inj_on (\<lambda>sid. map_option bs_alloc (map_of (bt_sessions t) sid)) (dom (map_of (bt_sessions t)))
     \<and> set (bt_live t) = bs_alloc ` ran (map_of (bt_sessions t))"

definition keeps_browsers :: "browser_tool \<Rightarrow> browser_tool \<Rightarrow> bool" where
  "keeps_browsers t u \<longleftrightarrow> (browser_ok t \<longrightarrow> browser_ok u) \<and> (gomap_ok (bt_sessions t) \<longrightarrow> gomap_ok (bt_sessions u))"

lemma ran_put: "ran (m(k \<mapsto> v)) = insert v (ran (m(k := None)))"
  by (auto simp: ran_def)

lemma keeps_touch:
  assumes "map_of (bt_sessions t) sid = Some s" "bs_alloc s' = bs_alloc s"
  shows "keeps_browsers t (t\<lparr>bt_sessions := gomap_put sid s' (bt_sessions t)\<rparr>)"
proof -
  have a: "map_option bs_alloc (map_of (gomap_put sid s' (bt_sessions t)) i) = map_option bs_alloc (map_of (bt_sessions t) i)" for i
    using assms by simp
  have "dom (map_of (gomap_put sid s' (bt_sessions t))) = dom (map_of (bt_sessions t))" using assms(1) by auto
  moreover have "bs_alloc ` ran (map_of (gomap_put sid s' (bt_sessions t))) = bs_alloc ` ran (map_of (bt_sessions t))"
  proof -
    have "bs_alloc ` ran m = {x. \<exists>i. map_option bs_alloc (m i) = Some x}" for m :: "string \<rightharpoonup> browser_session"
      by (force simp: ran_def)
    then show ?thesis by (simp only: a)
  qed
  ultimately show ?thesis unfolding keeps_browsers_def browser_ok_def using a by (auto simp: inj_on_def)
qed

lemma keeps_drop:
  assumes "map_of (bt_sessions t) sid = Some s"
  shows "keeps_browsers t (drop_session sid s t)"
proof -
  let ?m = "map_of (bt_sessions t)"
  have "browser_ok (drop_session sid s t)" if ok: "browser_ok t"
  proof -
    have inj: "i = sid" if "?m i = Some s'" "bs_alloc s' = bs_alloc s" for i s'
    proof (rule inj_onD)
      show "inj_on (\<lambda>i. map_option bs_alloc (?m i)) (dom ?m)" using ok by (simp add: browser_ok_def)
    qed (use that assms in auto)
    have "{x \<in> bs_alloc ` ran ?m. x \<noteq> bs_alloc s} = bs_alloc ` ran (?m(sid := None))"
    proof (intro set_eqI iffI)
      fix x assume "x \<in> {x \<in> bs_alloc ` ran ?m. x \<noteq> bs_alloc s}"
      then obtain i s' where i: "?m i = Some s'" "x = bs_alloc s'" "x \<noteq> bs_alloc s" by (auto simp: ran_def)
      then have "(?m(sid := None)) i = Some s'" using assms by auto
      then have "s' \<in> ran (?m(sid := None))" unfolding ran_def by blast
      then show "x \<in> bs_alloc ` ran (?m(sid := None))" unfolding i(2) by (rule imageI)
    next
      fix x assume "x \<in> bs_alloc ` ran (?m(sid := None))"
      then obtain i s' where i: "i \<noteq> sid" "?m i = Some s'" "x = bs_alloc s'" by (auto simp: ran_def split: if_splits)
      then show "x \<in> {x \<in> bs_alloc ` ran ?m. x \<noteq> bs_alloc s}" using inj by (auto intro: ranI)
    qed
    moreover have "ran (?m(sid := None)) \<subseteq> ran ?m" by (auto simp: ran_def)
    ultimately show ?thesis using ok by (auto simp: browser_ok_def drop_session_def inj_on_def dest: subsetD)
  qed
  then show ?thesis by (simp add: keeps_browsers_def drop_session_def)
qed

lemma keeps_start:
  assumes "map_of (bt_sessions t) sid = None"
  shows "keeps_browsers t (snd (start_session env sid t))"
proof -
  let ?m = "map_of (bt_sessions t)" and ?s = "\<lparr>bs_alloc = bt_next t, bs_ctx = Suc (bt_next t), bs_used = be_now env\<rparr>"
  have "browser_ok (snd (start_session env sid t))" if ok: "browser_ok t"
  proof -
    have fresh: "bs_alloc s < bt_next t" if "?m i = Some s" for i s
      using ok that ranI [of ?m i s] by (auto simp: browser_ok_def)
    have "ran (?m(sid \<mapsto> ?s)) = insert ?s (ran ?m)" using assms by (simp add: ran_map_upd)
    moreover have "inj_on (\<lambda>i. map_option bs_alloc ((?m(sid \<mapsto> ?s)) i)) (dom (?m(sid \<mapsto> ?s)))"
    proof (rule inj_onI)
      fix i j
      assume i: "i \<in> dom (?m(sid \<mapsto> ?s))" and j: "j \<in> dom (?m(sid \<mapsto> ?s))"
        and e: "map_option bs_alloc ((?m(sid \<mapsto> ?s)) i) = map_option bs_alloc ((?m(sid \<mapsto> ?s)) j)"
      have "inj_on (\<lambda>i. map_option bs_alloc (?m i)) (dom ?m)" using ok by (simp add: browser_ok_def)
      from inj_onD [OF this, of i j] show "i = j" using i j e fresh [of i] fresh [of j]
        by (auto split: if_splits)
    qed
    ultimately show ?thesis
      using ok fresh by (auto simp: browser_ok_def start_session_def Let_def less_SucI split: chrome_start.split)
  qed
  then show ?thesis by (auto simp: keeps_browsers_def start_session_def Let_def split: chrome_start.split)
qed

interpretation browser_table: browser_invariant keeps_browsers
proof unfold_locales
  fix t :: browser_tool and env c sid
  have "bt_sessions (snd (captureScreenshot env c sid t)) = bt_sessions t" "bt_live (snd (captureScreenshot env c sid t)) = bt_live t"
    "bt_next (snd (captureScreenshot env c sid t)) = bt_next t"
    by (cases "take_shot env c"; cases "be_mkdir env"; cases "be_write env"; auto simp: captureScreenshot_def Let_def)+
  then show "keeps_browsers t (snd (captureScreenshot env c sid t))" by (simp add: keeps_browsers_def browser_ok_def)
qed (auto simp: keeps_start keeps_touch keeps_drop, auto simp: keeps_browsers_def browser_ok_def intro: less_le_trans)

subsection \<open>Runs\<close>

text \<open>Calls of the tool, images handed to the runtime, and what other goroutines do between them.\<close>

datatype browser_op = Call browser_env go_ctx "go_error + browser_input" policy | Consume go_ctx | Meanwhile string browser_event

fun browser_op_step :: "browser_op \<Rightarrow> (string \<times> image_content) list \<times> browser_tool \<Rightarrow> (string \<times> image_content) list \<times> browser_tool" where
  "browser_op_step (Call env ctx input pol) (out, t) = (out, snd (browser_Execute env ctx input pol t))"
| "browser_op_step (Consume ctx) (out, t) =
     (case browser_ConsumeImages ctx t of (imgs, t1) \<Rightarrow> (out @ map (Pair (SessionIDFromContext ctx)) imgs, t1))"
| "browser_op_step (Meanwhile dir ev) (out, t) = (out, browser_other dir ev t)"

definition browser_run :: "browser_op list \<Rightarrow> (string \<times> image_content) list \<times> browser_tool" where
  "browser_run ops = fold browser_op_step ops ([], new_browser_tool)"

definition accounts_ok :: "(string \<times> image_content) list \<times> browser_tool \<Rightarrow> bool" where
  "accounts_ok s \<longleftrightarrow> browser_ok (snd s) \<and> (\<forall>sid. pictures sid (fst s) @ waiting sid (snd s) = pictures sid (bt_files (snd s)))"

lemma accounts_step: "accounts_ok s \<Longrightarrow> accounts_ok (browser_op_step op s)"
proof -
  obtain out t where s: "s = (out, t)" by (cases s)
  assume ok: "accounts_ok s"
  then have g: "gomap_ok (bt_sessions t)" by (simp add: accounts_ok_def browser_ok_def s)
  have keep: "accounts_ok (out, u)" if "photographs t u" "keeps_browsers t u" for u
    using ok that g by (auto simp: accounts_ok_def s photographs_def keeps_browsers_def)
  show ?thesis
  proof (cases op)
    case (Call env ctx input pol)
    then show ?thesis
      using keep browser_shots.Execute_good browser_table.Execute_good g by (simp add: s browser_shots.good_def browser_table.good_def)
  next
    case (Consume ctx)
    obtain imgs t1 where c: "browser_ConsumeImages ctx t = (imgs, t1)" by force
    then have "browser_ok t1" "bt_files t1 = bt_files t"
      using ok by (auto simp: browser_ConsumeImages_def accounts_ok_def s browser_ok_def Let_def split: if_splits)
    moreover have "pictures sid (out @ map (Pair (SessionIDFromContext ctx)) imgs) @ waiting sid t1 = pictures sid (bt_files t)" for sid
    proof -
      have "waiting sid t = (if sid = SessionIDFromContext ctx then imgs else []) @ waiting sid t1"
        using c by (auto simp: browser_ConsumeImages_def waiting_def Let_def split: if_splits option.splits)
      moreover have "pictures sid out @ waiting sid t = pictures sid (bt_files t)" using ok by (simp add: accounts_ok_def s)
      ultimately show ?thesis by (cases "sid = SessionIDFromContext ctx") auto
    qed
    ultimately show ?thesis using Consume c by (simp add: accounts_ok_def s)
  next
    case (Meanwhile dir ev)
    then show ?thesis using keep browser_shots.other [OF g] browser_table.other [OF g] by (simp add: s)
  qed
qed

lemma accounts_run: "accounts_ok (browser_run ops)"
  unfolding browser_run_def
proof (induction ops rule: rev_induct)
  case Nil
  show ?case by (simp add: accounts_ok_def browser_ok_def new_browser_tool_def gomap_ok_def waiting_def pictures_def)
qed (simp add: accounts_step)

text \<open>
  C34: no screenshot is lost, shown twice or shown to another session. After any calls of the tool by any sessions, with
  tabs that open, idle sessions that are closed and calls that fail at any point, the images handed to the runtime
  for a session followed by those that wait for it are exactly the screenshots saved for that session, in order.
\<close>

theorem browser_images_once:
  "case browser_run ops of (handed, t) \<Rightarrow> pictures sid handed @ waiting sid t = pictures sid (bt_files t)"
  using accounts_run [of ops] by (simp add: accounts_ok_def split_beta)

text \<open>Every live browser belongs to exactly one session of the table, and closing the tool leaves none.\<close>

lemma browser_run_live:
  "browser_run ops = (handed, t) \<Longrightarrow> distinct (bt_live t) \<and> set (bt_live t) = bs_alloc ` ran (map_of (bt_sessions t))"
  using accounts_run [of ops] by (simp add: accounts_ok_def browser_ok_def)

lemma drop_all_live: "bt_live (fold (\<lambda>(sid, s). drop_session sid s) es t) = filter (\<lambda>a. a \<notin> bs_alloc ` snd ` set es) (bt_live t)"
  by (induction es arbitrary: t) (auto simp: drop_session_def intro: filter_cong)

lemma browser_Close_all:
  assumes "browser_ok t"
  shows "bt_live (browser_Close t) = []"
proof -
  have "ran (map_of (bt_sessions t)) \<subseteq> snd ` set (bt_sessions t)" by (force simp: ran_def dest: map_of_SomeD)
  with assms show ?thesis by (auto simp: browser_Close_def drop_all_live browser_ok_def filter_empty_conv)
qed

subsection \<open>What the tool does not check\<close>

lemma browser_ignores_policy: "browser_Execute env ctx input pol t = browser_Execute env ctx input pol' t"
  by (simp add: browser_Execute_def)

text \<open>
  The session id names the directory of the screenshots. A caller of the agent-to-agent server chooses that id; one with
  parent components makes the clean-up of idle sessions remove a directory outside the data directory.
\<close>

lemma idle_cleanup_escapes:
  "bt_removed (cleanIdleSessions ''/home/u/.pincer'' minute (1000 * 1000000000)
      (new_browser_tool\<lparr>bt_sessions := [(''../..'', \<lparr>bs_alloc = 0, bs_ctx = 1, bs_used = 0\<rparr>)]\<rparr>)) = [''/home/u'']"
  by code_simp

text \<open>A session that is cleaned up or closed while its own action runs leaves the call without a context.\<close>

lemma evicted_while_acting:
  assumes "currentContext sid t = None"
  shows "fst (after_page env sid report t) = NilContext"
proof -
  have "fst (wait_loop env sid dl ps url since None t) = None" for dl ps url since by (cases ps) simp_all
  then have "fst (waitForStableURL env sid t) = None" by (simp add: waitForStableURL_def assms)
  then show ?thesis by (auto simp: after_page_def split: prod.split option.split)
qed

end
