(* ===== verification/Backup.thy ===== *)
theory Backup
  imports Sandbox_Policy
begin

section \<open>Backup and restore (\<^verbatim>\<open>cmd/pincer/backup.go\<close>)\<close>

text \<open>
  The two commands as functions: a backup turns what the walk over the data directory finds into entries of an archive, and a
  restore turns entries into operations on the file system. The formats \<^verbatim>\<open>tar\<close> and \<^verbatim>\<open>gzip\<close> are the library's, and
  the file system answers by an argument.
\<close>

definition HasSuffix :: "string \<Rightarrow> string \<Rightarrow> bool" where
  "HasSuffix s t = HasPrefix (rev s) (rev t)"

datatype tar_type = TarDir | TarReg | TarOther

record tar_entry =
  te_name :: string
  te_type :: tar_type
  te_mode :: int
  te_data :: string

subsection \<open>Backup\<close>

text \<open>One step of the walk: the path, its failures, and what the entry is.\<close>

record walk_item =
  wi_path :: string
  wi_err :: "go_error option"
  wi_rel :: "go_error + string"
  wi_header :: "go_error + tar_type \<times> int"
  wi_write :: "go_error option"
  wi_is_dir :: bool
  wi_data :: "go_error + string"

definition backup_item :: "walk_item \<Rightarrow> go_error + tar_entry list \<times> nat" where
  "backup_item i =
     (case wi_err i of Some err \<Rightarrow> Inl err | None \<Rightarrow>
      if HasSuffix (wi_path i) ''-wal'' \<or> HasSuffix (wi_path i) ''-shm'' then Inr ([], 0)
      else (case wi_rel i of Inl err \<Rightarrow> Inl err | Inr rel \<Rightarrow>
        (case wi_header i of Inl err \<Rightarrow> Inl err | Inr (ty, mode) \<Rightarrow>
          (case wi_write i of Some err \<Rightarrow> Inl err | None \<Rightarrow>
            (let h = \<lparr>te_name = path_Join ''pincer-data'' rel, te_type = ty, te_mode = mode, te_data = []\<rparr> in
             if wi_is_dir i then Inr ([h], 0)
             else (case wi_data i of Inl err \<Rightarrow> Inl err | Inr content \<Rightarrow> Inr ([h\<lparr>te_data := content\<rparr>], 1)))))))"

fun backup_walk :: "walk_item list \<Rightarrow> go_error + tar_entry list \<times> nat" where
  "backup_walk [] = Inr ([], 0)"
| "backup_walk (i # is) =
     (case backup_item i of
        Inl err \<Rightarrow> Inl err
      | Inr (es, n) \<Rightarrow> (case backup_walk is of Inl err \<Rightarrow> Inl err | Inr (es', n') \<Rightarrow> Inr (es @ es', n + n')))"

definition runBackup :: "string \<Rightarrow> bool \<Rightarrow> go_error option \<Rightarrow> walk_item list \<Rightarrow> go_error + tar_entry list \<times> nat" where
  "runBackup dataDir has_dir created items =
     (if \<not> has_dir then Inl (ErrText (''data directory '' @ dataDir @ '' does not exist''))
      else (case created of
        Some err \<Rightarrow> Inl (ErrWrap ''creating backup file: '' err)
      | None \<Rightarrow> (case backup_walk items of
          Inl err \<Rightarrow> Inl (ErrWrap ''creating backup: '' err)
        | Inr r \<Rightarrow> Inr r)))"

subsection \<open>Restore\<close>

datatype tar_item = TarEntry tar_entry | TarError go_error
datatype fs_op = MkdirAll string | OpenFile string int | CopyTo string string

definition maxRestoreSize :: nat where "maxRestoreSize = 512 * 1024 * 1024"

text \<open>The name without its first component.\<close>

definition entry_rel :: "string \<Rightarrow> string" where
  "entry_rel name = (case IndexByte name slash of Some i \<Rightarrow> drop (Suc i) name | None \<Rightarrow> name)"

definition restore_inside :: "string \<Rightarrow> string \<Rightarrow> bool" where
  "restore_inside dataDir target \<longleftrightarrow> HasPrefix (Clean target) (Clean dataDir @ [slash]) \<or> Clean target = Clean dataDir"

text \<open>The file system answers the operation with the number of those before it; attempted operations are recorded.\<close>

definition restore_file :: "(nat \<Rightarrow> go_error option) \<Rightarrow> string \<Rightarrow> tar_entry \<Rightarrow> fs_op list \<Rightarrow> go_error option \<times> fs_op list" where
  "restore_file fault target h ops =
     (let ops1 = ops @ [MkdirAll (Dir target)]; ops2 = ops1 @ [OpenFile target (te_mode h mod 512)];
          ops3 = ops2 @ [CopyTo target (take maxRestoreSize (te_data h))]
      in case fault (length ops) of
        Some err \<Rightarrow> (Some err, ops1)
      | None \<Rightarrow> (case fault (length ops1) of
          Some err \<Rightarrow> (Some (ErrWrap (''creating file '' @ target @ '': '') err), ops2)
        | None \<Rightarrow> (map_option (ErrWrap (''writing file '' @ target @ '': '')) (fault (length ops2)), ops3)))"

fun restore_loop :: "(nat \<Rightarrow> go_error option) \<Rightarrow> string \<Rightarrow> tar_item list \<Rightarrow> nat \<Rightarrow> fs_op list \<Rightarrow> (go_error + nat) \<times> fs_op list" where
  "restore_loop fault dataDir [] count ops = (Inr count, ops)"
| "restore_loop fault dataDir (TarError err # items) count ops = (Inl (ErrWrap ''reading tar: '' err), ops)"
| "restore_loop fault dataDir (TarEntry h # items) count ops =
     (let relPath = entry_rel (te_name h); target = path_Join dataDir (Clean relPath) in
      if relPath = [] \<or> relPath = ''.'' then restore_loop fault dataDir items count ops
      else if \<not> restore_inside dataDir target then (Inl (ErrText (''invalid path in backup: '' @ te_name h)), ops)
      else (case te_type h of
        TarDir \<Rightarrow> (case fault (length ops) of
            Some err \<Rightarrow> (Inl (ErrWrap (''creating directory '' @ target @ '': '') err), ops @ [MkdirAll target])
          | None \<Rightarrow> restore_loop fault dataDir items count (ops @ [MkdirAll target]))
      | TarReg \<Rightarrow> (case restore_file fault target h ops of
            (Some err, ops1) \<Rightarrow> (Inl err, ops1)
          | (None, ops1) \<Rightarrow> restore_loop fault dataDir items (Suc count) ops1)
      | TarOther \<Rightarrow> restore_loop fault dataDir items count ops))"

definition runRestore :: "(nat \<Rightarrow> go_error option) \<Rightarrow> go_error option \<Rightarrow> go_error + tar_item list \<Rightarrow> string \<Rightarrow> (go_error + nat) \<times> fs_op list" where
  "runRestore fault opened archive dataDir =
     (case opened of
        Some err \<Rightarrow> (Inl (ErrWrap ''opening backup: '' err), [])
      | None \<Rightarrow> (case archive of
          Inl err \<Rightarrow> (Inl (ErrWrap ''reading gzip: '' err), [])
        | Inr items \<Rightarrow> (case fault 0 of
            Some err \<Rightarrow> (Inl (ErrWrap ''creating data directory: '' err), [MkdirAll dataDir])
          | None \<Rightarrow> restore_loop fault dataDir items 0 [MkdirAll dataDir])))"

subsection \<open>Nothing outside the data directory is written\<close>

lemma dir_part_abs: "slash \<notin> set c \<Longrightarrow> dir_part (p @ slash # c) = p @ [slash]"
  by (simp add: dir_part_def dropWhile_append)

lemma Join_snoc: "cs \<noteq> [] \<Longrightarrow> Join (cs @ [c]) [slash] = Join cs [slash] @ slash # c"
proof (induction cs)
  case (Cons a cs)
  then show ?case by (cases cs) simp_all
qed simp

lemma abs_path_snoc: "abs_path (cs @ [c]) = (if cs = [] then [] else abs_path cs) @ slash # c"
  by (cases "cs = []") (simp_all add: abs_path_def Join_snoc)

lemma Dir_abs_path: "list_all ok_comp cs \<Longrightarrow> cs \<noteq> [] \<Longrightarrow> Dir (abs_path cs) = abs_path (butlast cs)"
proof -
  assume ok: "list_all ok_comp cs" and "cs \<noteq> []"
  then obtain ds d where cs: "cs = ds @ [d]" by (metis append_butlast_last_id)
  with ok have d: "slash \<notin> set d" "list_all ok_comp ds" by (auto simp: ok_comp_def)
  have "Dir (abs_path cs) = Clean ((if ds = [] then [] else abs_path ds) @ [slash])"
    unfolding Dir_def cs abs_path_snoc by (simp add: dir_part_abs d)
  also have "\<dots> = abs_path ds"
  proof -
    have "split_slash ((if ds = [] then [] else abs_path ds) @ [slash]) = (if ds = [] then [[]] else [] # ds) @ [[]]"
      using split_slash_append [of "if ds = [] then [] else abs_path ds" "[]"] d(2) by (auto simp: split_abs_path)
    then show ?thesis
      using clean_comps_id [OF d(2), of True "[]"] by (auto simp: Clean_def rooted_path_def abs_path_def clean_comps_append)
  qed
  finally show ?thesis by (simp add: cs)
qed

definition below :: "string \<Rightarrow> string \<Rightarrow> bool" where
  "below d p \<longleftrightarrow> (\<exists>ds cs. Clean d = abs_path ds \<and> p = abs_path (ds @ cs) \<and> list_all ok_comp (ds @ cs))"

lemma inside_below:
  assumes "rooted_path d" "restore_inside d (path_Join d r)"
  shows "below d (path_Join d r) \<and> (below d (Dir (path_Join d r)) \<or> Dir (path_Join d r) = Dir (Clean d))"
proof -
  let ?t = "path_Join d r"
  have ct: "clean_abs ?t" "clean_abs (Clean d)" using assms(1) by (auto intro: path_Join_rooted clean_abs_Clean)
  then obtain ts ds where t: "?t = abs_path ts" "list_all ok_comp ts" and d: "Clean d = abs_path ds" "list_all ok_comp ds"
    unfolding clean_abs_iff by blast
  have "isSubPath ?t (Clean d)" using assms(2) ct(1) by (auto simp: restore_inside_def isSubPath_def clean_abs_def)
  then have "?t = Clean d \<or> prefix ds ts" unfolding isSubPath_comps [OF ct] using t d by auto
  then have "prefix ds ts" using t d by (metis path_comps_abs prefix_order.refl)
  then obtain cs where ts: "ts = ds @ cs" by (auto simp: prefix_def)
  have "below d (Dir ?t) \<or> Dir ?t = Dir (Clean d)"
  proof (cases "cs = []")
    case True
    then show ?thesis by (simp add: t d ts)
  next
    case False
    then have "Dir ?t = abs_path (ds @ butlast cs)" using t(2) by (simp add: t(1) ts Dir_abs_path butlast_append)
    moreover have "list_all ok_comp (ds @ butlast cs)" using t(2) by (auto simp: ts list_all_iff dest: in_set_butlastD)
    ultimately show ?thesis using d(1) unfolding below_def by blast
  qed
  with t d ts show ?thesis unfolding below_def by blast
qed

definition confined :: "string \<Rightarrow> fs_op \<Rightarrow> bool" where
  "confined d op \<longleftrightarrow>
     (case op of
        MkdirAll p \<Rightarrow> p = d \<or> below d p \<or> p = Dir (Clean d)
      | OpenFile p mode \<Rightarrow> below d p \<and> 0 \<le> mode \<and> mode < 512
      | CopyTo p content \<Rightarrow> below d p \<and> length content \<le> maxRestoreSize)"

lemma confined_simps [simp]:
  "confined d (MkdirAll p) \<longleftrightarrow> p = d \<or> below d p \<or> p = Dir (Clean d)"
  "confined d (OpenFile p mode) \<longleftrightarrow> below d p \<and> 0 \<le> mode \<and> mode < 512"
  "confined d (CopyTo p content) \<longleftrightarrow> below d p \<and> length content \<le> maxRestoreSize"
  by (simp_all add: confined_def)

lemma restore_loop_confined:
  "rooted_path d \<Longrightarrow> list_all (confined d) ops \<Longrightarrow> list_all (confined d) (snd (restore_loop fault d items count ops))"
proof (induction fault d items count ops rule: restore_loop.induct)
  case (3 fault d h items count ops)
  let ?rel = "entry_rel (te_name h)" and ?t = "path_Join d (Clean (entry_rel (te_name h)))"
  show ?case
  proof (cases "?rel = [] \<or> ?rel = ''.'' \<or> \<not> restore_inside d ?t")
    case True
    with 3 show ?thesis by (auto simp: Let_def)
  next
    case False
    then have b: "below d ?t" "below d (Dir ?t) \<or> Dir ?t = Dir (Clean d)" using inside_below [OF "3.prems"(1)] by blast+
    then have files: "list_all (confined d) (snd (restore_file fault ?t h ops))"
      using "3.prems"(2) by (auto simp: restore_file_def Let_def split: option.split)
    have dir: "list_all (confined d) (ops @ [MkdirAll ?t])" using "3.prems"(2) b by simp
    show ?thesis
    proof (cases "te_type h")
      case TarDir
      with False dir 3 show ?thesis by (auto simp: Let_def split: option.split)
    next
      case TarReg
      obtain e ops1 where r: "restore_file fault ?t h ops = (e, ops1)" by force
      with False TarReg files 3 show ?thesis by (cases e) (auto simp: Let_def)
    next
      case TarOther
      with False 3 show ?thesis by (auto simp: Let_def)
    qed
  qed
qed simp_all



subsection \<open>What is backed up comes back\<close>

text \<open>
  A data directory as a list of its entries in the order of the walk: the components of a path below it, and for a file its mode
  and contents. The steps of its walk, when nothing fails:
\<close>

definition dir_item :: "string list \<Rightarrow> string list \<Rightarrow> walk_item" where
  "dir_item ds cs = \<lparr>wi_path = abs_path (ds @ cs), wi_err = None, wi_rel = Inr (if cs = [] then ''.'' else Join cs [slash]),
     wi_header = Inr (TarDir, 493), wi_write = None, wi_is_dir = True, wi_data = Inr []\<rparr>"

definition file_item :: "string list \<Rightarrow> string list \<Rightarrow> int \<Rightarrow> string \<Rightarrow> walk_item" where
  "file_item ds cs mode content = \<lparr>wi_path = abs_path (ds @ cs), wi_err = None, wi_rel = Inr (Join cs [slash]),
     wi_header = Inr (TarReg, mode), wi_write = None, wi_is_dir = False, wi_data = Inr content\<rparr>"

definition walk_of :: "string list \<Rightarrow> (string list \<times> (int \<times> string) option) list \<Rightarrow> walk_item list" where
  "walk_of ds tree = map (\<lambda>(cs, f). case f of None \<Rightarrow> dir_item ds cs | Some (mode, content) \<Rightarrow> file_item ds cs mode content) tree"

definition skipped :: "string list \<Rightarrow> string list \<Rightarrow> bool" where
  "skipped ds cs \<longleftrightarrow> HasSuffix (abs_path (ds @ cs)) ''-wal'' \<or> HasSuffix (abs_path (ds @ cs)) ''-shm''"

text \<open>The files of the tree that a backup keeps, with their paths, and the files that a run of operations writes.\<close>

definition kept_files :: "string list \<Rightarrow> (string list \<times> (int \<times> string) option) list \<Rightarrow> (string \<times> string) list" where
  "kept_files ds tree = concat (map (\<lambda>(cs, f). case f of Some (mode, content) \<Rightarrow> if skipped ds cs then [] else [(abs_path (ds @ cs), content)] | None \<Rightarrow> []) tree)"

definition written :: "fs_op list \<Rightarrow> (string \<times> string) list" where
  "written ops = concat (map (\<lambda>op. case op of CopyTo p content \<Rightarrow> [(p, content)] | _ \<Rightarrow> []) ops)"

lemma written_append [simp]: "written (a @ b) = written a @ written b"
  by (simp add: written_def)

lemma Join_relative:
  assumes "list_all ok_comp cs" "cs \<noteq> []"
  shows "\<not> rooted_path (Join cs [slash])" "Clean (Join cs [slash]) = Join cs [slash]" "Join cs [slash] \<noteq> []" "Join cs [slash] \<noteq> ''.''"
proof -
  obtain c ds where cs: "cs = c # ds" using assms(2) by (cases cs) auto
  then obtain x c' where c: "c = x # c'" "x \<noteq> slash" using assms(1) by (cases c) (auto simp: ok_comp_def)
  show r: "\<not> rooted_path (Join cs [slash])" using c by (cases ds) (simp_all add: cs rooted_path_def)
  show "Clean (Join cs [slash]) = Join cs [slash]"
    using r assms clean_comps_id [OF assms(1), of False "[]"] by (simp add: Clean_def split_slash_Join list_all_ok_free)
  show "Join cs [slash] \<noteq> []" using c by (cases ds) (simp_all add: cs)
  show "Join cs [slash] \<noteq> ''.''" using c assms(1) by (cases ds; cases c') (auto simp: cs ok_comp_def)
qed

lemma Join_prepend: "cs \<noteq> [] \<Longrightarrow> Join (c # cs) [slash] = c @ slash # Join cs [slash]"
  by (cases cs) simp_all

lemma entry_name:
  assumes "list_all ok_comp cs" "cs \<noteq> []"
  shows "path_Join ''pincer-data'' (Join cs [slash]) = ''pincer-data/'' @ Join cs [slash]"
    and "entry_rel (''pincer-data/'' @ Join cs [slash]) = Join cs [slash]"
proof -
  have "list_all ok_comp (''pincer-data'' # cs)" using assms(1) by (simp add: ok_comp_def)
  from Join_relative(2) [OF this] show "path_Join ''pincer-data'' (Join cs [slash]) = ''pincer-data/'' @ Join cs [slash]"
    by (simp add: path_Join_def Join_prepend [OF assms(2)])
  show "entry_rel (''pincer-data/'' @ Join cs [slash]) = Join cs [slash]" by (simp add: entry_rel_def)
qed

lemma restore_target:
  assumes "list_all ok_comp (ds @ cs)" "ds \<noteq> []" "cs \<noteq> []"
  shows "path_Join (abs_path ds) (Join cs [slash]) = abs_path (ds @ cs)" "restore_inside (abs_path ds) (abs_path (ds @ cs))"
proof -
  have "abs_path ds @ slash # Join cs [slash] = abs_path (ds @ cs)"
    using assms(2,3)
  proof (induction cs rule: rev_induct)
    case (snoc c cs)
    then show ?case
      by (cases "cs = []") (simp_all add: abs_path_snoc Join_snoc append_assoc [symmetric] del: append_assoc)
  qed simp
  then show "path_Join (abs_path ds) (Join cs [slash]) = abs_path (ds @ cs)"
    using Clean_abs_path [OF assms(1)] by (simp add: path_Join_def abs_path_def)
  have ds: "list_all ok_comp ds" using assms(1) by simp
  then show "restore_inside (abs_path ds) (abs_path (ds @ cs))"
    unfolding restore_inside_def Clean_abs_path [OF assms(1)] Clean_abs_path [OF ds]
    using HasPrefix_Join [OF assms(2) assms(1) ds] assms(3) by (simp add: abs_path_def strict_prefix_def)
qed

text \<open>A tree that can exist: proper names, the root a directory, and files the restore does not cut.\<close>

definition tree_ok :: "string list \<Rightarrow> (string list \<times> (int \<times> string) option) list \<Rightarrow> bool" where
  "tree_ok ds tree \<longleftrightarrow> ds \<noteq> [] \<and> list_all ok_comp ds
     \<and> list_all (\<lambda>(cs, f). list_all ok_comp cs \<and> (cs = [] \<longrightarrow> f = None)
         \<and> (case f of Some (mode, content) \<Rightarrow> length content \<le> maxRestoreSize | None \<Rightarrow> True)) tree"

abbreviation no_faults :: "nat \<Rightarrow> go_error option" where "no_faults \<equiv> \<lambda>_. None"

lemma restore_dir_step:
  assumes "te_type h = TarDir" "entry_rel (te_name h) = Join cs [slash]" "list_all ok_comp cs" "cs \<noteq> []"
    and "path_Join d (Join cs [slash]) = p" "restore_inside d p"
  shows "restore_loop no_faults d (TarEntry h # items) count ops = restore_loop no_faults d items count (ops @ [MkdirAll p])"
  using assms Join_relative [OF assms(3,4)] by simp

lemma restored_dir:
  assumes "list_all ok_comp ds" "ds \<noteq> []" "list_all ok_comp cs"
  shows "\<exists>es ops1. backup_item (dir_item ds cs) = Inr (es, 0) \<and> written ops1 = []
    \<and> (\<forall>items count ops. restore_loop no_faults (abs_path ds) (map TarEntry es @ items) count ops = restore_loop no_faults (abs_path ds) items count (ops @ ops1))"
proof (cases "skipped ds cs")
  case True
  then show ?thesis by (intro exI [of _ "[]"]) (auto simp: backup_item_def dir_item_def skipped_def written_def)
next
  case False
  define cs' where "cs' = (if cs = [] then [''pincer-data''] else cs)"
  have cs': "list_all ok_comp (ds @ cs')" "cs' \<noteq> []" "list_all ok_comp cs'" using assms by (auto simp: cs'_def ok_comp_def)
  have root: "path_Join ''pincer-data'' ''.'' = ''pincer-data''" "entry_rel ''pincer-data'' = ''pincer-data''" by code_simp+
  let ?h = "\<lparr>te_name = path_Join ''pincer-data'' (if cs = [] then ''.'' else Join cs [slash]), te_type = TarDir, te_mode = 493, te_data = []\<rparr>"
  have b: "backup_item (dir_item ds cs) = Inr ([?h], 0)"
    using False unfolding backup_item_def dir_item_def skipped_def by simp
  have rel: "entry_rel (te_name ?h) = Join cs' [slash]"
    using entry_name [OF assms(3)] root by (cases "cs = []") (simp_all add: cs'_def)
  have "restore_loop no_faults (abs_path ds) (TarEntry ?h # items) count ops = restore_loop no_faults (abs_path ds) items count (ops @ [MkdirAll (abs_path (ds @ cs'))])" for items count ops
    by (rule restore_dir_step [OF _ rel cs'(3,2) restore_target [OF cs'(1) assms(2) cs'(2)]]) simp
  with b show ?thesis by (intro exI [of _ "[?h]"] exI [of _ "[MkdirAll (abs_path (ds @ cs'))]"]) (simp add: written_def)
qed

lemma restored_file:
  assumes "list_all ok_comp ds" "ds \<noteq> []" "list_all ok_comp cs" "cs \<noteq> []" "length content \<le> maxRestoreSize"
  shows "\<exists>es ops1. backup_item (file_item ds cs mode content) = Inr (es, length es) \<and> written ops1 = (if skipped ds cs then [] else [(abs_path (ds @ cs), content)])
    \<and> length es = (if skipped ds cs then 0 else 1)
    \<and> (\<forall>items count ops. restore_loop no_faults (abs_path ds) (map TarEntry es @ items) count ops = restore_loop no_faults (abs_path ds) items (count + length es) (ops @ ops1))"
proof (cases "skipped ds cs")
  case True
  then show ?thesis by (intro exI [of _ "[]"]) (auto simp: backup_item_def file_item_def skipped_def written_def)
next
  case False
  have ok: "list_all ok_comp (ds @ cs)" using assms by simp
  let ?h = "\<lparr>te_name = ''pincer-data/'' @ Join cs [slash], te_type = TarReg, te_mode = mode, te_data = content\<rparr>"
  let ?p = "abs_path (ds @ cs)"
  have b: "backup_item (file_item ds cs mode content) = Inr ([?h], 1)"
    using False entry_name(1) [OF assms(3,4)] unfolding backup_item_def file_item_def skipped_def by simp
  have "restore_loop no_faults (abs_path ds) (TarEntry ?h # items) count ops =
      restore_loop no_faults (abs_path ds) items (Suc count) (ops @ [MkdirAll (Dir ?p), OpenFile ?p (mode mod 512), CopyTo ?p content])" for items count ops
    using Join_relative [OF assms(3,4)] restore_target [OF ok assms(2,4)] entry_name(2) [OF assms(3,4)] assms(5) by (simp add: restore_file_def Let_def)
  with b False show ?thesis by (intro exI [of _ "[?h]"] exI [of _ "[MkdirAll (Dir ?p), OpenFile ?p (mode mod 512), CopyTo ?p content]"]) (simp add: written_def)
qed

lemma round_trip_walk:
  "tree_ok ds tree \<Longrightarrow> \<exists>es ops1. backup_walk (walk_of ds tree) = Inr (es, length (kept_files ds tree)) \<and> written ops1 = kept_files ds tree
    \<and> (\<forall>items count ops. restore_loop no_faults (abs_path ds) (map TarEntry es @ items) count ops
         = restore_loop no_faults (abs_path ds) items (count + length (kept_files ds tree)) (ops @ ops1))"
proof (induction tree)
  case Nil
  show ?case by (intro exI [of _ "[]"]) (simp add: walk_of_def kept_files_def written_def)
next
  case (Cons e tree)
  obtain cs f where e: "e = (cs, f)" by (cases e)
  from Cons.prems have ok: "tree_ok ds tree" "ds \<noteq> []" "list_all ok_comp ds" "list_all ok_comp cs" "cs = [] \<longrightarrow> f = None"
    and size: "\<And>mode content. f = Some (mode, content) \<Longrightarrow> length content \<le> maxRestoreSize" by (auto simp: tree_ok_def e)
  from Cons.IH [OF ok(1)] obtain es2 ops2 where w2: "backup_walk (walk_of ds tree) = Inr (es2, length (kept_files ds tree))"
    "written ops2 = kept_files ds tree" and l2: "\<And>items count ops. restore_loop no_faults (abs_path ds) (map TarEntry es2 @ items) count ops
         = restore_loop no_faults (abs_path ds) items (count + length (kept_files ds tree)) (ops @ ops2)" by blast
  show ?case
  proof (cases f)
    case None
    from restored_dir [OF ok(3,2,4)] obtain es1 ops1 where w1: "backup_item (dir_item ds cs) = Inr (es1, 0)" "written ops1 = []"
      and l1: "\<And>items count ops. restore_loop no_faults (abs_path ds) (map TarEntry es1 @ items) count ops = restore_loop no_faults (abs_path ds) items count (ops @ ops1)"
      by blast
    from w1 w2 l1 l2 None show ?thesis
      by (intro exI [of _ "es1 @ es2"] exI [of _ "ops1 @ ops2"]) (simp add: walk_of_def kept_files_def e)
  next
    case (Some mc)
    obtain mode content where mc: "mc = (mode, content)" by (cases mc)
    with Some ok(5) have "cs \<noteq> []" by auto
    from restored_file [OF ok(3,2,4) this size [unfolded Some mc, OF refl], of mode] obtain es1 ops1 where
      w1: "backup_item (file_item ds cs mode content) = Inr (es1, length es1)" "written ops1 = (if skipped ds cs then [] else [(abs_path (ds @ cs), content)])"
        "length es1 = (if skipped ds cs then 0 else 1)"
      and l1: "\<And>items count ops. restore_loop no_faults (abs_path ds) (map TarEntry es1 @ items) count ops
         = restore_loop no_faults (abs_path ds) items (count + length es1) (ops @ ops1)" by blast
    from w1 w2 l1 l2 Some mc show ?thesis
      by (intro exI [of _ "es1 @ es2"] exI [of _ "ops1 @ ops2"]) (auto simp: walk_of_def kept_files_def e add.assoc)
  qed
qed



text \<open>
  The name of the root has no slash to cut at, so a restore makes a directory of that name inside the data directory.
\<close>

lemma restore_spurious_dir:
  "backup_walk [dir_item [''data''] []] = Inr ([\<lparr>te_name = ''pincer-data'', te_type = TarDir, te_mode = 493, te_data = []\<rparr>], 0)"
  "snd (runRestore no_faults None (Inr [TarEntry \<lparr>te_name = ''pincer-data'', te_type = TarDir, te_mode = 493, te_data = []\<rparr>]) ''/data'')
     = [MkdirAll ''/data'', MkdirAll ''/data/pincer-data'']"
  by code_simp+

text \<open>A larger file is cut at the limit, and the restore reports success.\<close>

lemma restore_cuts_large_files:
  assumes "tree_ok ds [(cs, Some (mode, []))]" "list_all ok_comp (ds @ cs)" "length content > maxRestoreSize"
  shows "runRestore no_faults None (Inr [TarEntry \<lparr>te_name = ''pincer-data/'' @ Join cs [slash], te_type = TarReg, te_mode = mode, te_data = content\<rparr>]) (abs_path ds)
    = (Inr 1, [MkdirAll (abs_path ds), MkdirAll (Dir (abs_path (ds @ cs))), OpenFile (abs_path (ds @ cs)) (mode mod 512),
        CopyTo (abs_path (ds @ cs)) (take maxRestoreSize content)])"
proof -
  have cs: "list_all ok_comp cs" "cs \<noteq> []" "ds \<noteq> []" using assms(1) by (auto simp: tree_ok_def)
  show ?thesis
    using Join_relative [OF cs(1,2)] restore_target [OF assms(2) cs(3,2)] entry_name(2) [OF cs(1,2)]
    by (simp add: runRestore_def restore_file_def Let_def)
qed

end
