(* ===== verification/Session_Locks.thy ===== *)
theory Session_Locks
  imports Approval
begin

section \<open>Turns of one session exclude each other (\<^verbatim>\<open>pkg/agent/agent.go\<close>)\<close>

text \<open>
  The theories of a turn run one turn to its end. Calls of \<^verbatim>\<open>RunTurn\<close> come from many goroutines; what makes the
  sequential reading right is a mutex for each session, taken before the message is stored and released by the goroutine of
  the loop. Here the calls are threads and their sections are the steps of a relation. The last part joins
  the reader of a web socket to it, which calls \<^verbatim>\<open>RunTurn\<close> between two frames.
\<close>

subsection \<open>Locks\<close>

text \<open>Where a call is: it waits for the mutex, stores the message, runs the loop, or it is over.\<close>

datatype turn_phase = WaitLock nat string | Persisting nat string | InLoop nat string | TurnOver

record locks =
  lk_table :: "string \<rightharpoonup> nat"
  lk_count :: nat
  lk_holder :: "nat \<rightharpoonup> nat"
  lk_turns :: "nat \<rightharpoonup> turn_phase"

definition new_locks :: locks where
  "new_locks = \<lparr>lk_table = Map.empty, lk_count = 0, lk_holder = Map.empty, lk_turns = Map.empty\<rparr>"

definition sessionLock :: "string \<Rightarrow> locks \<Rightarrow> nat \<times> locks" where
  "sessionLock sid s =
     (case lk_table s sid of
        Some m \<Rightarrow> (m, s)
      | None \<Rightarrow> (lk_count s, s\<lparr>lk_table := (lk_table s)(sid \<mapsto> lk_count s), lk_count := Suc (lk_count s)\<rparr>))"

definition set_phase :: "nat \<Rightarrow> turn_phase \<Rightarrow> locks \<Rightarrow> locks" where
  "set_phase t ph s = s\<lparr>lk_turns := (lk_turns s)(t \<mapsto> ph)\<rparr>"

definition mutex_unlock :: "nat \<Rightarrow> locks \<Rightarrow> locks" where
  "mutex_unlock m s = s\<lparr>lk_holder := (lk_holder s)(m := None)\<rparr>"

text \<open>The sections of a call; one that is not enabled gives \<^term>\<open>None\<close>.\<close>

definition turn_call :: "nat \<Rightarrow> string \<Rightarrow> locks \<Rightarrow> locks option" where
  "turn_call t sid s =
     (if lk_turns s t \<noteq> None then None
      else (case sessionLock sid s of (m, s1) \<Rightarrow> Some (set_phase t (WaitLock m sid) s1)))"

definition turn_lock :: "nat \<Rightarrow> locks \<Rightarrow> locks option" where
  "turn_lock t s =
     (case lk_turns s t of
        Some (WaitLock m sid) \<Rightarrow>
          (if lk_holder s m \<noteq> None then None else Some (set_phase t (Persisting m sid) (s\<lparr>lk_holder := (lk_holder s)(m \<mapsto> t)\<rparr>)))
      | _ \<Rightarrow> None)"

definition turn_persist :: "bool \<Rightarrow> nat \<Rightarrow> locks \<Rightarrow> locks option" where
  "turn_persist failed t s =
     (case lk_turns s t of
        Some (Persisting m sid) \<Rightarrow> Some (if failed then set_phase t TurnOver (mutex_unlock m s) else set_phase t (InLoop m sid) s)
      | _ \<Rightarrow> None)"

definition turn_finish :: "nat \<Rightarrow> locks \<Rightarrow> locks option" where
  "turn_finish t s =
     (case lk_turns s t of
        Some (InLoop m sid) \<Rightarrow> Some (set_phase t TurnOver (mutex_unlock m s))
      | _ \<Rightarrow> None)"

inductive turn_step :: "locks \<Rightarrow> locks \<Rightarrow> bool" where
  call: "turn_call t sid s = Some s' \<Longrightarrow> turn_step s s'"
| lock: "turn_lock t s = Some s' \<Longrightarrow> turn_step s s'"
| persist: "turn_persist failed t s = Some s' \<Longrightarrow> turn_step s s'"
| finish: "turn_finish t s = Some s' \<Longrightarrow> turn_step s s'"

definition turns_reachable :: "locks \<Rightarrow> bool" where
  "turns_reachable s \<longleftrightarrow> turn_step\<^sup>*\<^sup>* new_locks s"

fun phase_of :: "turn_phase \<Rightarrow> (bool \<times> nat \<times> string) option" where
  "phase_of (WaitLock m sid) = Some (False, m, sid)"
| "phase_of (Persisting m sid) = Some (True, m, sid)"
| "phase_of (InLoop m sid) = Some (True, m, sid)"
| "phase_of TurnOver = None"

definition turn_at :: "locks \<Rightarrow> nat \<Rightarrow> bool \<Rightarrow> nat \<Rightarrow> string \<Rightarrow> bool" where
  "turn_at s t inside m sid \<longleftrightarrow> (\<exists>ph. lk_turns s t = Some ph \<and> phase_of ph = Some (inside, m, sid))"

definition turn_runs :: "locks \<Rightarrow> nat \<Rightarrow> string \<Rightarrow> bool" where
  "turn_runs s t sid \<longleftrightarrow> (\<exists>m. turn_at s t True m sid)"

definition turn_waits :: "locks \<Rightarrow> nat \<Rightarrow> string \<Rightarrow> bool" where
  "turn_waits s t sid \<longleftrightarrow> (\<exists>m. turn_at s t False m sid)"

definition turn_holds :: "locks \<Rightarrow> nat \<Rightarrow> nat \<Rightarrow> bool" where
  "turn_holds s t m \<longleftrightarrow> (\<exists>sid. turn_at s t True m sid)"

subsection \<open>The invariant\<close>

definition locks_ok :: "locks \<Rightarrow> bool" where
  "locks_ok s \<longleftrightarrow> (\<forall>sid m. lk_table s sid = Some m \<longrightarrow> m < lk_count s)
     \<and> (\<forall>sid sid' m. lk_table s sid = Some m \<and> lk_table s sid' = Some m \<longrightarrow> sid = sid')
     \<and> (\<forall>t b m sid. turn_at s t b m sid \<longrightarrow> lk_table s sid = Some m)
     \<and> (\<forall>m t. lk_holder s m = Some t \<longleftrightarrow> turn_holds s t m)"

lemma locks_okD:
  assumes "locks_ok s"
  shows "lk_table s sid = Some m \<Longrightarrow> m < lk_count s"
    and "lk_table s sid = Some m \<Longrightarrow> lk_table s sid' = Some m \<Longrightarrow> sid = sid'"
    and "turn_at s t b m sid \<Longrightarrow> lk_table s sid = Some m"
    and "lk_holder s m = Some t \<longleftrightarrow> turn_holds s t m"
  using assms unfolding locks_ok_def by blast+

lemma locks_okI:
  assumes "\<And>sid m. lk_table s sid = Some m \<Longrightarrow> m < lk_count s"
    and "\<And>sid sid' m. lk_table s sid = Some m \<Longrightarrow> lk_table s sid' = Some m \<Longrightarrow> sid = sid'"
    and "\<And>t b m sid. turn_at s t b m sid \<Longrightarrow> lk_table s sid = Some m"
    and "\<And>m t. lk_holder s m = Some t \<longleftrightarrow> turn_holds s t m"
  shows "locks_ok s"
  using assms unfolding locks_ok_def by blast

lemma turn_at_set_phase [simp]:
  "turn_at (set_phase t ph s) u b m sid \<longleftrightarrow> (if u = t then phase_of ph = Some (b, m, sid) else turn_at s u b m sid)"
  "turn_holds (set_phase t ph s) u m' \<longleftrightarrow> (if u = t then \<exists>sid'. phase_of ph = Some (True, m', sid') else turn_holds s u m')"
  by (simp_all add: turn_holds_def turn_at_def set_phase_def)

lemma set_phase_fields [simp]:
  "lk_table (set_phase t ph s) = lk_table s" "lk_count (set_phase t ph s) = lk_count s" "lk_holder (set_phase t ph s) = lk_holder s"
  by (simp_all add: set_phase_def)

lemma turn_at_updates [simp]:
  "turn_at (s\<lparr>lk_holder := h\<rparr>) t b m sid = turn_at s t b m sid"
  "turn_at (s\<lparr>lk_table := tb, lk_count := n\<rparr>) t b m sid = turn_at s t b m sid"
  "turn_at (mutex_unlock m' s) t b m sid = turn_at s t b m sid"
  "turn_holds (s\<lparr>lk_holder := h\<rparr>) t m = turn_holds s t m"
  "turn_holds (s\<lparr>lk_table := tb, lk_count := n\<rparr>) t m = turn_holds s t m"
  "turn_holds (mutex_unlock m' s) t m = turn_holds s t m"
  "lk_table (mutex_unlock m' s) = lk_table s" "lk_count (mutex_unlock m' s) = lk_count s"
  "lk_holder (mutex_unlock m' s) = (lk_holder s)(m' := None)"
  by (simp_all add: turn_holds_def turn_at_def mutex_unlock_def)

lemma turn_at_unique: "turn_at s t b m sid \<Longrightarrow> turn_at s t b' m' sid' \<Longrightarrow> b = b' \<and> m = m' \<and> sid = sid'"
  by (auto simp: turn_at_def)

lemma turn_holds_at: "turn_at s t True m sid \<Longrightarrow> turn_holds s t m' \<longleftrightarrow> m' = m"
  unfolding turn_holds_def using turn_at_unique by blast

lemma turn_holds_waiting: "turn_at s t False m sid \<Longrightarrow> \<not> turn_holds s t m'"
  unfolding turn_holds_def using turn_at_unique by blast

lemma locks_ok_sessionLock:
  assumes "locks_ok s" "sessionLock sid s = (m, s1)"
  shows "locks_ok s1 \<and> lk_table s1 sid = Some m \<and> lk_turns s1 = lk_turns s"
proof (cases "lk_table s sid")
  case None
  with assms(2) have m: "m = lk_count s" "s1 = s\<lparr>lk_table := (lk_table s)(sid \<mapsto> lk_count s), lk_count := Suc (lk_count s)\<rparr>"
    by (auto simp: sessionLock_def)
  have new: "sid' \<noteq> sid" if "turn_at s t b n sid'" for t b n sid' using locks_okD(3) [OF assms(1) that] None by auto
  have "locks_ok s1"
    unfolding m(2)
  proof (rule locks_okI, goal_cases)
    case (1 sid' m')
    with locks_okD(1) [OF assms(1), of sid' m'] show ?case by (auto split: if_splits)
  next
    case (2 x y m')
    have "lk_table s z \<noteq> Some (lk_count s)" for z using locks_okD(1) [OF assms(1), of z "lk_count s"] by auto
    with 2 locks_okD(2) [OF assms(1), of x m' y] show ?case by (auto split: if_splits)
  next
    case (3 t b m' sid')
    with new locks_okD(3) [OF assms(1), of t b m' sid'] show ?case by auto
  next
    case (4 m' t)
    with locks_okD(4) [OF assms(1)] show ?case by simp
  qed
  then show ?thesis by (simp add: m)
qed (use assms in \<open>simp add: sessionLock_def\<close>)

lemma locks_ok_release:
  assumes ok: "locks_ok s" and t: "turn_at s t True m sid"
  shows "locks_ok (set_phase t TurnOver (mutex_unlock m s))"
proof -
  have "turn_holds s t m" using t by (auto simp: turn_holds_def)
  then have one: "turn_holds s u m \<longleftrightarrow> u = t" for u using ok unfolding locks_ok_def by (metis option.inject)
  note two = turn_holds_at [OF t]
  show ?thesis
  proof (rule locks_okI, goal_cases)
    case (4 m' u)
    then show ?case using locks_okD(4) [OF ok, of m' u] one two by (cases "m' = m"; cases "u = t") simp_all
  qed (use locks_okD(1-3) [OF ok] in \<open>simp_all split: if_splits\<close>)
qed

lemma locks_ok_step:
  assumes "turn_step s s'" "locks_ok s"
  shows "locks_ok s'"
  using assms
proof (induction rule: turn_step.induct)
  case (call t sid s s')
  then obtain m s1 where c: "lk_turns s t = None" "sessionLock sid s = (m, s1)" "s' = set_phase t (WaitLock m sid) s1"
    by (auto simp: turn_call_def split: if_splits prod.splits)
  from locks_ok_sessionLock [OF call.prems c(2)] have ok: "locks_ok s1" "lk_table s1 sid = Some m" "lk_turns s1 t = None" by (simp_all add: c(1))
  have "\<not> turn_at s1 t b n sid'" "\<not> turn_holds s1 t n" for b n sid' using ok(3) by (simp_all add: turn_holds_def turn_at_def)
  then show ?case
    unfolding c(3)
  proof (intro locks_okI, goal_cases)
    case (3 u b m' sid')
    then show ?case using ok(2) locks_okD(3) [OF ok(1), of u b m' sid'] by (cases "u = t") simp_all
  next
    case (4 m' u)
    then show ?case using locks_okD(4) [OF ok(1), of m' u] by (cases "u = t") auto
  qed (use locks_okD(1,2) [OF ok(1)] in simp_all)
next
  case (lock t s s')
  then obtain m sid where c: "lk_turns s t = Some (WaitLock m sid)" "lk_holder s m = None"
    "s' = set_phase t (Persisting m sid) (s\<lparr>lk_holder := (lk_holder s)(m \<mapsto> t)\<rparr>)"
    by (auto simp: turn_lock_def split: option.splits turn_phase.splits if_splits)
  have t: "turn_at s t False m sid" using c(1) by (simp add: turn_at_def)
  have "\<not> turn_holds s u m" for u using lock.prems c(2) unfolding locks_ok_def by (metis option.distinct(1))
  note free = this turn_holds_waiting [OF t]
  show ?case
    unfolding c(3)
  proof (rule locks_okI, goal_cases)
    case (3 u b m' sid')
    then show ?case using locks_okD(3) [OF lock.prems t] locks_okD(3) [OF lock.prems, of u b m' sid'] by (cases "u = t") simp_all
  next
    case (4 m' u)
    then show ?case using locks_okD(4) [OF lock.prems, of m' u] free by (cases "m' = m"; cases "u = t") simp_all
  qed (use locks_okD(1,2) [OF lock.prems] in simp_all)
next
  case (persist failed t s s')
  then obtain m sid where c: "lk_turns s t = Some (Persisting m sid)"
    "s' = (if failed then set_phase t TurnOver (mutex_unlock m s) else set_phase t (InLoop m sid) s)"
    by (auto simp: turn_persist_def split: option.splits turn_phase.splits if_splits)
  have t: "turn_at s t True m sid" using c(1) by (simp add: turn_at_def)
  note held = turn_holds_at [OF t]
  have "locks_ok (set_phase t (InLoop m sid) s)"
  proof (intro locks_okI, goal_cases)
    case (3 u b m' sid')
    then show ?case using locks_okD(3) [OF persist.prems t] locks_okD(3) [OF persist.prems, of u b m' sid'] by (cases "u = t") simp_all
  next
    case (4 m' u)
    then show ?case using locks_okD(4) [OF persist.prems, of m' u] held by (cases "u = t") auto
  qed (use locks_okD(1,2) [OF persist.prems] in simp_all)
  with locks_ok_release [OF persist.prems t] show ?case by (simp add: c(2))
next
  case (finish t s s')
  then obtain m sid where c: "lk_turns s t = Some (InLoop m sid)" "s' = set_phase t TurnOver (mutex_unlock m s)"
    by (auto simp: turn_finish_def split: option.splits turn_phase.splits)
  then have "turn_at s t True m sid" by (simp add: turn_at_def)
  from locks_ok_release [OF finish.prems this] show ?case by (simp add: c(2))
qed

lemma turns_reachable_ok: "turns_reachable s \<Longrightarrow> locks_ok s"
  unfolding turns_reachable_def
proof (induction rule: rtranclp_induct)
  case base
  show ?case by (auto simp: locks_ok_def new_locks_def turn_at_def turn_holds_def)
qed (rule locks_ok_step)

text \<open>
  C39: turns of a session run one after the other, and only those. In every reachable state at most one turn of a session is
  between taking its lock and the end of its loop, so the steps of the sequential model of a turn are not mixed with those
  of another turn of the session; and a turn that waits can take its lock exactly if no turn of its own
  session runs, whatever the turns of other sessions do.
\<close>

theorem turns_exclusive:
  assumes "turns_reachable s"
  shows "(\<forall>t u sid. turn_runs s t sid \<and> turn_runs s u sid \<longrightarrow> t = u)
    \<and> (\<forall>t sid. turn_waits s t sid \<longrightarrow> (turn_lock t s \<noteq> None \<longleftrightarrow> (\<nexists>u. turn_runs s u sid)))"
proof -
  note ok = turns_reachable_ok [OF assms]
  have mutex: "lk_table s sid = Some m" if "turn_at s t b m sid" for t b m sid using ok that by (auto simp: locks_ok_def)
  have holder: "lk_holder s m = Some t \<longleftrightarrow> turn_holds s t m" for m t using ok by (simp add: locks_ok_def)
  have "t = u" if "turn_runs s t sid" "turn_runs s u sid" for t u sid
    using that mutex holder unfolding turn_runs_def turn_holds_def by (metis option.inject)
  moreover have "turn_lock t s \<noteq> None \<longleftrightarrow> (\<nexists>u. turn_runs s u sid)" if "turn_waits s t sid" for t sid
  proof -
    from that obtain m ph where w: "turn_at s t False m sid" "lk_turns s t = Some ph" "phase_of ph = Some (False, m, sid)"
      by (auto simp: turn_waits_def turn_at_def)
    then have "ph = WaitLock m sid" by (cases ph) auto
    with w(2) have "turn_lock t s \<noteq> None \<longleftrightarrow> lk_holder s m = None" by (simp add: turn_lock_def)
    also have "\<dots> \<longleftrightarrow> (\<nexists>u. turn_runs s u sid)"
    proof -
      have "turn_runs s u sid \<longleftrightarrow> turn_holds s u m" for u
        using mutex w(1) ok unfolding turn_runs_def turn_holds_def locks_ok_def by (metis option.inject)
      then show ?thesis using holder by (metis not_None_eq)
    qed
    finally show ?thesis .
  qed
  ultimately show ?thesis by blast
qed

text \<open>Two calls for one session, of which the first has taken the lock, and one for another session.\<close>

definition demo_locks :: "locks option" where
  "demo_locks = Option.bind (turn_call 4 ''s'' new_locks) (\<lambda>a. Option.bind (turn_lock 4 a) (\<lambda>b. Option.bind (turn_call 5 ''s'' b) (turn_call 6 ''r'')))"

theorem turns_exclusive_witness:
  "\<exists>s. demo_locks = Some s \<and> turn_runs s 4 ''s'' \<and> turn_lock 5 s = None \<and> turn_lock 6 s \<noteq> None"
proof -
  obtain a where a: "turn_call 4 ''s'' new_locks = Some a" by (simp add: turn_call_def new_locks_def sessionLock_def)
  obtain b where b: "turn_lock 4 a = Some b"
    using a by (auto simp: turn_call_def new_locks_def sessionLock_def turn_lock_def set_phase_def)
  obtain c where c: "turn_call 5 ''s'' b = Some c"
    using a b by (auto simp: turn_call_def new_locks_def sessionLock_def turn_lock_def set_phase_def)
  obtain d where d: "turn_call 6 ''r'' c = Some d"
    using a b c by (auto simp: turn_call_def new_locks_def sessionLock_def turn_lock_def set_phase_def)
  have at: "lk_turns d 4 = Some (Persisting 0 ''s'')" "lk_turns d 5 = Some (WaitLock 0 ''s'')" "lk_turns d 6 = Some (WaitLock 1 ''r'')"
    using a b c d by (auto simp: turn_call_def new_locks_def sessionLock_def turn_lock_def set_phase_def)
  have "turns_reachable d"
    unfolding turns_reachable_def using call [OF a] lock [OF b] call [OF c] call [OF d] by (meson rtranclp.intros)
  note ex = turns_exclusive [OF this]
  have "turn_runs d 4 ''s''" "turn_waits d 5 ''s''" "turn_waits d 6 ''r''"
    by (auto simp: turn_runs_def turn_waits_def turn_at_def at)
  moreover have "\<not> turn_runs d u ''r''" for u
    using a b c d by (auto simp: turn_runs_def turn_at_def turn_call_def new_locks_def sessionLock_def turn_lock_def set_phase_def split: if_splits)
  ultimately have "turn_lock 5 d = None" "turn_lock 6 d \<noteq> None" "turn_runs d 4 ''s''" using ex by (blast, blast, blast)
  then show ?thesis by (simp add: demo_locks_def a b c d)
qed

subsection \<open>The reader of a web socket (\<^verbatim>\<open>pkg/gateway/websocket.go\<close>)\<close>

text \<open>
  The reader takes the frames of its page in order. For content it calls \<^verbatim>\<open>RunTurn\<close> itself and reads on when that has
  returned, which is after the lock of the session was taken.
\<close>

datatype page_frame = AnswerFrame string bool | ContentFrame

record reader =
  rd_session :: string
  rd_calling :: "nat option"
  rd_frames :: "page_frame list"
  rd_approver :: approver
  rd_locks :: locks

inductive reader_step :: "reader \<Rightarrow> reader \<Rightarrow> bool" where
  arrive: "reader_step r (r\<lparr>rd_frames := rd_frames r @ [f]\<rparr>)"
| answer: "rd_calling r = None \<Longrightarrow> rd_frames r = AnswerFrame rid b # fs \<Longrightarrow>
    reader_step r (r\<lparr>rd_frames := fs, rd_approver := Respond (rd_approver r) rid b\<rparr>)"
| ask: "rd_calling r = None \<Longrightarrow> rd_frames r = ContentFrame # fs \<Longrightarrow> turn_call t (rd_session r) (rd_locks r) = Some l \<Longrightarrow>
    reader_step r (r\<lparr>rd_frames := fs, rd_calling := Some t, rd_locks := l\<rparr>)"
| return: "rd_calling r = Some t \<Longrightarrow> lk_turns (rd_locks r) t \<in> {Some (InLoop m sid), Some TurnOver} \<Longrightarrow>
    reader_step r (r\<lparr>rd_calling := None\<rparr>)"
| turns: "turn_step (rd_locks r) l \<Longrightarrow> reader_step r (r\<lparr>rd_locks := l\<rparr>)"

definition reader_blocked :: "nat \<Rightarrow> reader \<Rightarrow> bool" where
  "reader_blocked u r \<longleftrightarrow> (\<exists>t m sid. rd_calling r = Some t \<and> lk_turns (rd_locks r) t = Some (WaitLock m sid)
     \<and> lk_turns (rd_locks r) u = Some (InLoop m sid)) \<and> locks_ok (rd_locks r)"

lemma blocked_turn:
  assumes "turn_step s s'" "locks_ok s" "lk_turns s t = Some (WaitLock m sid)" "lk_turns s u = Some (InLoop m sid)"
    and "lk_turns s' u = Some (InLoop m sid)"
  shows "lk_turns s' t = Some (WaitLock m sid)"
proof -
  have "turn_holds s u m" using assms(4) by (auto simp: turn_holds_def turn_at_def)
  then have held: "lk_holder s m = Some u" using locks_okD(4) [OF assms(2)] by simp
  from assms(1) show ?thesis
  proof cases
    case (call t' sid')
    then show ?thesis
      using assms(3) by (auto simp: turn_call_def sessionLock_def set_phase_def split: if_splits option.splits)
  next
    case (lock t')
    then show ?thesis
      using assms(3) held by (cases "t' = t") (auto simp: turn_lock_def set_phase_def split: option.splits turn_phase.splits if_splits)
  next
    case (persist failed t')
    then show ?thesis
      using assms(3) by (cases "t' = t") (auto simp: turn_persist_def set_phase_def mutex_unlock_def split: option.splits turn_phase.splits if_splits)
  next
    case (finish t')
    then show ?thesis
      using assms(3) by (cases "t' = t") (auto simp: turn_finish_def set_phase_def mutex_unlock_def split: option.splits turn_phase.splits)
  qed
qed

text \<open>
  A client that sends a second message during a turn cannot answer that turn any more: the reader waits for the lock of the
  session, so as long as the turn runs no frame is read, and the approval the turn waits for stays
  unanswered although the answer has arrived. Only the end of the approval's context ends the turn. (The web page keeps its input disabled meanwhile.)
\<close>

lemma reader_step_blocked:
  assumes "reader_step r r'" "reader_blocked u r" "lk_turns (rd_locks r') u = lk_turns (rd_locks r) u"
  shows "reader_blocked u r' \<and> rd_approver r' = rd_approver r"
proof -
  from assms(2) obtain t m sid where b: "rd_calling r = Some t" "lk_turns (rd_locks r) t = Some (WaitLock m sid)"
    "lk_turns (rd_locks r) u = Some (InLoop m sid)" "locks_ok (rd_locks r)" by (auto simp: reader_blocked_def)
  from assms(1) show ?thesis
  proof cases
    case (turns l)
    have "lk_turns l t = Some (WaitLock m sid)"
      using blocked_turn [OF turns(2) b(4,2,3)] assms(3) b(3) turns(1) by simp
    then show ?thesis
      using b assms(3) locks_ok_step [OF turns(2) b(4)] by (simp add: reader_blocked_def turns(1))
  qed (use b in \<open>auto simp: reader_blocked_def\<close>)
qed

lemma blocked_page_cannot_answer:
  assumes "(\<lambda>a b. reader_step a b \<and> lk_turns (rd_locks b) u = lk_turns (rd_locks a) u)\<^sup>*\<^sup>* r r'" "reader_blocked u r"
  shows "reader_blocked u r' \<and> rd_approver r' = rd_approver r"
  using assms by (induction rule: rtranclp_induct) (use reader_step_blocked in metis)+

end
