(* ===== verification/Tool_Definitions.thy ===== *)
theory Tool_Definitions
  imports Store_Tools Task_Tools File_Tools Browser_Tool Startup
begin

section \<open>What the model is told about the tools (\<^verbatim>\<open>pkg/agent/tools\<close>)\<close>

text \<open>
  The \<^verbatim>\<open>Definition\<close> of each built-in tool: its name, its description and the JSON schema of its input, kept as data.
  White space of the raw schema is left out and the members of a property are in one order. The theorem says that
  what the schemas offer is what the handlers of the other theories accept.
\<close>

record schema_prop =
  sp_name :: string
  sp_type :: string
  sp_enum :: "string list"
  sp_items :: "string option"
  sp_description :: string

record tool_schema =
  ts_name :: string
  ts_description :: string
  ts_props :: "schema_prop list"
  ts_required :: "string list"

definition sprop :: "string \<Rightarrow> string \<Rightarrow> string list \<Rightarrow> string option \<Rightarrow> string \<Rightarrow> schema_prop" where
  "sprop name ty en items desc = \<lparr>sp_name = name, sp_type = ty, sp_enum = en, sp_items = items, sp_description = desc\<rparr>"

subsection \<open>The tools\<close>

definition shell_definition :: tool_schema where
  "shell_definition =
     \<lparr>ts_name = ''shell'',
      ts_description = ''Execute a shell command and return its output. Use this for running programs, scripts, system commands, and CLI tools.'',
      ts_props =
       [sprop ''command'' ''string'' [] None
         ''The shell command to execute'',
       sprop ''work_dir'' ''string'' [] None
         ''Optional working directory for the command''],
      ts_required = [''command'']\<rparr>"

definition file_read_definition :: tool_schema where
  "file_read_definition =
     \<lparr>ts_name = ''file_read'',
      ts_description = ''Read the contents of a file at the given path. Returns the file content as text.'',
      ts_props =
       [sprop ''path'' ''string'' [] None
         ''Absolute or relative path to the file to read''],
      ts_required = [''path'']\<rparr>"

definition file_write_definition :: tool_schema where
  "file_write_definition =
     \<lparr>ts_name = ''file_write'',
      ts_description = ''Write content to a file at the given path. Creates the file and parent directories if they don't exist. Set append=true to append instead of overwrite.'',
      ts_props =
       [sprop ''path'' ''string'' [] None
         ''Absolute or relative path to the file to write'',
       sprop ''content'' ''string'' [] None
         ''The content to write to the file'',
       sprop ''append'' ''boolean'' [] None
         ''If true, append to the file instead of overwriting''],
      ts_required = [''path'', ''content'']\<rparr>"

definition http_request_definition :: tool_schema where
  "http_request_definition =
     \<lparr>ts_name = ''http_request'',
      ts_description = ''Make an HTTP request to a URL and return the response. Supports GET, POST, PUT, PATCH, DELETE methods.'',
      ts_props =
       [sprop ''url'' ''string'' [] None
         ''The URL to send the request to'',
       sprop ''method'' ''string'' [''GET'', ''POST'', ''PUT'', ''PATCH'', ''DELETE''] None
         ''HTTP method (defaults to GET)'',
       sprop ''headers'' ''object'' [] (Some ''string'')
         ''Optional HTTP headers as key-value pairs'',
       sprop ''body'' ''string'' [] None
         ''Optional request body''],
      ts_required = [''url'']\<rparr>"

definition browser_definition :: tool_schema where
  "browser_definition =
     \<lparr>ts_name = ''browser'',
      ts_description = ''Control a headless browser to navigate pages, interact with elements, and take screenshots. After most actions a screenshot is automatically captured so you can see the result.'',
      ts_props =
       [sprop ''action'' ''string'' [''navigate'', ''click'', ''type'', ''screenshot'', ''get_text'', ''get_html'', ''wait'', ''evaluate'', ''scroll'', ''select'', ''back'', ''forward'', ''close''] None
         ''The browser action to perform.'',
       sprop ''url'' ''string'' [] None
         ''URL to navigate to. Required for navigate.'',
       sprop ''selector'' ''string'' [] None
         ''CSS selector for the target element. Required for click, type, wait, select. Optional for get_text, get_html.'',
       sprop ''text'' ''string'' [] None
         ''Text to type into an element (for type action) or option text to select (for select action).'',
       sprop ''script'' ''string'' [] None
         ''JavaScript code to evaluate in the page (for evaluate action).'',
       sprop ''delta'' ''integer'' [] None
         ''Pixels to scroll vertically. Positive scrolls down, negative scrolls up. Default 500.''],
      ts_required = [''action'']\<rparr>"

definition memory_definition :: tool_schema where
  "memory_definition =
     \<lparr>ts_name = ''memory'',
      ts_description = ''Persistent key-value memory for storing and retrieving information across sessions. Actions: get, set, delete, list, search.'',
      ts_props =
       [sprop ''action'' ''string'' [''get'', ''set'', ''delete'', ''list'', ''search''] None
         ''The action to perform'',
       sprop ''key'' ''string'' [] None
         ''The memory key (required for get, set, delete)'',
       sprop ''value'' ''string'' [] None
         ''The value to store (required for set)'',
       sprop ''query'' ''string'' [] None
         ''Search query (required for search)''],
      ts_required = [''action'']\<rparr>"

definition credential_definition :: tool_schema where
  "credential_definition =
     \<lparr>ts_name = ''credential'',
      ts_description = ''Encrypted credential store for managing secrets and API keys. Actions: get, set, delete, list.'',
      ts_props =
       [sprop ''action'' ''string'' [''get'', ''set'', ''delete'', ''list''] None
         ''The action to perform'',
       sprop ''name'' ''string'' [] None
         ''The credential name (required for get, set, delete)'',
       sprop ''value'' ''string'' [] None
         ''The credential value (required for set)''],
      ts_required = [''action'']\<rparr>"

definition soul_definition :: tool_schema where
  "soul_definition =
     \<lparr>ts_name = ''soul'',
      ts_description = ''Introspect your own identity, values, tone, boundaries, and expertise. Use this to recall who you are and how you should behave.'',
      ts_props =
       [sprop ''section'' ''string'' [''identity'', ''values'', ''tone'', ''boundaries'', ''expertise'', ''instructions'', ''all''] None
         ''Which section of the soul to retrieve (defaults to all)''],
      ts_required = []\<rparr>"

definition notify_definition :: tool_schema where
  "notify_definition =
     \<lparr>ts_name = ''notify'',
      ts_description = ''Proactively message the user. Actions: schedule (run a full agent turn after a delay and deliver the result), send (immediately send a message to the current session).'',
      ts_props =
       [sprop ''action'' ''string'' [''schedule'', ''send''] None
         ''schedule: start a delayed agent turn that delivers its response to the user. send: immediately send a text message to the current session.'',
       sprop ''delay'' ''string'' [] None
         ''Duration to wait before running the scheduled turn (e.g. '5m', '1h30m'). Required for schedule.'',
       sprop ''message'' ''string'' [] None
         ''For schedule: the prompt that will be used as the user message when the timer fires. For send: the text to deliver immediately.''],
      ts_required = [''action'', ''message'']\<rparr>"

definition spawn_definition :: tool_schema where
  "spawn_definition =
     \<lparr>ts_name = ''spawn'',
      ts_description = ''Start a background agent task or check its result. Actions: start (launch a background subtask, returns a spawn ID immediately), check (poll a spawn ID for its result).'',
      ts_props =
       [sprop ''action'' ''string'' [''start'', ''check''] None
         ''start: launch a background subtask. check: poll a spawn ID for its result. Default: start.'',
       sprop ''task'' ''string'' [] None
         ''The task description for the background agent. Required for start.'',
       sprop ''allowed_tools'' ''array'' [] (Some ''string'')
         ''Optional list of tool names the spawned agent can use. If omitted, all tools except subagent/spawn are available. Only for start.'',
       sprop ''spawn_id'' ''string'' [] None
         ''The spawn ID to check. Required for check.''],
      ts_required = []\<rparr>"

definition subagent_definition :: tool_schema where
  "subagent_definition =
     \<lparr>ts_name = ''subagent'',
      ts_description = ''Delegate a focused subtask to a subagent that runs its own agentic loop with tools. The subagent runs synchronously and returns its final text response. Use this to break complex tasks into smaller, focused operations.'',
      ts_props =
       [sprop ''task'' ''string'' [] None
         ''The task description for the subagent to execute.'',
       sprop ''allowed_tools'' ''array'' [] (Some ''string'')
         ''Optional list of tool names the subagent can use. If omitted, all tools except subagent/spawn are available.''],
      ts_required = [''task'']\<rparr>"

text \<open>The system prompt of a runtime without another one (\<^verbatim>\<open>agent.go\<close>), which names the tools.\<close>

definition defaultSystemPrompt :: string where
  "defaultSystemPrompt = Join
     [''You are a helpful AI assistant.'',
      [],
      ''# Operational Guidelines'',
      [],
      ''## Task Execution'',
      ''- Complete multi-step tasks in a single turn by chaining tool calls. Do not stop to ask for confirmation between steps.'',
      ''- If a tool call fails, try an alternative approach before giving up.'',
      [],
      ''## Tool Selection'',
      ''- For web pages: prefer browser over http_request. The browser renders JavaScript, captures screenshots, and supports interaction. Use http_request only for API calls or raw content downloads.'',
      ''- For persistent information: use memory to store facts, user preferences, and project context that should survive across sessions.'',
      ''- For secrets and API keys: use credential to store and retrieve encrypted secrets. Never store secrets in memory.'',
      ''- For complex tasks: use subagent to delegate focused subtasks synchronously. Use spawn for independent background tasks.'',
      [],
      ''## Error Recovery'',
      ''- When you see [System: ...] messages, the system encountered an error on your behalf. Reduce complexity: use fewer parallel tool calls, produce shorter responses, or break the task into smaller steps. Do not repeat the exact same approach.'',
      ''- If a tool times out, retry with a simpler approach or different parameters.'',
      [],
      ''## Context Awareness'',
      ''- Long conversations are automatically summarized. Key information may be in a [Session Summary] at the start of your history.'',
      ''- Store important facts in memory early to avoid losing them during summarization.''] nl"

definition tool_table :: "tool_schema list" where
  "tool_table = [shell_definition, file_read_definition, file_write_definition, http_request_definition, browser_definition, memory_definition,
     credential_definition, soul_definition, notify_definition, spawn_definition, subagent_definition]"

subsection \<open>Schemas as text\<close>

definition json_text :: "string \<Rightarrow> string" where
  "json_text s = [CHR 0x22] @ s @ [CHR 0x22]"

definition json_member :: "string \<Rightarrow> string \<Rightarrow> string" where
  "json_member k v = json_text k @ '':'' @ v"

definition json_object :: "string list \<Rightarrow> string" where
  "json_object ms = ''{'' @ Join ms '','' @ ''}''"

definition json_list :: "string list \<Rightarrow> string" where
  "json_list ss = ''['' @ Join (map json_text ss) '','' @ '']''"

definition prop_json :: "schema_prop \<Rightarrow> string" where
  "prop_json p = json_member (sp_name p) (json_object
     ([json_member ''type'' (json_text (sp_type p))]
      @ (if sp_enum p \<noteq> [] then [json_member ''enum'' (json_list (sp_enum p))] else [])
      @ (case sp_items p of None \<Rightarrow> []
         | Some ty \<Rightarrow> [json_member (if sp_type p = ''array'' then ''items'' else ''additionalProperties'') (json_object [json_member ''type'' (json_text ty)])])
      @ [json_member ''description'' (json_text (sp_description p))]))"

definition schema_json :: "tool_schema \<Rightarrow> string" where
  "schema_json ts = json_object
     ([json_member ''type'' (json_text ''object''), json_member ''properties'' (json_object (map prop_json (ts_props ts)))]
      @ (if ts_required ts \<noteq> [] then [json_member ''required'' (json_list (ts_required ts))] else []))"

definition definition_of :: "tool_schema \<Rightarrow> tool_definition" where
  "definition_of ts = \<lparr>td_name = ts_name ts, td_description = ts_description ts, td_input_schema = schema_json ts\<rparr>"

text \<open>The texts that start-up looks up by the name of a tool.\<close>

definition tool_docs :: "string \<Rightarrow> string \<times> string" where
  "tool_docs name = (case find (\<lambda>ts. ts_name ts = name) tool_table of None \<Rightarrow> ([], []) | Some ts \<Rightarrow> (ts_description ts, schema_json ts))"

definition offered :: "tool_schema \<Rightarrow> string \<Rightarrow> string list" where
  "offered ts name = (case find (\<lambda>p. sp_name p = name) (ts_props ts) of None \<Rightarrow> [] | Some p \<Rightarrow> sp_enum p)"

subsection \<open>Lemmas\<close>

lemma tool_names: "map ts_name tool_table = [''shell'', ''file_read'', ''file_write'', ''http_request'', ''browser'', ''memory'',
    ''credential'', ''soul'', ''notify'', ''spawn'', ''subagent'']"
  by (simp add: tool_table_def shell_definition_def file_read_definition_def file_write_definition_def http_request_definition_def
    browser_definition_def memory_definition_def credential_definition_def soul_definition_def notify_definition_def spawn_definition_def
    subagent_definition_def)

lemma tool_table_distinct: "distinct (map ts_name tool_table)"
  unfolding tool_names by simp

lemma find_distinct: "distinct (map f xs) \<Longrightarrow> x \<in> set xs \<Longrightarrow> find (\<lambda>y. f y = f x) xs = Some x"
  by (induction xs) (auto simp: image_iff)

text \<open>With these texts the registry holds the definitions of the table.\<close>

lemma builtin_tool_definition:
  assumes "su_docs io = tool_docs" "ts \<in> set tool_table"
  shows "Definition (builtin_tool io (ts_name ts)) = definition_of ts"
  using assms by (simp add: builtin_tool_def tool_docs_def find_distinct [OF tool_table_distinct] definition_of_def)

lemma offered_actions:
  "offered memory_definition ''action'' = [''get'', ''set'', ''delete'', ''list'', ''search'']"
  "offered credential_definition ''action'' = [''get'', ''set'', ''delete'', ''list'']"
  "offered notify_definition ''action'' = [''schedule'', ''send'']"
  "offered spawn_definition ''action'' = [''start'', ''check'']"
  "offered browser_definition ''action'' = [''navigate'', ''click'', ''type'', ''screenshot'', ''get_text'', ''get_html'', ''wait'', ''evaluate'',
     ''scroll'', ''select'', ''back'', ''forward'', ''close'']"
  by (simp_all add: offered_def sprop_def memory_definition_def credential_definition_def notify_definition_def spawn_definition_def browser_definition_def)

lemma memory_actions:
  "a \<in> set (offered memory_definition ''action'') \<longleftrightarrow>
     (\<exists>h ik env ctx p t. fst (memory_Execute h ik env ctx (Inr (p\<lparr>mi_action := a\<rparr>)) t) \<noteq> Inl (ErrText (''memory: unknown action '' @ go_quote a)))"
proof (cases "a \<in> set (offered memory_definition ''action'')")
  case True
  let ?env = "\<lparr>se_get = None, se_put = None, se_id = [], se_now = 0\<rparr> :: stmt_env"
  let ?p = "\<lparr>mi_action = [], mi_key = [], mi_value = [], mi_query = []\<rparr> :: memory_input"
  from True have "a = ''get'' \<or> a = ''set'' \<or> a = ''delete'' \<or> a = ''list'' \<or> a = ''search''" by (simp add: offered_actions)
  then have "fst (memory_Execute (\<lambda>x. x) {} ?env ctx (Inr (?p\<lparr>mi_action := a\<rparr>)) []) \<noteq> Inl (ErrText (''memory: unknown action '' @ go_quote a))" for ctx
    by (elim disjE) (simp_all add: memory_Execute_def parseInput_def memory_List_def Let_def)
  with True show ?thesis by blast
next
  case False
  then have "fst (memory_Execute h ik env ctx (Inr (p\<lparr>mi_action := a\<rparr>)) t) = Inl (ErrText (''memory: unknown action '' @ go_quote a))" for h ik env ctx p t
    by (simp add: offered_actions memory_Execute_def parseInput_def Let_def)
  with False show ?thesis by blast
qed

lemma credential_actions:
  "a \<in> set (offered credential_definition ''action'') \<longleftrightarrow>
     (\<exists>gcm env p t. fst (credential_Execute gcm env (Inr (p\<lparr>ci_action := a\<rparr>)) t) \<noteq> Inl (ErrText (''credential: unknown action '' @ go_quote a)))"
proof (cases "a \<in> set (offered credential_definition ''action'')")
  case True
  let ?env = "\<lparr>ce_rand = Inr [], ce_fault = None, ce_id = [], ce_now = 0\<rparr> :: cred_env"
  let ?p = "\<lparr>ci_action = [], ci_name = [], ci_value = []\<rparr> :: credential_input"
  from True have "a = ''get'' \<or> a = ''set'' \<or> a = ''delete'' \<or> a = ''list''" by (simp add: offered_actions)
  then have "fst (credential_Execute gcm ?env (Inr (?p\<lparr>ci_action := a\<rparr>)) []) \<noteq> Inl (ErrText (''credential: unknown action '' @ go_quote a))" for gcm
    by (elim disjE) (simp_all add: credential_Execute_def parseInput_def cred_List_def Let_def)
  with True show ?thesis by blast
next
  case False
  then have "fst (credential_Execute gcm env (Inr (p\<lparr>ci_action := a\<rparr>)) t) = Inl (ErrText (''credential: unknown action '' @ go_quote a))" for gcm env p t
    by (simp add: offered_actions credential_Execute_def parseInput_def Let_def)
  with False show ?thesis by blast
qed

lemma notify_actions:
  "a \<in> set (offered notify_definition ''action'') \<longleftrightarrow>
     (\<exists>p. fst (notify_Execute parse show send lg (WithSessionInfo ctx (c # sid) agent) (Inr (p\<lparr>ni_action := a\<rparr>)) wt)
        \<noteq> Inl (ErrText (''notify: unknown action '' @ go_quote a)))"
proof (cases "a \<in> set (offered notify_definition ''action'')")
  case True
  let ?p = "\<lparr>ni_action = [], ni_delay = [], ni_message = []\<rparr> :: notify_input"
  from True have "a = ''schedule'' \<or> a = ''send''" by (simp add: offered_actions)
  then have "fst (notify_Execute parse show send lg (WithSessionInfo ctx (c # sid) agent) (Inr (?p\<lparr>ni_action := a\<rparr>)) wt)
      \<noteq> Inl (ErrText (''notify: unknown action '' @ go_quote a))"
    by (cases wt, elim disjE) (simp_all add: notify_Execute_def parseInput_def WithSessionInfo_def SessionIDFromContext_def Let_def)
  with True show ?thesis by blast
next
  case False
  then have "fst (notify_Execute parse show send lg (WithSessionInfo ctx (c # sid) agent) (Inr (p\<lparr>ni_action := a\<rparr>)) wt)
      = Inl (ErrText (''notify: unknown action '' @ go_quote a))" for p
    by (cases wt) (simp add: offered_actions notify_Execute_def parseInput_def WithSessionInfo_def SessionIDFromContext_def Let_def)
  with False show ?thesis by blast
qed

lemma spawn_actions:
  "a = [] \<or> a \<in> set (offered spawn_definition ''action'') \<longleftrightarrow>
     (\<exists>p. fst (spawn_Execute run chk lg ctx (Inr (p\<lparr>sp_action := a\<rparr>)) w) \<noteq> Inl (ErrText (''spawn: unknown action '' @ go_quote a)))"
proof (cases "a = [] \<or> a \<in> set (offered spawn_definition ''action'')")
  case True
  let ?p = "\<lparr>sp_action = [], sp_task = [], sp_tools = [], sp_id = []\<rparr> :: spawn_input"
  from True have "a = [] \<or> a = ''start'' \<or> a = ''check''" by (simp add: offered_actions)
  then have "fst (spawn_Execute run chk lg ctx (Inr (?p\<lparr>sp_action := a\<rparr>)) w) \<noteq> Inl (ErrText (''spawn: unknown action '' @ go_quote a))"
    by (elim disjE) (simp_all add: spawn_Execute_def parseInput_def Let_def)
  with True show ?thesis by blast
next
  case False
  then have "fst (spawn_Execute run chk lg ctx (Inr (p\<lparr>sp_action := a\<rparr>)) w) = Inl (ErrText (''spawn: unknown action '' @ go_quote a))" for p
    by (simp add: offered_actions spawn_Execute_def parseInput_def Let_def)
  with False show ?thesis by blast
qed

lemma browser_actions:
  "a \<in> set (offered browser_definition ''action'') \<or> browser_do env sid (p\<lparr>bi_action := a\<rparr>) t = fails (''unknown action '' @ go_quote a) t"
  by (cases "a \<in> set (offered browser_definition ''action'')") (simp_all add: offered_actions browser_do_def Let_def)


text \<open>
  What a schema requires the handlers want: a call without it is an error. The content of a written file is required by
  the schema only.
\<close>

lemma required_enforced:
  "ts_required shell_definition = [''command''] \<and> (\<exists>e. shell_Execute os exec pol (Inr (si\<lparr>si_command := []\<rparr>)) = Inl e)"
  "ts_required file_read_definition = [''path''] \<and> (\<exists>e. fst (file_read_Execute oe now pol (Inr []) fw) = Inl e)"
  "''path'' \<in> set (ts_required file_write_definition) \<and> (\<exists>e. fst (file_write_Execute oe now fl pol (Inr (fi\<lparr>fi_path := []\<rparr>)) fw) = Inl e)"
  "ts_required http_request_definition = [''url''] \<and> (\<exists>e. fst (http_Execute chk client pol (Inr (hi\<lparr>hi_url := []\<rparr>))) = Inl e)"
  "ts_required subagent_definition = [''task''] \<and> (\<exists>e. fst (subagent_Execute run lg ctx (Inr (sa\<lparr>su_task := []\<rparr>)) w) = Some (Inl e))"
  by (simp_all add: shell_definition_def file_read_definition_def file_write_definition_def http_request_definition_def subagent_definition_def
    shell_Execute_def file_read_Execute_def file_write_Execute_def http_Execute_def subagent_Execute_def parseInput_def)

end
