(* ===== verification/Setup_Wizard.thy ===== *)
theory Setup_Wizard
  imports Channel_Setup
begin

section \<open>The set-up wizard (\<^verbatim>\<open>cmd/pincer/init.go\<close>)\<close>

text \<open>
  The command that writes a first configuration: what it detects in the environment, the options it offers, the configuration
  it makes of the answers and the variables it asks to be set. The forms are a library's: their answers are
  arguments that may depend on the options offered. Printed lines are kept without their colours. The theorem
  joins the wizard with loading and start-up.
\<close>

subsection \<open>Tables\<close>

record provider_option =
  po_name :: string
  po_model :: string
  po_env :: string

record channel_option =
  cho_name :: string
  cho_envs :: "string list"

record env_detection =
  ed_name :: string
  ed_env :: string
  ed_set :: bool

definition provider_table :: "provider_option list" where
  "provider_table =
     [\<lparr>po_name = ''Anthropic'', po_model = ''claude-sonnet-4-20250514'', po_env = ''ANTHROPIC_API_KEY''\<rparr>,
      \<lparr>po_name = ''OpenAI'', po_model = ''gpt-4o'', po_env = ''OPENAI_API_KEY''\<rparr>,
      \<lparr>po_name = ''Gemini'', po_model = ''gemini-2.0-flash'', po_env = ''GEMINI_API_KEY''\<rparr>,
      \<lparr>po_name = ''Ollama (local)'', po_model = ''ollama/llama3'', po_env = []\<rparr>]"

definition channelOptions :: "channel_option list" where
  "channelOptions =
     [\<lparr>cho_name = ''telegram'', cho_envs = [''TELEGRAM_BOT_TOKEN'']\<rparr>,
      \<lparr>cho_name = ''discord'', cho_envs = [''DISCORD_BOT_TOKEN'']\<rparr>,
      \<lparr>cho_name = ''slack'', cho_envs = [''SLACK_BOT_TOKEN'', ''SLACK_APP_TOKEN'']\<rparr>,
      \<lparr>cho_name = ''whatsapp'', cho_envs = [''WHATSAPP_DB_PATH'']\<rparr>,
      \<lparr>cho_name = ''matrix'', cho_envs = [''MATRIX_HOMESERVER'', ''MATRIX_USER_ID'', ''MATRIX_TOKEN'']\<rparr>]"

definition detected_vars :: "(string \<times> string) list" where
  "detected_vars =
     [(''Anthropic API Key'', ''ANTHROPIC_API_KEY''), (''OpenAI API Key'', ''OPENAI_API_KEY''), (''Gemini API Key'', ''GEMINI_API_KEY''),
      (''Telegram Bot Token'', ''TELEGRAM_BOT_TOKEN''), (''Discord Bot Token'', ''DISCORD_BOT_TOKEN''),
      (''Slack Bot Token'', ''SLACK_BOT_TOKEN''), (''Slack App Token'', ''SLACK_APP_TOKEN''), (''WhatsApp DB Path'', ''WHATSAPP_DB_PATH''),
      (''Matrix Homeserver'', ''MATRIX_HOMESERVER''), (''Matrix User ID'', ''MATRIX_USER_ID''), (''Matrix Token'', ''MATRIX_TOKEN'')]"

definition detectEnvVars :: "(string \<Rightarrow> string) \<Rightarrow> env_detection list" where
  "detectEnvVars getenv = map (\<lambda>(name, var). \<lparr>ed_name = name, ed_env = var, ed_set = (getenv var \<noteq> [])\<rparr>) detected_vars"

definition envVarSet :: "env_detection list \<Rightarrow> string \<Rightarrow> bool" where
  "envVarSet ds var = list_ex (\<lambda>d. ed_env d = var \<and> ed_set d) ds"

subsection \<open>Options of the form\<close>

record 'a form_option =
  fo_label :: string
  fo_value :: 'a
  fo_selected :: bool

definition check_mark :: string where "check_mark = [CHR 0xE2, CHR 0x9C, CHR 0x93]"
definition cross_mark :: string where "cross_mark = [CHR 0xE2, CHR 0x9C, CHR 0x97]"

definition buildProviderOptions :: "env_detection list \<Rightarrow> nat form_option list" where
  "buildProviderOptions ds =
     map (\<lambda>(i, p). \<lparr>fo_label = po_name p @ '' ('' @ po_model p @ '')'' @
            (if po_env p \<noteq> [] \<and> envVarSet ds (po_env p) then '' '' @ check_mark @ '' key detected'' else []),
          fo_value = i, fo_selected = False\<rparr>) (enumerate 0 provider_table)"

definition buildChannelOptions :: "env_detection list \<Rightarrow> string form_option list" where
  "buildChannelOptions ds =
     map (\<lambda>ch. let allSet = list_all (envVarSet ds) (cho_envs ch) in
          \<lparr>fo_label = cho_name ch @ (if allSet then '' '' @ check_mark @ '' configured'' else []), fo_value = cho_name ch, fo_selected = allSet\<rparr>)
       channelOptions"

subsection \<open>Output\<close>

definition printDetections :: "env_detection list \<Rightarrow> string list" where
  "printDetections ds =
     (let found = map ed_env (filter ed_set ds) in
      if found \<noteq> [] then [''  Detected: '' @ Join found '', '', []] else [])"

definition missingEnvVars :: "provider_option \<Rightarrow> string list \<Rightarrow> env_detection list \<Rightarrow> string list" where
  "missingEnvVars chosen selected ds =
     (if po_env chosen \<noteq> [] \<and> \<not> envVarSet ds (po_env chosen) then [po_env chosen] else [])
     @ concat (map (\<lambda>chName. concat (map (\<lambda>ch.
         if cho_name ch \<noteq> chName then [] else filter (\<lambda>ev. \<not> envVarSet ds ev) (cho_envs ch)) channelOptions)) selected)"

definition printSummary :: "string \<Rightarrow> provider_option \<Rightarrow> string list \<Rightarrow> string list \<Rightarrow> string list" where
  "printSummary configPath chosen chs needed =
     [[], ''  Setup Complete'', [], ''  '' @ check_mark @ '' Config saved to '' @ configPath, ''  '' @ check_mark @ '' Provider: '' @ po_name chosen,
      if chs \<noteq> [] then ''  '' @ check_mark @ '' Channels: '' @ Join chs '', '' else ''  - No channels enabled (webchat only)'']
     @ (if needed \<noteq> [] then [[], ''  Set these environment variables before starting:'', []]
          @ map (\<lambda>v. ''    export '' @ v @ ''=<your-value>'') needed else [])
     @ [[], ''  Start with: pincer start'', []]"

subsection \<open>The test of the connection\<close>

text \<open>Its one line of output. For another variable the provider would be nil, whose method panics: \<^term>\<open>None\<close>.\<close>

definition test_request :: "provider_option \<Rightarrow> chat_request" where
  "test_request chosen = \<lparr>rq_model = po_model chosen, rq_messages = [], rq_system = [], rq_max_tokens = 1, rq_stream = True, rq_tools = []\<rparr>"

definition test_provider :: "(string \<Rightarrow> string) \<Rightarrow> string \<Rightarrow> (go_error + provider) option" where
  "test_provider getenv var =
     (if var = ''ANTHROPIC_API_KEY'' then Some (map_sum id AnthropicProvider (NewAnthropicProvider getenv [] [] []))
      else if var = ''OPENAI_API_KEY'' then Some (map_sum id OpenAIProvider (NewOpenAIProvider getenv [] [] []))
      else if var = ''GEMINI_API_KEY'' then Some (map_sum id GeminiProvider (NewGeminiProvider getenv []))
      else None)"

fun first_error :: "chat_event list \<Rightarrow> go_error option" where
  "first_error [] = None"
| "first_error (EventError err # evs) = Some err"
| "first_error (ev # evs) = first_error evs"

definition failed_line :: "go_error \<Rightarrow> string" where
  "failed_line err = cross_mark @ '' '' @ err_msg err"

definition test_result :: "(string \<Rightarrow> string) \<Rightarrow> (string \<Rightarrow> go_error option) \<Rightarrow> (provider \<Rightarrow> chat_request \<Rightarrow> go_error + chat_event list) \<Rightarrow>
    provider_option \<Rightarrow> string option" where
  "test_result getenv http_get chat chosen =
     (if HasPrefix (po_model chosen) ''ollama/''
      then (let u = getenv ''OLLAMA_BASE_URL''; baseURL = (if u = [] then ''http://localhost:11434'' else u) in
            Some (case http_get baseURL of Some err \<Rightarrow> failed_line err | None \<Rightarrow> check_mark @ '' connected''))
      else (case test_provider getenv (po_env chosen) of
          None \<Rightarrow> None
        | Some (Inl err) \<Rightarrow> Some (failed_line err)
        | Some (Inr p) \<Rightarrow> (case chat p (test_request chosen) of
            Inl err \<Rightarrow> Some (failed_line err)
          | Inr evs \<Rightarrow> (case first_error evs of Some err \<Rightarrow> Some (failed_line err) | None \<Rightarrow> Some (check_mark @ '' connected'')))))"

definition testConnectivity :: "(string \<Rightarrow> string) \<Rightarrow> (string \<Rightarrow> go_error option) \<Rightarrow> (provider \<Rightarrow> chat_request \<Rightarrow> go_error + chat_event list) \<Rightarrow>
    provider_option \<Rightarrow> string option" where
  "testConnectivity getenv http_get chat chosen =
     map_option (\<lambda>r. ''  Testing '' @ po_name chosen @ '' connectivity... '' @ r) (test_result getenv http_get chat chosen)"

subsection \<open>The command\<close>

datatype 'a prompt = PromptAborted | PromptFailed go_error | Answered 'a

record init_io =
  ii_getenv :: "string \<Rightarrow> string"
  ii_mkdirAll :: "string \<Rightarrow> int \<Rightarrow> go_error option"
  ii_confirm :: "string \<Rightarrow> bool prompt"
  ii_form :: "nat form_option list \<Rightarrow> string form_option list \<Rightarrow> (nat \<times> string list \<times> string) prompt"
  ii_http_get :: "string \<Rightarrow> go_error option"
  ii_chat :: "provider \<Rightarrow> chat_request \<Rightarrow> go_error + chat_event list"
  ii_create :: "string \<Rightarrow> go_error option"
  ii_encode :: "config \<Rightarrow> string \<times> go_error option"

definition wizard_config :: "(string \<Rightarrow> string) \<Rightarrow> provider_option \<Rightarrow> string list \<Rightarrow> string \<Rightarrow> config" where
  "wizard_config getenv chosen selected approval =
     (let cfg = config_Default getenv;
          cfg1 = cfg\<lparr>co_agent := (co_agent cfg)\<lparr>ag_model := po_model chosen, ag_tool_approval := approval\<rparr>\<rparr>
      in if selected = [] then cfg1
         else cfg1\<lparr>co_channels := fold (\<lambda>ch m. m(ch \<mapsto> \<lparr>chan_enabled = True, chan_token = [], chan_token_env = [], chan_allow_list = []\<rparr>)) selected Map.empty\<rparr>)"

definition wizard_banner :: "string list" where
  "wizard_banner = [[], ''  Welcome to Pincer'', ''  Interactive setup wizard'', []]"

text \<open>From the form on; the result has the error, the lines printed and the files. A panic prints no line here.\<close>

definition wizard_form :: "init_io \<Rightarrow> string \<Rightarrow> file_texts \<Rightarrow> go_error option \<times> string list \<times> file_texts" where
  "wizard_form io configPath fs =
     (let ds = detectEnvVars (ii_getenv io); out = wizard_banner @ printDetections ds in
      case ii_form io (buildProviderOptions ds) (buildChannelOptions ds) of
        PromptAborted \<Rightarrow> (None, out @ [''  Setup cancelled.''], fs)
      | PromptFailed err \<Rightarrow> (Some (ErrWrap ''running setup form: '' err), out, fs)
      | Answered (choice, selected, approval) \<Rightarrow>
          (let chosen = provider_table ! choice;
               cfg = wizard_config (ii_getenv io) chosen selected approval;
               out1 = out @ (if po_env chosen \<noteq> [] \<and> envVarSet ds (po_env chosen)
                 then (case testConnectivity (ii_getenv io) (ii_http_get io) (ii_chat io) chosen of Some l \<Rightarrow> [l] | None \<Rightarrow> []) else [])
           in case config_Save (ii_create io) (ii_encode io) cfg configPath fs of
                (Some err, fs1) \<Rightarrow> (Some (ErrWrap ''writing config: '' err), out1, fs1)
              | (None, fs1) \<Rightarrow> (None, out1 @ printSummary configPath chosen selected (missingEnvVars chosen selected ds), fs1)))"

definition runInit :: "init_io \<Rightarrow> file_texts \<Rightarrow> go_error option \<times> string list \<times> file_texts" where
  "runInit io fs =
     (case EnsureDataDir (ii_getenv io) (ii_mkdirAll io) of
        Some err \<Rightarrow> (Some (ErrWrap ''creating data directory: '' err), wizard_banner, fs)
      | None \<Rightarrow>
          (let configPath = path_Join (DataDir (ii_getenv io)) ''pincer.toml'' in
           if fs configPath = None then wizard_form io configPath fs
           else (case ii_confirm io configPath of
               PromptAborted \<Rightarrow> (None, wizard_banner @ [''  Setup cancelled.''], fs)
             | PromptFailed err \<Rightarrow> (Some (ErrWrap ''running confirm: '' err), wizard_banner, fs)
             | Answered overwrite \<Rightarrow>
                 if \<not> overwrite then (None, wizard_banner @ [''  Aborted.''], fs) else wizard_form io configPath fs)))"

subsection \<open>Lemmas\<close>

lemma envVarSet_detected: "var \<in> snd ` set detected_vars \<Longrightarrow> envVarSet (detectEnvVars getenv) var \<longleftrightarrow> getenv var \<noteq> []"
  by (force simp: envVarSet_def detectEnvVars_def list_ex_iff)

lemma option_vars_detected:
  "\<forall>p \<in> set provider_table. po_env p \<noteq> [] \<longrightarrow> po_env p \<in> snd ` set detected_vars"
  "\<forall>ch \<in> set channelOptions. set (cho_envs ch) \<subseteq> snd ` set detected_vars"
  by (simp_all add: provider_table_def channelOptions_def detected_vars_def)

lemma missing_none:
  assumes "missingEnvVars chosen selected (detectEnvVars getenv) = []" "chosen \<in> set provider_table"
  shows "po_env chosen \<noteq> [] \<Longrightarrow> getenv (po_env chosen) \<noteq> []"
    and "ch \<in> set channelOptions \<Longrightarrow> cho_name ch \<in> set selected \<Longrightarrow> var \<in> set (cho_envs ch) \<Longrightarrow> getenv var \<noteq> []"
proof -
  assume "po_env chosen \<noteq> []"
  with assms option_vars_detected(1) show "getenv (po_env chosen) \<noteq> []"
    by (auto simp: missingEnvVars_def envVarSet_detected split: if_splits)
next
  assume ch: "ch \<in> set channelOptions" "cho_name ch \<in> set selected" "var \<in> set (cho_envs ch)"
  have "concat (map (\<lambda>ch'. if cho_name ch' \<noteq> cho_name ch then [] else filter (\<lambda>ev. \<not> envVarSet (detectEnvVars getenv) ev) (cho_envs ch')) channelOptions) = []"
    using assms(1) ch(2) by (auto simp: missingEnvVars_def)
  with ch(1) have "filter (\<lambda>ev. \<not> envVarSet (detectEnvVars getenv) ev) (cho_envs ch) = []" by auto
  with ch(3) have "envVarSet (detectEnvVars getenv) var" by (simp add: filter_empty_conv)
  with ch option_vars_detected(2) show "getenv var \<noteq> []" by (subst envVarSet_detected [symmetric]) auto
qed

lemma fold_enabled:
  "fold (\<lambda>ch m. m(ch \<mapsto> c)) selected m0 name = (if name \<in> set selected then Some c else m0 name)"
  by (induction selected arbitrary: m0) auto

lemma wizard_config_channels:
  "channelEnabled (wizard_config getenv chosen selected approval) name \<longleftrightarrow> name \<in> set selected"
  "channelToken getenv (wizard_config getenv chosen selected approval) name = []"
  by (auto simp: channelEnabled_def channelToken_def wizard_config_def Let_def fold_enabled config_Default_def)

lemma fill_paths_kept:
  "co_agent (fill_paths getenv cfg) = co_agent cfg" "co_channels (fill_paths getenv cfg) = co_channels cfg"
  by (simp_all add: fill_paths_def Let_def)

lemma fill_paths_channels:
  "channelEnabled (fill_paths getenv cfg) name = channelEnabled cfg name" "channelToken getenv (fill_paths getenv cfg) name = channelToken getenv cfg name"
  by (simp_all add: channelEnabled_def channelToken_def fill_paths_kept)

lemma wizard_config_agent:
  "ag_model (co_agent (wizard_config getenv chosen selected approval)) = po_model chosen"
  "ag_tool_approval (co_agent (wizard_config getenv chosen selected approval)) = approval"
  "ag_base_url (co_agent (wizard_config getenv chosen selected approval)) = []"
  "ag_auth_header (co_agent (wizard_config getenv chosen selected approval)) = []"
  by (simp_all add: wizard_config_def Let_def config_Default_def)

lemma runInit_saved:
  assumes "runInit io fs = (None, out, fs')" "ii_form io = (\<lambda>ps cs. Answered (i, selected, approval))"
    and "fs (DefaultConfigPath (ii_getenv io)) = None \<or> ii_confirm io (DefaultConfigPath (ii_getenv io)) = Answered True"
  shows "config_Save (ii_create io) (ii_encode io) (wizard_config (ii_getenv io) (provider_table ! i) selected approval)
      (DefaultConfigPath (ii_getenv io)) fs = (None, fs')"
proof -
  have "\<exists>out. wizard_form io (DefaultConfigPath (ii_getenv io)) fs = (None, out, fs')"
    using assms(1,3) by (auto simp: runInit_def Let_def DefaultConfigPath_def split: option.splits if_splits)
  then show ?thesis by (auto simp: wizard_form_def Let_def assms(2) split: prod.splits option.splits)
qed

lemma wizard_provider:
  assumes "i < length provider_table" "po_env (provider_table ! i) \<noteq> [] \<longrightarrow> getenv (po_env (provider_table ! i)) \<noteq> []"
    and "ag_model (co_agent cfg) = po_model (provider_table ! i)" "ag_base_url (co_agent cfg) = []" "ag_auth_header (co_agent cfg) = []"
  shows "\<exists>p. createProvider getenv cfg = Inr p \<and> provider_Name p = [''anthropic'', ''openai'', ''gemini'', ''ollama''] ! i"
proof -
  have "i = 0 \<or> i = 1 \<or> i = 2 \<or> i = 3" using assms(1) by (auto simp: provider_table_def)
  then show ?thesis
    using assms(2-)
    by (elim disjE)
      (simp_all add: provider_table_def createProvider_def Let_def provider_Name_def NewAnthropicProvider_def NewOpenAIProvider_def
        NewGeminiProvider_def NewOllamaProvider_def)
qed

definition channel_vars :: "(string \<times> string) list" where
  "channel_vars = [(''telegram'', ''TELEGRAM_BOT_TOKEN''), (''discord'', ''DISCORD_BOT_TOKEN''), (''slack'', ''SLACK_BOT_TOKEN''),
     (''whatsapp'', ''WHATSAPP_DB_PATH''), (''matrix'', ''MATRIX_HOMESERVER'')]"

lemma adapter_of_inj: "adapter_of a = adapter_of b \<longleftrightarrow> a = b"
  by (auto simp: adapter_of_def)

lemma map_filter_member: "x \<in> set (map f (filter P xs)) \<longleftrightarrow> (\<exists>t \<in> set xs. P t \<and> x = f t)"
  by auto

lemma adapter_runs:
  "adapter_of name \<in> set (initChannelAdapters getenv (new_adapter getenv) start cfg) \<longleftrightarrow> start (adapter_of name) = None
     \<and> (\<exists>t \<in> set (channel_specs getenv cfg). fst t = name \<and> wanted getenv cfg name (fst (snd t)) \<and> snd (snd t))"
  unfolding channels_started map_filter_member split_beta adapter_of_inj by blast

lemma adapter_runs_each:
  "adapter_of ''telegram'' \<in> set (initChannelAdapters getenv (new_adapter getenv) start cfg) \<longleftrightarrow> start (adapter_of ''telegram'') = None
     \<and> wanted getenv cfg ''telegram'' ''TELEGRAM_BOT_TOKEN'' \<and> token_set getenv cfg ''telegram'' ''TELEGRAM_BOT_TOKEN''"
  "adapter_of ''discord'' \<in> set (initChannelAdapters getenv (new_adapter getenv) start cfg) \<longleftrightarrow> start (adapter_of ''discord'') = None
     \<and> wanted getenv cfg ''discord'' ''DISCORD_BOT_TOKEN'' \<and> token_set getenv cfg ''discord'' ''DISCORD_BOT_TOKEN''"
  "adapter_of ''slack'' \<in> set (initChannelAdapters getenv (new_adapter getenv) start cfg) \<longleftrightarrow> start (adapter_of ''slack'') = None
     \<and> wanted getenv cfg ''slack'' ''SLACK_BOT_TOKEN'' \<and> token_set getenv cfg ''slack'' ''SLACK_BOT_TOKEN'' \<and> getenv ''SLACK_APP_TOKEN'' \<noteq> []"
  "adapter_of ''whatsapp'' \<in> set (initChannelAdapters getenv (new_adapter getenv) start cfg) \<longleftrightarrow> start (adapter_of ''whatsapp'') = None
     \<and> wanted getenv cfg ''whatsapp'' ''WHATSAPP_DB_PATH''"
  "adapter_of ''matrix'' \<in> set (initChannelAdapters getenv (new_adapter getenv) start cfg) \<longleftrightarrow> start (adapter_of ''matrix'') = None
     \<and> wanted getenv cfg ''matrix'' ''MATRIX_HOMESERVER'' \<and> getenv ''MATRIX_HOMESERVER'' \<noteq> [] \<and> getenv ''MATRIX_USER_ID'' \<noteq> []
     \<and> getenv ''MATRIX_ACCESS_TOKEN'' \<noteq> []"
  by (simp_all add: adapter_runs channel_specs_def)

lemma channel_specs_vars: "map (\<lambda>t. (fst t, fst (snd t))) (channel_specs getenv cfg) = channel_vars"
  by (simp add: channel_specs_def channel_vars_def)

lemma ball_four:
  "A \<subseteq> {a, b, c, d} \<Longrightarrow> A \<subseteq> B \<Longrightarrow> a \<in> B \<longrightarrow> P a \<Longrightarrow> b \<in> B \<longrightarrow> P b \<Longrightarrow> c \<in> B \<longrightarrow> P c \<Longrightarrow> d \<in> B \<longrightarrow> P d \<Longrightarrow> \<forall>x \<in> A. P x"
  by blast

lemma option_names: "cho_name ` set channelOptions = insert ''matrix'' {''telegram'', ''discord'', ''slack'', ''whatsapp''}"
  by (simp add: channelOptions_def insert_commute)

lemma wizard_channels:
  fixes start :: "adapter \<Rightarrow> go_error option"
  assumes vars: "\<And>ch var. ch \<in> set channelOptions \<Longrightarrow> cho_name ch \<in> set selected \<Longrightarrow> var \<in> set (cho_envs ch) \<Longrightarrow> getenv var \<noteq> []"
    and sel: "set selected \<subseteq> cho_name ` set channelOptions"
    and cfg: "\<And>name. channelEnabled cfg name \<longleftrightarrow> name \<in> set selected" "\<And>name. channelToken getenv cfg name = []"
  defines "run \<equiv> initChannelAdapters getenv (new_adapter getenv) start cfg"
  shows "\<forall>name \<in> set selected - {''matrix''}. start (adapter_of name) = None \<longrightarrow> adapter_of name \<in> set run"
    and "adapter_of ''matrix'' \<in> set run \<longleftrightarrow> start (adapter_of ''matrix'') = None
      \<and> list_all (\<lambda>var. getenv var \<noteq> []) [''MATRIX_HOMESERVER'', ''MATRIX_USER_ID'', ''MATRIX_ACCESS_TOKEN'']"
    and "\<forall>a \<in> set run. ad_name a \<in> set selected \<or> list_ex (\<lambda>(name, var). name = ad_name a \<and> getenv var \<noteq> []) channel_vars"
proof -
  have v: "''telegram'' \<in> set selected \<Longrightarrow> getenv ''TELEGRAM_BOT_TOKEN'' \<noteq> []"
    "''discord'' \<in> set selected \<Longrightarrow> getenv ''DISCORD_BOT_TOKEN'' \<noteq> []"
    "''slack'' \<in> set selected \<Longrightarrow> getenv ''SLACK_BOT_TOKEN'' \<noteq> [] \<and> getenv ''SLACK_APP_TOKEN'' \<noteq> []"
    using vars [of "channelOptions ! 0"] vars [of "channelOptions ! 1"] vars [of "channelOptions ! 2"] by (simp_all add: channelOptions_def)
  note runs = adapter_runs_each [of getenv start cfg, folded run_def] token_set_def wanted_def cfg
  have "set selected - {''matrix''} \<subseteq> {''telegram'', ''discord'', ''slack'', ''whatsapp''}"
    using sel unfolding option_names by (simp only: Diff_subset_conv insert_is_Un [symmetric])
  moreover have "''telegram'' \<in> set selected \<longrightarrow> start (adapter_of ''telegram'') = None \<longrightarrow> adapter_of ''telegram'' \<in> set run"
    "''discord'' \<in> set selected \<longrightarrow> start (adapter_of ''discord'') = None \<longrightarrow> adapter_of ''discord'' \<in> set run"
    "''slack'' \<in> set selected \<longrightarrow> start (adapter_of ''slack'') = None \<longrightarrow> adapter_of ''slack'' \<in> set run"
    "''whatsapp'' \<in> set selected \<longrightarrow> start (adapter_of ''whatsapp'') = None \<longrightarrow> adapter_of ''whatsapp'' \<in> set run"
    unfolding runs using v by blast+
  ultimately show "\<forall>name \<in> set selected - {''matrix''}. start (adapter_of name) = None \<longrightarrow> adapter_of name \<in> set run"
    by (rule ball_four [OF _ Diff_subset])
  show "adapter_of ''matrix'' \<in> set run \<longleftrightarrow> start (adapter_of ''matrix'') = None
      \<and> list_all (\<lambda>var. getenv var \<noteq> []) [''MATRIX_HOMESERVER'', ''MATRIX_USER_ID'', ''MATRIX_ACCESS_TOKEN'']"
    unfolding runs by auto
  show "\<forall>a \<in> set run. ad_name a \<in> set selected \<or> list_ex (\<lambda>(name, var). name = ad_name a \<and> getenv var \<noteq> []) channel_vars"
  proof
    fix a assume "a \<in> set run"
    then obtain t where t: "t \<in> set (channel_specs getenv cfg)" "wanted getenv cfg (fst t) (fst (snd t))" "a = adapter_of (fst t)"
      unfolding run_def channels_started map_filter_member split_beta by blast
    have "(fst t, fst (snd t)) \<in> set channel_vars"
      unfolding channel_specs_vars [of getenv cfg, symmetric] using t(1) by force
    moreover have "ad_name a = fst t" by (simp add: t(3) adapter_of_def)
    ultimately show "ad_name a \<in> set selected \<or> list_ex (\<lambda>(name, var). name = ad_name a \<and> getenv var \<noteq> []) channel_vars"
      using t(2) by (auto simp: wanted_def cfg list_ex_iff)
  qed
qed

text \<open>
  C37: what the wizard writes, the program starts. If the wizard has saved its configuration and asked for no more
  variables, and the codec reads back what it wrote, then loading the default path gives the chosen model and approval
  mode, the provider of the chosen name is created without an error, and every selected channel whose client starts runs,
  except Matrix: that one runs exactly if MATRIX_ACCESS_TOKEN is set, which the wizard never asks for. A channel that runs
  is selected or has its variable set; the wizard cannot switch one off.
\<close>

theorem wizard_configures:
  assumes "runInit io fs = (None, out, fs')" "ii_form io = (\<lambda>ps cs. Answered (i, selected, approval))"
    and "fs (DefaultConfigPath (ii_getenv io)) = None \<or> ii_confirm io (DefaultConfigPath (ii_getenv io)) = Answered True"
    and "i < length provider_table" "set selected \<subseteq> cho_name ` set channelOptions"
    and "missingEnvVars (provider_table ! i) selected (detectEnvVars (ii_getenv io)) = []"
    and "unmarshal (fst (ii_encode io (wizard_config (ii_getenv io) (provider_table ! i) selected approval))) (config_Default (ii_getenv io)) =
      Inr (wizard_config (ii_getenv io) (provider_table ! i) selected approval)"
  shows "\<exists>cfg p. fst (config_Load (ii_getenv io) unmarshal (read_config fs' (DefaultConfigPath (ii_getenv io))) None) = Inr cfg
    \<and> ag_model (co_agent cfg) = po_model (provider_table ! i) \<and> ag_tool_approval (co_agent cfg) = approval
    \<and> createProvider (ii_getenv io) cfg = Inr p \<and> provider_Name p = [''anthropic'', ''openai'', ''gemini'', ''ollama''] ! i
    \<and> (\<forall>name \<in> set selected - {''matrix''}. start (adapter_of name) = None \<longrightarrow>
        adapter_of name \<in> set (initChannelAdapters (ii_getenv io) (new_adapter (ii_getenv io)) start cfg))
    \<and> (adapter_of ''matrix'' \<in> set (initChannelAdapters (ii_getenv io) (new_adapter (ii_getenv io)) start cfg) \<longleftrightarrow>
        start (adapter_of ''matrix'') = None
        \<and> list_all (\<lambda>var. ii_getenv io var \<noteq> []) [''MATRIX_HOMESERVER'', ''MATRIX_USER_ID'', ''MATRIX_ACCESS_TOKEN''])
    \<and> (\<forall>a \<in> set (initChannelAdapters (ii_getenv io) (new_adapter (ii_getenv io)) start cfg).
        ad_name a \<in> set selected \<or> list_ex (\<lambda>(name, var). name = ad_name a \<and> ii_getenv io var \<noteq> []) channel_vars)"
proof -
  let ?g = "ii_getenv io" and ?w = "wizard_config (ii_getenv io) (provider_table ! i) selected approval"
  let ?cfg = "fill_paths ?g ?w"
  have mem: "provider_table ! i \<in> set provider_table" using assms(4) by simp
  note vars = missing_none [OF assms(6) mem]
  have "config_Load ?g unmarshal (read_config fs' (DefaultConfigPath ?g)) None = (Inr ?cfg, Some ?cfg)"
    using Save_Load [where unmarshal = unmarshal and cfg = ?w, OF runInit_saved [OF assms(1-3)]] assms(7) by blast
  moreover obtain p where "createProvider ?g ?cfg = Inr p" "provider_Name p = [''anthropic'', ''openai'', ''gemini'', ''ollama''] ! i"
    using wizard_provider [OF assms(4), of ?g ?cfg] vars(1) by (auto simp: fill_paths_kept wizard_config_agent)
  moreover note wizard_channels [where getenv = ?g and cfg = ?cfg and start = start, OF vars(2) assms(5)]
  ultimately show ?thesis
    by (intro exI [of _ ?cfg] exI [of _ p]) (simp add: fill_paths_kept fill_paths_channels wizard_config_channels wizard_config_agent)
qed

definition demo_getenv :: "string \<Rightarrow> string" where
  "demo_getenv var = (if var = ''ANTHROPIC_API_KEY'' \<or> var = ''TELEGRAM_BOT_TOKEN'' then ''k'' else [])"

definition demo_init :: init_io where
  "demo_init = \<lparr>ii_getenv = demo_getenv, ii_mkdirAll = (\<lambda>d m. None), ii_confirm = (\<lambda>p. PromptAborted),
     ii_form = (\<lambda>ps cs. Answered (0, [''telegram''], ''ask'')), ii_http_get = (\<lambda>u. None), ii_chat = (\<lambda>p r. Inr []),
     ii_create = (\<lambda>p. None), ii_encode = (\<lambda>c. (''[agent]'', None))\<rparr>"

theorem wizard_configures_witness:
  "let fs' = snd (snd (runInit demo_init Map.empty));
       unmarshal = (\<lambda>d c. Inr (wizard_config demo_getenv (provider_table ! 0) [''telegram''] ''ask''))
   in \<exists>cfg p. fst (config_Load demo_getenv unmarshal (read_config fs' (DefaultConfigPath demo_getenv)) None) = Inr cfg
     \<and> createProvider demo_getenv cfg = Inr p \<and> provider_Name p = ''anthropic''
     \<and> adapter_of ''telegram'' \<in> set (initChannelAdapters demo_getenv (new_adapter demo_getenv) (\<lambda>a. None) cfg)
     \<and> adapter_of ''matrix'' \<notin> set (initChannelAdapters demo_getenv (new_adapter demo_getenv) (\<lambda>a. None) cfg)"
proof -
  let ?u = "\<lambda>d c. Inr (wizard_config demo_getenv (provider_table ! 0) [''telegram''] ''ask'') :: go_error + config"
  obtain out where run: "runInit demo_init Map.empty = (None, out, snd (snd (runInit demo_init Map.empty)))"
    by (simp add: runInit_def EnsureDataDir_def demo_init_def wizard_form_def Let_def config_Save_def)
  have sim: "ii_getenv demo_init = demo_getenv" "ii_form demo_init = (\<lambda>ps cs. Answered (0, [''telegram''], ''ask''))" by (simp_all add: demo_init_def)
  have "missingEnvVars (provider_table ! 0) [''telegram''] (detectEnvVars demo_getenv) = []"
    by (simp add: missingEnvVars_def provider_table_def channelOptions_def envVarSet_detected detected_vars_def demo_getenv_def)
  moreover have "set [''telegram''] \<subseteq> cho_name ` set channelOptions" by (simp add: option_names)
  moreover have "demo_getenv ''MATRIX_HOMESERVER'' = []" by (simp add: demo_getenv_def)
  moreover have "0 < length provider_table" by (simp add: provider_table_def)
  ultimately show ?thesis
    using wizard_configures [of demo_init Map.empty out "snd (snd (runInit demo_init Map.empty))" 0 "[''telegram'']" "''ask''" ?u "\<lambda>a. None", OF run]
    by (simp add: sim Let_def) blast
qed

text \<open>
  the wizard touches one file, and only when told to. Whatever the answers and failures, no file but the configuration
  file differs afterwards; an existing configuration is only replaced after the confirmation to overwrite it; and without an
  answered form nothing changes.
\<close>

theorem wizard_keeps_files:
  "(\<forall>p. p \<noteq> DefaultConfigPath (ii_getenv io) \<longrightarrow> snd (snd (runInit io fs)) p = fs p)
   \<and> (fs (DefaultConfigPath (ii_getenv io)) \<noteq> None \<and> ii_confirm io (DefaultConfigPath (ii_getenv io)) \<noteq> Answered True \<longrightarrow>
        snd (snd (runInit io fs)) = fs)
   \<and> ((\<forall>ps cs a. ii_form io ps cs \<noteq> Answered a) \<longrightarrow> snd (snd (runInit io fs)) = fs)"
proof -
  have form: "snd (snd (wizard_form io path fs)) p = fs p" if "p \<noteq> path" for path p
    using that by (auto simp: wizard_form_def Let_def config_Save_def split: prompt.split prod.split option.split)
  have none: "snd (snd (wizard_form io path fs)) = fs" if "\<forall>ps cs a. ii_form io ps cs \<noteq> Answered a" for path
    using that by (auto simp: wizard_form_def Let_def split: prompt.split)
  show ?thesis
    unfolding runInit_def DefaultConfigPath_def [symmetric]
    by (auto simp: Let_def form none split: option.split prompt.split)
qed

theorem wizard_keeps_files_witness:
  "snd (snd (runInit demo_init [DefaultConfigPath demo_getenv \<mapsto> ''old''])) = [DefaultConfigPath demo_getenv \<mapsto> ''old'']"
  using wizard_keeps_files [of demo_init "[DefaultConfigPath demo_getenv \<mapsto> ''old'']"] by (simp add: demo_init_def)

text \<open>The wizard's test sends a request without any message.\<close>

lemma test_request_empty: "rq_messages (test_request chosen) = []"
  by (simp add: test_request_def)

text \<open>
  What the wizard is silent about. Matrix needs a variable it never detects: with Matrix selected and nothing missing,
  the adapter still fails to start, because MATRIX_TOKEN is set but MATRIX_ACCESS_TOKEN is read.
\<close>

lemma wizard_matrix_never_starts:
  assumes "getenv ''MATRIX_ACCESS_TOKEN'' = []"
  shows "adapter_of ''matrix'' \<notin> set (initChannelAdapters getenv (new_adapter getenv) start cfg)"
  using assms adapter_runs_each(5) by blast

end
