(* ===== verification/Terminal_Chat.thy ===== *)
theory Terminal_Chat
  imports Prelude
begin

section \<open>The terminal chat (\<^verbatim>\<open>pkg/tui/chat.go\<close>)\<close>

text \<open>
  The model, update and view of the terminal client. The event loop of \<^verbatim>\<open>bubbletea\<close> is the step relation: it feeds keys,
  window sizes and the results of commands to \<^verbatim>\<open>Update\<close> one at a time, and runs a returned command once, on a
  goroutine of its own. A key is given by the text of its message. Colours are left out of the view.
\<close>

subsection \<open>Model and update\<close>

record tui_message =
  tm_role :: string
  tm_content :: string

record tui_model =
  tui_messages :: "tui_message list"
  tui_input :: string
  tui_width :: int
  tui_height :: int
  tui_scroll :: int
  tui_waiting :: bool
  tui_err :: "go_error option"

datatype tui_msg = KeyMsg string | WindowSizeMsg int int | ResponseMsg string "go_error option" | OtherMsg
datatype tui_cmd = NoCmd | QuitCmd | SendCmd string

definition NewModel :: tui_model where
  "NewModel = \<lparr>tui_messages = [], tui_input = [], tui_width = 0, tui_height = 0, tui_scroll = 0, tui_waiting = False, tui_err = None\<rparr>"

definition submitInput :: "tui_model \<Rightarrow> tui_model \<times> tui_cmd" where
  "submitInput m =
     (let typed = TrimSpace (tui_input m) in
      (m\<lparr>tui_messages := tui_messages m @ [\<lparr>tm_role = ''user'', tm_content = typed\<rparr>], tui_input := [], tui_waiting := True\<rparr>, SendCmd typed))"

definition key_pressed :: "string \<Rightarrow> tui_model \<Rightarrow> tui_model \<times> tui_cmd" where
  "key_pressed k m =
     (if k = ''ctrl+c'' \<or> k = ''esc'' then (m, QuitCmd)
      else if k = ''enter'' then (if tui_waiting m \<or> TrimSpace (tui_input m) = [] then (m, NoCmd) else submitInput m)
      else if k = ''backspace'' then (if tui_input m \<noteq> [] then m\<lparr>tui_input := butlast (tui_input m)\<rparr> else m, NoCmd)
      else if k = ''pgup'' then (if tui_scroll m > 0 then m\<lparr>tui_scroll := tui_scroll m - 1\<rparr> else m, NoCmd)
      else if k = ''pgdown'' then (m\<lparr>tui_scroll := tui_scroll m + 1\<rparr>, NoCmd)
      else if length k = 1 \<or> k = '' '' then (m\<lparr>tui_input := tui_input m @ k\<rparr>, NoCmd)
      else (m, NoCmd))"

definition response_received :: "string \<Rightarrow> go_error option \<Rightarrow> tui_model \<Rightarrow> tui_model" where
  "response_received content err m =
     (case err of
        Some e \<Rightarrow> m\<lparr>tui_waiting := False, tui_err := Some e, tui_messages := tui_messages m @ [\<lparr>tm_role = ''error'', tm_content = err_msg e\<rparr>]\<rparr>
      | None \<Rightarrow> m\<lparr>tui_waiting := False, tui_messages := tui_messages m @ [\<lparr>tm_role = ''assistant'', tm_content = content\<rparr>]\<rparr>)"

definition tui_Update :: "tui_msg \<Rightarrow> tui_model \<Rightarrow> tui_model \<times> tui_cmd" where
  "tui_Update msg m =
     (case msg of
        KeyMsg k \<Rightarrow> key_pressed k m
      | WindowSizeMsg w h \<Rightarrow> (m\<lparr>tui_width := w, tui_height := h\<rparr>, NoCmd)
      | ResponseMsg content err \<Rightarrow> (response_received content err m, NoCmd)
      | OtherMsg \<Rightarrow> (m, NoCmd))"

subsection \<open>View\<close>

text \<open>The line and block characters in UTF-8. A negative width makes \<^verbatim>\<open>strings.Repeat\<close> panic; terminals have none.\<close>

definition rule_char :: string where "rule_char = [CHR 0xE2, CHR 0x94, CHR 0x80]"
definition block_char :: string where "block_char = [CHR 0xE2, CHR 0x96, CHR 0x88]"

definition view_message :: "tui_message \<Rightarrow> string" where
  "view_message msg =
     (if tm_role msg = ''user'' then ''You: '' @ tm_content msg
      else if tm_role msg = ''assistant'' then ''Pincer: '' @ tm_content msg
      else if tm_role msg = ''error'' then ''Error: '' @ tm_content msg else []) @ nl @ nl"

definition tui_View :: "tui_model \<Rightarrow> string" where
  "tui_View m =
     (if tui_width m = 0 then ''Loading...''
      else (let rule = concat (replicate (nat (tui_width m)) rule_char) in
        ''Pincer Chat (Ctrl+C to quit)'' @ nl @ rule @ nl @ nl @ concat (map view_message (tui_messages m))
        @ (if tui_waiting m then ''Thinking...'' @ nl @ nl else []) @ rule @ nl
        @ ''> '' @ tui_input m @ (if \<not> tui_waiting m then block_char else [])))"

subsection \<open>Running\<close>

text \<open>
  A run: the model, the texts of commands that have not returned, and whether the program has quit. What
  \<^verbatim>\<open>sendFn\<close> may answer to a text is a relation.
\<close>

inductive tui_run :: "(string \<Rightarrow> string \<times> go_error option \<Rightarrow> bool) \<Rightarrow> tui_model \<Rightarrow> string list \<Rightarrow> bool \<Rightarrow> bool" for send where
  start: "tui_run send NewModel [] False"
| event: "tui_run send m pend False \<Longrightarrow> \<forall>c e. msg \<noteq> ResponseMsg c e \<Longrightarrow> tui_Update msg m = (m', cmd) \<Longrightarrow>
    tui_run send m' (case cmd of SendCmd t \<Rightarrow> pend @ [t] | _ \<Rightarrow> pend) (cmd = QuitCmd)"
| reply: "tui_run send m pend False \<Longrightarrow> t \<in> set pend \<Longrightarrow> send t (content, err) \<Longrightarrow> tui_Update (ResponseMsg content err) m = (m', cmd) \<Longrightarrow>
    tui_run send m' (remove1 t pend) False"

text \<open>The function that \<^verbatim>\<open>pincer chat\<close> sends with.\<close>

definition RunWithAddress :: "string \<Rightarrow> string \<Rightarrow> string \<times> go_error option" where
  "RunWithAddress addr input =
     ([], Some (ErrText (''direct gateway connection not yet implemented (use WebSocket at '' @ addr @ ''/ws)'')))"

subsection \<open>Conversations\<close>

text \<open>An exchange: what the user typed and the answer to it.\<close>

definition user_message :: "string \<Rightarrow> tui_message" where
  "user_message t = \<lparr>tm_role = ''user'', tm_content = t\<rparr>"

definition answer_message :: "string \<times> go_error option \<Rightarrow> tui_message" where
  "answer_message r = (case snd r of Some e \<Rightarrow> \<lparr>tm_role = ''error'', tm_content = err_msg e\<rparr> | None \<Rightarrow> \<lparr>tm_role = ''assistant'', tm_content = fst r\<rparr>)"

definition exchanges :: "(string \<times> string \<times> go_error option) list \<Rightarrow> tui_message list" where
  "exchanges qs = concat (map (\<lambda>(t, r). [user_message t, answer_message r]) qs)"

definition conversation :: "(string \<Rightarrow> string \<times> go_error option \<Rightarrow> bool) \<Rightarrow> tui_model \<Rightarrow> string list \<Rightarrow> bool" where
  "conversation send m pend \<longleftrightarrow>
     (\<exists>qs. tui_messages m = exchanges qs @ map user_message pend \<and> list_all (\<lambda>(t, r). t \<noteq> [] \<and> send t r) qs)
     \<and> (if tui_waiting m then \<exists>t. pend = [t] \<and> t \<noteq> [] else pend = [])"

lemma conversation_frame:
  "conversation send m pend \<Longrightarrow> tui_messages m' = tui_messages m \<Longrightarrow> tui_waiting m' = tui_waiting m \<Longrightarrow> conversation send m' pend"
  by (simp add: conversation_def)

lemma conversation_key:
  assumes "conversation send m pend" "key_pressed k m = (m', cmd)"
  shows "conversation send m' (case cmd of SendCmd t \<Rightarrow> pend @ [t] | _ \<Rightarrow> pend)"
proof (cases "k = ''enter'' \<and> \<not> tui_waiting m \<and> TrimSpace (tui_input m) \<noteq> []")
  case True
  then have "(m', cmd) = submitInput m" using assms(2) by (simp add: key_pressed_def)
  with True assms(1) show ?thesis
    by (auto simp: conversation_def submitInput_def Let_def user_message_def split: if_splits)
next
  case False
  have same: "tui_messages (fst (key_pressed k m)) = tui_messages m \<and> tui_waiting (fst (key_pressed k m)) = tui_waiting m
      \<and> snd (key_pressed k m) \<in> {NoCmd, QuitCmd}"
  proof (cases "k = ''enter''")
    case True
    with False show ?thesis by (simp add: key_pressed_def)
  next
    case False
    then show ?thesis by (simp add: key_pressed_def)
  qed
  then have "conversation send m' pend" using assms(2) conversation_frame [OF assms(1)] by simp
  with same assms(2) show ?thesis by auto
qed

lemma exchanges_snoc: "exchanges (qs @ [(t, r)]) = exchanges qs @ [user_message t, answer_message r]"
  by (simp add: exchanges_def)

lemma conversation_reply:
  assumes "conversation send m pend" "t \<in> set pend" "send t (content, err)"
  shows "conversation send (response_received content err m) (remove1 t pend)"
proof -
  from assms(1,2) have pend: "pend = [t]" "t \<noteq> []" "tui_waiting m" by (auto simp: conversation_def split: if_splits)
  with assms(1) obtain qs where qs: "tui_messages m = exchanges qs @ [user_message t]" "list_all (\<lambda>(t, r). t \<noteq> [] \<and> send t r) qs"
    by (auto simp: conversation_def)
  have m: "tui_messages (response_received content err m) = exchanges (qs @ [(t, content, err)])" "\<not> tui_waiting (response_received content err m)"
    using qs(1) by (simp_all add: response_received_def exchanges_snoc answer_message_def split: option.split)
  have "list_all (\<lambda>(t, r). t \<noteq> [] \<and> send t r) (qs @ [(t, content, err)])" using qs(2) pend assms(3) by simp
  with m pend show ?thesis unfolding conversation_def by auto
qed

text \<open>
  C38: the terminal chat keeps a conversation in order. In every run the messages shown are exchanges, each a non-empty text of
  the user followed by the one answer its sending returned, in the order they were typed; at most one message waits
  for an answer, it is the last one, and it waits exactly while a command is running, so no key can send a second
  message before the answer.
\<close>

theorem terminal_conversation:
  assumes "tui_run send m pend quit"
  shows "(\<exists>qs. tui_messages m = exchanges qs @ map user_message pend \<and> list_all (\<lambda>(t, r). t \<noteq> [] \<and> send t r) qs)
    \<and> (if tui_waiting m then \<exists>t. pend = [t] \<and> t \<noteq> [] else pend = [])"
  unfolding conversation_def [symmetric]
  using assms
proof (induction rule: tui_run.induct)
  case start
  have "tui_messages NewModel = exchanges [] @ map user_message []" by (simp add: NewModel_def exchanges_def)
  then show ?case unfolding conversation_def by (auto simp: NewModel_def)
next
  case (event m pend msg m' cmd)
  then show ?case
  proof (cases msg)
    case (KeyMsg k)
    with event show ?thesis by (intro conversation_key) (simp_all add: tui_Update_def)
  qed (auto simp: tui_Update_def intro: conversation_frame)
next
  case (reply m pend t content err m' cmd)
  then have "m' = response_received content err m" by (simp add: tui_Update_def)
  with conversation_reply [of send m pend t content err] reply show ?case by simp
qed

theorem terminal_conversation_witness:
  "let m = fst (tui_Update (KeyMsg ''enter'') (fst (tui_Update (KeyMsg ''x'') NewModel)))
   in tui_waiting m \<and> (\<exists>qs t. tui_messages m = exchanges qs @ [user_message t] \<and> t \<noteq> [])"
proof -
  let ?m1 = "fst (tui_Update (KeyMsg ''x'') NewModel)" and ?m2 = "fst (tui_Update (KeyMsg ''enter'') (fst (tui_Update (KeyMsg ''x'') NewModel)))"
  have x: "TrimSpace ''x'' = ''x''" by code_simp
  have s1: "tui_Update (KeyMsg ''x'') NewModel = (?m1, NoCmd)" by (simp add: tui_Update_def key_pressed_def)
  have s2: "tui_Update (KeyMsg ''enter'') ?m1 = (?m2, SendCmd ''x'')" "tui_waiting ?m2"
    by (simp_all add: tui_Update_def key_pressed_def submitInput_def NewModel_def x Let_def)
  have "tui_run (\<lambda>t r. True) ?m1 [] False" using event [OF start, of "KeyMsg ''x''" ?m1 NoCmd] s1 by simp
  from event [OF this, of "KeyMsg ''enter''" ?m2 "SendCmd ''x''"] s2(1) have "tui_run (\<lambda>t r. True) ?m2 [''x''] False" by simp
  from terminal_conversation [OF this] s2(2) show ?thesis by (auto simp: Let_def)
qed

text \<open>The client never reaches the gateway: every message is answered by the same error.\<close>

lemma terminal_chat_unconnected:
  assumes "conversation (\<lambda>t r. r = RunWithAddress addr t) m pend"
  shows "\<forall>msg \<in> set (tui_messages m). tm_role msg = ''user'' \<or> tm_role msg = ''error''"
  using assms by (fastforce simp: conversation_def exchanges_def list_all_iff RunWithAddress_def user_message_def answer_message_def)

text \<open>Scrolling has no effect on what is shown, and a character of more than one byte cannot be typed.\<close>

lemma scroll_ignored: "tui_View (m\<lparr>tui_scroll := k\<rparr>) = tui_View m"
  by (simp add: tui_View_def Let_def)

lemma wide_character_ignored:
  assumes "length k > 1" "k \<notin> {''ctrl+c'', ''esc'', ''enter'', ''backspace'', ''pgup'', ''pgdown''}"
  shows "tui_Update (KeyMsg k) m = (m, NoCmd)"
proof -
  have "k \<noteq> '' ''" using assms(1) by auto
  with assms show ?thesis by (simp add: tui_Update_def key_pressed_def)
qed

end
