(* ===== verification/Telemetry.thy ===== *)
theory Telemetry
  imports Prelude
begin

section \<open>Telemetry (\<^verbatim>\<open>pkg/telemetry\<close>)\<close>

text \<open>
  What the program sets up for logging, tracing and metrics. Writing log lines, exporting spans and serving metrics are the
  libraries'. The default logger and the global tracer provider are passed as state.
\<close>

subsection \<open>Logging (\<^verbatim>\<open>logging.go\<close>)\<close>

datatype log_level = LevelDebug | LevelInfo | LevelWarn | LevelError
datatype log_handler = TextHandler | JSONHandler
datatype log_writer = Stdout | Writer nat

record slog_logger =
  sl_handler :: log_handler
  sl_level :: log_level
  sl_writer :: log_writer

definition parseLevel :: "string \<Rightarrow> log_level" where
  "parseLevel s =
     (let l = ToLower s in
      if l = ''debug'' then LevelDebug else if l = ''warn'' \<or> l = ''warning'' then LevelWarn else if l = ''error'' then LevelError else LevelInfo)"

text \<open>The new logger is returned and becomes the default one.\<close>

definition SetupLogger :: "string \<Rightarrow> string \<Rightarrow> log_writer option \<Rightarrow> slog_logger \<Rightarrow> slog_logger \<times> slog_logger" where
  "SetupLogger level format w default_logger =
     (let lg = \<lparr>sl_handler = (if ToLower format = ''text'' then TextHandler else JSONHandler), sl_level = parseLevel level,
                sl_writer = (case w of None \<Rightarrow> Stdout | Some x \<Rightarrow> x)\<rparr>
      in (lg, lg))"

text \<open>The values of a context, innermost first; the key type is private, so only these functions touch its logger.\<close>

datatype ctx_value = LoggerValue "slog_logger option" | OtherValue nat

definition WithLogger :: "ctx_value list \<Rightarrow> slog_logger option \<Rightarrow> ctx_value list" where
  "WithLogger ctx lg = LoggerValue lg # ctx"

fun FromContext :: "slog_logger \<Rightarrow> ctx_value list \<Rightarrow> slog_logger option" where
  "FromContext default_logger [] = Some default_logger"
| "FromContext default_logger (LoggerValue lg # ctx) = lg"
| "FromContext default_logger (OtherValue n # ctx) = FromContext default_logger ctx"

subsection \<open>Tracing (\<^verbatim>\<open>tracing.go\<close>)\<close>

record tracer_config =
  tc_enabled :: bool
  tc_endpoint :: string
  tc_service :: string
  tc_version :: string

datatype exporter_option = WithInsecure | WithEndpoint string
datatype shutdown_fn = NoShutdown | ProviderShutdown

definition tracerName :: string where "tracerName = ''github.com/igorsilveira/pincer''"

text \<open>Creating the exporter and merging the resource with the attributes of the service may fail.\<close>

definition InitTracer :: "(exporter_option list \<Rightarrow> go_error option) \<Rightarrow> (string \<Rightarrow> string \<Rightarrow> go_error option) \<Rightarrow> tracer_config \<Rightarrow> bool \<Rightarrow>
    (go_error + shutdown_fn) \<times> bool" where
  "InitTracer new_exporter merge cfg provider_set =
     (if \<not> tc_enabled cfg then (Inr NoShutdown, provider_set)
      else (let service = (if tc_service cfg = [] then ''pincer'' else tc_service cfg);
                opts = WithInsecure # (if tc_endpoint cfg \<noteq> [] then [WithEndpoint (tc_endpoint cfg)] else [])
            in case new_exporter opts of
                 Some err \<Rightarrow> (Inl (ErrWrap ''telemetry: creating OTLP exporter: '' err), provider_set)
               | None \<Rightarrow> (case merge service (tc_version cfg) of
                   Some err \<Rightarrow> (Inl (ErrWrap ''telemetry: creating resource: '' err), provider_set)
                 | None \<Rightarrow> (Inr ProviderShutdown, True))))"

text \<open>A span of the program's tracer with its attributes, if there are any.\<close>

record span_start =
  ss_tracer :: string
  ss_name :: string
  ss_attrs :: "(string \<times> string) list option"

definition StartSpan :: "string \<Rightarrow> (string \<times> string) list \<Rightarrow> span_start" where
  "StartSpan name attrs = \<lparr>ss_tracer = tracerName, ss_name = name, ss_attrs = (if attrs \<noteq> [] then Some attrs else None)\<rparr>"

subsection \<open>Metrics (\<^verbatim>\<open>metrics.go\<close>)\<close>

text \<open>Names are without the namespace \<open>pincer\<close> that all share, and help texts are left out. Bucket bounds are thousandths; \<^term>\<open>None\<close> stands for the library's default bounds.\<close>

datatype metric_kind = CounterVec | HistogramVec "int list option" | Gauge

record metric =
  me_name :: string
  me_kind :: metric_kind
  me_labels :: "string list"

definition Metrics :: "metric list" where
  "Metrics =
     [\<lparr>me_name = ''requests_total'', me_kind = CounterVec, me_labels = [''type'', ''status'']\<rparr>,
      \<lparr>me_name = ''request_duration_seconds'', me_kind = HistogramVec None, me_labels = [''type'']\<rparr>,
      \<lparr>me_name = ''tokens_used_total'', me_kind = CounterVec, me_labels = [''direction'', ''model'']\<rparr>,
      \<lparr>me_name = ''tool_executions_total'', me_kind = CounterVec, me_labels = [''tool'', ''status'']\<rparr>,
      \<lparr>me_name = ''tool_duration_seconds'', me_kind = HistogramVec (Some [10, 50, 100, 500, 1000, 5000, 10000, 30000, 60000]), me_labels = [''tool'']\<rparr>,
      \<lparr>me_name = ''active_sessions'', me_kind = Gauge, me_labels = []\<rparr>,
      \<lparr>me_name = ''active_websocket_connections'', me_kind = Gauge, me_labels = []\<rparr>,
      \<lparr>me_name = ''errors_total'', me_kind = CounterVec, me_labels = [''component'']\<rparr>,
      \<lparr>me_name = ''llm_requests_total'', me_kind = CounterVec, me_labels = [''provider'', ''model'']\<rparr>,
      \<lparr>me_name = ''llm_latency_seconds'', me_kind = HistogramVec (Some [100, 250, 500, 1000, 2000, 5000, 10000, 30000]), me_labels = [''provider'', ''model'']\<rparr>]"

text \<open>\<^verbatim>\<open>WithLabelValues\<close> of the metric of that name: it panics (\<^term>\<open>None\<close>) on another number of values.\<close>

definition WithLabelValues :: "string \<Rightarrow> string list \<Rightarrow> (string \<times> string) list option" where
  "WithLabelValues name vals =
     (case find (\<lambda>me. me_name me = name) Metrics of
        None \<Rightarrow> None
      | Some me \<Rightarrow> if length vals = length (me_labels me) then Some (zip (me_labels me) vals) else None)"

subsection \<open>Lemmas\<close>

text \<open>A level the program does not know is \<open>info\<close>, and a context without a logger has the default one.\<close>

lemma parseLevel_default: "ToLower s \<notin> {''debug'', ''warn'', ''warning'', ''error''} \<Longrightarrow> parseLevel s = LevelInfo"
  by (simp add: parseLevel_def Let_def)

lemma FromContext_WithLogger [simp]: "FromContext d (WithLogger ctx (Some lg)) = Some lg"
  by (simp add: WithLogger_def)

lemma InitTracer_disabled: "\<not> tc_enabled cfg \<Longrightarrow> InitTracer ne mg cfg b = (Inr NoShutdown, b)"
  by (simp add: InitTracer_def)

lemma InitTracer_error_keeps: "InitTracer ne mg cfg b = (Inl err, b') \<Longrightarrow> b' = b"
  by (auto simp: InitTracer_def Let_def split: if_splits option.splits)

text \<open>Registering succeeds, because the names differ and the bounds of every histogram increase.\<close>

lemma Metrics_registrable:
  "distinct (map me_name Metrics)"
  "\<forall>me \<in> set Metrics. \<forall>bs. me_kind me = HistogramVec (Some bs) \<longrightarrow> sorted_wrt (<) bs"
  by (simp_all add: Metrics_def)

text \<open>No use of a metric in the program panics: each gives as many values as its metric has labels.\<close>

lemma metric_uses_fit:
  "WithLabelValues ''requests_total'' [c, st] \<noteq> None" "WithLabelValues ''request_duration_seconds'' [c] \<noteq> None"
  "WithLabelValues ''errors_total'' [c] \<noteq> None" "WithLabelValues ''llm_requests_total'' [p, m] \<noteq> None"
  "WithLabelValues ''llm_latency_seconds'' [p, m] \<noteq> None" "WithLabelValues ''tokens_used_total'' [d, m] \<noteq> None"
  "WithLabelValues ''tool_duration_seconds'' [t] \<noteq> None" "WithLabelValues ''tool_executions_total'' [t, st] \<noteq> None"
  by (simp_all add: WithLabelValues_def Metrics_def)

end
