(* ===== verification/Command_Line.thy ===== *)
theory Command_Line
  imports Setup_Wizard Audit_Log Message_Split Terminal_Chat
begin

section \<open>The other commands (\<^verbatim>\<open>cmd/pincer\<close>: \<^verbatim>\<open>doctor.go\<close>, \<^verbatim>\<open>status.go\<close>, \<^verbatim>\<open>audit.go\<close>, \<^verbatim>\<open>chat.go\<close>, \<^verbatim>\<open>root.go\<close>)\<close>

text \<open>
  Diagnosis, health, audit listing, chat and version. Each is a function from what it asks of its surroundings
  (variables, files, programs, the gateway's answer, the database) to its error and the lines it prints. The configuration
  that \<^verbatim>\<open>config.Load\<close> has made current is passed as state; a command begins without one.
\<close>

definition pincer_version :: string where "pincer_version = ''1.0.0''"

subsection \<open>Doctor\<close>

record check_result =
  ck_name :: string
  ck_ok :: bool
  ck_detail :: string

record doctor_io =
  di_getenv :: "string \<Rightarrow> string"
  di_stat :: "string \<Rightarrow> (bool \<times> int) option"
  di_read :: "string \<Rightarrow> config_file"
  di_unmarshal :: "string \<Rightarrow> config \<Rightarrow> go_error + config"
  di_LookPath :: "string \<Rightarrow> string option"
  di_os :: string
  di_arch :: string
  di_go :: string
  di_get :: "duration \<Rightarrow> string \<Rightarrow> go_error + int \<times> string"

definition check :: "string \<Rightarrow> bool \<Rightarrow> string \<Rightarrow> check_result" where
  "check name ok detail = \<lparr>ck_name = name, ck_ok = ok, ck_detail = detail\<rparr>"

definition checkDataDir :: "doctor_io \<Rightarrow> check_result" where
  "checkDataDir io =
     (let dir = DataDir (di_getenv io) in
      case di_stat io dir of
        None \<Rightarrow> check ''Data directory'' False (dir @ '' does not exist'')
      | Some (is_dir, bytes) \<Rightarrow>
          if \<not> is_dir then check ''Data directory'' False (dir @ '' is not a directory'') else check ''Data directory'' True dir)"

definition checkConfig :: "doctor_io \<Rightarrow> config option \<Rightarrow> check_result \<times> config option" where
  "checkConfig io cur =
     (let path = DefaultConfigPath (di_getenv io) in
      if di_stat io path = None then (check ''Config file'' False (path @ '' not found (using defaults)''), cur)
      else (case config_Load (di_getenv io) (di_unmarshal io) (di_read io path) cur of
          (Inl err, cur1) \<Rightarrow> (check ''Config file'' False (''parse error: '' @ err_msg err), cur1)
        | (Inr cfg, cur1) \<Rightarrow> (check ''Config file'' True (path @ '' (port '' @ int_to_dec (gw_port (co_gateway cfg)) @ '')''), cur1)))"

definition store_dsn :: "(string \<Rightarrow> string) \<Rightarrow> config \<Rightarrow> string" where
  "store_dsn getenv cfg = (if co_store_dsn cfg = [] then path_Join (DataDir getenv) ''pincer.db'' else co_store_dsn cfg)"

definition checkDatabase :: "doctor_io \<Rightarrow> config option \<Rightarrow> check_result" where
  "checkDatabase io cur =
     (let dsn = store_dsn (di_getenv io) (config_Current (di_getenv io) cur) in
      case di_stat io dsn of
        None \<Rightarrow> check ''Database'' False (dsn @ '' not found (will be created on first start)'')
      | Some (is_dir, bytes) \<Rightarrow> check ''Database'' True (dsn @ '' ('' @ int_to_dec (bytes div 1024) @ '' KB)''))"

definition key_check :: "(string \<Rightarrow> string) \<Rightarrow> string \<Rightarrow> string \<Rightarrow> string \<Rightarrow> check_result" where
  "key_check getenv name var missing =
     (let key = getenv var in
      if key = [] then check name False missing else check name True (''set ('' @ nat_to_dec (length key) @ '' chars)''))"

definition checkAnthropicKey :: "doctor_io \<Rightarrow> check_result" where
  "checkAnthropicKey io = key_check (di_getenv io) ''Anthropic API key'' ''ANTHROPIC_API_KEY'' ''ANTHROPIC_API_KEY not set''"

definition checkOpenAIKey :: "doctor_io \<Rightarrow> check_result" where
  "checkOpenAIKey io = key_check (di_getenv io) ''OpenAI API key'' ''OPENAI_API_KEY'' ''OPENAI_API_KEY not set (optional)''"

definition checkGeminiKey :: "doctor_io \<Rightarrow> check_result" where
  "checkGeminiKey io = key_check (di_getenv io) ''Gemini API key'' ''GEMINI_API_KEY'' ''GEMINI_API_KEY not set (optional)''"

fun first_found :: "(string \<Rightarrow> string option) \<Rightarrow> string list \<Rightarrow> (string \<times> string) option" where
  "first_found look [] = None"
| "first_found look (n # ns) = (case look n of Some path \<Rightarrow> Some (n, path) | None \<Rightarrow> first_found look ns)"

definition checkDocker :: "doctor_io \<Rightarrow> check_result" where
  "checkDocker io =
     (case first_found (di_LookPath io) [''docker'', ''podman'', ''nerdctl''] of
        Some (rt, path) \<Rightarrow> check ''Container runtime'' True (rt @ '' at '' @ path)
      | None \<Rightarrow> check ''Container runtime'' False ''no container runtime found (optional, for container sandbox)'')"

definition checkChrome :: "doctor_io \<Rightarrow> check_result" where
  "checkChrome io =
     (let names = [''google-chrome'', ''chromium-browser'', ''chromium'']
        @ (if di_os io = ''darwin'' then [''/Applications/Google Chrome.app/Contents/MacOS/Google Chrome''] else []) in
      case first_found (di_LookPath io) names of
        Some (p, path) \<Rightarrow> check ''Chrome/Chromium'' True p
      | None \<Rightarrow>
          if di_os io = ''darwin'' \<and> di_stat io ''/Applications/Google Chrome.app'' \<noteq> None
          then check ''Chrome/Chromium'' True ''/Applications/Google Chrome.app''
          else check ''Chrome/Chromium'' False ''not found (optional, for browser tool)'')"

definition health_url :: "config \<Rightarrow> string" where
  "health_url cfg = ''http://127.0.0.1:'' @ int_to_dec (gw_port (co_gateway cfg)) @ ''/healthz''"

definition checkGatewayHealth :: "doctor_io \<Rightarrow> config option \<Rightarrow> check_result" where
  "checkGatewayHealth io cur =
     (let cfg = config_Current (di_getenv io) cur in
      case di_get io (2 * second) (health_url cfg) of
        Inl err \<Rightarrow> check ''Gateway'' False ''not running''
      | Inr (code, status) \<Rightarrow>
          if code = 200 then check ''Gateway'' True (''running at :'' @ int_to_dec (gw_port (co_gateway cfg)))
          else check ''Gateway'' False (''unhealthy (status '' @ int_to_dec code @ '')''))"

text \<open>The checks in their order: the second one makes the configuration current for those after it.\<close>

definition doctor_checks :: "doctor_io \<Rightarrow> config option \<Rightarrow> check_result list" where
  "doctor_checks io cur =
     (let (conf, cur1) = checkConfig io cur in
      [checkDataDir io, conf, checkDatabase io cur1, checkAnthropicKey io, checkOpenAIKey io, checkGeminiKey io,
       checkDocker io, checkChrome io, checkGatewayHealth io cur1])"

definition check_line :: "check_result \<Rightarrow> string" where
  "check_line c = ''  '' @ (if ck_ok c then check_mark else cross_mark) @ '' '' @ ck_name c @ '': '' @ ck_detail c"

fun count_checks :: "check_result list \<Rightarrow> nat \<times> nat" where
  "count_checks [] = (0, 0)"
| "count_checks (c # cs) = (case count_checks cs of (passed, failed) \<Rightarrow> if ck_ok c then (Suc passed, failed) else (passed, Suc failed))"

definition runDoctor :: "doctor_io \<Rightarrow> config option \<Rightarrow> go_error option \<times> string list" where
  "runDoctor io cur =
     (let cs = doctor_checks io cur; (passed, failed) = count_checks cs in
      (if failed > 0 then Some (ErrText (nat_to_dec failed @ '' checks failed'')) else None,
       [''Pincer Doctor v'' @ pincer_version, ''Platform: '' @ di_os io @ ''/'' @ di_arch io, ''Go: '' @ di_go io, []]
       @ map check_line cs @ [[], nat_to_dec passed @ '' passed, '' @ nat_to_dec failed @ '' failed'']))"

subsection \<open>Status, chat and version\<close>

definition runStatus :: "(string \<Rightarrow> string) \<Rightarrow> (duration \<Rightarrow> string \<Rightarrow> go_error + int \<times> string) \<Rightarrow> config option \<Rightarrow> go_error option \<times> string list" where
  "runStatus getenv get cur =
     (None, [case get (3 * second) (health_url (config_Current getenv cur)) of
        Inl err \<Rightarrow> ''status: gateway is not running''
      | Inr (code, status) \<Rightarrow> if code = 200 then ''status: gateway is healthy'' else ''status: gateway returned '' @ status])"

text \<open>The chat command is the terminal chat with this function to send with.\<close>

definition runChat :: "(string \<Rightarrow> string) \<Rightarrow> config option \<Rightarrow> string \<Rightarrow> string \<times> go_error option" where
  "runChat getenv cur =
     RunWithAddress (''http://127.0.0.1:'' @ int_to_dec (gw_port (co_gateway (config_Current getenv cur))))"

definition versionCmd :: "string list" where
  "versionCmd = [''pincer v'' @ pincer_version]"

subsection \<open>Audit\<close>

text \<open>\<^verbatim>\<open>%-15s\<close> fills up to a width in runes.\<close>

function rune_count :: "string \<Rightarrow> nat" where
  "rune_count s = (if s = [] then 0 else Suc (rune_count (drop (decode_size s) s)))"
  by auto
termination
  by (relation "measure length") (simp_all add: decode_size_def)

declare rune_count.simps [simp del]

definition pad_right :: "nat \<Rightarrow> string \<Rightarrow> string" where
  "pad_right w s = s @ replicate (w - rune_count s) (CHR '' '')"

record audit_flags =
  fl_type :: string
  fl_session :: string
  fl_limit :: int
  fl_since :: string

definition default_flags :: audit_flags where
  "default_flags = \<lparr>fl_type = [], fl_session = [], fl_limit = 50, fl_since = []\<rparr>"

record audit_io =
  ai_getenv :: "string \<Rightarrow> string"
  ai_open :: "string \<Rightarrow> go_error + audit_table"
  ai_migrate :: "go_error option"
  ai_parse_date :: "string \<Rightarrow> go_error + timestamp"
  ai_query :: "go_error option"
  ai_format_time :: "timestamp \<Rightarrow> string"

definition flags_filter :: "audit_io \<Rightarrow> audit_flags \<Rightarrow> go_error + audit_filter" where
  "flags_filter io fl =
     (let f = \<lparr>af_type = fl_type fl, af_session = fl_session fl, af_agent = [], af_since = None, af_until = None, af_limit = fl_limit fl\<rparr> in
      if fl_since fl = [] then Inr f
      else (case ai_parse_date io (fl_since fl) of
          Inl err \<Rightarrow> Inl (ErrWrap ''invalid --since format (use YYYY-MM-DD): '' err)
        | Inr t \<Rightarrow> Inr (f\<lparr>af_since := Some t\<rparr>)))"

definition audit_line :: "audit_io \<Rightarrow> audit_entry \<Rightarrow> string" where
  "audit_line io e =
     ''['' @ ai_format_time io (ae_time e) @ ''] '' @ pad_right 15 (ae_type e) @ '' session='' @ pad_right 10 (ae_session e)
     @ '' agent='' @ pad_right 10 (ae_agent e) @ '' actor='' @ pad_right 8 (ae_actor e) @ '' '' @ ae_detail e"

definition runAudit :: "audit_io \<Rightarrow> audit_flags \<Rightarrow> config option \<Rightarrow> go_error option \<times> string list" where
  "runAudit io fl cur =
     (case ai_open io (store_dsn (ai_getenv io) (config_Current (ai_getenv io) cur)) of
        Inl err \<Rightarrow> (Some (ErrWrap ''opening store: '' err), [])
      | Inr table \<Rightarrow> (case ai_migrate io of
          Some err \<Rightarrow> (Some (ErrWrap ''initializing audit logger: '' err), [])
        | None \<Rightarrow> (case flags_filter io fl of
            Inl err \<Rightarrow> (Some err, [])
          | Inr f \<Rightarrow> (case audit_Query (ai_query io) f table of
              Inl err \<Rightarrow> (Some (ErrWrap ''querying audit log: '' err), [])
            | Inr es \<Rightarrow>
                if es = [] then (None, [''No audit entries found.''])
                else (None, map (audit_line io) es @ [[], nat_to_dec (length es) @ '' entries''])))))"

subsection \<open>The program\<close>

text \<open>
  The subcommands that end by themselves or in the terminal chat; start, backup and restore are modelled with their own
  theories. The flag \<open>--config\<close> is accepted before every subcommand.
\<close>

datatype subcommand = CmdVersion | CmdStatus | CmdDoctor | CmdAudit audit_flags | CmdChat | CmdInit

record cli_io =
  cli_doctor :: doctor_io
  cli_audit :: audit_io
  cli_init :: init_io
  cli_files :: file_texts

datatype cli_result = Printed "go_error option" "string list" | Chatting "string \<Rightarrow> string \<times> go_error option"

definition Execute :: "cli_io \<Rightarrow> string \<Rightarrow> subcommand \<Rightarrow> cli_result" where
  "Execute io cfgFile cmd =
     (case cmd of
        CmdVersion \<Rightarrow> Printed None versionCmd
      | CmdStatus \<Rightarrow> (case runStatus (di_getenv (cli_doctor io)) (di_get (cli_doctor io)) None of (err, out) \<Rightarrow> Printed err out)
      | CmdDoctor \<Rightarrow> (case runDoctor (cli_doctor io) None of (err, out) \<Rightarrow> Printed err out)
      | CmdAudit fl \<Rightarrow> (case runAudit (cli_audit io) fl None of (err, out) \<Rightarrow> Printed err out)
      | CmdChat \<Rightarrow> Chatting (runChat (di_getenv (cli_doctor io)) None)
      | CmdInit \<Rightarrow> (case runInit (cli_init io) (cli_files io) of (err, out, fs) \<Rightarrow> Printed err out))"

text \<open>What \<^verbatim>\<open>main\<close> exits with.\<close>

definition exit_code :: "cli_result \<Rightarrow> int" where
  "exit_code r = (case r of Printed (Some err) out \<Rightarrow> 1 | _ \<Rightarrow> 0)"

subsection \<open>Lemmas\<close>

lemma count_checks_length: "count_checks cs = (length (filter ck_ok cs), length (filter (\<lambda>c. \<not> ck_ok c) cs))"
  by (induction cs) auto

text \<open>The doctor runs nine checks, and fails exactly if one of them does, also one it calls optional.\<close>

lemma doctor_counts:
  "length (doctor_checks io cur) = 9 \<and> (fst (runDoctor io cur) = None \<longleftrightarrow> list_all ck_ok (doctor_checks io cur))"
  by (auto simp: runDoctor_def doctor_checks_def count_checks_length Let_def list_all_iff filter_empty_conv split: prod.split if_splits)

lemma doctor_optional_key_fails:
  assumes "di_getenv io ''OPENAI_API_KEY'' = [] \<or> di_getenv io ''GEMINI_API_KEY'' = []"
  shows "exit_code (Execute (c\<lparr>cli_doctor := io\<rparr>) cfg CmdDoctor) = 1"
proof -
  have "\<not> ck_ok (checkOpenAIKey io) \<or> \<not> ck_ok (checkGeminiKey io)"
    using assms unfolding checkOpenAIKey_def checkGeminiKey_def key_check_def check_def Let_def by (elim disjE) simp_all
  moreover have "checkOpenAIKey io \<in> set (doctor_checks io None)" "checkGeminiKey io \<in> set (doctor_checks io None)"
    by (simp_all add: doctor_checks_def split_beta Let_def)
  ultimately have "fst (runDoctor io None) \<noteq> None" using doctor_counts [of io None] by (auto simp: list_all_iff)
  then show ?thesis by (cases "runDoctor io None") (auto simp: Execute_def exit_code_def)
qed

text \<open>
  Status, audit and chat never load a configuration: whatever file is given, they use the default port and database, so a
  gateway on a configured port is reported as not running.
\<close>

lemma status_default_port:
  "Execute io cfgFile CmdStatus = Printed None [case di_get (cli_doctor io) (3 * second) (''http://127.0.0.1:'' @ int_to_dec 18789 @ ''/healthz'') of
      Inl err \<Rightarrow> ''status: gateway is not running''
    | Inr (code, status) \<Rightarrow> if code = 200 then ''status: gateway is healthy'' else ''status: gateway returned '' @ status]"
  by (simp add: Execute_def runStatus_def health_url_def config_Current_def config_Default_def)

definition asked_for :: "audit_flags \<Rightarrow> timestamp option \<Rightarrow> audit_entry \<Rightarrow> bool" where
  "asked_for fl since e \<longleftrightarrow> (fl_type fl = [] \<or> ae_type e = fl_type fl) \<and> (fl_session fl = [] \<or> ae_session e = fl_session fl)
     \<and> (case since of None \<Rightarrow> True | Some t \<Rightarrow> t \<le> ae_time e)"

definition since_date :: "audit_io \<Rightarrow> audit_flags \<Rightarrow> go_error + timestamp option" where
  "since_date io fl = (if fl_since fl = [] then Inr None else map_sum id Some (ai_parse_date io (fl_since fl)))"

lemma flags_filter_asked:
  "flags_filter io fl = Inr f \<Longrightarrow> af_limit f = fl_limit fl \<and> (\<exists>since. since_date io fl = Inr since \<and> audit_matches f = asked_for fl since)"
  by (auto simp: flags_filter_def since_date_def audit_matches_def asked_for_def Let_def fun_eq_iff split: if_splits sum.splits option.split)

lemma flags_filter_error:
  "flags_filter io fl = Inl err \<Longrightarrow> \<exists>e. since_date io fl = Inl e \<and> err = ErrWrap ''invalid --since format (use YYYY-MM-DD): '' e"
  by (auto simp: flags_filter_def since_date_def Let_def split: if_splits sum.splits)

text \<open>
  the audit command lists the audit log. Without failures it prints one line for each of a list of entries of the
  default database, and their number: entries that have the type and session asked for and are not older than the date
  given, newest first, and not more than a positive limit; an entry asked for is missing only if the limit is
  reached by entries that are not older. A date that cannot be read is an error, and nothing is printed.
\<close>

theorem audit_command_lists:
  assumes "ai_open io (store_dsn (ai_getenv io) (config_Default (ai_getenv io))) = Inr table" "ai_migrate io = None" "ai_query io = None"
  shows "case since_date io fl of
      Inl e \<Rightarrow> runAudit io fl None = (Some (ErrWrap ''invalid --since format (use YYYY-MM-DD): '' e), [])
    | Inr since \<Rightarrow> \<exists>es. runAudit io fl None = (None, if es = [] then [''No audit entries found.'']
            else map (audit_line io) es @ [[], nat_to_dec (length es) @ '' entries''])
        \<and> set es \<subseteq> {e \<in> set table. asked_for fl since e} \<and> sorted (map (\<lambda>e. - ae_time e) es)
        \<and> (0 < fl_limit fl \<longrightarrow> int (length es) \<le> fl_limit fl)
        \<and> (\<forall>e \<in> set table. asked_for fl since e \<and> e \<notin> set es \<longrightarrow> (\<forall>e' \<in> set es. ae_time e \<le> ae_time e') \<and> int (length es) = fl_limit fl)"
proof (cases "flags_filter io fl")
  case (Inl err)
  with assms flags_filter_error [OF Inl] show ?thesis by (auto simp: runAudit_def config_Current_def)
next
  case (Inr f)
  obtain es where es: "audit_Query None f table = Inr es" by (simp add: audit_Query_def Let_def)
  from flags_filter_asked [OF Inr] obtain since where f: "af_limit f = fl_limit fl" "since_date io fl = Inr since" "audit_matches f = asked_for fl since"
    by blast
  have "runAudit io fl None = (None, if es = [] then [''No audit entries found.''] else map (audit_line io) es @ [[], nat_to_dec (length es) @ '' entries''])"
    using assms Inr es by (simp add: runAudit_def config_Current_def)
  with audit_Query_exact [OF es, unfolded f] show ?thesis unfolding f(2) by auto
qed

definition demo_audit_io :: audit_io where
  "demo_audit_io = \<lparr>ai_getenv = (\<lambda>v. []), ai_open = (\<lambda>d. Inr demo_audit), ai_migrate = None, ai_parse_date = (\<lambda>s. Inr 5), ai_query = None,
     ai_format_time = int_to_dec\<rparr>"

theorem audit_command_lists_witness:
  "\<exists>es. runAudit demo_audit_io (default_flags\<lparr>fl_since := ''2025-01-01''\<rparr>) None =
      (None, if es = [] then [''No audit entries found.''] else map (audit_line demo_audit_io) es @ [[], nat_to_dec (length es) @ '' entries''])
    \<and> set es \<subseteq> {e \<in> set demo_audit. 5 \<le> ae_time e} \<and> int (length es) \<le> 50"
proof -
  have "ai_open demo_audit_io d = Inr demo_audit" "ai_migrate demo_audit_io = None" "ai_query demo_audit_io = None" for d
    by (simp_all add: demo_audit_io_def)
  from audit_command_lists [OF this, of "default_flags\<lparr>fl_since := ''2025-01-01''\<rparr>"] show ?thesis
    by (auto simp: since_date_def demo_audit_io_def asked_for_def default_flags_def)
qed

end
