(* ===== verification/Spec2Isabelle.thy ===== *)
theory Spec2Isabelle
  imports
    Prelude Config_Defaults Keyed_Store Llm_Types
    Executor Retry_Rotator Verification_Gates Checkpoint_Manager Approval
    Session_Store Memory_Store Audit_Log Tool_Registry Sandbox_Policy
    Chat_Stream Anthropic_Provider OpenAI_Provider Gemini_Provider Context_Builder Compaction
    Agent_Tools Agent_Loop Agent_Steps Agent_Turn Agent_Subturn
    Message_Split Session_Map Channel_Router Channel_Delivery A2A_Tasks A2A_Server
    File_Cache File_Tools Soul Store_Tools Task_Tools Mcp_Manager Go_Regexp Skills Scheduler Credentials
    Config Container_Sandbox Startup Startup_Facts WhatsApp_Format Channel_Adapters Channel_Chats Gateway Channel_Setup Node_Hub Browser_Tool Browser_Facts Backup
    Session_Locks Tool_Definitions Setup_Wizard Terminal_Chat Telemetry Command_Line
begin

text \<open>
  Verification development of Pincer, a self-hosted agent gateway written in Go: users talk to an agent over chat channels, a web
  chat and an agent-to-agent interface; the agent asks a language model, runs the tools the model calls, and keeps
  sessions, memory and an audit log in a database. The theories model the Go code under \<^verbatim>\<open>src/pkg\<close> and the commands
  of \<^verbatim>\<open>src/cmd/pincer\<close>. Names are those of the code, with a prefix
  where two packages share a name.

  \<^bold>\<open>How the parts interact.\<close> \<^verbatim>\<open>runStart\<close> loads the configuration and builds everything else. A message comes in through a
  channel adapter (\<open>Channel_Adapters\<close>) to the router (\<open>Channel_Router\<close>), through the web socket (\<open>Gateway\<close>) or the
  agent-to-agent handler (\<open>A2A_Server\<close>). Each calls \<open>RunTurn\<close> (\<open>Agent_Turn\<close>): the turn builds a context within the token
  budget (\<open>Context_Builder\<close>, \<open>Compaction\<close>), asks the provider with retries (\<open>Agent_Loop\<close>, \<open>Anthropic_Provider\<close> and the
  others), runs the calls of the reply as a batch under a semaphore (\<open>Executor\<close>, \<open>Agent_Steps\<close>), each behind the
  approval gate and the sandbox policy (\<open>Agent_Tools\<close>, \<open>Approval\<close>, \<open>Sandbox_Policy\<close>), stores messages and checkpoints
  (\<open>Session_Store\<close>, \<open>Checkpoint_Manager\<close>), and emits events, which the router or the web socket deliver.

  \<^bold>\<open>Common conventions.\<close> Structs are records, enumerations are datatypes, Go maps are association lists without duplicate
  keys (\<open>gomap\<close> in \<open>Keyed_Store\<close>), since their order matters where the code ranges over them; durations are 64-bit words; errors
  are values of \<open>go_error\<close> in a sum or an option; strings are byte lists. Clocks, new ids, hashes, ciphers, JSON and TOML codecs,
  the network, the file system, started processes and the database's faults are arguments of the definitions that
  use them. Goroutines become explicit events or steps: a batch is a step relation, other requests are an argument that
  acts on the shared store, and what is shared by reference lives on a heap. Logging and metrics are left out.

  \<^bold>\<open>Theories, the code they model, and what their lemmas show.\<close>

  Foundations: \<open>Prelude\<close> (strings, numbers and errors of Go), \<open>Config_Defaults\<close> (\<^verbatim>\<open>config/defaults.go\<close>), \<open>Keyed_Store\<close>
  (maps, and the locale of a keyed store with the laws of look-up after insert and delete), \<open>Go_Regexp\<close> (the part of
  regular expressions that the scanner uses, with a matcher), \<open>Llm_Types\<close> (\<^verbatim>\<open>llm/provider.go\<close>, \<^verbatim>\<open>llm/http.go\<close>).

  The agent, \<^verbatim>\<open>pkg/agent\<close>: \<open>Executor\<close> (\<^verbatim>\<open>executor\<close>: no task runs past its cap, every schedule ends, results match the tasks),
  \<open>Retry_Rotator\<close>, \<open>Verification_Gates\<close>, \<open>Checkpoint_Manager\<close>, \<open>Approval\<close> (an approval is answered by its own response or
  times out), \<open>Context_Builder\<close> (the context is within the budget and every tool result follows its call), \<open>Compaction\<close>
  (either the old messages are replaced by one summary or nothing is lost), \<open>Agent_Tools\<close>, \<open>Agent_Loop\<close>, \<open>Agent_Steps\<close>,
  \<open>Agent_Turn\<close> (\<^verbatim>\<open>agent.go\<close>: a turn ends with exactly one closing event, its requests are well formed, tools run only when
  permitted and approved, results match calls), \<open>Agent_Subturn\<close> (sub-agents get a smaller registry and bounded depth), \<open>Session_Locks\<close> (the mutex of each session: turns of a
  session exclude each other and wait for no other session; the reader of a web socket waits with them).

  Language models, \<^verbatim>\<open>pkg/llm\<close>: \<open>Chat_Stream\<close> (what a client may rely on in the channel of a provider, as locales),
  \<open>Anthropic_Provider\<close>, \<open>OpenAI_Provider\<close> (with Ollama), \<open>Gemini_Provider\<close>: requests, streaming readers that assemble
  tool calls from fragments, full readers, and round trips of calls.

  Data: \<open>Session_Store\<close> (\<^verbatim>\<open>store/store.go\<close>), \<open>Memory_Store\<close> (\<^verbatim>\<open>memory\<close>: immutable keys never change, search is the
  SQL pattern), \<open>Audit_Log\<close> (\<^verbatim>\<open>audit\<close>), \<open>Credentials\<close>, \<open>File_Cache\<close> (\<^verbatim>\<open>filecache\<close>: a read after a refresh is what is on the
  disk), \<open>Soul\<close>, \<open>Skills\<close> (\<^verbatim>\<open>skills\<close>: installed skills are signed and scanned), \<open>Backup\<close> (\<^verbatim>\<open>backup.go\<close>: a restore writes only inside
  the data directory and brings every file of a backup back).

  Tools, \<^verbatim>\<open>pkg/agent/tools\<close> and \<^verbatim>\<open>pkg/mcp\<close>: \<open>Tool_Registry\<close>, \<open>Sandbox_Policy\<close> (\<^verbatim>\<open>sandbox/policy.go, process.go\<close>: the path check is
  containment of components), \<open>Container_Sandbox\<close>, \<open>File_Tools\<close> (file, shell and HTTP), \<open>Store_Tools\<close>, \<open>Task_Tools\<close>,
  \<open>Tool_Definitions\<close> (the schemas told to the model, and that they match the handlers), \<open>Mcp_Manager\<close>, \<open>Browser_Tool\<close> and \<open>Browser_Facts\<close> (\<^verbatim>\<open>browser.go\<close>: each live browser belongs to one session, and every
  screenshot is handed over once).

  Channels and servers: \<open>Message_Split\<close> (chunks are short and join to the text), \<open>Session_Map\<close>, \<open>Channel_Router\<close> and
  \<open>Channel_Delivery\<close> (\<^verbatim>\<open>gateway/router.go\<close>), \<open>WhatsApp_Format\<close>, \<open>Channel_Adapters\<close> and \<open>Channel_Chats\<close> (the five adapters under one
  locale: replies reach their chat, buttons answer their request), \<open>Gateway\<close> (\<^verbatim>\<open>gateway.go\<close>, \<^verbatim>\<open>websocket.go\<close>,
  \<^verbatim>\<open>webchat.go\<close>), \<open>A2A_Tasks\<close> and \<open>A2A_Server\<close> (\<^verbatim>\<open>pkg/a2a\<close>), \<open>Scheduler\<close> (jobs and webhooks), \<open>Node_Hub\<close> (\<^verbatim>\<open>nodes\<close>).

  The program: \<open>Config\<close> (\<^verbatim>\<open>config.go\<close>), \<open>Startup\<close> (\<^verbatim>\<open>start.go\<close>), \<open>Startup_Facts\<close> (the tools, the policy and the approval mode of
  the started program are those configured, with the exceptions it states), \<open>Channel_Setup\<close> (which channels run, and
  the gateway that joins the parts), \<open>Telemetry\<close> (\<^verbatim>\<open>pkg/telemetry\<close>: what is set up for logs, traces and metrics).

  The commands: \<open>Setup_Wizard\<close> (\<^verbatim>\<open>init.go\<close>: a configuration it writes loads, creates its provider and starts its channels),
  \<open>Command_Line\<close> (\<^verbatim>\<open>doctor.go, status.go, audit.go, chat.go, root.go\<close>), \<open>Terminal_Chat\<close> (\<^verbatim>\<open>pkg/tui\<close>: a
  conversation in order, under every run of the event loop), \<open>Backup\<close>.

  \<^bold>\<open>Interfaces.\<close> A locale stands where one part relies on another: keyed stores, providers read by a client, session naming, chat
  adapters, operations that keep the task store, the web chat's clients or the browser table. Each is interpreted on
  the definitions of the model, and the properties use its facts through the interpretation.

  \<^bold>\<open>Bounds and fuel.\<close> Loops of the code are structural recursions over the data they consume (events, chunks, lines, looks at the
  clock) or over a counter of the code (iterations of a turn, attempts). The other recursions have termination proofs; no
  definition runs on fuel. Limits are the constants of the code (\<open>Config_Defaults\<close>, chunk sizes, buffer sizes, file sizes).

  \<^bold>\<open>Findings.\<close> Where the code does not do what it seems to mean, a lemma of the theory shows the behaviour, for example
  \<open>started_sessions_unreachable\<close>, \<open>started_a2a_open\<close>, \<open>a2a_sender_chooses_session\<close>, \<open>idle_cleanup_escapes\<close>, \<open>markdown_header_code_lost\<close>.

  \<^bold>\<open>Not modelled.\<close> The page of the web chat (one constant of HTML and JavaScript), colours of printed lines, parsing of the command
  line, the log lines, spans and samples of the parts, and the insides of libraries: the database engine, HTTP and chat clients, the
  router of requests, the browser, prompts, ciphers, codecs. A turn runs from its lock to its end as one operation;
  \<open>Session_Locks\<close> shows that this is sound for the turns of one session, and turns of other sessions enter a turn only as the
  argument that acts on the shared store.
\<close>

end
